(* ===== verification/Prelude.thy ===== *)
theory Prelude
  imports Main "HOL-Library.Word"
begin

unbundle bit_operations_syntax

text \<open>
  What every theory of the development shares: the C integer types as words, the error
  codes of ESP-IDF, the outcome of a C statement (a new state, or the reason why the call
  never returns), the sequencing of statements, and the lemmas on bytes and lists that the
  component theories use through the collections declared here.
\<close>

section \<open>Types\<close>

type_synonym u8 = "8 word"
type_synonym u16 = "16 word"
type_synonym u32 = "32 word"
type_synonym u64 = "64 word"

text \<open>The error codes that the modelled functions return (\<open>esp_err.h\<close>).\<close>

datatype esp_err_t =
    ESP_OK
  | ESP_FAIL
  | ESP_ERR_NO_MEM
  | ESP_ERR_INVALID_ARG
  | ESP_ERR_INVALID_STATE
  | ESP_ERR_NOT_FOUND
  | ESP_ERR_NOT_SUPPORTED
  | ESP_ERR_TIMEOUT

text \<open>
  Why a call does not return: a failed \<open>assert\<close> (which aborts the firmware), or a wait for
  something that has not come: a semaphore nobody gives, or a polling loop that has used up
  the poll budget of the environment. \<open>Out_Of_Bounds\<close> is a write outside an array, after which C promises nothing.
\<close>

datatype halt = Assert_Failed | Blocked | Out_Of_Bounds

type_synonym 'a outcome = "halt + 'a"

section \<open>Statements and their sequencing\<close>

text \<open>
  A C statement without a value is a function from states to outcomes. A block is the list
  of its statements: they run in order and the first that does not return ends the block.
\<close>

primrec seq :: "('s \<Rightarrow> 's outcome) list \<Rightarrow> 's \<Rightarrow> 's outcome" where
  "seq [] s = Inr s"
| "seq (c # cs) s = (case c s of Inl h \<Rightarrow> Inl h | Inr s' \<Rightarrow> seq cs s')"

text \<open>A call whose value is used by the rest of the block.\<close>

definition bindr :: "'a outcome \<Rightarrow> ('a \<Rightarrow> 'b outcome) \<Rightarrow> 'b outcome" where
  "bindr r f = (case r of Inl h \<Rightarrow> Inl h | Inr a \<Rightarrow> f a)"

definition skip :: "'s \<Rightarrow> 's outcome" where
  "skip s = Inr s"

definition assign :: "('s \<Rightarrow> 's) \<Rightarrow> 's \<Rightarrow> 's outcome" where
  "assign f s = Inr (f s)"

lemma bindr_simps [simp]:
  "bindr (Inl h) f = Inl h"
  "bindr (Inr a) f = f a"
  by (simp_all add: bindr_def)

lemma skip_Inr [simp]: "skip s = Inr s"
  by (simp add: skip_def)

lemma assign_Inr [simp]: "assign f s = Inr (f s)"
  by (simp add: assign_def)

lemma bindr_eq_Inr: "bindr r f = Inr b \<longleftrightarrow> (\<exists>a. r = Inr a \<and> f a = Inr b)"
  by (cases r) auto

lemma seq_append: "seq (xs @ ys) s = bindr (seq xs s) (seq ys)"
  by (induction xs arbitrary: s) (auto split: sum.splits)

lemma seq_singleton [simp]: "seq [c] s = c s"
  by (cases "c s") auto

text \<open>
  The rule for blocks: an invariant relation that is reflexive and transitive and that every
  statement of the block establishes holds between the start and the end of the block.
\<close>

lemma seq_relation:
  assumes refl: "\<And>s. R s s"
    and trans: "\<And>s t u. R s t \<Longrightarrow> R t u \<Longrightarrow> R s u"
    and step: "\<And>c s. c \<in> set cs \<Longrightarrow> Q s \<Longrightarrow> \<exists>s'. c s = Inr s' \<and> Q s' \<and> R s s'"
    and start: "Q s"
  shows "\<exists>s'. seq cs s = Inr s' \<and> Q s' \<and> R s s'"
  using step start
proof (induction cs arbitrary: s)
  case Nil
  then show ?case using refl by simp
next
  case (Cons c cs)
  obtain s1 where s1: "c s = Inr s1" "Q s1" "R s s1"
    using Cons.prems by (meson list.set_intros(1))
  obtain s2 where s2: "seq cs s1 = Inr s2" "Q s2" "R s1 s2"
    using Cons.IH [of s1] Cons.prems(1) s1(2) by (meson list.set_intros(2))
  from s1 s2 show ?case by (auto intro: trans)
qed

section \<open>Statements and their effects\<close>

text \<open>
  A statement achieves an effect when, from every state that is ready for it, it returns in a state that
  is related to the first by the effect. Each layer of the drivers has its own effects: operations
  of the panel, changes of the canvas, marks on the display. What they share is the interface \<open>effects\<close>:
  effects compose, and keep the state ready. A block then achieves the composition of the effects of
  its statements.
\<close>

definition achieves :: "('s \<Rightarrow> bool) \<Rightarrow> ('e \<Rightarrow> 's \<Rightarrow> 's \<Rightarrow> bool) \<Rightarrow> 'e \<Rightarrow> ('s \<Rightarrow> 's outcome) \<Rightarrow> bool" where
  "achieves ready effect e c \<longleftrightarrow> (\<forall>s. ready s \<longrightarrow> (\<exists>s'. c s = Inr s' \<and> effect e s s'))"

lemma achievesI: "(\<And>s. ready s \<Longrightarrow> \<exists>s'. c s = Inr s' \<and> effect e s s') \<Longrightarrow> achieves ready effect e c"
  by (simp add: achieves_def)

lemma achievesD: "achieves ready effect e c \<Longrightarrow> ready s \<Longrightarrow> \<exists>s'. c s = Inr s' \<and> effect e s s'"
  by (simp add: achieves_def)

locale effects =
  fixes ready :: "'s \<Rightarrow> bool"
    and effect :: "'e \<Rightarrow> 's \<Rightarrow> 's \<Rightarrow> bool"
    and nothing :: 'e
    and andthen :: "'e \<Rightarrow> 'e \<Rightarrow> 'e"
  assumes effect_refl: "ready s \<Longrightarrow> effect nothing s s"
    and effect_trans: "effect e s t \<Longrightarrow> effect f t u \<Longrightarrow> effect (andthen e f) s u"
    and effect_ready: "effect e s t \<Longrightarrow> ready t"
begin

lemma achieves_skip: "achieves ready effect nothing skip"
  by (simp add: achieves_def effect_refl)

lemma achieves_Nil: "achieves ready effect nothing (seq [])"
  by (simp add: achieves_def effect_refl)

lemma achieves_Cons:
  assumes "achieves ready effect e c" and "achieves ready effect f (seq cs)"
  shows "achieves ready effect (andthen e f) (seq (c # cs))"
proof (rule achievesI)
  fix s
  assume "ready s"
  with assms(1) obtain s1 where s1: "c s = Inr s1" "effect e s s1"
    by (blast dest: achievesD)
  with assms(2) obtain s2 where "seq cs s1 = Inr s2" "effect f s1 s2"
    by (blast dest: achievesD effect_ready)
  with s1 show "\<exists>s'. seq (c # cs) s = Inr s' \<and> effect (andthen e f) s s'"
    by (auto intro: effect_trans)
qed

lemma achieves_map:
  assumes "\<And>x. x \<in> set xs \<Longrightarrow> achieves ready effect (e x) (c x)"
  shows "achieves ready effect (foldr (\<lambda>x. andthen (e x)) xs nothing) (seq (map c xs))"
  using assms by (induction xs) (auto intro: achieves_Nil achieves_Cons simp del: seq.simps)

end

section \<open>Bytes of a word\<close>

text \<open>
  C converts an integer to \<open>uint8_t\<close> by keeping the low eight bits. The driver sends a 16 bit
  value as its low byte and its high byte; the panel puts them together again.
\<close>

definition lo8 :: "u16 \<Rightarrow> u8" where
  "lo8 x = ucast x"

definition hi8 :: "u16 \<Rightarrow> u8" where
  "hi8 x = ucast (drop_bit 8 x)"

definition word16 :: "u8 \<Rightarrow> u8 \<Rightarrow> u16" where
  "word16 lo hi = ucast lo OR push_bit 8 (ucast hi)"

lemma word16_lo_hi [simp]: "word16 (lo8 x) (hi8 x) = x"
proof (rule bit_word_eqI)
  fix n
  assume "n < LENGTH(16)"
  then show "bit (word16 (lo8 x) (hi8 x)) n = bit x n"
    by (auto simp: word16_def lo8_def hi8_def bit_simps)
qed

lemma bit_255 [simp]: "bit (255 :: int) n \<longleftrightarrow> n < 8"
proof -
  have "bit (mask 8 :: int) n \<longleftrightarrow> n < 8"
    by (simp only: bit_mask_iff) simp
  then show ?thesis by (simp add: mask_eq_exp_minus_1)
qed

lemma lo8_mask [simp]: "ucast (x AND 0xFF) = lo8 x"
  by (rule bit_word_eqI) (auto simp: lo8_def bit_simps)

section \<open>Single bits of a word\<close>

text \<open>
  \<open>__builtin_ffs\<close>: one plus the index of the least significant set bit, 0 for the word 0.
\<close>

definition ffs :: "u32 \<Rightarrow> nat" where
  "ffs x = (case List.find (bit x) [0..<32] of None \<Rightarrow> 0 | Some i \<Rightarrow> Suc i)"

lemma find_upt_Some_iff:
  "List.find P [0..<n] = Some i \<longleftrightarrow> i < n \<and> P i \<and> (\<forall>j < i. \<not> P j)"
  by (auto simp: find_Some_iff)

lemma ffs_Suc_iff: "ffs x = Suc i \<longleftrightarrow> bit x i \<and> (\<forall>j < i. \<not> bit x j)"
proof -
  have "bit x i \<Longrightarrow> i < 32"
    using bit_imp_le_length [of x i] by simp
  then show ?thesis
    by (auto simp: ffs_def find_upt_Some_iff find_None_iff split: option.splits)
      (metis linorder_neqE_nat)
qed

lemma ffs_0_iff: "ffs x = 0 \<longleftrightarrow> x = 0"
proof
  assume "ffs x = 0"
  then have "List.find (bit x) [0..<32] = None"
    by (simp add: ffs_def split: option.splits)
  then have "\<forall>i < 32. \<not> bit x i"
    by (auto simp: find_None_iff)
  then show "x = 0"
    by (intro bit_word_eqI) simp
next
  assume "x = 0"
  then show "ffs x = 0"
    by (auto simp: ffs_def find_Some_iff split: option.splits)
qed

lemma ffs_bit: "x \<noteq> 0 \<Longrightarrow> bit x (ffs x - 1) \<and> (\<forall>j < ffs x - 1. \<not> bit x j)"
  using ffs_Suc_iff [of x "ffs x - 1"] ffs_0_iff [of x] by (cases "ffs x") auto

section \<open>Collections\<close>

text \<open>
  \<open>bus_sem\<close>: what one call does on a working bus, used as rewrite rules by the block lemmas.
  \<open>frame\<close>: fields that an operation leaves alone.
\<close>

named_theorems bus_sem "the effect of driver calls on a working bus"
named_theorems frame "fields that an operation leaves alone"

end
