(* ===== verification/Machine.thy ===== *)
theory Machine
  imports Prelude
begin

text \<open>
  The machine that the firmware runs on, as far as the modelled code can see it: memory, the
  DMA-capable heap, and the log of everything that crossed a pin. The chips around the
  microcontroller and the parts of ESP-IDF that are not modelled are the record \<open>env\<close>:
  functions of the log so far, so that what they answer may depend on the whole history. No
  operation writes the field \<open>environ\<close>; a theorem that holds for every state holds for every
  environment.
\<close>

section \<open>Transactions on the wire\<close>

text \<open>
  \<open>spi_transaction_t\<close> (\<open>spi_master.h\<close>). A pointer into the descriptor itself is kept symbolic,
  every other pointer is an address. The two unions hold either four bytes of data or a
  pointer. The last three fields are those of \<open>spi_transaction_ext_t\<close>.
\<close>

datatype bufptr = Null_ptr | Tx_data_ptr | Rx_data_ptr | Addr u32

datatype tr_union = Bytes "u8 list" | Buffer bufptr

record spi_transaction =
  tr_flags :: u32
  tr_cmd :: u16
  tr_addr :: u64
  tr_length :: u32
  tr_rxlength :: u32
  tr_override_freq_hz :: u32
  tr_tx :: tr_union
  tr_rx :: tr_union
  tr_command_bits :: u8
  tr_address_bits :: u8
  tr_dummy_bits :: u8

text \<open>\<open>spi_hal_trans_config_t\<close>: the phases of one transfer as they are set up in the hardware.\<close>

record spi_hal_trans_config =
  hal_cmd :: u16
  hal_cmd_bits :: u8
  hal_addr_bits :: u8
  hal_addr :: u64
  hal_dummy_bits :: u8
  hal_tx_bitlen :: u32
  hal_rx_bitlen :: u32
  hal_send_buffer :: u32
  hal_rcv_buffer :: u32
  hal_cs_keep_active :: bool
  hal_data_lines :: nat
  hal_addr_lines :: nat
  hal_cmd_lines :: nat

section \<open>Log, environment, state\<close>

datatype event =
    Xfer spi_hal_trans_config "u8 list" "u8 list"  \<comment> \<open>a transfer: bytes sent, bytes received\<close>
  | Delay u32                                       \<comment> \<open>\<open>vTaskDelay\<close> of so many ticks\<close>
  | Pin_Read u32 bool                               \<comment> \<open>the level read from a pin\<close>
  | Put string                                      \<comment> \<open>a line printed\<close>

text \<open>
  \<open>wire\<close>: the bytes the slave clocks back during a transfer, \<open>None\<close> when the peripheral never
  raises its done bit; \<open>dma_alloc\<close>: the address of a DMA-capable allocation, 0 when the heap
  is exhausted; \<open>pin_level\<close>: the level of an input pin; \<open>poll_budget\<close>: how often an endless
  polling loop is run before the model gives up; \<open>step_result\<close>: what a named initialisation
  step outside the model returns; \<open>clk_src_hz\<close>: the frequency of the SPI clock source; \<open>stray_int\<close>: the
  integer that \<open>snprintf\<close> reads for a \<open>%d\<close> whose argument is not an \<open>int\<close>, which C leaves undefined.
\<close>

record env =
  wire :: "event list \<Rightarrow> spi_hal_trans_config \<Rightarrow> u8 list \<Rightarrow> u8 list option"
  dma_alloc :: "event list \<Rightarrow> u32 list \<Rightarrow> u32 \<Rightarrow> u32"
  pin_level :: "event list \<Rightarrow> u32 \<Rightarrow> bool"
  poll_budget :: nat
  step_result :: "string \<Rightarrow> esp_err_t"
  clk_src_hz :: int
  stray_int :: "event list \<Rightarrow> int"

text \<open>
  \<open>log\<close> holds the newest event first. \<open>frame_base\<close> is the address of the transaction
  descriptor in the frame of the caller; \<open>heap_live\<close> lists the live DMA allocations.
\<close>

record machine =
  environ :: env
  log :: "event list"
  mem :: "u32 \<Rightarrow> u8"
  frame_base :: u32
  heap_live :: "u32 list"

definition emit :: "event \<Rightarrow> 'a machine_scheme \<Rightarrow> 'a machine_scheme" where
  "emit x s = s\<lparr>log := x # log s\<rparr>"

text \<open>The bytes of memory from an address on, and a block written there.\<close>

definition load :: "(u32 \<Rightarrow> u8) \<Rightarrow> u32 \<Rightarrow> nat \<Rightarrow> u8 list" where
  "load m a n = map (\<lambda>i. m (a + of_nat i)) [0..<n]"

primrec store :: "(u32 \<Rightarrow> u8) \<Rightarrow> u32 \<Rightarrow> u8 list \<Rightarrow> (u32 \<Rightarrow> u8)" where
  "store m a [] = m"
| "store m a (b # bs) = store (m(a := b)) (a + 1) bs"

lemma length_load [simp]: "length (load m a n) = n"
  by (simp add: load_def)

lemma load_0 [simp]: "load m a 0 = []"
  by (simp add: load_def)

lemma load_append: "load m a (i + j) = load m a i @ load m (a + of_nat i) j"
  by (induction j) (simp_all add: load_def algebra_simps)

lemma environ_emit [frame, simp]: "environ (emit x s) = environ s"
  and log_emit [simp]: "log (emit x s) = x # log s"
  and mem_emit [frame, simp]: "mem (emit x s) = mem s"
  and frame_base_emit [frame, simp]: "frame_base (emit x s) = frame_base s"
  and heap_live_emit [frame, simp]: "heap_live (emit x s) = heap_live s"
  by (simp_all add: emit_def)

section \<open>Pin numbers\<close>

text \<open>
  The pins of the ESP32-S3 (\<open>soc/esp32s3/include/soc/soc_caps.h\<close>): 0 to 48 without 22 to 25;
  every valid pin can be an output.
\<close>

definition SOC_GPIO_VALID_GPIO_MASK :: u64 where
  "SOC_GPIO_VALID_GPIO_MASK = 0x1FFFFFFFFFFFF AND NOT 0x3C00000"

definition SOC_GPIO_VALID_OUTPUT_GPIO_MASK :: u64 where
  "SOC_GPIO_VALID_OUTPUT_GPIO_MASK = SOC_GPIO_VALID_GPIO_MASK"

definition GPIO_IS_VALID_GPIO :: "int \<Rightarrow> bool" where
  "GPIO_IS_VALID_GPIO n \<longleftrightarrow> 0 \<le> n \<and> push_bit (nat n) 1 AND SOC_GPIO_VALID_GPIO_MASK \<noteq> 0"

definition GPIO_IS_VALID_OUTPUT_GPIO :: "int \<Rightarrow> bool" where
  "GPIO_IS_VALID_OUTPUT_GPIO n \<longleftrightarrow>
     0 \<le> n \<and> push_bit (nat n) 1 AND SOC_GPIO_VALID_OUTPUT_GPIO_MASK \<noteq> 0"

section \<open>Delays of the scheduler\<close>

text \<open>
  \<open>pdMS_TO_TICKS\<close> (\<open>projdefs.h\<close>) and \<open>portTICK_PERIOD_MS\<close> (\<open>portmacro.h\<close>) at the default
  tick rate of \<open>freertos/Kconfig\<close>; the product wraps at 32 bits as \<open>TickType_t\<close> does.
\<close>

definition configTICK_RATE_HZ :: u32 where
  "configTICK_RATE_HZ = 100"

definition pdMS_TO_TICKS :: "u32 \<Rightarrow> u32" where
  "pdMS_TO_TICKS ms = (ms * configTICK_RATE_HZ) div 1000"

definition portTICK_PERIOD_MS :: u32 where
  "portTICK_PERIOD_MS = 1000 div configTICK_RATE_HZ"

definition vTaskDelay :: "u32 \<Rightarrow> 'a machine_scheme \<Rightarrow> 'a machine_scheme outcome" where
  "vTaskDelay ticks s = Inr (emit (Delay ticks) s)"

definition puts :: "string \<Rightarrow> 'a machine_scheme \<Rightarrow> 'a machine_scheme outcome" where
  "puts msg s = Inr (emit (Put msg) s)"

end
