(* ===== verification/Spi_Bus_Lock.thy ===== *)
theory Spi_Bus_Lock
  imports Machine
begin

text \<open>
  The arbitration of the SPI bus between device tasks and the background (ISR),
  \<open>esp_hw_support/spi_bus_lock.c\<close>. The status word and its masks are kept as a 32 bit word
  and every \<open>_core\<close> function is one definition. Each call is one atomic step; the binary
  semaphore of a device is a bit of the state. A device lock is named by its slot number.
\<close>

section \<open>The status word\<close>

definition MAX_DEV_NUM :: nat where "MAX_DEV_NUM = 10"
definition LOCK_SHIFT :: nat where "LOCK_SHIFT = 20"
definition PENDING_SHIFT :: nat where "PENDING_SHIFT = 10"
definition REQ_SHIFT :: nat where "REQ_SHIFT = 0"

definition WEAK_BG_FLAG :: u32 where
  "WEAK_BG_FLAG = push_bit 30 1"

definition BIT1_MASK :: "nat \<Rightarrow> nat \<Rightarrow> u32" where
  "BIT1_MASK high low = push_bit high (- 1) XOR push_bit low (- 1)"

definition REQ_MASK :: u32 where
  "REQ_MASK = BIT1_MASK (REQ_SHIFT + MAX_DEV_NUM) REQ_SHIFT"

definition PEND_MASK :: u32 where
  "PEND_MASK = BIT1_MASK (PENDING_SHIFT + MAX_DEV_NUM) PENDING_SHIFT"

definition BG_MASK :: u32 where
  "BG_MASK = BIT1_MASK (REQ_SHIFT + MAX_DEV_NUM * 2) REQ_SHIFT"

definition LOCK_MASK :: u32 where
  "LOCK_MASK = BIT1_MASK (LOCK_SHIFT + MAX_DEV_NUM) LOCK_SHIFT"

definition DEV_MASK :: "nat \<Rightarrow> u32" where
  "DEV_MASK d = push_bit LOCK_SHIFT (push_bit d 1) OR push_bit PENDING_SHIFT (push_bit d 1)
     OR push_bit REQ_SHIFT (push_bit d 1)"

definition mask_get_id :: "u32 \<Rightarrow> int" where
  "mask_get_id m = int (ffs m) - 1"

text \<open>The bits of the masks.\<close>

lemma bit_BIT1_MASK: "bit (BIT1_MASK h l) n \<longleftrightarrow> n < 32 \<and> (h \<le> n) \<noteq> (l \<le> n)"
  by (auto simp: BIT1_MASK_def bit_simps)

lemma bit_REQ_MASK: "bit REQ_MASK n \<longleftrightarrow> n < 10"
  and bit_PEND_MASK: "bit PEND_MASK n \<longleftrightarrow> 10 \<le> n \<and> n < 20"
  and bit_BG_MASK: "bit BG_MASK n \<longleftrightarrow> n < 20"
  and bit_LOCK_MASK: "bit LOCK_MASK n \<longleftrightarrow> 20 \<le> n \<and> n < 30"
  and bit_DEV_MASK: "bit (DEV_MASK d) n \<longleftrightarrow> n < 32 \<and> (n = 20 + d \<or> n = 10 + d \<or> n = d)"
  by (auto simp: REQ_MASK_def PEND_MASK_def BG_MASK_def LOCK_MASK_def
      DEV_MASK_def bit_BIT1_MASK MAX_DEV_NUM_def LOCK_SHIFT_def PENDING_SHIFT_def REQ_SHIFT_def
      bit_simps)

lemma bit_WEAK_BG_FLAG: "bit WEAK_BG_FLAG n \<longleftrightarrow> n = 30"
proof -
  have "bit (push_bit 30 1 :: u32) n \<longleftrightarrow> 30 \<le> n \<and> n < 32 \<and> n - 30 = 0"
    by (simp only: bit_push_bit_iff possible_bit_word bit_1_iff) auto
  then show ?thesis by (auto simp only: WEAK_BG_FLAG_def) 
qed

lemmas bit_masks = bit_REQ_MASK bit_PEND_MASK bit_BG_MASK bit_LOCK_MASK bit_WEAK_BG_FLAG
  bit_DEV_MASK bit_simps

section \<open>The lock and its operations\<close>

text \<open>
  A slot of the table of child locks is empty, occupied by the placeholder 1 while a device is
  being registered, or a device lock. \<open>bg_enabled\<close> is the interrupt that runs the background,
  \<open>semphr\<close> the binary semaphore of each device.
\<close>

datatype dev_slot = Slot_Null | Slot_Reserved | Slot_Dev

record spi_bus_lock =
  status :: u32
  acquiring_dev :: "nat option"
  acq_dev_bg_active :: bool
  in_isr :: bool
  dev :: "nat \<Rightarrow> dev_slot"
  bg_enabled :: bool
  last_dev :: "nat option"
  periph_cs_num :: nat
  semphr :: "nat \<Rightarrow> bool"

definition DEV_NUM_MAX :: nat where "DEV_NUM_MAX = 6"

definition lock_status_fetch_set :: "u32 \<Rightarrow> spi_bus_lock \<Rightarrow> u32 \<times> spi_bus_lock" where
  "lock_status_fetch_set m l = (status l, l\<lparr>status := status l OR m\<rparr>)"

definition lock_status_fetch_clear :: "u32 \<Rightarrow> spi_bus_lock \<Rightarrow> u32 \<times> spi_bus_lock" where
  "lock_status_fetch_clear m l = (status l, l\<lparr>status := status l AND NOT m\<rparr>)"

definition lock_status_clear :: "u32 \<Rightarrow> spi_bus_lock \<Rightarrow> u32 \<times> spi_bus_lock" where
  "lock_status_clear m l =
     (let (state, l') = lock_status_fetch_clear m l in (state AND NOT m, l'))"

definition resume_dev :: "nat \<Rightarrow> spi_bus_lock \<Rightarrow> spi_bus_lock" where
  "resume_dev d l = l\<lparr>semphr := (semphr l)(d := True)\<rparr>"

definition bg_enable :: "spi_bus_lock \<Rightarrow> spi_bus_lock" where
  "bg_enable l = l\<lparr>bg_enabled := True\<rparr>"

definition bg_disable :: "spi_bus_lock \<Rightarrow> spi_bus_lock" where
  "bg_disable l = l\<lparr>bg_enabled := False\<rparr>"

definition req_core :: "nat \<Rightarrow> spi_bus_lock \<Rightarrow> spi_bus_lock" where
  "req_core d l =
     (if acquiring_dev l = Some d then
        (let (st, l') = lock_status_fetch_set (DEV_MASK d AND REQ_MASK)
                          (l\<lparr>acq_dev_bg_active := True\<rparr>)
         in if st AND (DEV_MASK d AND BG_MASK) = 0 then bg_enable l' else l')
      else
        (let (st, l') = lock_status_fetch_set (DEV_MASK d AND REQ_MASK) l
         in if st = 0 then bg_enable l' else l'))"

definition acquire_core :: "nat \<Rightarrow> spi_bus_lock \<Rightarrow> bool \<times> spi_bus_lock" where
  "acquire_core d l =
     (let (st, l') = lock_status_fetch_set (DEV_MASK d AND LOCK_MASK) l
      in if st AND (BG_MASK OR LOCK_MASK) = 0 then
           (let l'' = l'\<lparr>acquiring_dev := Some d\<rparr>
            in (True, if st AND WEAK_BG_FLAG \<noteq> 0 then bg_disable l'' else l''))
         else (False, l'))"

text \<open>
  \<open>schedule_core\<close> returns whether the background yields and the desired device.
\<close>

definition schedule_core ::
  "u32 \<Rightarrow> spi_bus_lock \<Rightarrow> bool \<times> nat option \<times> spi_bus_lock" where
  "schedule_core st l =
     (let lock_bits = drop_bit LOCK_SHIFT (st AND LOCK_MASK);
          bg = st AND BG_MASK;
          bg_bits = (drop_bit REQ_SHIFT bg OR drop_bit PENDING_SHIFT bg) AND REQ_MASK
      in if lock_bits \<noteq> 0 then
           (let dev_id = nat (mask_get_id lock_bits);
                bg_yield = (bg_bits AND DEV_MASK dev_id = 0)
            in (bg_yield, Some dev_id,
                l\<lparr>acquiring_dev := Some dev_id, acq_dev_bg_active := \<not> bg_yield\<rparr>))
         else if bg_bits \<noteq> 0 then
           (False, Some (nat (mask_get_id bg_bits)),
            l\<lparr>acq_dev_bg_active := False, acquiring_dev := None\<rparr>)
         else (True, None, l\<lparr>acq_dev_bg_active := False, acquiring_dev := None\<rparr>))"

definition acquire_end_core :: "nat \<Rightarrow> spi_bus_lock \<Rightarrow> spi_bus_lock" where
  "acquire_end_core d l =
     (let (st, l1) = lock_status_clear (DEV_MASK d AND LOCK_MASK) l;
          (bg_yield, desired, l2) = schedule_core st l1
      in if \<not> bg_yield then bg_enable l2
         else case desired of
                Some e \<Rightarrow> resume_dev e l2
              | None \<Rightarrow> if st AND WEAK_BG_FLAG \<noteq> 0 then bg_enable l2 else l2)"

definition update_pend_core :: "u32 \<Rightarrow> spi_bus_lock \<Rightarrow> spi_bus_lock" where
  "update_pend_core st l =
     (let active_req_bits = st AND REQ_MASK;
          pending_mask = push_bit (PENDING_SHIFT - REQ_SHIFT) active_req_bits;
          l1 = snd (lock_status_fetch_set pending_mask l)
      in snd (lock_status_fetch_clear active_req_bits l1))"

definition clear_pend_core :: "nat \<Rightarrow> spi_bus_lock \<Rightarrow> bool \<times> spi_bus_lock" where
  "clear_pend_core d l =
     (let (st, l1) = lock_status_clear (DEV_MASK d AND PEND_MASK) l
      in if acquiring_dev l1 = Some d then
           (let finished = (st AND (DEV_MASK d AND REQ_MASK) = 0)
            in (finished, if finished then l1\<lparr>acq_dev_bg_active := False\<rparr> else l1))
         else (st = 0, l1))"

definition bg_entry_core :: "spi_bus_lock \<Rightarrow> bool \<times> spi_bus_lock" where
  "bg_entry_core l =
     (let l1 = bg_disable l
      in if in_isr l1 then (False, l1) else (True, l1\<lparr>in_isr := True\<rparr>))"

definition bg_exit_core :: "bool \<Rightarrow> spi_bus_lock \<Rightarrow> bool \<times> spi_bus_lock" where
  "bg_exit_core wip l =
     (if wip then (True, bg_enable l)
      else
        (let (ret, l1) =
           (case acquiring_dev l of
              Some d \<Rightarrow> if status l AND (DEV_MASK d AND BG_MASK) \<noteq> 0 then (False, l)
                        else (True, resume_dev d l)
            | None \<Rightarrow> (status l AND BG_MASK = 0, l))
         in (ret, if ret then l1\<lparr>in_isr := False\<rparr> else l1)))"

section \<open>Registration of devices\<close>

definition spi_bus_init_lock :: "nat \<Rightarrow> spi_bus_lock" where
  "spi_bus_init_lock cs_num =
     \<lparr>status = 0, acquiring_dev = None, acq_dev_bg_active = False, in_isr = False,
      dev = (\<lambda>_. Slot_Null), bg_enabled = False, last_dev = None, periph_cs_num = cs_num,
      semphr = (\<lambda>_. False)\<rparr>"

definition try_acquire_free_dev :: "bool \<Rightarrow> spi_bus_lock \<Rightarrow> int \<times> spi_bus_lock" where
  "try_acquire_free_dev cs_required l =
     (let slots = (if cs_required then [0..<periph_cs_num l] else rev [0..<DEV_NUM_MAX])
      in case List.find (\<lambda>i. dev l i = Slot_Null) slots of
           None \<Rightarrow> (-1, l)
         | Some i \<Rightarrow> (int i, l\<lparr>dev := (dev l)(i := Slot_Reserved)\<rparr>))"

text \<open>
  The two allocations of \<open>spi_bus_lock_register_dev\<close> are parameters: whether the memory for
  the device lock and its semaphore was there.
\<close>

definition spi_bus_lock_register_dev ::
  "bool \<Rightarrow> bool \<Rightarrow> bool \<Rightarrow> spi_bus_lock \<Rightarrow> esp_err_t \<times> int \<times> spi_bus_lock" where
  "spi_bus_lock_register_dev mem_ok sem_ok cs_required l =
     (let (i, l1) = try_acquire_free_dev cs_required l
      in if i = -1 then (ESP_ERR_NOT_SUPPORTED, -1, l1)
         else if \<not> mem_ok then (ESP_ERR_NO_MEM, -1, l1)
         else if \<not> sem_ok then
           (ESP_ERR_NO_MEM, -1, l1\<lparr>dev := (dev l1)(nat i := Slot_Null)\<rparr>)
         else (ESP_OK, i, l1\<lparr>dev := (dev l1)(nat i := Slot_Dev),
                            semphr := (semphr l1)(nat i := False)\<rparr>))"

definition spi_bus_lock_unregister_dev :: "nat \<Rightarrow> spi_bus_lock \<Rightarrow> spi_bus_lock" where
  "spi_bus_lock_unregister_dev d l =
     (let l1 = (if last_dev l = Some d then l\<lparr>last_dev := None\<rparr> else l)
      in l1\<lparr>dev := (dev l1)(d := Slot_Null)\<rparr>)"

definition spi_bus_lock_touch :: "nat \<Rightarrow> spi_bus_lock \<Rightarrow> bool \<times> spi_bus_lock" where
  "spi_bus_lock_touch d l = (last_dev l \<noteq> Some d, l\<lparr>last_dev := Some d\<rparr>)"

section \<open>Acquiring and releasing\<close>

text \<open>
  \<open>acquire_begin\<close> is \<open>spi_bus_lock_acquire_start\<close> up to the point where it may block;
  \<open>acquire_wake\<close> is the return of \<open>dev_wait\<close> once the semaphore has been given.
\<close>

definition portMAX_DELAY :: u32 where "portMAX_DELAY = 0xffffffff"

definition acquire_begin :: "nat \<Rightarrow> spi_bus_lock \<Rightarrow> bool \<times> spi_bus_lock" where
  "acquire_begin d l = acquire_core d (l\<lparr>semphr := (semphr l)(d := False)\<rparr>)"

definition acquire_wake :: "nat \<Rightarrow> spi_bus_lock \<Rightarrow> spi_bus_lock option" where
  "acquire_wake d l =
     (if semphr l d then Some (l\<lparr>semphr := (semphr l)(d := False)\<rparr>) else None)"

definition spi_bus_lock_acquire_start ::
  "nat \<Rightarrow> u32 \<Rightarrow> spi_bus_lock \<Rightarrow> (esp_err_t \<times> spi_bus_lock) outcome" where
  "spi_bus_lock_acquire_start d wait l =
     (if wait \<noteq> portMAX_DELAY then Inr (ESP_ERR_INVALID_ARG, l)
      else
        (let (got, l1) = acquire_begin d l
         in if got then Inr (ESP_OK, l1)
            else case acquire_wake d l1 of
                   Some l2 \<Rightarrow> Inr (ESP_OK, l2)
                 | None \<Rightarrow> Inl Blocked))"

definition spi_bus_lock_acquire_end :: "nat \<Rightarrow> spi_bus_lock \<Rightarrow> esp_err_t \<times> spi_bus_lock" where
  "spi_bus_lock_acquire_end d l =
     (if acquiring_dev l = Some d then (ESP_OK, acquire_end_core d l)
      else (ESP_ERR_INVALID_STATE, l))"

definition spi_bus_lock_wait_bg_done ::
  "nat \<Rightarrow> u32 \<Rightarrow> spi_bus_lock \<Rightarrow> (esp_err_t \<times> spi_bus_lock) outcome" where
  "spi_bus_lock_wait_bg_done d wait l =
     (if acquiring_dev l \<noteq> Some d then Inr (ESP_ERR_INVALID_STATE, l)
      else if wait \<noteq> portMAX_DELAY then Inr (ESP_ERR_INVALID_ARG, l)
      else if status l AND (DEV_MASK d AND BG_MASK) \<noteq> 0 then Inl Blocked
      else Inr (ESP_OK, l))"

definition spi_bus_lock_bg_check_dev_acq ::
  "spi_bus_lock \<Rightarrow> bool \<times> nat option \<times> spi_bus_lock" where
  "spi_bus_lock_bg_check_dev_acq l = schedule_core (status l) l"

definition spi_bus_lock_bg_check_dev_req :: "nat \<Rightarrow> spi_bus_lock \<Rightarrow> bool \<times> spi_bus_lock" where
  "spi_bus_lock_bg_check_dev_req d l =
     (let dev_status = status l AND DEV_MASK d
      in if dev_status AND REQ_MASK \<noteq> 0 then (True, update_pend_core (status l) l)
         else (dev_status AND PEND_MASK \<noteq> 0, l))"

definition spi_bus_lock_bg_req_exist :: "spi_bus_lock \<Rightarrow> bool" where
  "spi_bus_lock_bg_req_exist l \<longleftrightarrow> status l AND BG_MASK \<noteq> 0"

section \<open>Device tasks contending for the bus\<close>

text \<open>
  The devices of a bus that run polling transactions only: a task is idle, blocked in
  \<open>dev_wait\<close>, or the owner of the bus between \<open>spi_bus_lock_acquire_start\<close> and
  \<open>spi_bus_lock_acquire_end\<close>.
\<close>

datatype task_pc = Task_Idle | Task_Waiting | Task_Owner

record bus_system =
  lk :: spi_bus_lock
  pc :: "nat \<Rightarrow> task_pc"

inductive bus_step :: "bus_system \<Rightarrow> bus_system \<Rightarrow> bool" where
  take: "d < MAX_DEV_NUM \<Longrightarrow> pc s d = Task_Idle \<Longrightarrow> acquire_begin d (lk s) = (True, l) \<Longrightarrow>
    bus_step s (s\<lparr>lk := l, pc := (pc s)(d := Task_Owner)\<rparr>)"
| block: "d < MAX_DEV_NUM \<Longrightarrow> pc s d = Task_Idle \<Longrightarrow> acquire_begin d (lk s) = (False, l) \<Longrightarrow>
    bus_step s (s\<lparr>lk := l, pc := (pc s)(d := Task_Waiting)\<rparr>)"
| wake: "pc s d = Task_Waiting \<Longrightarrow> acquire_wake d (lk s) = Some l \<Longrightarrow>
    bus_step s (s\<lparr>lk := l, pc := (pc s)(d := Task_Owner)\<rparr>)"
| release: "pc s d = Task_Owner \<Longrightarrow> spi_bus_lock_acquire_end d (lk s) = (ESP_OK, l) \<Longrightarrow>
    bus_step s (s\<lparr>lk := l, pc := (pc s)(d := Task_Idle)\<rparr>)"

definition bus_start :: "nat \<Rightarrow> bus_system" where
  "bus_start cs = \<lparr>lk = spi_bus_init_lock cs, pc = (\<lambda>_. Task_Idle)\<rparr>"

inductive bus_reachable :: "nat \<Rightarrow> bus_system \<Rightarrow> bool" for cs where
  start: "bus_reachable cs (bus_start cs)"
| step: "bus_reachable cs s \<Longrightarrow> bus_step s t \<Longrightarrow> bus_reachable cs t"

inductive_cases bus_stepE: "bus_step s t"

text \<open>
  The invariant: the LOCK bits name the tasks that are not idle and no other bit is set; the
  acquiring device is the owner, or the waiting task whose semaphore has been given, and
  there is one as soon as some task is not idle.
\<close>

definition chosen :: "bus_system \<Rightarrow> nat \<Rightarrow> bool" where
  "chosen s d \<longleftrightarrow> pc s d = Task_Owner \<or> pc s d = Task_Waiting \<and> semphr (lk s) d"

definition bus_inv :: "bus_system \<Rightarrow> bool" where
  "bus_inv s \<longleftrightarrow>
     (\<forall>n < 32. bit (status (lk s)) n \<longleftrightarrow> 20 \<le> n \<and> n < 30 \<and> pc s (n - 20) \<noteq> Task_Idle) \<and>
     (\<forall>d. 10 \<le> d \<longrightarrow> pc s d = Task_Idle) \<and>
     (\<forall>d. chosen s d \<longleftrightarrow> acquiring_dev (lk s) = Some d) \<and>
     ((\<exists>d. pc s d \<noteq> Task_Idle) \<longrightarrow> acquiring_dev (lk s) \<noteq> None)"

lemma bus_invD:
  assumes "bus_inv s"
  shows bus_inv_bit: "bit (status (lk s)) n \<longleftrightarrow> 20 \<le> n \<and> n < 30 \<and> pc s (n - 20) \<noteq> Task_Idle"
    and bus_inv_idle: "10 \<le> d \<Longrightarrow> pc s d = Task_Idle"
    and bus_inv_chosen: "chosen s d \<longleftrightarrow> acquiring_dev (lk s) = Some d"
    and bus_inv_some: "pc s d \<noteq> Task_Idle \<Longrightarrow> acquiring_dev (lk s) \<noteq> None"
proof -
  show "bit (status (lk s)) n \<longleftrightarrow> 20 \<le> n \<and> n < 30 \<and> pc s (n - 20) \<noteq> Task_Idle"
    using assms bit_imp_le_length [of "status (lk s)" n]
    by (cases "n < 32") (auto simp: bus_inv_def)
qed (use assms in \<open>auto simp: bus_inv_def\<close>)

lemma bus_invI:
  assumes "\<And>n. bit (status (lk s)) n \<longleftrightarrow> 20 \<le> n \<and> n < 30 \<and> pc s (n - 20) \<noteq> Task_Idle"
    and "\<And>d. 10 \<le> d \<Longrightarrow> pc s d = Task_Idle"
    and "\<And>d. chosen s d \<longleftrightarrow> acquiring_dev (lk s) = Some d"
    and "\<And>d. pc s d \<noteq> Task_Idle \<Longrightarrow> acquiring_dev (lk s) \<noteq> None"
  shows "bus_inv s"
  unfolding bus_inv_def using assms by blast

lemma bus_inv_start: "bus_inv (bus_start cs)"
  by (simp add: bus_inv_def bus_start_def spi_bus_init_lock_def chosen_def)

lemma bit_set_lock: "d < 10 \<Longrightarrow> bit (st OR (DEV_MASK d AND LOCK_MASK)) n \<longleftrightarrow> bit st n \<or> n = 20 + d"
  by (auto simp: bit_masks)

lemma bit_clear_lock:
  "d < 10 \<Longrightarrow> bit (st AND NOT (DEV_MASK d AND LOCK_MASK)) n \<longleftrightarrow> bit st n \<and> n \<noteq> 20 + d"
  using bit_imp_le_length [of st n] by (auto simp: bit_masks)

lemma bus_idle_status:
  assumes inv: "bus_inv s"
  shows "status (lk s) AND (BG_MASK OR LOCK_MASK) = 0 \<longleftrightarrow> (\<forall>d. pc s d = Task_Idle)"
    (is "?z \<longleftrightarrow> ?i")
proof
  assume z: ?z
  show ?i
  proof
    fix d
    have "\<not> bit (status (lk s) AND (BG_MASK OR LOCK_MASK)) (20 + d)"
      using z by simp
    then show "pc s d = Task_Idle"
      using bus_inv_bit [OF inv, of "20 + d"] bus_inv_idle [OF inv, of d]
      by (auto simp: bit_masks not_le)
  qed
next
  assume i: ?i
  show ?z
    by (rule bit_word_eqI) (use i in \<open>auto simp: bit_masks bus_inv_bit [OF inv]\<close>)
qed

lemma bus_no_weak: "bus_inv s \<Longrightarrow> status (lk s) AND WEAK_BG_FLAG = 0"
  by (rule bit_word_eqI) (auto simp: bit_masks bus_inv_bit)

lemma acquire_begin_free:
  "bus_inv s \<Longrightarrow> \<forall>d. pc s d = Task_Idle \<Longrightarrow>
   acquire_begin d (lk s) =
     (True, (lk s)\<lparr>semphr := (semphr (lk s))(d := False),
        status := status (lk s) OR (DEV_MASK d AND LOCK_MASK), acquiring_dev := Some d\<rparr>)"
  using bus_idle_status [of s] bus_no_weak [of s]
  by (simp add: acquire_begin_def acquire_core_def lock_status_fetch_set_def)

lemma acquire_begin_taken:
  "bus_inv s \<Longrightarrow> pc s e \<noteq> Task_Idle \<Longrightarrow>
   acquire_begin d (lk s) =
     (False, (lk s)\<lparr>semphr := (semphr (lk s))(d := False),
        status := status (lk s) OR (DEV_MASK d AND LOCK_MASK)\<rparr>)"
  using bus_idle_status [of s]
  by (auto simp: acquire_begin_def acquire_core_def lock_status_fetch_set_def)

lemma bus_inv_take:
  assumes inv: "bus_inv s" and d: "d < MAX_DEV_NUM"
    and got: "acquire_begin d (lk s) = (True, l)"
  shows "bus_inv (s\<lparr>lk := l, pc := (pc s)(d := Task_Owner)\<rparr>)"
proof -
  have idle: "\<forall>d. pc s d = Task_Idle"
    using got acquire_begin_taken [OF inv] by fastforce
  have d10: "d < 10" using d by (simp add: MAX_DEV_NUM_def)
  show ?thesis
    using got acquire_begin_free [OF inv idle, of d] idle d10
    by (auto simp: bus_inv_def chosen_def bit_set_lock bus_inv_bit [OF inv])
qed

lemma bus_inv_block:
  assumes inv: "bus_inv s" and d: "d < MAX_DEV_NUM" and idle: "pc s d = Task_Idle"
    and got: "acquire_begin d (lk s) = (False, l)"
  shows "bus_inv (s\<lparr>lk := l, pc := (pc s)(d := Task_Waiting)\<rparr>)"
proof -
  obtain e where e: "pc s e \<noteq> Task_Idle"
    using got acquire_begin_free [OF inv] by fastforce
  have d10: "d < 10" using d by (simp add: MAX_DEV_NUM_def)
  have nd: "acquiring_dev (lk s) \<noteq> Some d"
    using bus_inv_chosen [OF inv, of d] idle by (simp add: chosen_def)
  have l: "l = (lk s)\<lparr>semphr := (semphr (lk s))(d := False),
        status := status (lk s) OR (DEV_MASK d AND LOCK_MASK)\<rparr>"
    using got acquire_begin_taken [OF inv e, of d] by simp
  let ?t = "s\<lparr>lk := l, pc := (pc s)(d := Task_Waiting)\<rparr>"
  have ch: "chosen ?t x \<longleftrightarrow> chosen s x" for x
    using idle by (auto simp: chosen_def l)
  show ?thesis
  proof (rule bus_invI)
    show "chosen ?t x \<longleftrightarrow> acquiring_dev (lk ?t) = Some x" for x
      using ch bus_inv_chosen [OF inv] by (simp add: l)
    show "acquiring_dev (lk ?t) \<noteq> None" for x
      using bus_inv_some [OF inv e] by (simp add: l)
    show "10 \<le> x \<Longrightarrow> pc ?t x = Task_Idle" for x
      using bus_inv_idle [OF inv] d10 by auto
  qed (use d10 in \<open>auto simp: l bit_set_lock bus_inv_bit [OF inv]\<close>)
qed

lemma bus_inv_wake:
  assumes inv: "bus_inv s" and w: "pc s d = Task_Waiting"
    and got: "acquire_wake d (lk s) = Some l"
  shows "bus_inv (s\<lparr>lk := l, pc := (pc s)(d := Task_Owner)\<rparr>)"
proof -
  have sem: "semphr (lk s) d" and l: "l = (lk s)\<lparr>semphr := (semphr (lk s))(d := False)\<rparr>"
    using got by (auto simp: acquire_wake_def split: if_splits)
  have acq: "acquiring_dev (lk s) = Some d"
    using bus_inv_chosen [OF inv, of d] w sem by (simp add: chosen_def)
  have d10: "d < 10" using bus_inv_idle [OF inv, of d] w by (cases "10 \<le> d") auto
  let ?t = "s\<lparr>lk := l, pc := (pc s)(d := Task_Owner)\<rparr>"
  have ch: "chosen ?t x \<longleftrightarrow> chosen s x" for x
    using w sem by (auto simp: chosen_def l)
  show ?thesis
  proof (rule bus_invI)
    show "chosen ?t x \<longleftrightarrow> acquiring_dev (lk ?t) = Some x" for x
      using ch bus_inv_chosen [OF inv] by (simp add: l)
    show "10 \<le> x \<Longrightarrow> pc ?t x = Task_Idle" for x
      using bus_inv_idle [OF inv] d10 by auto
  qed (use w acq in \<open>auto simp: l bus_inv_bit [OF inv]\<close>)
qed

text \<open>
  What a release does: the LOCK bit goes away; if other tasks wait, the lowest of them becomes
  the acquiring device and its semaphore is given, otherwise the bus is free.
\<close>

definition next_waiter :: "bus_system \<Rightarrow> nat \<Rightarrow> nat option" where
  "next_waiter s d = List.find (\<lambda>i. i \<noteq> d \<and> pc s i \<noteq> Task_Idle) [0..<MAX_DEV_NUM]"

lemma lock_bits_after_release:
  assumes inv: "bus_inv s" and d: "d < 10"
  defines "st \<equiv> status (lk s) AND NOT (DEV_MASK d AND LOCK_MASK)"
  shows "bit (drop_bit LOCK_SHIFT (st AND LOCK_MASK)) n \<longleftrightarrow> n < 10 \<and> n \<noteq> d \<and> pc s n \<noteq> Task_Idle"
    and "st AND BG_MASK = 0" and "st AND WEAK_BG_FLAG = 0"
proof -
  show "bit (drop_bit LOCK_SHIFT (st AND LOCK_MASK)) n \<longleftrightarrow> n < 10 \<and> n \<noteq> d \<and> pc s n \<noteq> Task_Idle"
    using d by (auto simp: st_def bit_masks LOCK_SHIFT_def bit_clear_lock bus_inv_bit [OF inv])
  show "st AND BG_MASK = 0"
    by (rule bit_word_eqI) (auto simp: st_def bit_masks bus_inv_bit [OF inv])
  show "st AND WEAK_BG_FLAG = 0"
    by (rule bit_word_eqI) (auto simp: st_def bit_masks bus_inv_bit [OF inv])
qed

lemma schedule_core_no_bg:
  assumes "st AND BG_MASK = 0"
  shows "schedule_core st l =
    (case ffs (drop_bit LOCK_SHIFT (st AND LOCK_MASK)) of
       0 \<Rightarrow> (True, None, l\<lparr>acq_dev_bg_active := False, acquiring_dev := None\<rparr>)
     | Suc e \<Rightarrow> (True, Some e, l\<lparr>acquiring_dev := Some e, acq_dev_bg_active := False\<rparr>))"
proof -
  define lb where "lb = drop_bit LOCK_SHIFT (st AND LOCK_MASK)"
  have "lb \<noteq> 0 \<longleftrightarrow> (\<exists>e. ffs lb = Suc e)"
    using ffs_0_iff [of lb] by (cases "ffs lb") auto
  then show ?thesis
    unfolding schedule_core_def Let_def assms lb_def [symmetric]
    by (auto simp: mask_get_id_def split: nat.splits)
qed

lemma acquire_end_core_waiter:
  assumes inv: "bus_inv s" and d: "d < 10"
  defines "st \<equiv> status (lk s) AND NOT (DEV_MASK d AND LOCK_MASK)"
  shows "acquire_end_core d (lk s) =
    (case next_waiter s d of
       Some e \<Rightarrow> (lk s)\<lparr>status := st, acquiring_dev := Some e, acq_dev_bg_active := False,
                    semphr := (semphr (lk s))(e := True)\<rparr>
     | None \<Rightarrow> (lk s)\<lparr>status := st, acquiring_dev := None, acq_dev_bg_active := False\<rparr>)"
proof -
  define lb where "lb = drop_bit LOCK_SHIFT (st AND LOCK_MASK)"
  note facts = lock_bits_after_release [OF inv d, folded st_def]
  have lb: "bit lb n \<longleftrightarrow> n < 10 \<and> n \<noteq> d \<and> pc s n \<noteq> Task_Idle" for n
    unfolding lb_def by (rule facts(1))
  have "(ffs lb = 0) = (next_waiter s d = None)"
    unfolding ffs_0_iff next_waiter_def find_None_iff MAX_DEV_NUM_def
    by (auto simp: lb intro!: bit_word_eqI) (metis bit_0_eq bot_apply bot_bool_def lb)
  moreover have "ffs lb = Suc e \<Longrightarrow> next_waiter s d = Some e" for e
    unfolding ffs_Suc_iff next_waiter_def find_upt_Some_iff MAX_DEV_NUM_def
    by (auto simp: lb)
  ultimately show ?thesis
    unfolding acquire_end_core_def lock_status_clear_def lock_status_fetch_clear_def Let_def
      prod.case st_def [symmetric] schedule_core_no_bg [OF facts(2)] lb_def [symmetric]
    using facts(3)
    by (cases "ffs lb") (auto simp: resume_dev_def split: option.splits)
qed

lemma bus_inv_release:
  assumes inv: "bus_inv s" and own: "pc s d = Task_Owner"
    and got: "spi_bus_lock_acquire_end d (lk s) = (ESP_OK, l)"
  shows "bus_inv (s\<lparr>lk := l, pc := (pc s)(d := Task_Idle)\<rparr>)"
proof -
  let ?t = "s\<lparr>lk := l, pc := (pc s)(d := Task_Idle)\<rparr>"
  have d10: "d < 10" using bus_inv_idle [OF inv, of d] own by (cases "10 \<le> d") auto
  have acq: "acquiring_dev (lk s) = Some d"
    using bus_inv_chosen [OF inv, of d] own by (simp add: chosen_def)
  then have l: "l = acquire_end_core d (lk s)"
    using got by (simp add: spi_bus_lock_acquire_end_def)
  note l = l [unfolded acquire_end_core_waiter [OF inv d10]]
  have others: "x \<noteq> d \<Longrightarrow> \<not> chosen s x" for x
    using acq bus_inv_chosen [OF inv, of x] by simp
  have bits: "bit (status l) n \<longleftrightarrow> bit (status (lk s)) n \<and> n \<noteq> 20 + d" for n
    using d10 bit_imp_le_length [of "status (lk s)" n]
    by (auto simp: l bit_masks split: option.splits)
  have w: "next_waiter s d = Some e \<longleftrightarrow>
      e < 10 \<and> e \<noteq> d \<and> pc s e \<noteq> Task_Idle \<and> (\<forall>j < e. j = d \<or> pc s j = Task_Idle)" for e
    by (auto simp: next_waiter_def find_upt_Some_iff MAX_DEV_NUM_def)
  show ?thesis
  proof (rule bus_invI)
    show "chosen ?t x \<longleftrightarrow> acquiring_dev (lk ?t) = Some x" for x
      using others w by (cases "pc s x") (auto simp: chosen_def l split: option.splits)
    show "pc ?t x \<noteq> Task_Idle \<Longrightarrow> acquiring_dev (lk ?t) \<noteq> None" for x
      using bus_inv_idle [OF inv, of x]
      by (fastforce simp: l next_waiter_def find_None_iff MAX_DEV_NUM_def not_le
          split: option.splits if_splits)
  qed (use bus_inv_idle [OF inv] in \<open>auto simp: bits bus_inv_bit [OF inv]\<close>)
qed

lemma bus_step_inv: "bus_step s t \<Longrightarrow> bus_inv s \<Longrightarrow> bus_inv t"
  by (erule bus_stepE)
    (auto intro: bus_inv_take bus_inv_block bus_inv_wake bus_inv_release)

lemma bus_reachable_inv: "bus_reachable cs s \<Longrightarrow> bus_inv s"
  by (induction rule: bus_reachable.induct) (auto intro: bus_inv_start bus_step_inv)

section \<open>Properties\<close>

text \<open>
  Whatever the interleaving of the device tasks, at most one of them owns the bus at any
  time.
\<close>

theorem bus_mutual_exclusion:
  assumes "bus_reachable cs s" and "pc s d = Task_Owner" and "pc s e = Task_Owner"
  shows "d = e"
  using bus_inv_chosen [OF bus_reachable_inv [OF assms(1)], of d]
    bus_inv_chosen [OF bus_reachable_inv [OF assms(1)], of e] assms(2,3)
  by (simp add: chosen_def)

text \<open>A run in which device 1 takes the bus and device 0 queues up behind it.\<close>

definition contended :: bus_system where
  "contended =
     (let s0 = bus_start 3; l1 = snd (acquire_begin 1 (lk s0));
          s1 = s0\<lparr>lk := l1, pc := (pc s0)(1 := Task_Owner)\<rparr>; l2 = snd (acquire_begin 0 l1)
      in s1\<lparr>lk := l2, pc := (pc s1)(0 := Task_Waiting)\<rparr>)"

lemma contended_reachable: "bus_reachable 3 contended"
proof -
  let ?s0 = "bus_start 3"
  define s1 where "s1 = ?s0\<lparr>lk := snd (acquire_begin 1 (lk ?s0)), pc := (pc ?s0)(1 := Task_Owner)\<rparr>"
  have idle: "\<forall>d. pc ?s0 d = Task_Idle" by (simp add: bus_start_def)
  have "acquire_begin 1 (lk ?s0) = (True, lk s1)"
    by (simp add: s1_def acquire_begin_free [OF bus_inv_start idle])
  then have "bus_step ?s0 s1"
    using bus_step.take [of 1 ?s0 "lk s1"] idle by (simp add: s1_def MAX_DEV_NUM_def)
  then have r1: "bus_reachable 3 s1"
    by (rule bus_reachable.step [OF bus_reachable.start])
  have "pc s1 1 \<noteq> Task_Idle" and p0: "pc s1 0 = Task_Idle"
    by (simp_all add: s1_def bus_start_def)
  from acquire_begin_taken [OF bus_reachable_inv [OF r1] this(1), of 0]
  have "acquire_begin 0 (lk s1) = (False, snd (acquire_begin 0 (lk s1)))"
    by simp
  from bus_step.block [OF _ p0 this] show ?thesis
    by (auto simp: contended_def Let_def s1_def MAX_DEV_NUM_def intro: bus_reachable.step [OF r1 [unfolded s1_def]])
qed

lemma contended_pc: "pc contended = (\<lambda>_. Task_Idle)(1 := Task_Owner, 0 := Task_Waiting)"
  by (simp add: contended_def Let_def bus_start_def)

theorem bus_mutual_exclusion_witness: "{d. pc contended d = Task_Owner} = {1}"
proof -
  have one: "pc contended 1 = Task_Owner" by (simp add: contended_pc)
  then show ?thesis
    using bus_mutual_exclusion [OF contended_reachable _ one] by blast
qed

text \<open>
  No wake-up is lost: while some task waits for the bus, either a task owns it and can
  release it, or the semaphore of a waiting task has been given, so that the system can always
  take a step.
\<close>

theorem bus_no_lost_wakeup:
  assumes reach: "bus_reachable cs s" and wait: "pc s d = Task_Waiting"
  shows "\<exists>e t. bus_step s t \<and>
    (pc s e = Task_Owner \<and> pc t e = Task_Idle \<or> pc s e = Task_Waiting \<and> pc t e = Task_Owner)"
proof -
  note inv = bus_reachable_inv [OF reach]
  obtain e where e: "acquiring_dev (lk s) = Some e"
    using bus_inv_some [OF inv, of d] wait by auto
  then have "chosen s e" using bus_inv_chosen [OF inv] by simp
  then show ?thesis
  proof (cases "pc s e")
    case Task_Owner
    then have "bus_step s (s\<lparr>lk := acquire_end_core e (lk s), pc := (pc s)(e := Task_Idle)\<rparr>)"
      using e by (intro bus_step.release) (auto simp: spi_bus_lock_acquire_end_def)
    then show ?thesis using Task_Owner by fastforce
  next
    case Task_Waiting
    with \<open>chosen s e\<close> obtain l where "acquire_wake e (lk s) = Some l"
      by (auto simp: chosen_def acquire_wake_def)
    from bus_step.wake [OF Task_Waiting this] show ?thesis
      using Task_Waiting by fastforce
  qed (use \<open>chosen s e\<close> in \<open>auto simp: chosen_def\<close>)
qed

theorem bus_no_lost_wakeup_witness:
  "\<exists>e t. bus_step contended t \<and> (pc contended e = Task_Owner \<and> pc t e = Task_Idle \<or>
     pc contended e = Task_Waiting \<and> pc t e = Task_Owner)"
  by (rule bus_no_lost_wakeup [OF contended_reachable, of 0]) (simp add: contended_pc)

text \<open>
  Releasing the bus hands it to the waiting device with the lowest slot number, whose
  semaphore is given.
\<close>

theorem bus_release_handoff:
  assumes "bus_reachable cs s" and "pc s d = Task_Owner"
  shows "\<exists>l. spi_bus_lock_acquire_end d (lk s) = (ESP_OK, l) \<and>
    acquiring_dev l = next_waiter s d \<and> (\<forall>e. next_waiter s d = Some e \<longrightarrow> semphr l e)"
proof -
  note inv = bus_reachable_inv [OF assms(1)]
  have "d < 10" using bus_inv_idle [OF inv, of d] assms(2) by (cases "10 \<le> d") auto
  moreover have "acquiring_dev (lk s) = Some d"
    using bus_inv_chosen [OF inv, of d] assms(2) by (simp add: chosen_def)
  ultimately show ?thesis
    by (auto simp: spi_bus_lock_acquire_end_def acquire_end_core_waiter [OF inv]
        split: option.splits)
qed

theorem bus_release_handoff_witness:
  "\<exists>l. spi_bus_lock_acquire_end 1 (lk contended) = (ESP_OK, l) \<and> acquiring_dev l = Some 0 \<and> semphr l 0"
proof -
  have w: "next_waiter contended 1 = Some 0"
    by (simp add: next_waiter_def find_upt_Some_iff contended_pc MAX_DEV_NUM_def)
  have "pc contended 1 = Task_Owner" by (simp add: contended_pc)
  from bus_release_handoff [OF contended_reachable this] show ?thesis
    unfolding w by auto
qed

text \<open>
  A device that is alone on the bus never blocks: what the SPI driver of the display relies on.
\<close>

lemma acquire_start_free:
  "status l = 0 \<Longrightarrow> spi_bus_lock_acquire_start d portMAX_DELAY l =
     Inr (ESP_OK, l\<lparr>semphr := (semphr l)(d := False), status := DEV_MASK d AND LOCK_MASK,
                     acquiring_dev := Some d\<rparr>)"
  by (simp add: spi_bus_lock_acquire_start_def acquire_begin_def acquire_core_def
      lock_status_fetch_set_def)

text \<open>
  When the memory for a device lock is exhausted, the registration fails and the slot it had
  reserved stays occupied by the placeholder.
\<close>

theorem register_dev_no_mem_keeps_slot:
  assumes "try_acquire_free_dev cs l = (int i, l1)"
  shows "\<exists>l'. spi_bus_lock_register_dev False sem_ok cs l = (ESP_ERR_NO_MEM, -1, l') \<and>
    dev l i = Slot_Null \<and> dev l' i = Slot_Reserved \<and>
    (\<forall>cs2. fst (try_acquire_free_dev cs2 l') \<noteq> int i)"
  using assms
  by (auto simp: spi_bus_lock_register_dev_def try_acquire_free_dev_def find_Some_iff
      split: option.splits)

theorem register_dev_no_mem_keeps_slot_witness:
  "\<exists>l'. spi_bus_lock_register_dev False True True (spi_bus_init_lock 3) = (ESP_ERR_NO_MEM, -1, l')
     \<and> dev l' 0 = Slot_Reserved"
proof -
  have "List.find (\<lambda>i. dev (spi_bus_init_lock 3) i = Slot_Null) [0..<3] = Some 0"
    by (simp add: find_upt_Some_iff spi_bus_init_lock_def)
  then have "try_acquire_free_dev True (spi_bus_init_lock 3) =
      (int 0, (spi_bus_init_lock 3)\<lparr>dev := (dev (spi_bus_init_lock 3))(0 := Slot_Reserved)\<rparr>)"
    by (simp add: try_acquire_free_dev_def spi_bus_init_lock_def)
  from register_dev_no_mem_keeps_slot [OF this, of True] show ?thesis by auto
qed

end
