(* ===== verification/Spi_Timing.thy ===== *)
theory Spi_Timing
  imports Machine "HOL-Library.Signed_Division"
begin

text \<open>
  The arithmetic of the SPI driver: the clock divider of the ESP32-S3
  (\<open>hal/esp32s3/include/hal/spi_ll.h\<close>, \<open>hal/spi_hal_iram.c\<close>) and the DMA descriptor chains
  (\<open>spi_common.c\<close>). C integers that stay in range are of type \<open>int\<close>, with the division of C.
\<close>

section \<open>The clock divider\<close>

record spi_clock_reg =
  clkcnt_l :: int
  clkcnt_h :: int
  clkcnt_n :: int
  clkdiv_pre :: int
  clk_equ_sysclk :: bool

definition spi_ll_freq_for_pre_n :: "int \<Rightarrow> int \<Rightarrow> int \<Rightarrow> int" where
  "spi_ll_freq_for_pre_n fapb pre n = fapb sdiv (pre * n)"

text \<open>The pre-divider tried for \<open>n\<close>, between 1 and 16, and the error it leaves.\<close>

definition pre_for :: "int \<Rightarrow> int \<Rightarrow> int \<Rightarrow> int" where
  "pre_for fapb hz n =
     (let pre = ((fapb sdiv n) + (hz sdiv 2)) sdiv hz;
          pre' = (if pre \<le> 0 then 1 else pre)
      in if pre' > 16 then 16 else pre')"

definition err_for :: "int \<Rightarrow> int \<Rightarrow> int \<Rightarrow> int" where
  "err_for fapb hz n = \<bar>spi_ll_freq_for_pre_n fapb (pre_for fapb hz n) n - hz\<bar>"

text \<open>One round of the search, on \<open>(bestn, bestpre, besterr)\<close>.\<close>

definition clock_round :: "int \<Rightarrow> int \<Rightarrow> int \<Rightarrow> int \<times> int \<times> int \<Rightarrow> int \<times> int \<times> int" where
  "clock_round fapb hz n = (\<lambda>(bestn, bestpre, besterr).
     let errval = err_for fapb hz n
     in if bestn = -1 \<or> errval \<le> besterr then (n, pre_for fapb hz n, errval)
        else (bestn, bestpre, besterr))"

definition clock_search :: "int \<Rightarrow> int \<Rightarrow> int \<Rightarrow> int \<times> int \<times> int" where
  "clock_search fapb hz k = fold (clock_round fapb hz) [2..k] (-1, -1, 0)"

definition spi_ll_master_cal_clock :: "int \<Rightarrow> int \<Rightarrow> int \<Rightarrow> int \<times> spi_clock_reg" where
  "spi_ll_master_cal_clock fapb hz duty_cycle =
     (if hz > (fapb sdiv 4) * 3 then
        (fapb, \<lparr>clkcnt_l = 0, clkcnt_h = 0, clkcnt_n = 0, clkdiv_pre = 0, clk_equ_sysclk = True\<rparr>)
      else
        let (n, pre, err) = clock_search fapb hz 64;
            h = (duty_cycle * n + 127) sdiv 256;
            h' = (if h \<le> 0 then 1 else h)
        in (spi_ll_freq_for_pre_n fapb pre n,
            \<lparr>clkcnt_l = n - 1, clkcnt_h = h' - 1, clkcnt_n = n - 1, clkdiv_pre = pre - 1,
             clk_equ_sysclk = False\<rparr>))"

definition spi_hal_cal_timing :: "int \<Rightarrow> int \<Rightarrow> bool \<Rightarrow> int \<Rightarrow> int \<times> int" where
  "spi_hal_cal_timing source_freq_hz eff_clk gpio_is_used input_delay_ns =
     (let apbclk_kHz = source_freq_hz sdiv 1000;
          spiclk_apb_n = source_freq_hz sdiv eff_clk;
          gpio_delay_ns = 0;
          delay0 = (1 + input_delay_ns + gpio_delay_ns) * apbclk_kHz sdiv 1000 sdiv 1000;
          delay_apb_n = (if delay0 < 0 then 0 else delay0);
          dummy_required = delay_apb_n sdiv spiclk_apb_n;
          miso_delay = (if dummy_required > 0
                        then (dummy_required + 1) * spiclk_apb_n - delay_apb_n - 1
                        else if delay_apb_n * 4 \<le> spiclk_apb_n then -1 else 0)
      in (dummy_required, miso_delay))"

record spi_hal_timing_conf =
  clock_reg :: spi_clock_reg
  expect_freq :: int
  real_freq :: int
  timing_dummy_n :: int
  timing_miso_delay :: int

text \<open>The ESP32-S3 has no time tuning, so the calculation cannot fail there.\<close>

definition spi_hal_cal_clock_conf ::
  "int \<Rightarrow> int \<Rightarrow> int \<Rightarrow> bool \<Rightarrow> int \<Rightarrow> esp_err_t \<times> spi_hal_timing_conf" where
  "spi_hal_cal_clock_conf src_hz expected_freq duty_cycle use_gpio input_delay_ns =
     (let (eff_clk_n, reg_val) = spi_ll_master_cal_clock src_hz expected_freq duty_cycle;
          (dummy, miso_delay) = spi_hal_cal_timing src_hz eff_clk_n use_gpio input_delay_ns
      in (ESP_OK, \<lparr>clock_reg = reg_val, expect_freq = expected_freq, real_freq = eff_clk_n,
                   timing_dummy_n = dummy, timing_miso_delay = miso_delay\<rparr>))"

section \<open>The search finds the best divider\<close>

lemma clock_round_apply:
  "clock_round fapb hz m (n, p, e) =
     (if n = -1 \<or> err_for fapb hz m \<le> e then (m, pre_for fapb hz m, err_for fapb hz m) else (n, p, e))"
  by (simp add: clock_round_def Let_def)

lemma clock_search_step:
  "2 \<le> k \<Longrightarrow> clock_search fapb hz (k + 1) = clock_round fapb hz (k + 1) (clock_search fapb hz k)"
  by (simp add: clock_search_def upto_rec2)

lemma clock_round_fold:
  assumes "2 \<le> k"
  shows "\<exists>n. 2 \<le> n \<and> n \<le> k \<and>
    clock_search fapb hz k = (n, pre_for fapb hz n, err_for fapb hz n) \<and>
    (\<forall>m. 2 \<le> m \<and> m \<le> k \<longrightarrow> err_for fapb hz n \<le> err_for fapb hz m) \<and>
    (\<forall>m. n < m \<and> m \<le> k \<longrightarrow> err_for fapb hz n < err_for fapb hz m)"
  using assms
proof (induction k rule: int_ge_induct)
  case base
  then show ?case by (auto simp: clock_search_def clock_round_apply)
next
  case (step k)
  then obtain n where n: "2 \<le> n" "n \<le> k"
    "clock_search fapb hz k = (n, pre_for fapb hz n, err_for fapb hz n)"
    "\<And>m. 2 \<le> m \<Longrightarrow> m \<le> k \<Longrightarrow> err_for fapb hz n \<le> err_for fapb hz m"
    "\<And>m. n < m \<Longrightarrow> m \<le> k \<Longrightarrow> err_for fapb hz n < err_for fapb hz m"
    by blast
  have up: "clock_search fapb hz (k + 1) =
      (if err_for fapb hz (k + 1) \<le> err_for fapb hz n
       then (k + 1, pre_for fapb hz (k + 1), err_for fapb hz (k + 1))
       else (n, pre_for fapb hz n, err_for fapb hz n))"
    using step.hyps n(1,3) by (simp add: clock_search_step clock_round_apply)
  show ?case
  proof (cases "err_for fapb hz (k + 1) \<le> err_for fapb hz n")
    case True
    have "err_for fapb hz (k + 1) \<le> err_for fapb hz m" if "2 \<le> m" "m \<le> k + 1" for m
      using that True n(4) [of m] by (cases "m = k + 1") force+
    then show ?thesis
      using step.hyps True n(3) by (intro exI [of _ "k + 1"]) (auto simp: up)
  next
    case False
    have "err_for fapb hz n \<le> err_for fapb hz m" if "2 \<le> m" "m \<le> k + 1" for m
      using that False n(4) [of m] by (cases "m = k + 1") force+
    moreover have "err_for fapb hz n < err_for fapb hz m" if "n < m" "m \<le> k + 1" for m
      using that False n(5) [of m] by (cases "m = k + 1") force+
    ultimately show ?thesis
      using n False by (intro exI [of _ n]) (auto simp: up)
  qed
qed

lemma pre_for_range: "1 \<le> pre_for fapb hz n \<and> pre_for fapb hz n \<le> 16"
  by (simp add: pre_for_def Let_def)

text \<open>
  C36: Among the counters from 2 to 64, each with the pre-divider rounded for it, the clock search
  takes one that comes closest to the requested frequency, and the largest of these; the register
  fields are that counter, its pre-divider and the rounded duty cycle, within their ranges.
\<close>

theorem cal_clock_best:
  assumes "hz \<le> (fapb sdiv 4) * 3" "1 \<le> duty" "duty \<le> 255"
  shows "\<exists>n pre. 2 \<le> n \<and> n \<le> 64 \<and> 1 \<le> pre \<and> pre \<le> 16 \<and>
    spi_ll_master_cal_clock fapb hz duty = (spi_ll_freq_for_pre_n fapb pre n,
      \<lparr>clkcnt_l = n - 1, clkcnt_h = max 1 ((duty * n + 127) div 256) - 1, clkcnt_n = n - 1,
       clkdiv_pre = pre - 1, clk_equ_sysclk = False\<rparr>) \<and>
    max 1 ((duty * n + 127) div 256) \<le> n \<and>
    (\<forall>m. 2 \<le> m \<and> m \<le> 64 \<longrightarrow>
      \<bar>spi_ll_freq_for_pre_n fapb pre n - hz\<bar> \<le> \<bar>spi_ll_freq_for_pre_n fapb (pre_for fapb hz m) m - hz\<bar>) \<and>
    (\<forall>m. n < m \<and> m \<le> 64 \<longrightarrow>
      \<bar>spi_ll_freq_for_pre_n fapb pre n - hz\<bar> < \<bar>spi_ll_freq_for_pre_n fapb (pre_for fapb hz m) m - hz\<bar>)"
proof -
  obtain n where n: "2 \<le> n" "n \<le> 64"
    "clock_search fapb hz 64 = (n, pre_for fapb hz n, err_for fapb hz n)"
    "\<forall>m. 2 \<le> m \<and> m \<le> 64 \<longrightarrow> err_for fapb hz n \<le> err_for fapb hz m"
    "\<forall>m. n < m \<and> m \<le> 64 \<longrightarrow> err_for fapb hz n < err_for fapb hz m"
    using clock_round_fold [of 64 fapb hz] by auto
  have pos: "0 \<le> duty * n + 127"
    using n(1) assms(2) by simp
  have h: "(duty * n + 127) sdiv 256 = (duty * n + 127) div 256"
    using pos by (simp add: signed_divide_int_def sgn_if)
  have "duty * n \<le> 255 * n"
    using assms(3) n(1) by (intro mult_right_mono) auto
  then have "(duty * n + 127) div 256 \<le> (256 * n + 127) div 256"
    using n(1) by (intro zdiv_mono1) auto
  also have "(256 * n + 127) div 256 = n" by simp
  finally have hn: "max 1 ((duty * n + 127) div 256) \<le> n"
    using n(1) by simp
  have "(if (duty * n + 127) div 256 \<le> 0 then 1 else (duty * n + 127) div 256) =
      max 1 ((duty * n + 127) div 256)"
    by auto
  then have "spi_ll_master_cal_clock fapb hz duty = (spi_ll_freq_for_pre_n fapb (pre_for fapb hz n) n,
      \<lparr>clkcnt_l = n - 1, clkcnt_h = max 1 ((duty * n + 127) div 256) - 1, clkcnt_n = n - 1,
       clkdiv_pre = pre_for fapb hz n - 1, clk_equ_sysclk = False\<rparr>)"
    using assms(1) by (simp add: spi_ll_master_cal_clock_def n(3) h Let_def)
  with n hn pre_for_range [of fapb hz n] show ?thesis
    unfolding err_for_def by blast
qed

lemma cal_clock_best_witness:
  "\<exists>n pre. 2 \<le> n \<and> n \<le> 64 \<and>
     fst (spi_ll_master_cal_clock 80000000 170000 128) = spi_ll_freq_for_pre_n 80000000 pre n"
proof -
  have "(170000 :: int) \<le> (80000000 sdiv 4) * 3" by (simp add: signed_divide_int_def)
  from cal_clock_best [OF this, of 128] show ?thesis by fastforce
qed

section \<open>DMA descriptor chains\<close>

definition DMA_DESCRIPTOR_BUFFER_MAX_SIZE_4B_ALIGNED :: int where
  "DMA_DESCRIPTOR_BUFFER_MAX_SIZE_4B_ALIGNED = 4095 - 3"

text \<open>
  \<open>spicommon_dma_desc_alloc\<close>: the number of descriptors and the size of the largest transfer, when
  both allocations succeed.
\<close>

definition dma_desc_count :: "int \<Rightarrow> int" where
  "dma_desc_count cfg_max_sz =
     (let ct = (cfg_max_sz + DMA_DESCRIPTOR_BUFFER_MAX_SIZE_4B_ALIGNED - 1)
               sdiv DMA_DESCRIPTOR_BUFFER_MAX_SIZE_4B_ALIGNED
      in if ct = 0 then 1 else ct)"

definition spicommon_dma_desc_alloc :: "bool \<Rightarrow> bool \<Rightarrow> int \<Rightarrow> esp_err_t \<times> int \<times> int" where
  "spicommon_dma_desc_alloc tx_ok rx_ok cfg_max_sz =
     (if \<not> tx_ok \<or> \<not> rx_ok then (ESP_ERR_NO_MEM, 0, 0)
      else (ESP_OK, dma_desc_count cfg_max_sz,
            dma_desc_count cfg_max_sz * DMA_DESCRIPTOR_BUFFER_MAX_SIZE_4B_ALIGNED))"

text \<open>One descriptor; \<open>linked\<close> says whether \<open>next\<close> points to the following one.\<close>

record dma_desc =
  dsize :: int
  dlength :: int
  dbuffer :: u32
  suc_eof :: bool
  linked :: bool

function dma_chain :: "u32 \<Rightarrow> int \<Rightarrow> bool \<Rightarrow> dma_desc list" where
  "dma_chain data len is_rx =
     (if len = 0 then []
      else
        let dmachunklen = (if len > DMA_DESCRIPTOR_BUFFER_MAX_SIZE_4B_ALIGNED
                           then DMA_DESCRIPTOR_BUFFER_MAX_SIZE_4B_ALIGNED else len)
        in \<lparr>dsize = (if is_rx then (dmachunklen + 3) AND NOT 3 else dmachunklen),
            dlength = (if is_rx then 0 else dmachunklen), dbuffer = data, suc_eof = False, linked = True\<rparr>
           # dma_chain (data + word_of_int dmachunklen) (len - dmachunklen) is_rx)"
  by pat_completeness auto
termination
  by (relation "measure (\<lambda>(data, len, is_rx). nat \<bar>len\<bar>)")
    (auto simp: DMA_DESCRIPTOR_BUFFER_MAX_SIZE_4B_ALIGNED_def)

declare dma_chain.simps [simp del]

text \<open>
  The loop is followed by a write to the descriptor before the end, which is out of bounds for an
  empty transfer (\<open>None\<close>).
\<close>

definition spicommon_dma_desc_setup_link :: "u32 \<Rightarrow> int \<Rightarrow> bool \<Rightarrow> dma_desc list option" where
  "spicommon_dma_desc_setup_link data len is_rx =
     (let ds = dma_chain data len is_rx
      in if ds = [] then None
         else Some (butlast ds @ [(last ds)\<lparr>suc_eof := True, linked := False\<rparr>]))"

text \<open>What the DMA engine reads when it follows a chain.\<close>

fun chain_bytes :: "(u32 \<Rightarrow> u8) \<Rightarrow> dma_desc list \<Rightarrow> u8 list" where
  "chain_bytes m [] = []"
| "chain_bytes m (d # ds) =
     load m (dbuffer d) (nat (dlength d)) @ (if suc_eof d then [] else chain_bytes m ds)"

lemma chain_bytes_plain:
  "\<forall>d \<in> set ds. \<not> suc_eof d \<Longrightarrow> chain_bytes m (ds @ [d']) =
     concat (map (\<lambda>d. load m (dbuffer d) (nat (dlength d))) ds) @ load m (dbuffer d') (nat (dlength d'))"
  by (induction ds) auto

lemma dma_chain_no_eof: "d \<in> set (dma_chain data len is_rx) \<Longrightarrow> \<not> suc_eof d"
  by (induction data len is_rx rule: dma_chain.induct) (subst (asm) (2) dma_chain.simps, auto simp: Let_def split: if_splits)

lemma dma_chain_bytes:
  "0 \<le> len \<Longrightarrow> concat (map (\<lambda>d. load m (dbuffer d) (nat (dlength d))) (dma_chain data len False)) =
     load m data (nat len)"
proof (induction data len "False" rule: dma_chain.induct)
  case (1 data len)
  show ?case
  proof (cases "len = 0")
    case True
    then show ?thesis by (simp add: dma_chain.simps [of data 0])
  next
    case False
    define c where "c = (if len > DMA_DESCRIPTOR_BUFFER_MAX_SIZE_4B_ALIGNED
                         then DMA_DESCRIPTOR_BUFFER_MAX_SIZE_4B_ALIGNED else len)"
    have c: "0 \<le> c" "c \<le> len"
      using 1(2) by (auto simp: c_def DMA_DESCRIPTOR_BUFFER_MAX_SIZE_4B_ALIGNED_def)
    have "nat len = nat c + nat (len - c)"
      using c by simp
    then have "load m data (nat len) = load m data (nat c) @ load m (data + word_of_int c) (nat (len - c))"
      using c(1) by (simp add: load_append)
    then show ?thesis
      using 1(1) [OF False c_def] c(2) False by (simp add: dma_chain.simps [of data len] c_def [symmetric] Let_def)
  qed
qed

lemma dma_chain_length:
  "0 \<le> len \<Longrightarrow> int (length (dma_chain data len is_rx)) =
     (len + DMA_DESCRIPTOR_BUFFER_MAX_SIZE_4B_ALIGNED - 1) div DMA_DESCRIPTOR_BUFFER_MAX_SIZE_4B_ALIGNED"
proof (induction data len is_rx rule: dma_chain.induct)
  case (1 data len is_rx)
  let ?M = "DMA_DESCRIPTOR_BUFFER_MAX_SIZE_4B_ALIGNED"
  have M: "?M = 4092" by (simp add: DMA_DESCRIPTOR_BUFFER_MAX_SIZE_4B_ALIGNED_def)
  consider "len = 0" | "0 < len" "len \<le> ?M" | "len > ?M"
    using 1(2) by linarith
  then show ?case
  proof cases
    case 1
    then show ?thesis by (simp add: dma_chain.simps [of data 0] M)
  next
    case 2
    have "(len + 4092 - 1) div 4092 = 1"
      using 2 by (simp add: M)
    then show ?thesis
      using 2 by (simp add: dma_chain.simps [of data len] dma_chain.simps [of _ 0] Let_def M)
  next
    case 3
    then have "int (length (dma_chain (data + word_of_int ?M) (len - ?M) is_rx)) = (len - ?M + ?M - 1) div ?M"
      using 1(1) [OF _ refl] by (auto simp: M)
    moreover have "(len + 4092 - 1) div 4092 = (len - 1) div 4092 + 1"
      by simp
    ultimately show ?thesis
      using 3 by (simp add: dma_chain.simps [of data len] Let_def M)
  qed
qed

text \<open>
  The chain of DMA descriptors of a send buffer reads back exactly the bytes of the buffer,
  in chunks of at most 4092 bytes, and ends at its last descriptor.
\<close>

theorem dma_chain_covers_buffer:
  assumes "0 < len"
    and "spicommon_dma_desc_alloc True True cfg_max_sz = (ESP_OK, count, max_sz)"
    and "0 \<le> cfg_max_sz" "len \<le> max_sz"
  shows "\<exists>ds. spicommon_dma_desc_setup_link data len False = Some ds \<and>
    chain_bytes m ds = load m data (nat len) \<and> int (length ds) \<le> count \<and>
    (\<forall>d \<in> set ds. 0 < dlength d \<and> dlength d \<le> 4092)"
proof -
  let ?ds = "dma_chain data len False"
  have M: "DMA_DESCRIPTOR_BUFFER_MAX_SIZE_4B_ALIGNED = 4092"
    by (simp add: DMA_DESCRIPTOR_BUFFER_MAX_SIZE_4B_ALIGNED_def)
  have ne: "?ds \<noteq> []"
    using assms(1) by (simp add: dma_chain.simps [of data len] Let_def)
  then have last: "?ds = butlast ?ds @ [last ?ds]" by simp
  have len_le: "int (length ?ds) \<le> count"
    using assms dma_chain_length [of len data False]
    by (auto simp: spicommon_dma_desc_alloc_def M)
  have noeof: "\<forall>d \<in> set (butlast ?ds). \<not> suc_eof d"
    by (meson dma_chain_no_eof in_set_butlastD)
  have "chain_bytes m (butlast ?ds @ [(last ?ds)\<lparr>suc_eof := True, linked := False\<rparr>]) =
      concat (map (\<lambda>d. load m (dbuffer d) (nat (dlength d))) (butlast ?ds @ [last ?ds]))"
    using chain_bytes_plain [OF noeof] by simp
  also have "\<dots> = load m data (nat len)"
    using dma_chain_bytes [of len m data] assms(1) last by simp
  finally have bytes: "chain_bytes m (butlast ?ds @ [(last ?ds)\<lparr>suc_eof := True, linked := False\<rparr>]) =
      load m data (nat len)" .
  have range: "0 < dlength d \<and> dlength d \<le> 4092" if "d \<in> set (dma_chain data len False)" for d
    using that assms(1)
  proof (induction data len "False" rule: dma_chain.induct)
    case (1 data len)
    define c where "c = (if len > DMA_DESCRIPTOR_BUFFER_MAX_SIZE_4B_ALIGNED
                         then DMA_DESCRIPTOR_BUFFER_MAX_SIZE_4B_ALIGNED else len)"
    have "0 < c" "c \<le> 4092" "c \<le> len"
      using 1(3) by (auto simp: c_def M)
    moreover have "dlength d = c \<or> d \<in> set (dma_chain (data + word_of_int c) (len - c) False)"
      using 1(2,3) by (auto simp: dma_chain.simps [of data len] c_def [symmetric] Let_def)
    moreover have "len - c \<noteq> 0" if "d \<in> set (dma_chain (data + word_of_int c) (len - c) False)"
      using that by (auto simp: dma_chain.simps [of _ 0])
    ultimately show ?case
      using 1(1) [OF _ c_def] 1(3) by (metis less_le diff_ge_0_iff_ge)
  qed
  have "0 < dlength d \<and> dlength d \<le> 4092"
    if "d \<in> set (butlast ?ds @ [(last ?ds)\<lparr>suc_eof := True, linked := False\<rparr>])" for d
    using that range [of d] range [of "last ?ds"] ne last_in_set [OF ne] by (auto dest: in_set_butlastD)
  then show ?thesis
    using ne len_le bytes by (auto simp: spicommon_dma_desc_setup_link_def Let_def)
qed

lemma dma_chain_covers_buffer_witness:
  "\<exists>ds. spicommon_dma_desc_setup_link 0x3FC90000 5000 False = Some ds \<and>
     chain_bytes (\<lambda>a. ucast a) ds = load (\<lambda>a. ucast a) 0x3FC90000 5000 \<and> int (length ds) \<le> 2"
proof -
  have "spicommon_dma_desc_alloc True True 8000 = (ESP_OK, 2, 8184)"
    by (simp add: spicommon_dma_desc_alloc_def dma_desc_count_def
        DMA_DESCRIPTOR_BUFFER_MAX_SIZE_4B_ALIGNED_def signed_divide_int_def Let_def)
  moreover have "(0 :: int) < 5000" "(0 :: int) \<le> 8000" "(5000 :: int) \<le> 8184" by simp_all
  ultimately show ?thesis
    using dma_chain_covers_buffer [of 5000 8000 2 8184 "0x3FC90000" "\<lambda>a. ucast a"] by fastforce
qed

end
