(* ===== verification/Spi_Master.thy ===== *)
theory Spi_Master
  imports Spi_Bus_Lock Spi_Timing
begin

text \<open>
  The part of the SPI master driver of ESP-IDF that the display uses
  (\<open>esp_driver_spi/src/gpspi/spi_master.c\<close> and \<open>spi_common.c\<close>, as configured for the
  ESP32-S3): validation of a transaction, DMA buffers, and polling transfers under the bus lock.
  The registers of the peripheral are behind \<open>wire\<close> of the environment.
\<close>

section \<open>Flags and limits\<close>

definition SPI_TRANS_MODE_DIO :: u32 where "SPI_TRANS_MODE_DIO = 0x1"
definition SPI_TRANS_MODE_QIO :: u32 where "SPI_TRANS_MODE_QIO = 0x2"
definition SPI_TRANS_USE_RXDATA :: u32 where "SPI_TRANS_USE_RXDATA = 0x4"
definition SPI_TRANS_USE_TXDATA :: u32 where "SPI_TRANS_USE_TXDATA = 0x8"
definition SPI_TRANS_MULTILINE_ADDR :: u32 where "SPI_TRANS_MULTILINE_ADDR = 0x10"
definition SPI_TRANS_VARIABLE_CMD :: u32 where "SPI_TRANS_VARIABLE_CMD = 0x20"
definition SPI_TRANS_VARIABLE_ADDR :: u32 where "SPI_TRANS_VARIABLE_ADDR = 0x40"
definition SPI_TRANS_VARIABLE_DUMMY :: u32 where "SPI_TRANS_VARIABLE_DUMMY = 0x80"
definition SPI_TRANS_CS_KEEP_ACTIVE :: u32 where "SPI_TRANS_CS_KEEP_ACTIVE = 0x100"
definition SPI_TRANS_MULTILINE_CMD :: u32 where "SPI_TRANS_MULTILINE_CMD = 0x200"
definition SPI_TRANS_MODE_OCT :: u32 where "SPI_TRANS_MODE_OCT = 0x400"
definition SPI_TRANS_DMA_BUFFER_ALIGN_MANUAL :: u32 where
  "SPI_TRANS_DMA_BUFFER_ALIGN_MANUAL = 0x800"

definition SPI_DEVICE_3WIRE :: u32 where "SPI_DEVICE_3WIRE = 0x4"
definition SPI_DEVICE_HALFDUPLEX :: u32 where "SPI_DEVICE_HALFDUPLEX = 0x10"

lemmas spi_flag_defs = SPI_TRANS_MODE_DIO_def SPI_TRANS_MODE_QIO_def SPI_TRANS_USE_RXDATA_def
  SPI_TRANS_USE_TXDATA_def SPI_TRANS_MULTILINE_ADDR_def SPI_TRANS_VARIABLE_CMD_def
  SPI_TRANS_VARIABLE_ADDR_def SPI_TRANS_VARIABLE_DUMMY_def SPI_TRANS_CS_KEEP_ACTIVE_def
  SPI_TRANS_MULTILINE_CMD_def SPI_TRANS_MODE_OCT_def SPI_TRANS_DMA_BUFFER_ALIGN_MANUAL_def
  SPI_DEVICE_3WIRE_def SPI_DEVICE_HALFDUPLEX_def

definition SPI3_HOST :: nat where "SPI3_HOST = 2"
definition SPI_LL_DMA_MAX_BIT_LEN :: u32 where "SPI_LL_DMA_MAX_BIT_LEN = 0x40000"
definition SPI_LL_CPU_MAX_BIT_LEN :: u32 where "SPI_LL_CPU_MAX_BIT_LEN = 512"
definition SOC_SPI_MAXIMUM_BUFFER_SIZE :: u32 where "SOC_SPI_MAXIMUM_BUFFER_SIZE = 64"

text \<open>\<open>esp_ptr_dma_capable\<close>: internal RAM that the DMA can reach (a signed comparison).\<close>

definition esp_ptr_dma_capable :: "u32 \<Rightarrow> bool" where
  "esp_ptr_dma_capable p \<longleftrightarrow> 0x3FC88000 <=s p \<and> p <s 0x3FD00000"

section \<open>Devices, the host, the state\<close>

record spi_device =
  dev_id :: nat
  cfg_command_bits :: u8
  cfg_address_bits :: u8
  cfg_dummy_bits :: u8
  cfg_flags :: u32
  timing_dummy :: bool

record spi_bus_attr =
  max_transfer_sz :: u32
  dma_enabled :: bool
  internal_mem_align_size :: u16

text \<open>
  \<open>cur_trans\<close> is \<open>cur_trans_buf\<close>: the transaction in flight with its buffers. A slot number of
  the table \<open>devices\<close> plays the role of the handle, \<open>None\<close> of the null handle.
\<close>

record spi_trans_priv =
  priv_trans :: spi_transaction
  buffer_to_send :: bufptr
  buffer_to_rcv :: bufptr

record spi_host =
  host_id :: nat
  devices :: "nat \<Rightarrow> spi_device"
  device_set :: "nat \<Rightarrow> bool"
  cur_cs :: nat
  cur_trans :: spi_trans_priv
  bus_attr :: spi_bus_attr
  device_acquiring_lock :: "nat option"
  polling :: bool
  bus_lock :: spi_bus_lock

record spi_machine = machine +
  host :: spi_host
  periph_claimed :: bool
  bus_ctx_set :: bool
  bus_driver_ctx_set :: bool

type_synonym handle = "nat option"

definition flag :: "u32 \<Rightarrow> u32 \<Rightarrow> bool" where
  "flag fs m \<longleftrightarrow> fs AND m \<noteq> 0"

text \<open>
  The members of the unions: a transaction whose union was filled with data bytes reads them
  as a little-endian address when the pointer is asked for.
\<close>

definition bytes_as_ptr :: "u8 list \<Rightarrow> bufptr" where
  "bytes_as_ptr bs =
     (let a = foldr (\<lambda>b acc. ucast b OR push_bit 8 acc) bs (0 :: u32)
      in if a = 0 then Null_ptr else Addr a)"

definition union_ptr :: "tr_union \<Rightarrow> bufptr" where
  "union_ptr u = (case u of Bytes bs \<Rightarrow> bytes_as_ptr bs | Buffer p \<Rightarrow> p)"

definition union_bytes :: "tr_union \<Rightarrow> u8 list" where
  "union_bytes u = (case u of Bytes bs \<Rightarrow> bs | Buffer p \<Rightarrow> [])"

definition ptr_addr :: "u32 \<Rightarrow> bufptr \<Rightarrow> u32" where
  "ptr_addr base p =
     (case p of Null_ptr \<Rightarrow> 0 | Tx_data_ptr \<Rightarrow> base + 32 | Rx_data_ptr \<Rightarrow> base + 36 | Addr a \<Rightarrow> a)"

section \<open>Validation of a transaction\<close>

text \<open>A sequence of \<open>SPI_CHECK\<close>s: the error of the first condition that fails.\<close>

primrec spi_checks :: "(bool \<times> esp_err_t) list \<Rightarrow> esp_err_t" where
  "spi_checks [] = ESP_OK"
| "spi_checks (c # cs) = (if fst c then spi_checks cs else snd c)"

lemma spi_checks_OK: "spi_checks cs = ESP_OK \<longleftrightarrow> (\<forall>c \<in> set cs. fst c \<or> snd c = ESP_OK)"
  if "\<forall>c \<in> set cs. snd c \<noteq> ESP_OK"
  using that by (induction cs) auto

definition check_trans_valid ::
  "spi_host \<Rightarrow> handle \<Rightarrow> spi_transaction \<Rightarrow> esp_err_t \<times> spi_transaction" where
  "check_trans_valid h handle t =
     (case handle of None \<Rightarrow> (ESP_ERR_INVALID_ARG, t)
      | Some i \<Rightarrow>
        let d = devices h i;
            attr = bus_attr h;
            fs = tr_flags t;
            tx_enabled = flag fs SPI_TRANS_USE_TXDATA \<or> union_ptr (tr_tx t) \<noteq> Null_ptr;
            rx_enabled = flag fs SPI_TRANS_USE_RXDATA \<or> union_ptr (tr_rx t) \<noteq> Null_ptr;
            dummy_enabled = (if flag fs SPI_TRANS_VARIABLE_DUMMY then tr_dummy_bits t
                             else cfg_dummy_bits d) \<noteq> 0;
            extra_dummy_enabled = timing_dummy d;
            is_half_duplex = flag (cfg_flags d) SPI_DEVICE_HALFDUPLEX;
            err = spi_checks (map (\<lambda>c. (c, ESP_ERR_INVALID_ARG))
              [\<not> flag fs SPI_TRANS_USE_RXDATA \<or> tr_rxlength t \<le> 32,
               \<not> flag fs SPI_TRANS_USE_TXDATA \<or> tr_length t \<le> 32,
               tr_length t \<le> max_transfer_sz attr * 8,
               tr_rxlength t \<le> max_transfer_sz attr * 8,
               is_half_duplex \<or> tr_rxlength t \<le> tr_length t,
               \<not> (host_id h = SPI3_HOST \<and> flag fs SPI_TRANS_MODE_OCT),
               \<not> (flag fs SPI_TRANS_MODE_OCT \<and> flag (cfg_flags d) SPI_DEVICE_3WIRE),
               \<not> (flag fs SPI_TRANS_MODE_OCT \<and> \<not> is_half_duplex),
               \<not> (flag fs (SPI_TRANS_MODE_DIO OR SPI_TRANS_MODE_QIO)
                   \<and> flag (cfg_flags d) SPI_DEVICE_3WIRE),
               \<not> (flag fs (SPI_TRANS_MODE_DIO OR SPI_TRANS_MODE_QIO) \<and> \<not> is_half_duplex),
               \<not> is_half_duplex \<or> \<not> tx_enabled \<or> \<not> rx_enabled,
               \<not> is_half_duplex \<or> tr_length t = 0 \<or> tr_rxlength t = 0,
               tr_length t \<noteq> 0 \<or> \<not> tx_enabled,
               \<not> is_half_duplex \<or> tr_rxlength t \<noteq> 0 \<or> \<not> rx_enabled])
        in if err \<noteq> ESP_OK then (err, t)
           else
             let t' = (if tr_rxlength t = 0 \<and> \<not> is_half_duplex
                       then t\<lparr>tr_rxlength := tr_length t\<rparr> else t);
                 max_bits = (if dma_enabled attr then SPI_LL_DMA_MAX_BIT_LEN
                             else SPI_LL_CPU_MAX_BIT_LEN)
             in (spi_checks (map (\<lambda>c. (c, ESP_ERR_INVALID_ARG))
                   [\<not> tx_enabled \<or> \<not> rx_enabled \<or> \<not> dummy_enabled \<or> \<not> extra_dummy_enabled,
                    tr_length t' \<le> max_bits,
                    tr_rxlength t' \<le> max_bits]), t'))"

section \<open>DMA buffers\<close>

definition byte_len :: "u32 \<Rightarrow> u32" where
  "byte_len bits = (bits + 7) div 8"

definition up_align :: "u32 \<Rightarrow> u32 \<Rightarrow> u32" where
  "up_align al n = (n + al - 1) AND NOT (al - 1)"

text \<open>The allocator and \<open>free\<close> on the list of live blocks; \<open>free(NULL)\<close> does nothing.\<close>

definition dma_malloc :: "u32 \<Rightarrow> 'a machine_scheme \<Rightarrow> u32 \<times> 'a machine_scheme" where
  "dma_malloc n s =
     (let p = dma_alloc (environ s) (log s) (heap_live s) n
      in if p = 0 then (0, s) else (p, s\<lparr>heap_live := p # heap_live s\<rparr>))"

definition dma_free :: "u32 \<Rightarrow> 'a machine_scheme \<Rightarrow> 'a machine_scheme" where
  "dma_free p s = (if p = 0 then s else s\<lparr>heap_live := remove1 p (heap_live s)\<rparr>)"

text \<open>The bytes a buffer pointer stands for.\<close>

definition buffer_bytes :: "spi_transaction \<Rightarrow> (u32 \<Rightarrow> u8) \<Rightarrow> bufptr \<Rightarrow> nat \<Rightarrow> u8 list" where
  "buffer_bytes t m p n =
     (case p of Null_ptr \<Rightarrow> []
      | Tx_data_ptr \<Rightarrow> take n (union_bytes (tr_tx t))
      | Rx_data_ptr \<Rightarrow> take n (union_bytes (tr_rx t))
      | Addr a \<Rightarrow> load m a n)"

text \<open>
  \<open>uninstall_priv_desc\<close>: a temporary send buffer is freed; a temporary receive buffer is copied
  back and freed.
\<close>

definition uninstall_priv_desc ::
  "spi_trans_priv \<Rightarrow> 'a machine_scheme \<Rightarrow> spi_transaction \<times> 'a machine_scheme" where
  "uninstall_priv_desc pr s =
     (let t = priv_trans pr;
          a = ptr_addr (frame_base s);
          snd_buf = buffer_to_send pr;
          rcv_buf = buffer_to_rcv pr;
          s1 = (if a snd_buf \<noteq> a Tx_data_ptr \<and> a snd_buf \<noteq> a (union_ptr (tr_tx t))
                then dma_free (a snd_buf) s else s)
      in if rcv_buf \<noteq> Null_ptr \<and> a rcv_buf \<noteq> a Rx_data_ptr \<and> a rcv_buf \<noteq> a (union_ptr (tr_rx t))
         then
           let bs = load (mem s1) (a rcv_buf) (unat (byte_len (tr_rxlength t)));
               (t2, s2) =
                 (if flag (tr_flags t) SPI_TRANS_USE_RXDATA
                  then (t\<lparr>tr_rx := Bytes (bs @ drop (length bs) (union_bytes (tr_rx t)))\<rparr>, s1)
                  else (t, s1\<lparr>mem := store (mem s1) (a (union_ptr (tr_rx t))) bs\<rparr>))
           in (t2, dma_free (a rcv_buf) s2)
         else (t, s1))"

definition setup_priv_desc ::
  "spi_host \<Rightarrow> spi_transaction \<Rightarrow> 'a machine_scheme
     \<Rightarrow> esp_err_t \<times> spi_trans_priv \<times> 'a machine_scheme" where
  "setup_priv_desc h t s =
     (let attr = bus_attr h;
          al = ucast (internal_mem_align_size attr) :: u32;
          priv0 = \<lparr>priv_trans = t, buffer_to_send = Null_ptr, buffer_to_rcv = Null_ptr\<rparr>;
          rcv_ptr = (if flag (tr_flags t) SPI_TRANS_USE_RXDATA then Rx_data_ptr
                     else union_ptr (tr_rx t));
          send_ptr = (if flag (tr_flags t) SPI_TRANS_USE_TXDATA then Tx_data_ptr
                      else union_ptr (tr_tx t));
          tx_byte_len = byte_len (tr_length t);
          rx_byte_len = byte_len (tr_rxlength t);
          rx_unaligned = flag (ptr_addr (frame_base s) rcv_ptr) (al - 1);
          manual = flag (tr_flags t) SPI_TRANS_DMA_BUFFER_ALIGN_MANUAL;
          tx_copy = send_ptr \<noteq> Null_ptr \<and> dma_enabled attr
                    \<and> \<not> esp_ptr_dma_capable (ptr_addr (frame_base s) send_ptr);
          rx_copy = rcv_ptr \<noteq> Null_ptr \<and> dma_enabled attr
                    \<and> (\<not> esp_ptr_dma_capable (ptr_addr (frame_base s) rcv_ptr) \<or> rx_unaligned);
          no_mem = (\<lambda>s. (ESP_ERR_NO_MEM, priv0, snd (uninstall_priv_desc priv0 s)));
          setup_rx = (\<lambda>send s.
            if rx_copy then
              (if manual then (ESP_ERR_INVALID_ARG, priv0, s)
               else case dma_malloc (up_align al rx_byte_len) s of
                      (p, s') \<Rightarrow> if p = 0 then no_mem s'
                                 else (ESP_OK, priv0\<lparr>buffer_to_send := send, buffer_to_rcv := Addr p\<rparr>, s'))
            else (ESP_OK, priv0\<lparr>buffer_to_send := send, buffer_to_rcv := rcv_ptr\<rparr>, s))
      in if tx_copy then
           (if manual then (ESP_ERR_INVALID_ARG, priv0, s)
            else case dma_malloc (up_align al tx_byte_len) s of
                   (p, s') \<Rightarrow> if p = 0 then no_mem s'
                     else setup_rx (Addr p)
                       (s'\<lparr>mem := store (mem s') p
                          (buffer_bytes t (mem s') send_ptr (unat tx_byte_len))\<rparr>))
         else setup_rx send_ptr s)"

section \<open>Polling transfers\<close>

definition set_host :: "(spi_host \<Rightarrow> spi_host) \<Rightarrow> 'a spi_machine_scheme \<Rightarrow> 'a spi_machine_scheme" where
  "set_host f s = s\<lparr>host := f (host s)\<rparr>"

definition spi_bus_device_is_polling :: "spi_host \<Rightarrow> nat \<Rightarrow> bool" where
  "spi_bus_device_is_polling h i \<longleftrightarrow> acquiring_dev (bus_lock h) = Some i \<and> polling h"

definition spi_format_hal_trans_struct ::
  "spi_device \<Rightarrow> spi_trans_priv \<Rightarrow> u32 \<Rightarrow> spi_hal_trans_config" where
  "spi_format_hal_trans_struct d pr base =
     (let t = priv_trans pr; fs = tr_flags t;
          data_lines = (if flag fs SPI_TRANS_MODE_OCT then 8
                        else if flag fs SPI_TRANS_MODE_DIO then 2
                        else if flag fs SPI_TRANS_MODE_QIO then 4 else 1)
      in \<lparr>hal_cmd = tr_cmd t,
          hal_cmd_bits = (if flag fs SPI_TRANS_VARIABLE_CMD then tr_command_bits t
                          else cfg_command_bits d),
          hal_addr_bits = (if flag fs SPI_TRANS_VARIABLE_ADDR then tr_address_bits t
                           else cfg_address_bits d),
          hal_addr = tr_addr t,
          hal_dummy_bits = (if flag fs SPI_TRANS_VARIABLE_DUMMY then tr_dummy_bits t
                            else cfg_dummy_bits d),
          hal_tx_bitlen = tr_length t,
          hal_rx_bitlen = tr_rxlength t,
          hal_send_buffer = ptr_addr base (buffer_to_send pr),
          hal_rcv_buffer = ptr_addr base (buffer_to_rcv pr),
          hal_cs_keep_active = flag fs SPI_TRANS_CS_KEEP_ACTIVE,
          hal_data_lines = data_lines,
          hal_addr_lines = (if flag fs SPI_TRANS_MULTILINE_ADDR then data_lines else 1),
          hal_cmd_lines = (if flag fs SPI_TRANS_MULTILINE_CMD then data_lines else 1)\<rparr>)"

text \<open>
  \<open>spi_new_trans\<close>: the device becomes the current one and its settings are loaded when it was
  not the last to use the bus. The device of this model has no transaction callbacks.
\<close>

definition spi_new_trans :: "nat \<Rightarrow> spi_host \<Rightarrow> spi_host" where
  "spi_new_trans i h =
     h\<lparr>cur_cs := dev_id (devices h i), bus_lock := snd (spi_bus_lock_touch i (bus_lock h))\<rparr>"

definition spi_device_polling_start ::
  "handle \<Rightarrow> spi_transaction \<Rightarrow> u32 \<Rightarrow> 'a spi_machine_scheme
     \<Rightarrow> (esp_err_t \<times> spi_transaction \<times> 'a spi_machine_scheme) outcome" where
  "spi_device_polling_start handle t ticks s =
     (if ticks \<noteq> portMAX_DELAY then Inr (ESP_ERR_INVALID_ARG, t, s)
      else case check_trans_valid (host s) handle t of (err, t1) \<Rightarrow>
        if err \<noteq> ESP_OK then Inr (err, t1, s)
        else
          let i = the handle
          in if spi_bus_device_is_polling (host s) i then Inr (ESP_ERR_INVALID_STATE, t1, s)
             else case setup_priv_desc (host s) t1 s of (err2, pr, s1) \<Rightarrow>
               if err2 \<noteq> ESP_OK then Inr (err2, t1, s1)
               else
                 let h = host s1; l = bus_lock h
                 in bindr
                   (if device_acquiring_lock h \<noteq> Some i then
                      (if flag (tr_flags t1) SPI_TRANS_CS_KEEP_ACTIVE
                       then Inr (ESP_ERR_INVALID_ARG, l)
                       else spi_bus_lock_acquire_start i ticks l)
                    else spi_bus_lock_wait_bg_done i ticks l)
                   (\<lambda>(err3, l1).
                      let s2 = set_host (\<lambda>h. h\<lparr>bus_lock := l1\<rparr>) s1
                      in if err3 \<noteq> ESP_OK then
                           (case uninstall_priv_desc pr s2 of (t2, s3) \<Rightarrow> Inr (err3, t2, s3))
                         else Inr (ESP_OK, t1,
                           set_host (\<lambda>h. spi_new_trans i (h\<lparr>polling := True, cur_trans := pr\<rparr>)) s2)))"

text \<open>The transfer itself: the bytes of the send buffer go out, the received bytes come in.\<close>

definition receive ::
  "spi_trans_priv \<Rightarrow> u8 list \<Rightarrow> 'a machine_scheme \<Rightarrow> spi_trans_priv \<times> 'a machine_scheme" where
  "receive pr rx s =
     (let t = priv_trans pr; bs = take (unat (byte_len (tr_rxlength t))) rx
      in case buffer_to_rcv pr of
           Null_ptr \<Rightarrow> (pr, s)
         | Addr a \<Rightarrow> (pr, s\<lparr>mem := store (mem s) a bs\<rparr>)
         | _ \<Rightarrow> (pr\<lparr>priv_trans :=
                    t\<lparr>tr_rx := Bytes (bs @ drop (length bs) (union_bytes (tr_rx t)))\<rparr>\<rparr>, s))"

definition spi_device_polling_end ::
  "handle \<Rightarrow> u32 \<Rightarrow> 'a spi_machine_scheme
     \<Rightarrow> (esp_err_t \<times> spi_transaction \<times> 'a spi_machine_scheme) outcome" where
  "spi_device_polling_end handle ticks s =
     (let h = host s; pr = cur_trans h; t = priv_trans pr
      in case handle of None \<Rightarrow> Inr (ESP_ERR_INVALID_ARG, t, s)
       | Some i \<Rightarrow>
         if cur_cs h \<noteq> dev_id (devices h i) \<or> acquiring_dev (bus_lock h) \<noteq> Some i
         then Inl Assert_Failed
         else
           let cfg = spi_format_hal_trans_struct (devices h i) pr (frame_base s);
               tx = buffer_bytes t (mem s) (buffer_to_send pr) (unat (byte_len (tr_length t)))
           in case wire (environ s) (log s) cfg tx of
                None \<Rightarrow> if ticks = portMAX_DELAY then Inl Blocked else Inr (ESP_ERR_TIMEOUT, t, s)
              | Some rx \<Rightarrow>
                  (case receive pr rx (emit (Xfer cfg tx rx) s) of (pr1, s1) \<Rightarrow>
                   case uninstall_priv_desc pr1 (set_host (\<lambda>h. h\<lparr>cur_cs := DEV_NUM_MAX\<rparr>) s1) of
                     (t2, s2) \<Rightarrow>
                   let s3 = set_host (\<lambda>h. h\<lparr>polling := False\<rparr>) s2
                   in if device_acquiring_lock h \<noteq> Some i then
                        (if device_acquiring_lock h \<noteq> None then Inl Assert_Failed
                         else Inr (ESP_OK, t2,
                           set_host (\<lambda>h. h\<lparr>bus_lock :=
                             snd (spi_bus_lock_acquire_end i (bus_lock h))\<rparr>) s3))
                      else Inr (ESP_OK, t2, s3)))"

definition spi_device_polling_transmit ::
  "handle \<Rightarrow> spi_transaction \<Rightarrow> 'a spi_machine_scheme
     \<Rightarrow> (esp_err_t \<times> spi_transaction \<times> 'a spi_machine_scheme) outcome" where
  "spi_device_polling_transmit handle t s =
     bindr (spi_device_polling_start handle t portMAX_DELAY s)
       (\<lambda>(err, t1, s1). if err \<noteq> ESP_OK then Inr (err, t1, s1)
                         else spi_device_polling_end handle portMAX_DELAY s1)"

section \<open>A bus that works\<close>

text \<open>
  What the display code relies on: the device is registered and the bus idle; the device is
  full duplex with 8 command bits and no dummy phase; DMA is on with room for 8000 bytes; the
  caller's frame lies in DMA-capable memory and is aligned; a transfer always completes and
  clocks in as many bytes as it is long.
\<close>

definition device_ok :: "nat \<Rightarrow> spi_host \<Rightarrow> bool" where
  "device_ok i h \<longleftrightarrow>
     devices h i = \<lparr>dev_id = i, cfg_command_bits = 8, cfg_address_bits = 0, cfg_dummy_bits = 0,
                    cfg_flags = 0, timing_dummy = False\<rparr> \<and>
     host_id h = SPI3_HOST \<and> dma_enabled (bus_attr h) \<and> internal_mem_align_size (bus_attr h) = 4 \<and>
     max_transfer_sz (bus_attr h) = 8184"

definition lock_free :: "spi_bus_lock \<Rightarrow> bool" where
  "lock_free l \<longleftrightarrow> status l = 0 \<and> acquiring_dev l = None"

definition host_idle :: "nat \<Rightarrow> spi_host \<Rightarrow> bool" where
  "host_idle i h \<longleftrightarrow> device_ok i h \<and> lock_free (bus_lock h) \<and> \<not> polling h \<and>
     device_acquiring_lock h = None"

definition wire_ok :: "env \<Rightarrow> bool" where
  "wire_ok e \<longleftrightarrow> (\<forall>l cfg tx. \<exists>rx. wire e l cfg tx = Some rx \<and>
     length rx = unat (byte_len (hal_rx_bitlen cfg)))"

definition frame_ok :: "u32 \<Rightarrow> bool" where
  "frame_ok a \<longleftrightarrow> esp_ptr_dma_capable (a + 32) \<and> esp_ptr_dma_capable (a + 36) \<and> (a + 36) AND 3 = 0"

definition bus_ready :: "nat \<Rightarrow> 'a spi_machine_scheme \<Rightarrow> bool" where
  "bus_ready i s \<longleftrightarrow> i < MAX_DEV_NUM \<and> host_idle i (host s) \<and> wire_ok (environ s) \<and> frame_ok (frame_base s)"

text \<open>A descriptor cleared by \<open>memset\<close>.\<close>

definition trans0 :: spi_transaction where
  "trans0 = \<lparr>tr_flags = 0, tr_cmd = 0, tr_addr = 0, tr_length = 0, tr_rxlength = 0,
     tr_override_freq_hz = 0, tr_tx = Bytes [0, 0, 0, 0], tr_rx = Bytes [0, 0, 0, 0],
     tr_command_bits = 0, tr_address_bits = 0, tr_dummy_bits = 0\<rparr>"

lemma acquire_end_alone:
  "i < MAX_DEV_NUM \<Longrightarrow> status l = DEV_MASK i AND LOCK_MASK \<Longrightarrow> acquiring_dev l = Some i \<Longrightarrow>
   spi_bus_lock_acquire_end i l =
     (ESP_OK, l\<lparr>status := 0, acquiring_dev := None, acq_dev_bg_active := False\<rparr>)"
proof -
  assume a: "i < MAX_DEV_NUM" "status l = DEV_MASK i AND LOCK_MASK" "acquiring_dev l = Some i"
  have "status l AND NOT (DEV_MASK i AND LOCK_MASK) = 0"
    unfolding a(2) by (rule bit_word_eqI) (simp add: bit_simps)
  moreover have "ffs (drop_bit LOCK_SHIFT (0 AND LOCK_MASK)) = 0"
    by (simp add: ffs_0_iff)
  moreover have "(0 :: u32) AND BG_MASK = 0" by simp
  ultimately show ?thesis
    using a(3) schedule_core_no_bg [of 0]
    unfolding spi_bus_lock_acquire_end_def acquire_end_core_def lock_status_clear_def
      lock_status_fetch_clear_def Let_def prod.case
    by simp
qed

lemma union_ptr_zero [simp]: "union_ptr (Bytes [0, 0, 0, 0]) = Null_ptr"
  by (simp add: union_ptr_def bytes_as_ptr_def)

definition xfer_cfg :: "u16 \<Rightarrow> u32 \<Rightarrow> u32 \<Rightarrow> u32 \<Rightarrow> spi_hal_trans_config" where
  "xfer_cfg cmd bits send rcv =
     \<lparr>hal_cmd = cmd, hal_cmd_bits = 8, hal_addr_bits = 0, hal_addr = 0, hal_dummy_bits = 0,
      hal_tx_bitlen = bits, hal_rx_bitlen = bits, hal_send_buffer = send, hal_rcv_buffer = rcv,
      hal_cs_keep_active = False, hal_data_lines = 1, hal_addr_lines = 1, hal_cmd_lines = 1\<rparr>"

definition in_place :: "u32 \<Rightarrow> spi_trans_priv \<Rightarrow> bool" where
  "in_place base pr \<longleftrightarrow>
     (buffer_to_send pr = Tx_data_ptr \<or> buffer_to_send pr = union_ptr (tr_tx (priv_trans pr))) \<and>
     (buffer_to_rcv pr = Null_ptr \<or> buffer_to_rcv pr = Rx_data_ptr)"

lemma uninstall_in_place: "in_place (frame_base s) pr \<Longrightarrow> uninstall_priv_desc pr s = (priv_trans pr, s)"
  by (auto simp: uninstall_priv_desc_def in_place_def Let_def)

lemma receive_in_place:
  "in_place base pr \<Longrightarrow> \<exists>pr'. receive pr rx s = (pr', s) \<and> in_place base pr' \<and>
     (buffer_to_rcv pr = Rx_data_ptr \<longrightarrow> tr_rx (priv_trans pr') =
        Bytes (take (unat (byte_len (tr_rxlength (priv_trans pr)))) rx @
          drop (min (length rx) (unat (byte_len (tr_rxlength (priv_trans pr)))))
            (union_bytes (tr_rx (priv_trans pr)))))"
  by (auto simp: receive_def in_place_def Let_def min.commute)

lemma set_host_fields [frame, simp]:
  "environ (set_host f s) = environ s" "log (set_host f s) = log s" "mem (set_host f s) = mem s"
  "frame_base (set_host f s) = frame_base s" "heap_live (set_host f s) = heap_live s" "host (set_host f s) = f (host s)"
  by (simp_all add: set_host_def)

lemma set_host_set_host [simp]: "set_host f (set_host g s) = set_host (\<lambda>h. f (g h)) s"
  by (simp add: set_host_def)

text \<open>Copying and freeing buffers does not look at the host.\<close>

lemma uninstall_set_host:
  "uninstall_priv_desc pr (set_host f s) = map_prod id (set_host f) (uninstall_priv_desc pr s)"
  by (simp add: uninstall_priv_desc_def dma_free_def set_host_def Let_def)

lemma receive_set_host: "receive pr rx (set_host f s) = map_prod id (set_host f) (receive pr rx s)"
  by (simp add: receive_def set_host_def Let_def split: bufptr.split)

lemma emit_set_host: "emit x (set_host f s) = set_host f (emit x s)"
  by (simp add: emit_def set_host_def)

text \<open>
  One polling transfer on a working bus, once the buffers are set up: the bytes of the send buffer
  are on the wire once, the bytes received are stored, the buffers are given back, and the bus is idle
  again.
\<close>

lemma transmit_ready:
  fixes s s0 :: "'a spi_machine_scheme"
  assumes ready: "bus_ready i s"
    and valid: "check_trans_valid (host s) (Some i) t = (ESP_OK, t1)"
    and bufs: "setup_priv_desc (host s) t1 s = (ESP_OK, pr, s0)" and pr: "priv_trans pr = t1"
    and s0: "host s0 = host s" "environ s0 = environ s" "frame_base s0 = frame_base s"
    and cs: "\<not> flag (tr_flags t1) SPI_TRANS_CS_KEEP_ACTIVE"
  defines "cfg \<equiv> spi_format_hal_trans_struct (devices (host s) i) pr (frame_base s)"
  defines "tx \<equiv> buffer_bytes t1 (mem s0) (buffer_to_send pr) (unat (byte_len (tr_length t1)))"
  shows "\<exists>h rx. wire (environ s) (log s0) cfg tx = Some rx \<and> length rx = unat (byte_len (tr_rxlength t1)) \<and>
    host_idle i h \<and> spi_device_polling_transmit (Some i) t s =
      (case receive pr rx (emit (Xfer cfg tx rx) s0) of (pr1, s1) \<Rightarrow>
         case uninstall_priv_desc pr1 s1 of (t2, s2) \<Rightarrow> Inr (ESP_OK, t2, set_host (\<lambda>_. h) s2))"
proof -
  have h: "device_ok i (host s)" "lock_free (bus_lock (host s))" "\<not> polling (host s)"
      "device_acquiring_lock (host s) = None" and i: "i < MAX_DEV_NUM" and w: "wire_ok (environ s)"
    using ready by (auto simp: bus_ready_def host_idle_def)
  note l = h(2) [unfolded lock_free_def]
  have id: "dev_id (devices (host s) i) = i"
    using h(1) by (simp add: device_ok_def)
  define h1 where "h1 = spi_new_trans i ((host s)\<lparr>bus_lock := (bus_lock (host s))\<lparr>semphr := (semphr (bus_lock (host s)))(i := False),
      status := DEV_MASK i AND LOCK_MASK, acquiring_dev := Some i\<rparr>, polling := True, cur_trans := pr\<rparr>)"
  have start: "spi_device_polling_start (Some i) t portMAX_DELAY s = Inr (ESP_OK, t1, set_host (\<lambda>_. h1) s0)"
    using h(3,4) l cs
    by (simp add: spi_device_polling_start_def valid bufs spi_bus_device_is_polling_def acquire_start_free h1_def s0 Let_def)
      (simp add: set_host_def s0)
  have host1: "devices h1 = devices (host s)" "cur_cs h1 = i" "cur_trans h1 = pr" "device_acquiring_lock h1 = None"
      "acquiring_dev (bus_lock h1) = Some i" "status (bus_lock h1) = DEV_MASK i AND LOCK_MASK"
    using id h(4) by (simp_all add: h1_def spi_new_trans_def spi_bus_lock_touch_def)
  have bitlen: "hal_rx_bitlen cfg = tr_rxlength t1"
    by (simp add: cfg_def spi_format_hal_trans_struct_def pr(1) Let_def)
  obtain rx where rx: "wire (environ s) (log s0) cfg tx = Some rx" "length rx = unat (byte_len (tr_rxlength t1))"
    using w bitlen by (metis wire_ok_def)
  define h2 where "h2 = h1\<lparr>cur_cs := DEV_NUM_MAX, polling := False,
      bus_lock := (bus_lock h1)\<lparr>status := 0, acquiring_dev := None, acq_dev_bg_active := False\<rparr>\<rparr>"
  obtain pr1 s1 where r: "receive pr rx (emit (Xfer cfg tx rx) s0) = (pr1, s1)" by fastforce
  obtain t2 s2 where u: "uninstall_priv_desc pr1 s1 = (t2, s2)" by fastforce
  have "spi_device_polling_end (Some i) portMAX_DELAY (set_host (\<lambda>_. h1) s0) = Inr (ESP_OK, t2, set_host (\<lambda>_. h2) s2)"
    using rx id
    by (simp add: spi_device_polling_end_def host1 pr s0 cfg_def [symmetric] tx_def [symmetric] Let_def emit_set_host
        receive_set_host uninstall_set_host r u acquire_end_alone [OF i host1(6) host1(5)])
      (simp add: h2_def)
  then have "spi_device_polling_transmit (Some i) t s = Inr (ESP_OK, t2, set_host (\<lambda>_. h2) s2)"
    by (simp add: spi_device_polling_transmit_def start)
  moreover have "host_idle i h2"
    using h(1,4) by (simp add: host_idle_def h2_def h1_def lock_free_def device_ok_def spi_new_trans_def)
  ultimately show ?thesis using rx r u by auto
qed

text \<open>With the buffers used where they are, memory and heap are untouched.\<close>

lemma transmit_in_place:
  fixes s :: "'a spi_machine_scheme"
  assumes ready: "bus_ready i s"
    and valid: "check_trans_valid (host s) (Some i) t = (ESP_OK, t1)"
    and bufs: "setup_priv_desc (host s) t1 s = (ESP_OK, pr, s)"
    and pr: "priv_trans pr = t1" "in_place (frame_base s) pr"
    and cs: "\<not> flag (tr_flags t1) SPI_TRANS_CS_KEEP_ACTIVE"
  shows "\<exists>h rx t2. spi_device_polling_transmit (Some i) t s =
    Inr (ESP_OK, t2, s\<lparr>log := Xfer (spi_format_hal_trans_struct (devices (host s) i) pr (frame_base s))
        (buffer_bytes t1 (mem s) (buffer_to_send pr) (unat (byte_len (tr_length t1)))) rx # log s,
      host := h\<rparr>) \<and> host_idle i h \<and> length rx = unat (byte_len (tr_rxlength t1)) \<and>
    wire (environ s) (log s) (spi_format_hal_trans_struct (devices (host s) i) pr (frame_base s))
        (buffer_bytes t1 (mem s) (buffer_to_send pr) (unat (byte_len (tr_length t1)))) = Some rx \<and>
    (buffer_to_rcv pr = Rx_data_ptr \<longrightarrow>
      tr_rx t2 = Bytes (rx @ drop (length rx) (union_bytes (tr_rx t1))))"
proof -
  let ?cfg = "spi_format_hal_trans_struct (devices (host s) i) pr (frame_base s)"
  let ?tx = "buffer_bytes t1 (mem s) (buffer_to_send pr) (unat (byte_len (tr_length t1)))"
  obtain h rx where t: "wire (environ s) (log s) ?cfg ?tx = Some rx" "length rx = unat (byte_len (tr_rxlength t1))"
    "host_idle i h" "spi_device_polling_transmit (Some i) t s =
      (case receive pr rx (emit (Xfer ?cfg ?tx rx) s) of (pr1, s1) \<Rightarrow>
         case uninstall_priv_desc pr1 s1 of (t2, s2) \<Rightarrow> Inr (ESP_OK, t2, set_host (\<lambda>_. h) s2))"
    using transmit_ready [OF ready valid bufs pr(1) refl refl refl cs] by blast
  obtain pr2 where pr2: "receive pr rx (emit (Xfer ?cfg ?tx rx) s) = (pr2, emit (Xfer ?cfg ?tx rx) s)"
      "in_place (frame_base s) pr2"
      "buffer_to_rcv pr = Rx_data_ptr \<longrightarrow>
        tr_rx (priv_trans pr2) = Bytes (rx @ drop (length rx) (union_bytes (tr_rx t1)))"
    using receive_in_place [OF pr(2), of rx "emit (Xfer ?cfg ?tx rx) s"] t(2) by (auto simp: pr(1))
  then show ?thesis
    using t uninstall_in_place [of "emit (Xfer ?cfg ?tx rx) s" pr2]
    by (intro exI [of _ h] exI [of _ rx] exI [of _ "priv_trans pr2"]) (simp add: emit_def set_host_def)
qed

section \<open>Buffers that need a copy\<close>

lemma store_outside: "(\<And>i. i < length bs \<Longrightarrow> x \<noteq> a + of_nat i) \<Longrightarrow> store m a bs x = m x"
proof (induction bs arbitrary: m a)
  case (Cons b bs)
  have "x \<noteq> a" using Cons.prems [of 0] by simp
  have "x \<noteq> a + 1 + of_nat i" if "i < length bs" for i
    using Cons.prems [of "Suc i"] that by (simp add: add.assoc)
  then have "store (m(a := b)) (a + 1) bs x = (m(a := b)) x" by (rule Cons.IH)
  also have "\<dots> = m x" using \<open>x \<noteq> a\<close> by simp
  finally show ?case by simp
qed simp

lemma step_back: "1 + of_nat i \<noteq> (0 :: u32)" if "i + 1 < 2 ^ 32"
proof -
  have "(of_nat (Suc i) :: u32) \<noteq> 0"
    using that by (simp add: word_of_nat_eq_0_iff nat_dvd_not_less del: of_nat_Suc)
  then show ?thesis by simp
qed

lemma load_Suc: "load m a (Suc n) = m a # load m (a + 1) n"
  using load_append [of m a 1 n] by (simp add: load_def)

lemma load_store: "length bs \<le> 2 ^ 32 \<Longrightarrow> load (store m a bs) a (length bs) = bs"
proof (induction bs arbitrary: m a)
  case Nil
  show ?case by (simp add: load_def)
next
  case (Cons b bs)
  have "store (m(a := b)) (a + 1) bs a = (m(a := b)) a"
  proof (rule store_outside)
    fix i
    assume "i < length bs"
    then have "1 + of_nat i \<noteq> (0 :: u32)" using Cons.prems by (intro step_back) simp
    then show "a \<noteq> a + 1 + of_nat i" by (simp only: add.assoc) (metis add_cancel_right_right)
  qed
  moreover have "load (store (m(a := b)) (a + 1) bs) (a + 1) (length bs) = bs"
    using Cons.prems by (intro Cons.IH) simp
  ultimately show ?case by (simp only: store.simps list.size load_Suc add_Suc_right add_0_right fun_upd_same)
qed

lemma unat_le_32: "unat x \<le> 2 ^ 32" for x :: u32
  using unsigned_less [of x, where ?'a = nat] by simp

text \<open>What the allocator promises of a block: it is there, fit for DMA, and not the caller's descriptor.\<close>

definition dma_block :: "u32 \<Rightarrow> u32 \<Rightarrow> bool" where
  "dma_block base p \<longleftrightarrow> p \<noteq> 0 \<and> esp_ptr_dma_capable p \<and> p \<noteq> base + 32 \<and> p \<noteq> base + 36"

lemma setup_copies:
  assumes "dma_enabled (bus_attr h)" "internal_mem_align_size (bus_attr h) = 4"
    and "tr_tx t = Buffer (Addr a)" "tr_rx t = Buffer (Addr b)" "tr_flags t = 0"
    and "\<not> esp_ptr_dma_capable a" "\<not> esp_ptr_dma_capable b"
    and "dma_alloc (environ s) (log s) (heap_live s) (up_align 4 (byte_len (tr_length t))) = p" "p \<noteq> 0"
    and "dma_alloc (environ s) (log s) (p # heap_live s) (up_align 4 (byte_len (tr_rxlength t))) = q" "q \<noteq> 0"
  shows "setup_priv_desc h t s =
    (ESP_OK, \<lparr>priv_trans = t, buffer_to_send = Addr p, buffer_to_rcv = Addr q\<rparr>,
     s\<lparr>mem := store (mem s) p (load (mem s) a (unat (byte_len (tr_length t)))), heap_live := q # p # heap_live s\<rparr>)"
  using assms
  by (simp add: setup_priv_desc_def flag_def union_ptr_def ptr_addr_def dma_malloc_def buffer_bytes_def Let_def)

lemma remove1_twice [simp]: "remove1 q (remove1 p (q # p # xs)) = xs"
  by (cases "p = q") simp_all

lemma uninstall_copies:
  assumes "tr_tx t = Buffer (Addr a)" "tr_rx t = Buffer (Addr b)" "tr_flags t = 0"
    and "\<not> esp_ptr_dma_capable a" "\<not> esp_ptr_dma_capable b"
    and "dma_block (frame_base s) p" "dma_block (frame_base s) q" "heap_live s = q # p # live"
  shows "uninstall_priv_desc \<lparr>priv_trans = t, buffer_to_send = Addr p, buffer_to_rcv = Addr q\<rparr> s =
    (t, s\<lparr>mem := store (mem s) b (load (mem s) q (unat (byte_len (tr_rxlength t)))), heap_live := live\<rparr>)"
proof -
  have "p \<noteq> a" "q \<noteq> b" using assms by (auto simp: dma_block_def)
  then show ?thesis
    using assms
    by (simp add: uninstall_priv_desc_def dma_block_def dma_free_def union_ptr_def ptr_addr_def flag_def Let_def
        del: remove1.simps)
qed

text \<open>
  C17: A polling transmission of buffers that the DMA cannot reach goes through copies: the bytes
  of the send buffer are on the wire once, the bytes of the slave end up in the receive buffer,
  and both copies are given back.
\<close>

theorem polling_transmit_copies:
  fixes s :: "'a spi_machine_scheme"
  assumes "bus_ready i s" "check_trans_valid (host s) (Some i) t = (ESP_OK, t1)"
    and "tr_tx t1 = Buffer (Addr a)" "tr_rx t1 = Buffer (Addr b)" "tr_flags t1 = 0"
    and "\<not> esp_ptr_dma_capable a" "\<not> esp_ptr_dma_capable b"
    and "dma_alloc (environ s) (log s) (heap_live s) (up_align 4 (byte_len (tr_length t1))) = p"
    and "dma_alloc (environ s) (log s) (p # heap_live s) (up_align 4 (byte_len (tr_rxlength t1))) = q"
    and "dma_block (frame_base s) p" "dma_block (frame_base s) q"
  shows "\<exists>h rx cfg s'. spi_device_polling_transmit (Some i) t s = Inr (ESP_OK, t1, s') \<and>
    s' = s\<lparr>log := Xfer cfg (load (mem s) a (unat (byte_len (tr_length t1)))) rx # log s, host := h,
      mem := store (store (store (mem s) p (load (mem s) a (unat (byte_len (tr_length t1))))) q rx) b rx\<rparr> \<and>
    wire (environ s) (log s) cfg (load (mem s) a (unat (byte_len (tr_length t1)))) = Some rx \<and>
    hal_send_buffer cfg = p \<and> hal_rcv_buffer cfg = q \<and>
    load (mem s') b (unat (byte_len (tr_rxlength t1))) = rx \<and> heap_live s' = heap_live s \<and> host_idle i h"
proof -
  let ?n = "unat (byte_len (tr_length t1))" and ?k = "unat (byte_len (tr_rxlength t1))"
  let ?tx = "load (mem s) a ?n"
  let ?pr = "\<lparr>priv_trans = t1, buffer_to_send = Addr p, buffer_to_rcv = Addr q\<rparr>"
  let ?s0 = "s\<lparr>mem := store (mem s) p ?tx, heap_live := q # p # heap_live s\<rparr>"
  let ?cfg = "spi_format_hal_trans_struct (devices (host s) i) ?pr (frame_base s)"
  have attr: "dma_enabled (bus_attr (host s))" "internal_mem_align_size (bus_attr (host s)) = 4"
    using assms(1) by (simp_all add: bus_ready_def host_idle_def device_ok_def)
  have su: "setup_priv_desc (host s) t1 s = (ESP_OK, ?pr, ?s0)"
    using assms(10,11) by (intro setup_copies [OF attr assms(3-8) _ assms(9)]) (simp_all add: dma_block_def)
  have small: "length (load m x ?n) \<le> 2 ^ 32" for m x
    using unat_le_32 [of "byte_len (tr_length t1)"] by simp
  have tx: "buffer_bytes t1 (mem ?s0) (Addr p) ?n = ?tx"
    using load_store [OF small, of "mem s" p "mem s" a] by (simp add: buffer_bytes_def)
  obtain h rx where t: "wire (environ s) (log s) ?cfg ?tx = Some rx" "length rx = ?k" "host_idle i h"
    "spi_device_polling_transmit (Some i) t s =
      (case receive ?pr rx (emit (Xfer ?cfg ?tx rx) ?s0) of (pr1, s1) \<Rightarrow>
         case uninstall_priv_desc pr1 s1 of (t2, s2) \<Rightarrow> Inr (ESP_OK, t2, set_host (\<lambda>_. h) s2))"
    using transmit_ready [OF assms(1,2) su] tx assms(5) by (auto simp: flag_def)
  have len: "length rx \<le> 2 ^ 32" using t(2) unat_le_32 [of "byte_len (tr_rxlength t1)"] by simp
  define s1 where "s1 = (emit (Xfer ?cfg ?tx rx) ?s0)\<lparr>mem := store (store (mem s) p ?tx) q rx\<rparr>"
  have r: "receive ?pr rx (emit (Xfer ?cfg ?tx rx) ?s0) = (?pr, s1)"
    using t(2) by (simp add: receive_def s1_def emit_def)
  have u: "uninstall_priv_desc ?pr s1 = (t1, s1\<lparr>mem := store (mem s1) b rx, heap_live := heap_live s\<rparr>)"
    using uninstall_copies [OF assms(3-7), of s1 p q "heap_live s"] assms(10,11) load_store [OF len, of "store (mem s) p ?tx" q] t(2)
    by (simp add: s1_def emit_def)
  show ?thesis
    using t(1,3,4) load_store [OF len, of "store (store (mem s) p ?tx) q rx" b] t(2) r u
    by (intro exI [of _ h] exI [of _ rx] exI [of _ ?cfg])
      (simp add: s1_def emit_def set_host_def spi_format_hal_trans_struct_def ptr_addr_def Let_def)
qed

definition dma_host :: spi_host where
  "dma_host = \<lparr>host_id = SPI3_HOST, devices = (\<lambda>i. \<lparr>dev_id = i, cfg_command_bits = 8, cfg_address_bits = 0,
       cfg_dummy_bits = 0, cfg_flags = 0, timing_dummy = False\<rparr>), device_set = (\<lambda>i. i = 0), cur_cs = 0,
     cur_trans = \<lparr>priv_trans = trans0, buffer_to_send = Null_ptr, buffer_to_rcv = Null_ptr\<rparr>,
     bus_attr = \<lparr>max_transfer_sz = 8184, dma_enabled = True, internal_mem_align_size = 4\<rparr>,
     device_acquiring_lock = None, polling = False, bus_lock = spi_bus_init_lock 3\<rparr>"

text \<open>An allocator with room for two blocks, and a slave that answers with its own bytes.\<close>

definition roomy_machine :: spi_machine where
  "roomy_machine = \<lparr>environ = \<lparr>wire = (\<lambda>_ cfg _. Some (replicate (unat (byte_len (hal_rx_bitlen cfg))) 0xA5)),
       dma_alloc = (\<lambda>_ live n. 0x3FCA0000 + 64 * of_nat (length live)), pin_level = (\<lambda>_ _. False), poll_budget = 0,
       step_result = (\<lambda>_. ESP_OK), clk_src_hz = 80000000, stray_int = (\<lambda>_. 0)\<rparr>,
     log = [], mem = (\<lambda>a. ucast a), frame_base = 0x3FC90000, heap_live = [], host = dma_host,
     periph_claimed = True, bus_ctx_set = True, bus_driver_ctx_set = True\<rparr>"

definition flash_trans :: spi_transaction where
  "flash_trans = trans0\<lparr>tr_length := 64, tr_rxlength := 32, tr_tx := Buffer (Addr 0x3C000000), tr_rx := Buffer (Addr 0x3D000000)\<rparr>"

lemma polling_transmit_copies_witness:
  "\<exists>s'. spi_device_polling_transmit (Some 0) flash_trans roomy_machine = Inr (ESP_OK, flash_trans, s') \<and>
     load (mem s') 0x3D000000 4 = [0xA5, 0xA5, 0xA5, 0xA5] \<and> heap_live s' = []"
proof -
  have "bus_ready 0 roomy_machine"
    by (simp add: bus_ready_def roomy_machine_def dma_host_def host_idle_def device_ok_def lock_free_def wire_ok_def
        frame_ok_def esp_ptr_dma_capable_def spi_bus_init_lock_def MAX_DEV_NUM_def)
  moreover have "check_trans_valid (host roomy_machine) (Some 0) flash_trans = (ESP_OK, flash_trans)"
    by code_simp
  moreover have "dma_block 0x3FC90000 0x3FCA0000" "dma_block 0x3FC90000 0x3FCA0040"
      "\<not> esp_ptr_dma_capable 0x3C000000" "\<not> esp_ptr_dma_capable 0x3D000000"
    by (simp_all add: dma_block_def esp_ptr_dma_capable_def)
  ultimately obtain h rx cfg s' tx where t: "spi_device_polling_transmit (Some 0) flash_trans roomy_machine = Inr (ESP_OK, flash_trans, s')"
      "wire (environ roomy_machine) [] cfg tx = Some rx" "load (mem s') 0x3D000000 (unat (byte_len 32)) = rx" "heap_live s' = []"
    using polling_transmit_copies [of 0 roomy_machine flash_trans flash_trans "0x3C000000" "0x3D000000" "0x3FCA0000" "0x3FCA0040"]
    by (auto simp: flash_trans_def trans0_def roomy_machine_def)
  have "unat (byte_len 32) = 4" by (simp add: byte_len_def)
  moreover from this have "rx = replicate 4 0xA5"
    using t(2) length_load [of "mem s'" "0x3D000000" "unat (byte_len 32)"] unfolding t(3)
    by (auto simp: roomy_machine_def)
  ultimately show ?thesis using t by (auto simp: numeral_eq_Suc)
qed

section \<open>Running out of memory\<close>

text \<open>
  When both buffers of a transaction need a temporary copy and the memory runs out at the
  second, the transaction is refused, but the copy made for the send buffer is never freed.
\<close>

theorem setup_priv_desc_leaks_tx:
  fixes s :: "'a machine_scheme"
  assumes "dma_enabled (bus_attr h)" "tr_tx t = Buffer (Addr a)" "tr_rx t = Buffer (Addr b)"
    and "\<not> esp_ptr_dma_capable a" "\<not> esp_ptr_dma_capable b" "tr_flags t = 0"
    and "dma_alloc (environ s) (log s) (heap_live s)
      (up_align (ucast (internal_mem_align_size (bus_attr h))) (byte_len (tr_length t))) = p" "p \<noteq> 0"
    and "dma_alloc (environ s) (log s) (p # heap_live s)
      (up_align (ucast (internal_mem_align_size (bus_attr h))) (byte_len (tr_rxlength t))) = 0"
  shows "\<exists>pr s'. setup_priv_desc h t s = (ESP_ERR_NO_MEM, pr, s') \<and> heap_live s' = p # heap_live s \<and>
    buffer_to_send pr = Null_ptr"
  using assms
  by (simp add: setup_priv_desc_def flag_def union_ptr_def ptr_addr_def dma_malloc_def
      uninstall_priv_desc_def dma_free_def Let_def)

definition tight_env :: env where
  "tight_env = \<lparr>wire = (\<lambda>_ _ _. None), dma_alloc = (\<lambda>_ live n. if live = [] then 0x3FCA0000 else 0),
     pin_level = (\<lambda>_ _. False), poll_budget = 0, step_result = (\<lambda>_. ESP_OK), clk_src_hz = 80000000,
     stray_int = (\<lambda>_. 0)\<rparr>"

definition tight_machine :: machine where
  "tight_machine = \<lparr>environ = tight_env, log = [], mem = (\<lambda>_. 0), frame_base = 0x3FC90000, heap_live = []\<rparr>"

lemma setup_priv_desc_leaks_tx_witness:
  "\<exists>pr s'. setup_priv_desc dma_host (trans0\<lparr>tr_length := 64, tr_rxlength := 64, tr_tx := Buffer (Addr 0x3C000000),
       tr_rx := Buffer (Addr 0x3D000000)\<rparr>) tight_machine = (ESP_ERR_NO_MEM, pr, s') \<and> heap_live s' = [0x3FCA0000]"
  using setup_priv_desc_leaks_tx [of dma_host "trans0\<lparr>tr_length := 64, tr_rxlength := 64,
      tr_tx := Buffer (Addr 0x3C000000), tr_rx := Buffer (Addr 0x3D000000)\<rparr>" "0x3C000000" "0x3D000000"
      tight_machine "0x3FCA0000"]
  by (auto simp: dma_host_def trans0_def tight_machine_def tight_env_def esp_ptr_dma_capable_def)

end
