(* ===== verification/RA8875_Io.thy ===== *)
theory RA8875_Io
  imports Spi_Master
begin

text \<open>
  The register interface of the panel (\<open>components/RA8875/io.c\<close>): one polling transfer per
  call, checked by an \<open>assert\<close>. The frames are read back as panel operations, and the
  interface that the rest of the driver uses is the locale \<open>register_port\<close>.
\<close>

section \<open>The functions of io.c\<close>

record RA8875_context =
  spi_device :: handle
  pin_int :: int

definition RA8875_DATAWRITE :: u16 where "RA8875_DATAWRITE = 0x00"
definition RA8875_DATAREAD :: u16 where "RA8875_DATAREAD = 0x40"
definition RA8875_CMDWRITE :: u16 where "RA8875_CMDWRITE = 0x80"
definition RA8875_CMDREAD :: u16 where "RA8875_CMDREAD = 0xC0"

definition assert_ok ::
  "(esp_err_t \<times> spi_transaction \<times> 's) outcome \<Rightarrow> (spi_transaction \<times> 's) outcome" where
  "assert_ok r = bindr r (\<lambda>(ret, t, s). if ret = ESP_OK then Inr (t, s) else Inl Assert_Failed)"

definition RA8875_write_command ::
  "RA8875_context \<Rightarrow> u8 \<Rightarrow> 'a spi_machine_scheme \<Rightarrow> 'a spi_machine_scheme outcome" where
  "RA8875_write_command ctx reg s =
     bindr (assert_ok (spi_device_polling_transmit (spi_device ctx)
       (trans0\<lparr>tr_length := 8, tr_cmd := RA8875_CMDWRITE, tr_tx := Bytes [reg, 0, 0, 0],
               tr_flags := SPI_TRANS_USE_TXDATA\<rparr>) s))
       (\<lambda>(t, s'). Inr s')"

definition RA8875_write_data ::
  "RA8875_context \<Rightarrow> u8 \<Rightarrow> 'a spi_machine_scheme \<Rightarrow> 'a spi_machine_scheme outcome" where
  "RA8875_write_data ctx v s =
     bindr (assert_ok (spi_device_polling_transmit (spi_device ctx)
       (trans0\<lparr>tr_length := 8, tr_cmd := RA8875_DATAWRITE, tr_tx := Bytes [v, 0, 0, 0],
               tr_flags := SPI_TRANS_USE_TXDATA\<rparr>) s))
       (\<lambda>(t, s'). Inr s')"

definition RA8875_write_data_block ::
  "RA8875_context \<Rightarrow> u32 \<Rightarrow> int \<Rightarrow> 'a spi_machine_scheme \<Rightarrow> 'a spi_machine_scheme outcome" where
  "RA8875_write_data_block ctx buffer nbytes s =
     bindr (assert_ok (spi_device_polling_transmit (spi_device ctx)
       (trans0\<lparr>tr_length := word_of_int (nbytes * 8), tr_cmd := RA8875_DATAWRITE,
               tr_tx := Buffer (if buffer = 0 then Null_ptr else Addr buffer), tr_flags := 0\<rparr>) s))
       (\<lambda>(t, s'). Inr s')"

definition RA8875_read_data ::
  "RA8875_context \<Rightarrow> 'a spi_machine_scheme \<Rightarrow> (u8 \<times> 'a spi_machine_scheme) outcome" where
  "RA8875_read_data ctx s =
     bindr (assert_ok (spi_device_polling_transmit (spi_device ctx)
       (trans0\<lparr>tr_length := 8, tr_cmd := RA8875_DATAREAD, tr_tx := Bytes [0, 0, 0, 0],
               tr_flags := SPI_TRANS_USE_TXDATA OR SPI_TRANS_USE_RXDATA\<rparr>) s))
       (\<lambda>(t, s'). Inr (union_bytes (tr_rx t) ! 0, s'))"

definition RA8875_write_register ::
  "RA8875_context \<Rightarrow> u8 \<Rightarrow> u8 \<Rightarrow> 'a spi_machine_scheme \<Rightarrow> 'a spi_machine_scheme outcome" where
  "RA8875_write_register ctx reg v s =
     bindr (assert_ok (spi_device_polling_transmit (spi_device ctx)
       (trans0\<lparr>tr_length := 24, tr_cmd := RA8875_CMDWRITE,
               tr_tx := Bytes [reg, ucast RA8875_DATAWRITE, v, 0],
               tr_flags := SPI_TRANS_USE_TXDATA\<rparr>) s))
       (\<lambda>(t, s'). Inr s')"

definition RA8875_read_register ::
  "RA8875_context \<Rightarrow> u8 \<Rightarrow> 'a spi_machine_scheme \<Rightarrow> (u8 \<times> 'a spi_machine_scheme) outcome" where
  "RA8875_read_register ctx reg s =
     bindr (assert_ok (spi_device_polling_transmit (spi_device ctx)
       (trans0\<lparr>tr_length := 24, tr_cmd := RA8875_CMDWRITE,
               tr_tx := Bytes [reg, ucast RA8875_DATAREAD, 0, 0],
               tr_flags := SPI_TRANS_USE_TXDATA OR SPI_TRANS_USE_RXDATA\<rparr>) s))
       (\<lambda>(t, s'). Inr (union_bytes (tr_rx t) ! 2, s'))"

section \<open>What the panel is asked to do\<close>

text \<open>
  A frame starts with a prefix byte: after \<open>CMDWRITE\<close> one register number and then another
  prefix, after \<open>DATAWRITE\<close> data for the selected register, after \<open>DATAREAD\<close> one read per byte.
\<close>

datatype panel_op = Select u8 | Put_Data u8 | Get_Data

fun panel_ops :: "u8 list \<Rightarrow> panel_op list" where
  "panel_ops (p # bs) =
     (if p = 0x80 then (case bs of [] \<Rightarrow> [] | r # bs' \<Rightarrow> Select r # panel_ops bs')
      else if p = 0 then map Put_Data bs
      else if p = 0x40 then map (\<lambda>_. Get_Data) bs
      else [])"
| "panel_ops [] = []"

definition event_ops :: "event \<Rightarrow> panel_op list" where
  "event_ops e = (case e of Xfer cfg tx rx \<Rightarrow> panel_ops (ucast (hal_cmd cfg) # tx) | _ \<Rightarrow> [])"

definition ops :: "'a machine_scheme \<Rightarrow> panel_op list" where
  "ops s = concat (map event_ops (rev (log s)))"

lemma ops_emit [simp]: "ops (emit e s) = ops s @ event_ops e"
  by (simp add: ops_def)

lemma event_ops_simps [simp]:
  "event_ops (Delay n) = []" "event_ops (Pin_Read n b) = []" "event_ops (Put m) = []"
  by (simp_all add: event_ops_def)

section \<open>One transfer on a working bus\<close>

text \<open>
  \<open>sends i os s s'\<close>: between \<open>s\<close> and \<open>s'\<close> the panel was asked \<open>os\<close>; nothing but the log and the
  state of the host driver changed, and the bus is idle again.
\<close>

definition bus_only :: "'a spi_machine_scheme \<Rightarrow> 'a spi_machine_scheme \<Rightarrow> bool" where
  "bus_only s s' \<longleftrightarrow> s' = s\<lparr>log := log s', host := host s'\<rparr>"

definition sends :: "nat \<Rightarrow> panel_op list \<Rightarrow> 'a spi_machine_scheme \<Rightarrow> 'a spi_machine_scheme \<Rightarrow> bool" where
  "sends i os s s' \<longleftrightarrow> bus_only s s' \<and> host_idle i (host s') \<and> ops s' = ops s @ os"

lemma bus_only_update: "bus_only s (s\<lparr>log := l, host := h\<rparr>)"
  by (simp add: bus_only_def)

lemma bus_only_fields:
  assumes "bus_only s s'"
  shows "environ s' = environ s" "mem s' = mem s" "frame_base s' = frame_base s"
    "heap_live s' = heap_live s" "spi_machine.more s' = spi_machine.more s"
    "s'\<lparr>log := l, host := h\<rparr> = s\<lparr>log := l, host := h\<rparr>"
  by (subst assms [unfolded bus_only_def], simp)+

lemma bus_only_trans: "bus_only s t \<Longrightarrow> bus_only t u \<Longrightarrow> bus_only s u"
  unfolding bus_only_def by (metis bus_only_def bus_only_fields(6))

lemma sends_trans: "sends i xs s t \<Longrightarrow> sends i ys t u \<Longrightarrow> sends i (xs @ ys) s u"
  by (auto simp: sends_def intro: bus_only_trans)

lemma sends_Nil: "host_idle i (host s) \<Longrightarrow> sends i [] s s"
  by (simp add: sends_def bus_only_def)

lemma sends_ready: "sends i os s s' \<Longrightarrow> bus_ready i s \<Longrightarrow> bus_ready i s'"
  by (auto simp: sends_def bus_ready_def dest: bus_only_fields(1,3))

lemma sends_same:
  assumes "sends i os s s'"
  shows "environ s' = environ s" "mem s' = mem s" "frame_base s' = frame_base s"
    "heap_live s' = heap_live s" "spi_machine.more s' = spi_machine.more s"
  using assms by (auto simp: sends_def dest: bus_only_fields)

lemma sends_ops: "sends i os s s' \<Longrightarrow> ops s' = ops s @ os"
  by (simp add: sends_def)

definition last_rx :: "'a machine_scheme \<Rightarrow> u8 list" where
  "last_rx s = (case log s of Xfer cfg tx rx # _ \<Rightarrow> rx | _ \<Rightarrow> [])"

definition small_trans :: "u32 \<Rightarrow> u16 \<Rightarrow> u8 list \<Rightarrow> u32 \<Rightarrow> spi_transaction" where
  "small_trans bits c bs fs =
     trans0\<lparr>tr_length := bits, tr_cmd := c, tr_tx := Bytes bs, tr_flags := fs\<rparr>"

lemma small_trans_fields [simp]:
  "tr_length (small_trans bits c bs fs) = bits" "tr_cmd (small_trans bits c bs fs) = c"
  "tr_tx (small_trans bits c bs fs) = Bytes bs" "tr_flags (small_trans bits c bs fs) = fs"
  "tr_rxlength (small_trans bits c bs fs) = 0" "tr_rx (small_trans bits c bs fs) = Bytes [0, 0, 0, 0]"
  by (simp_all add: small_trans_def trans0_def)

definition small_flags :: "u32 \<Rightarrow> bool" where
  "small_flags fs \<longleftrightarrow> fs = SPI_TRANS_USE_TXDATA \<or> fs = SPI_TRANS_USE_TXDATA OR SPI_TRANS_USE_RXDATA"

lemma small_trans_valid:
  "device_ok i h \<Longrightarrow> bits \<in> {8, 24} \<Longrightarrow> small_flags fs \<Longrightarrow>
   check_trans_valid h (Some i) (small_trans bits c bs fs) =
     (ESP_OK, (small_trans bits c bs fs)\<lparr>tr_rxlength := bits\<rparr>)"
  by (auto simp: check_trans_valid_def device_ok_def flag_def spi_flag_defs Let_def
      SPI_LL_DMA_MAX_BIT_LEN_def small_flags_def)

definition small_priv :: "u32 \<Rightarrow> u16 \<Rightarrow> u8 list \<Rightarrow> u32 \<Rightarrow> spi_trans_priv" where
  "small_priv bits c bs fs =
     \<lparr>priv_trans = (small_trans bits c bs fs)\<lparr>tr_rxlength := bits\<rparr>, buffer_to_send = Tx_data_ptr,
      buffer_to_rcv = (if flag fs SPI_TRANS_USE_RXDATA then Rx_data_ptr else Null_ptr)\<rparr>"

lemma small_trans_setup:
  "device_ok i h \<Longrightarrow> frame_ok (frame_base s) \<Longrightarrow> small_flags fs \<Longrightarrow>
   setup_priv_desc h ((small_trans bits c bs fs)\<lparr>tr_rxlength := bits\<rparr>) s =
     (ESP_OK, small_priv bits c bs fs, s)"
  by (auto simp: setup_priv_desc_def device_ok_def flag_def spi_flag_defs Let_def
      small_flags_def small_priv_def frame_ok_def ptr_addr_def)

lemma small_transfer:
  fixes s :: "'a spi_machine_scheme"
  assumes ready: "bus_ready i s" and bits: "bits \<in> {8, 24}" and fs: "small_flags fs"
    and len: "length bs = 4"
  shows "\<exists>t s'. assert_ok (spi_device_polling_transmit (Some i) (small_trans bits c bs fs) s) = Inr (t, s') \<and>
    sends i (panel_ops (ucast c # take (unat (bits div 8)) bs)) s s' \<and>
    wire (environ s) (log s)
      (spi_format_hal_trans_struct (devices (host s) i) (small_priv bits c bs fs) (frame_base s))
      (take (unat (bits div 8)) bs) = Some (last_rx s') \<and>
    length (last_rx s') = unat (bits div 8) \<and>
    (flag fs SPI_TRANS_USE_RXDATA \<longrightarrow>
       union_bytes (tr_rx t) = last_rx s' @ drop (unat (bits div 8)) [0, 0, 0, 0])"
proof -
  have h: "device_ok i (host s)" and f: "frame_ok (frame_base s)"
    using ready by (auto simp: bus_ready_def host_idle_def)
  let ?t1 = "(small_trans bits c bs fs)\<lparr>tr_rxlength := bits\<rparr>"
  have n: "unat (byte_len bits) = unat (bits div 8)"
    using bits by (auto simp: byte_len_def)
  have cs: "\<not> flag (tr_flags ?t1) SPI_TRANS_CS_KEEP_ACTIVE"
    using fs by (auto simp: flag_def small_flags_def spi_flag_defs)
  have pr: "priv_trans (small_priv bits c bs fs) = ?t1"
      "in_place (frame_base s) (small_priv bits c bs fs)"
    by (auto simp: small_priv_def in_place_def)
  let ?cfg = "spi_format_hal_trans_struct (devices (host s) i) (small_priv bits c bs fs) (frame_base s)"
  let ?tx = "buffer_bytes ?t1 (mem s) (buffer_to_send (small_priv bits c bs fs))
    (unat (byte_len (tr_length ?t1)))"
  from transmit_in_place [OF ready small_trans_valid [OF h bits fs] small_trans_setup [OF h f fs] pr cs]
  obtain h' rx t2 where
    tr: "spi_device_polling_transmit (Some i) (small_trans bits c bs fs) s =
      Inr (ESP_OK, t2, s\<lparr>log := Xfer ?cfg ?tx rx # log s, host := h'\<rparr>)" (is "_ = Inr (_, _, ?s')")
    and h': "host_idle i h'" and rx: "length rx = unat (byte_len (tr_rxlength ?t1))"
      "wire (environ s) (log s) ?cfg ?tx = Some rx"
    and t2: "buffer_to_rcv (small_priv bits c bs fs) = Rx_data_ptr \<longrightarrow>
      tr_rx t2 = Bytes (rx @ drop (length rx) (union_bytes (tr_rx ?t1)))"
    by blast
  have tx: "?tx = take (unat (bits div 8)) bs"
    by (simp add: small_priv_def buffer_bytes_def union_bytes_def n)
  have cmd: "hal_cmd ?cfg = c"
    by (simp add: spi_format_hal_trans_struct_def small_priv_def Let_def)
  have "event_ops (Xfer ?cfg ?tx rx) = panel_ops (ucast c # take (unat (bits div 8)) bs)"
    unfolding tx event_ops_def by (simp add: cmd del: panel_ops.simps)
  then have "ops ?s' = ops s @ panel_ops (ucast c # take (unat (bits div 8)) bs)"
    by (simp add: ops_def del: panel_ops.simps)
  then have "sends i (panel_ops (ucast c # take (unat (bits div 8)) bs)) s ?s'"
    using h' by (simp add: sends_def bus_only_update)
  moreover have "last_rx ?s' = rx"
    by (simp add: last_rx_def)
  moreover have "flag fs SPI_TRANS_USE_RXDATA \<longrightarrow>
      union_bytes (tr_rx t2) = rx @ drop (unat (bits div 8)) [0, 0, 0, 0]"
    using t2 rx(1) n by (simp add: small_priv_def union_bytes_def)
  moreover have "assert_ok (spi_device_polling_transmit (Some i) (small_trans bits c bs fs) s) = Inr (t2, ?s')"
    by (simp add: assert_ok_def tr)
  ultimately show ?thesis
    using rx n tx by (intro exI [of _ t2] exI [of _ ?s']) simp
qed

section \<open>The calls of io.c on a working bus\<close>

definition port_ready :: "RA8875_context \<Rightarrow> 'a spi_machine_scheme \<Rightarrow> bool" where
  "port_ready ctx s \<longleftrightarrow> (case spi_device ctx of None \<Rightarrow> False | Some i \<Rightarrow> bus_ready i s)"

text \<open>\<open>asks ctx os s s'\<close>: the panel was asked \<open>os\<close>, and the next call finds the bus working again.\<close>

definition asks ::
  "RA8875_context \<Rightarrow> panel_op list \<Rightarrow> 'a spi_machine_scheme \<Rightarrow> 'a spi_machine_scheme \<Rightarrow> bool" where
  "asks ctx os s s' \<longleftrightarrow> bus_only s s' \<and> port_ready ctx s' \<and> ops s' = ops s @ os"

text \<open>What the panel answers when register \<open>reg\<close> is read now.\<close>

definition panel_answer :: "RA8875_context \<Rightarrow> 'a spi_machine_scheme \<Rightarrow> u8 \<Rightarrow> u8" where
  "panel_answer ctx s reg =
     the (wire (environ s) (log s)
       (spi_format_hal_trans_struct (devices (host s) (the (spi_device ctx)))
         (small_priv 24 RA8875_CMDWRITE [reg, ucast RA8875_DATAREAD, 0, 0]
           (SPI_TRANS_USE_TXDATA OR SPI_TRANS_USE_RXDATA)) (frame_base s))
       [reg, ucast RA8875_DATAREAD, 0]) ! 2"

lemma small_transfer_asks:
  fixes s :: "'a spi_machine_scheme"
  assumes "port_ready ctx s" "bits \<in> {8, 24}" "small_flags fs" "length bs = 4"
  shows "\<exists>t s'. assert_ok (spi_device_polling_transmit (spi_device ctx) (small_trans bits c bs fs) s) = Inr (t, s') \<and>
    asks ctx (panel_ops (ucast c # take (unat (bits div 8)) bs)) s s' \<and>
    wire (environ s) (log s)
      (spi_format_hal_trans_struct (devices (host s) (the (spi_device ctx))) (small_priv bits c bs fs)
        (frame_base s)) (take (unat (bits div 8)) bs) = Some (last_rx s') \<and>
    length (last_rx s') = unat (bits div 8) \<and>
    (flag fs SPI_TRANS_USE_RXDATA \<longrightarrow>
       union_bytes (tr_rx t) = last_rx s' @ drop (unat (bits div 8)) [0, 0, 0, 0])"
proof -
  obtain i where i: "spi_device ctx = Some i" "bus_ready i s"
    using assms(1) by (auto simp: port_ready_def split: option.splits)
  from small_transfer [OF i(2) assms(2-4), of c] obtain t s' where
    tr: "assert_ok (spi_device_polling_transmit (Some i) (small_trans bits c bs fs) s) = Inr (t, s')"
    and snds: "sends i (panel_ops (ucast c # take (unat (bits div 8)) bs)) s s'"
    and rx: "wire (environ s) (log s)
      (spi_format_hal_trans_struct (devices (host s) i) (small_priv bits c bs fs) (frame_base s))
      (take (unat (bits div 8)) bs) = Some (last_rx s')" "length (last_rx s') = unat (bits div 8)"
      "flag fs SPI_TRANS_USE_RXDATA \<longrightarrow>
         union_bytes (tr_rx t) = last_rx s' @ drop (unat (bits div 8)) [0, 0, 0, 0]"
    by blast
  have "asks ctx (panel_ops (ucast c # take (unat (bits div 8)) bs)) s s'"
    using snds sends_ready [OF snds i(2)] i(1) by (simp add: asks_def sends_def port_ready_def)
  with tr rx i(1) show ?thesis by auto
qed

lemma write_command_asks:
  "port_ready ctx s \<Longrightarrow> \<exists>s'. RA8875_write_command ctx reg s = Inr s' \<and> asks ctx [Select reg] s s'"
  using small_transfer_asks [of ctx s 8 SPI_TRANS_USE_TXDATA "[reg, 0, 0, 0]" RA8875_CMDWRITE]
  by (auto simp: RA8875_write_command_def small_trans_def small_flags_def RA8875_CMDWRITE_def)

lemma write_data_asks:
  "port_ready ctx s \<Longrightarrow> \<exists>s'. RA8875_write_data ctx v s = Inr s' \<and> asks ctx [Put_Data v] s s'"
  using small_transfer_asks [of ctx s 8 SPI_TRANS_USE_TXDATA "[v, 0, 0, 0]" RA8875_DATAWRITE]
  by (auto simp: RA8875_write_data_def small_trans_def small_flags_def RA8875_DATAWRITE_def)

lemma write_register_asks:
  "port_ready ctx s \<Longrightarrow>
   \<exists>s'. RA8875_write_register ctx reg v s = Inr s' \<and> asks ctx [Select reg, Put_Data v] s s'"
  using small_transfer_asks [of ctx s 24 SPI_TRANS_USE_TXDATA
      "[reg, ucast RA8875_DATAWRITE, v, 0]" RA8875_CMDWRITE]
  by (auto simp: RA8875_write_register_def small_trans_def small_flags_def RA8875_CMDWRITE_def
      RA8875_DATAWRITE_def)

lemma read_register_asks:
  "port_ready ctx s \<Longrightarrow>
   \<exists>s'. RA8875_read_register ctx reg s = Inr (panel_answer ctx s reg, s') \<and>
     asks ctx [Select reg, Get_Data] s s'"
  using small_transfer_asks [of ctx s 24 "SPI_TRANS_USE_TXDATA OR SPI_TRANS_USE_RXDATA"
      "[reg, ucast RA8875_DATAREAD, 0, 0]" RA8875_CMDWRITE]
  by (auto simp: RA8875_read_register_def small_trans_def small_flags_def RA8875_CMDWRITE_def
      RA8875_DATAREAD_def panel_answer_def flag_def spi_flag_defs nth_append)

lemma read_data_asks:
  "port_ready ctx s \<Longrightarrow>
   \<exists>s'. RA8875_read_data ctx s = Inr (last_rx s' ! 0, s') \<and> asks ctx [Get_Data] s s'"
  using small_transfer_asks [of ctx s 8 "SPI_TRANS_USE_TXDATA OR SPI_TRANS_USE_RXDATA"
      "[0, 0, 0, 0]" RA8875_DATAREAD]
  by (auto simp: RA8875_read_data_def small_trans_def small_flags_def RA8875_DATAREAD_def
      flag_def spi_flag_defs nth_append)

text \<open>A block of data in DMA-capable memory is sent from where it is.\<close>

definition block_trans :: "u32 \<Rightarrow> u32 \<Rightarrow> spi_transaction" where
  "block_trans buffer bits =
     trans0\<lparr>tr_length := bits, tr_cmd := RA8875_DATAWRITE,
       tr_tx := Buffer (if buffer = 0 then Null_ptr else Addr buffer), tr_flags := 0\<rparr>"

lemma block_trans_fields [simp]:
  "tr_length (block_trans a bits) = bits" "tr_cmd (block_trans a bits) = RA8875_DATAWRITE"
  "tr_tx (block_trans a bits) = Buffer (if a = 0 then Null_ptr else Addr a)"
  "tr_flags (block_trans a bits) = 0" "tr_rxlength (block_trans a bits) = 0"
  "tr_rx (block_trans a bits) = Bytes [0, 0, 0, 0]"
  by (simp_all add: block_trans_def trans0_def)

lemma block_trans_check:
  "device_ok i h \<Longrightarrow> a \<noteq> 0 \<Longrightarrow>
   check_trans_valid h (Some i) (block_trans a bits) =
     (if bits = 0 \<or> bits > 65472 then (ESP_ERR_INVALID_ARG, block_trans a bits)
      else (ESP_OK, (block_trans a bits)\<lparr>tr_rxlength := bits\<rparr>))"
proof -
  assume h: "device_ok i h" and a: "a \<noteq> 0"
  have "bits \<le> 0x40000" if "bits \<le> 65472"
    using that by (rule order_trans) simp
  then show ?thesis
    using h a
    by (auto simp: check_trans_valid_def device_ok_def flag_def spi_flag_defs Let_def
        SPI_LL_DMA_MAX_BIT_LEN_def union_ptr_def bytes_as_ptr_def not_le)
qed

lemma block_bits:
  assumes "0 < n" "n \<le> 8184"
  shows "word_of_int (n * 8) \<noteq> (0 :: u32)" "word_of_int (n * 8) \<le> (65472 :: u32)"
    "unat (byte_len (word_of_int (n * 8))) = nat n"
proof -
  let ?w = "word_of_int (n * 8) :: u32"
  have u: "uint ?w = n * 8"
    using assms by (simp only: uint_word_of_int) simp
  show "?w \<noteq> 0"
    using u assms by auto
  show "?w \<le> 65472"
    using u assms by (simp add: word_le_def)
  have "uint (?w + 7) = n * 8 + 7"
    using u assms by (simp add: uint_word_ariths)
  then have "uint (byte_len ?w) = n"
    by (simp add: byte_len_def uint_div)
  then show "unat (byte_len ?w) = nat n"
    by (simp only: unat_eq_nat_uint)
qed

lemma write_data_block_asks:
  fixes s :: "'a spi_machine_scheme"
  assumes ready: "port_ready ctx s" and n: "0 < n" "n \<le> 8184"
    and a: "esp_ptr_dma_capable a"
  shows "\<exists>s'. RA8875_write_data_block ctx a n s = Inr s' \<and>
    asks ctx (map Put_Data (load (mem s) a (nat n))) s s'"
proof -
  obtain i where i: "spi_device ctx = Some i" and r: "bus_ready i s"
    using ready by (auto simp: port_ready_def split: option.splits)
  then have h: "device_ok i (host s)"
    by (auto simp: bus_ready_def host_idle_def)
  define bits where "bits = (word_of_int (n * 8) :: u32)"
  note b = block_bits [OF n, folded bits_def]
  have a0: "a \<noteq> 0"
    using a by (auto simp: esp_ptr_dma_capable_def word_sle_eq)
  define t1 where "t1 = (block_trans a bits)\<lparr>tr_rxlength := bits\<rparr>"
  define pr where "pr = \<lparr>priv_trans = t1, buffer_to_send = Addr a, buffer_to_rcv = Null_ptr\<rparr>"
  have valid: "check_trans_valid (host s) (Some i) (block_trans a bits) = (ESP_OK, t1)"
    using block_trans_check [OF h a0, of bits] b by (simp add: t1_def)
  have bufs: "setup_priv_desc (host s) t1 s = (ESP_OK, pr, s)"
    using a a0 by (simp add: setup_priv_desc_def pr_def t1_def flag_def union_ptr_def
        bytes_as_ptr_def ptr_addr_def Let_def)
  have pr: "priv_trans pr = t1" "in_place (frame_base s) pr"
    using a0 by (simp_all add: pr_def in_place_def t1_def union_ptr_def)
  have cs: "\<not> flag (tr_flags t1) SPI_TRANS_CS_KEEP_ACTIVE"
    by (simp add: t1_def flag_def)
  let ?cfg = "spi_format_hal_trans_struct (devices (host s) i) pr (frame_base s)"
  have tx: "buffer_bytes t1 (mem s) (buffer_to_send pr) (unat (byte_len (tr_length t1))) =
      load (mem s) a (nat n)"
    using b(3) by (simp add: buffer_bytes_def pr_def t1_def)
  have cmd: "hal_cmd ?cfg = 0"
    by (simp add: spi_format_hal_trans_struct_def pr_def t1_def Let_def RA8875_DATAWRITE_def)
  from transmit_in_place [OF r valid bufs pr cs, unfolded tx]
  obtain h' rx t2 where
    tr: "spi_device_polling_transmit (Some i) (block_trans a bits) s =
      Inr (ESP_OK, t2, s\<lparr>log := Xfer ?cfg (load (mem s) a (nat n)) rx # log s, host := h'\<rparr>)"
      (is "_ = Inr (_, _, ?s')") and h': "host_idle i h'"
    by blast
  have "asks ctx (map Put_Data (load (mem s) a (nat n))) s ?s'"
    using h' r i by (simp add: asks_def bus_only_update port_ready_def bus_ready_def ops_def
        event_ops_def cmd)
  moreover have "RA8875_write_data_block ctx a n s = Inr ?s'"
    using tr i by (simp add: RA8875_write_data_block_def assert_ok_def block_trans_def bits_def)
  ultimately show ?thesis by blast
qed

lemma write_data_block_rejects:
  assumes ready: "port_ready ctx s" and a: "a \<noteq> 0"
    and n: "n \<le> 0 \<or> 8184 < n" "- 0x8000000 \<le> n" "n < 0x10000000"
  shows "RA8875_write_data_block ctx a n s = Inl Assert_Failed"
proof -
  obtain i where i: "spi_device ctx = Some i" and "bus_ready i s"
    using ready by (auto simp: port_ready_def split: option.splits)
  then have h: "device_ok i (host s)"
    by (auto simp: bus_ready_def host_idle_def)
  let ?w = "word_of_int (n * 8) :: u32"
  have u: "uint ?w = (n * 8) mod 0x100000000"
    by (simp only: uint_word_of_int) simp
  have "?w = 0 \<or> ?w > 65472"
  proof (cases "n < 0")
    case True
    then have "(n * 8) mod 0x100000000 = n * 8 + 0x100000000"
      using n by (intro mod_pos_pos_trivial [of "n * 8 + 0x100000000" "0x100000000", simplified]) auto
    then show ?thesis
      using u n True by (simp add: word_less_def)
  next
    case False
    then show ?thesis
      using u n by (auto simp: word_less_def)
  qed
  then show ?thesis
    using block_trans_check [OF h a, of ?w] i
    by (simp add: RA8875_write_data_block_def block_trans_def [symmetric] assert_ok_def
        spi_device_polling_transmit_def spi_device_polling_start_def)
qed

section \<open>The interface of the register port\<close>

text \<open>
  What the functions above io.c rely on: every call on a working port returns, asks the panel
  for just its operations and leaves the port working.
\<close>

definition set_reg :: "u8 \<Rightarrow> u8 \<Rightarrow> panel_op list" where
  "set_reg r v = [Select r, Put_Data v]"

locale register_port = effects rdy rel "[]" "(@)"
  for rdy :: "'s \<Rightarrow> bool" and rel :: "panel_op list \<Rightarrow> 's \<Rightarrow> 's \<Rightarrow> bool" +
  fixes write_command :: "u8 \<Rightarrow> 's \<Rightarrow> 's outcome"
    and write_data :: "u8 \<Rightarrow> 's \<Rightarrow> 's outcome"
    and write_register :: "u8 \<Rightarrow> u8 \<Rightarrow> 's \<Rightarrow> 's outcome"
    and read_register :: "u8 \<Rightarrow> 's \<Rightarrow> (u8 \<times> 's) outcome"
    and answer :: "'s \<Rightarrow> u8 \<Rightarrow> u8"
  assumes command: "rdy s \<Longrightarrow> \<exists>s'. write_command r s = Inr s' \<and> rel [Select r] s s'"
    and data: "rdy s \<Longrightarrow> \<exists>s'. write_data v s = Inr s' \<and> rel [Put_Data v] s s'"
    and register: "rdy s \<Longrightarrow> \<exists>s'. write_register r v s = Inr s' \<and> rel [Select r, Put_Data v] s s'"
    and read: "rdy s \<Longrightarrow> \<exists>s'. read_register r s = Inr (answer s r, s') \<and> rel [Select r, Get_Data] s s'"
begin

lemmas rel_refl = effect_refl
lemmas rel_trans = effect_trans
lemmas rel_ready = effect_ready

lemma emits_register: "achieves rdy rel (set_reg r v) (write_register r v)"
  by (simp add: achieves_def set_reg_def register)

lemma emits_command: "achieves rdy rel [Select r] (write_command r)"
  by (simp add: achieves_def command)

lemma emits_data: "achieves rdy rel [Put_Data v] (write_data v)"
  by (simp add: achieves_def data)

lemma emits_registers:
  "achieves rdy rel (concat (map (\<lambda>(r, v). set_reg r v) rvs)) (seq (map (\<lambda>(r, v). write_register r v) rvs))"
  using achieves_map [of rvs "\<lambda>(r, v). set_reg r v" "\<lambda>(r, v). write_register r v"]
  by (auto simp: concat_conv_foldr foldr_map comp_def intro: emits_register)

text \<open>One combined transfer and the two separate ones ask the panel for the same.\<close>

lemma combined_write:
  "rdy s \<Longrightarrow> \<exists>s1 s2. write_register r v s = Inr s1 \<and> seq [write_command r, write_data v] s = Inr s2 \<and>
     rel (set_reg r v) s s1 \<and> rel (set_reg r v) s s2"
  using emits_register [of r v]
    achieves_Cons [OF emits_command achieves_Cons [OF emits_data achieves_Nil], of r v]
  by (auto simp: achieves_def set_reg_def simp del: seq.simps)

end

interpretation port: register_port "port_ready ctx" "asks ctx"
  "RA8875_write_command ctx" "RA8875_write_data ctx" "RA8875_write_register ctx"
  "RA8875_read_register ctx" "panel_answer ctx"
  for ctx
proof unfold_locales
  show "asks ctx [] s s" if "port_ready ctx s" for s :: "'a spi_machine_scheme"
    using that by (simp add: asks_def bus_only_def)
  show "asks ctx (xs @ ys) s u" if "asks ctx xs s t" "asks ctx ys t u"
    for xs ys and s t u :: "'a spi_machine_scheme"
    using that by (auto simp: asks_def intro: bus_only_trans)
  show "port_ready ctx t" if "asks ctx os s t" for os and s t :: "'a spi_machine_scheme"
    using that by (simp add: asks_def)
qed (fact write_command_asks write_data_asks write_register_asks read_register_asks)+

section \<open>What the functions of io.c do\<close>

text \<open>
  One call of \<open>RA8875_write_register\<close> asks the panel for exactly what
  \<open>RA8875_write_command\<close> followed by \<open>RA8875_write_data\<close> asks for, in
  one transfer instead of two.
\<close>

theorem write_register_combines:
  fixes s :: "'a spi_machine_scheme"
  assumes "port_ready ctx s"
  shows "\<exists>s1 s2. RA8875_write_register ctx r v s = Inr s1 \<and>
    seq [RA8875_write_command ctx r, RA8875_write_data ctx v] s = Inr s2 \<and>
    ops s1 = ops s @ [Select r, Put_Data v] \<and> ops s2 = ops s1 \<and> mem s1 = mem s \<and> mem s2 = mem s"
  using port.combined_write [OF assms, of r v] by (auto simp: asks_def set_reg_def dest: bus_only_fields(2))

text \<open>
  \<open>RA8875_write_data_block\<close> takes between 1 and 8184 bytes from DMA-capable
  memory and sends just these; every other number of bytes fails its assertion.
\<close>

theorem write_data_block_limits:
  fixes s :: "'a spi_machine_scheme"
  assumes "port_ready ctx s" "esp_ptr_dma_capable a" "- 0x8000000 \<le> n" "n < 0x10000000"
  shows "if 0 < n \<and> n \<le> 8184
    then \<exists>s'. RA8875_write_data_block ctx a n s = Inr s' \<and> ops s' = ops s @ map Put_Data (load (mem s) a (nat n))
    else RA8875_write_data_block ctx a n s = Inl Assert_Failed"
proof (cases "0 < n \<and> n \<le> 8184")
  case True
  then show ?thesis
    using write_data_block_asks [OF assms(1), of n a] assms(2) by (auto simp: asks_def)
next
  case False
  have "a \<noteq> 0"
    using assms(2) by (auto simp: esp_ptr_dma_capable_def word_sle_eq)
  then show ?thesis
    using False write_data_block_rejects [OF assms(1) _ _ assms(3,4)] by auto
qed

end
