(* ===== verification/Panel.thy ===== *)
theory Panel
  imports RA8875_Io
begin

text \<open>
  The abstract specification that the drawing functions are proved against: the registers of the
  panel as the driver has set them, and the figures it has asked for. Register numbers and bits
  are those of \<open>RA8875_registers.h\<close> and of the comments of the driver. Nothing is claimed about
  the chip: this is a reading of the operations sent to it.
\<close>

section \<open>Registers and figures\<close>

datatype figure =
    Rect u16 u16 u16 u16 u8 bool      \<comment> \<open>corners, colour, filled\<close>
  | Bte_Op u8 "u16 \<times> u16" "u16 \<times> u16" u16 u16 u8   \<comment> \<open>operation, source, destination, size, colour\<close>
  | Clear_Layer bool                   \<comment> \<open>only the active window\<close>
  | Text_Byte u16 u16 u8 u8 u8         \<comment> \<open>text cursor, font size, colour, character\<close>
  | Pixel_Byte u8                      \<comment> \<open>a byte of pixel data\<close>

record panel =
  selected :: u8
  regs :: "u8 \<Rightarrow> u8"
  figs :: "figure list"

definition reg16 :: "(u8 \<Rightarrow> u8) \<Rightarrow> u8 \<Rightarrow> u16" where
  "reg16 rs r = word16 (rs r) (rs (r + 1))"

text \<open>The 3:3:2 colour of the foreground registers.\<close>

definition foreground :: "(u8 \<Rightarrow> u8) \<Rightarrow> u8" where
  "foreground rs = (rs 0x63 AND 7) OR push_bit 3 (rs 0x64 AND 7) OR push_bit 6 (rs 0x65 AND 3)"

definition triggered :: "u8 \<Rightarrow> u8 \<Rightarrow> (u8 \<Rightarrow> u8) \<Rightarrow> figure list" where
  "triggered r v rs =
     (if r = 0x90 \<and> v AND 0x90 = 0x90 then
        [Rect (reg16 rs 0x91) (reg16 rs 0x93) (reg16 rs 0x95) (reg16 rs 0x97) (foreground rs)
          (v AND 0x20 \<noteq> 0)]
      else if r = 0x50 \<and> v AND 0x80 \<noteq> 0 then
        [Bte_Op (rs 0x51) (reg16 rs 0x54, reg16 rs 0x56) (reg16 rs 0x58, reg16 rs 0x5A)
          (reg16 rs 0x5C) (reg16 rs 0x5E) (foreground rs)]
      else if r = 0x8E \<and> v AND 0x80 \<noteq> 0 then [Clear_Layer (v AND 0x40 \<noteq> 0)]
      else [])"

fun panel_step :: "panel_op \<Rightarrow> panel \<Rightarrow> panel" where
  "panel_step (Select r) p = p\<lparr>selected := r\<rparr>"
| "panel_step Get_Data p = p"
| "panel_step (Put_Data v) p =
     (if selected p = 0x02 then
        p\<lparr>figs := figs p @
          [if regs p 0x40 AND 0x80 \<noteq> 0 then
             Text_Byte (reg16 (regs p) 0x2A) (reg16 (regs p) 0x2C) (regs p 0x22) (foreground (regs p)) v
           else Pixel_Byte v]\<rparr>
      else p\<lparr>regs := (regs p)(selected p := v),
             figs := figs p @ triggered (selected p) v (regs p)\<rparr>)"

definition panel_run :: "panel_op list \<Rightarrow> panel \<Rightarrow> panel" where
  "panel_run os p = fold panel_step os p"

definition panel0 :: panel where
  "panel0 = \<lparr>selected = 0, regs = (\<lambda>_. 0), figs = []\<rparr>"

definition panel_of :: "'a machine_scheme \<Rightarrow> panel" where
  "panel_of s = panel_run (ops s) panel0"

lemma panel_run_Nil [simp]: "panel_run [] p = p"
  and panel_run_Cons [simp]: "panel_run (x # os) p = panel_run os (panel_step x p)"
  and panel_run_append [simp]: "panel_run (os @ os') p = panel_run os' (panel_run os p)"
  by (simp_all add: panel_run_def)

lemma asks_panel: "asks ctx os s s' \<Longrightarrow> panel_of s' = panel_run os (panel_of s)"
  by (simp add: asks_def panel_of_def)

lemma asks_same:
  assumes "asks ctx os s s'"
  shows "mem s' = mem s" "environ s' = environ s" "heap_live s' = heap_live s"
    "spi_machine.more s' = spi_machine.more s"
  using assms by (auto simp: asks_def dest: bus_only_fields)

text \<open>One register write, and a list of them.\<close>

definition reg_write :: "u8 \<Rightarrow> u8 \<Rightarrow> panel \<Rightarrow> panel" where
  "reg_write r v p =
     \<lparr>selected = r, regs = (regs p)(r := v), figs = figs p @ triggered r v (regs p)\<rparr>"

lemma panel_set_reg [simp]: "r \<noteq> 0x02 \<Longrightarrow> panel_run (set_reg r v) p = reg_write r v p"
  by (simp add: set_reg_def reg_write_def)

lemma reg_write_fields [simp]:
  "selected (reg_write r v p) = r" "regs (reg_write r v p) = (regs p)(r := v)"
  "figs (reg_write r v p) = figs p @ triggered r v (regs p)"
  by (simp_all add: reg_write_def)

lemma triggered_other [simp]: "r \<noteq> 0x90 \<Longrightarrow> r \<noteq> 0x50 \<Longrightarrow> r \<noteq> 0x8E \<Longrightarrow> triggered r v rs = []"
  by (simp add: triggered_def)

lemma panel_eqI:
  "selected p = selected q \<Longrightarrow> regs p = regs q \<Longrightarrow> figs p = figs q \<Longrightarrow> p = (q :: panel)"
  by simp

lemma foreground_colour [simp]:
  "foreground (rs(0x63 := c AND 7, 0x64 := drop_bit 3 c AND 7, 0x65 := drop_bit 6 c AND 3)) = c"
proof (rule bit_word_eqI)
  fix n
  assume "n < LENGTH(8)"
  then have "n \<in> {0, 1, 2, 3, 4, 5, 6, 7}" by auto
  then show "bit (foreground (rs(0x63 := c AND 7, 0x64 := drop_bit 3 c AND 7,
      0x65 := drop_bit 6 c AND 3))) n = bit c n"
    by (auto simp: foreground_def bit_simps)
qed

section \<open>Blocks of register writes\<close>

definition write_regs ::
  "RA8875_context \<Rightarrow> (u8 \<times> u8) list \<Rightarrow> 'a spi_machine_scheme \<Rightarrow> 'a spi_machine_scheme outcome" where
  "write_regs ctx rvs = seq (map (\<lambda>(r, v). RA8875_write_register ctx r v) rvs)"

definition set_regs :: "(u8 \<times> u8) list \<Rightarrow> panel_op list" where
  "set_regs rvs = concat (map (\<lambda>(r, v). set_reg r v) rvs)"

lemma write_regs_emits: "achieves (port_ready ctx) (asks ctx) (set_regs rvs) (write_regs ctx rvs)"
  unfolding write_regs_def set_regs_def by (rule port.emits_registers)

lemma set_regs_simps [simp]:
  "set_regs [] = []" "set_regs ((r, v) # rvs) = set_reg r v @ set_regs rvs"
  "set_regs (xs @ ys) = set_regs xs @ set_regs ys"
  by (simp_all add: set_regs_def)

lemma write_regs_asks:
  "port_ready ctx s \<Longrightarrow> \<exists>s'. write_regs ctx rvs s = Inr s' \<and> asks ctx (set_regs rvs) s s'"
  by (rule achievesD [OF write_regs_emits])

lemma set_regs_registers:
  "0x02 \<notin> fst ` set rvs \<Longrightarrow>
   regs (panel_run (set_regs rvs) p) = fold (\<lambda>(r, v) rs. rs(r := v)) rvs (regs p)"
  by (induction rvs arbitrary: p) auto

text \<open>Neighbouring blocks of register writes are one block.\<close>

lemma write_regs_append: "write_regs ctx (xs @ ys) s = bindr (write_regs ctx xs s) (write_regs ctx ys)"
  by (simp add: write_regs_def seq_append)

lemma seq_write_regs:
  "seq (write_regs ctx xs # write_regs ctx ys # cs) = seq (write_regs ctx (xs @ ys) # cs)"
  by (rule ext) (simp add: write_regs_append bindr_def split: sum.splits)

lemma seq_single: "seq [c] = c"
  by (rule ext) (rule seq_singleton)

lemma write_regs_panel:
  "port_ready ctx s \<Longrightarrow> \<exists>s'. write_regs ctx rvs s = Inr s' \<and> asks ctx (set_regs rvs) s s' \<and>
     panel_of s' = panel_run (set_regs rvs) (panel_of s)"
  using write_regs_asks [of ctx s rvs] asks_panel by blast

section \<open>A concrete bus\<close>

text \<open>
  A bus on which every transfer completes: the state in which the theorems of the development
  are tried. The panel answers \<open>0x75\<close> to every read and its interrupt line is low.
\<close>

definition demo_env :: env where
  "demo_env = \<lparr>wire = (\<lambda>_ cfg _. Some (replicate (unat (byte_len (hal_rx_bitlen cfg))) 0x75)),
     dma_alloc = (\<lambda>_ live n. 0), pin_level = (\<lambda>_ _. False), poll_budget = 3,
     step_result = (\<lambda>_. ESP_OK), clk_src_hz = 80000000, stray_int = (\<lambda>_. 0)\<rparr>"

definition demo_host :: spi_host where
  "demo_host = \<lparr>host_id = SPI3_HOST,
     devices = (\<lambda>i. \<lparr>dev_id = i, cfg_command_bits = 8, cfg_address_bits = 0, cfg_dummy_bits = 0,
       cfg_flags = 0, timing_dummy = False\<rparr>),
     device_set = (\<lambda>i. i = 0), cur_cs = DEV_NUM_MAX,
     cur_trans = \<lparr>priv_trans = trans0, buffer_to_send = Null_ptr, buffer_to_rcv = Null_ptr\<rparr>,
     bus_attr = \<lparr>max_transfer_sz = 8184, dma_enabled = True, internal_mem_align_size = 4\<rparr>,
     device_acquiring_lock = None, polling = False,
     bus_lock = \<lparr>status = 0, acquiring_dev = None, acq_dev_bg_active = False, in_isr = False,
       dev = (\<lambda>_. Slot_Null)(0 := Slot_Dev), bg_enabled = False, last_dev = None,
       periph_cs_num = 3, semphr = (\<lambda>_. False)\<rparr>\<rparr>"

definition demo_ctx :: RA8875_context where
  "demo_ctx = \<lparr>spi_device = Some 0, pin_int = 4\<rparr>"

definition demo_machine :: spi_machine where
  "demo_machine = \<lparr>environ = demo_env, log = [], mem = (\<lambda>a. ucast a), frame_base = 0x3FC90000,
     heap_live = [], host = demo_host, periph_claimed = True, bus_ctx_set = True, bus_driver_ctx_set = True\<rparr>"

lemma demo_wire_ok: "wire_ok demo_env"
  by (simp add: wire_ok_def demo_env_def)

lemma demo_host_idle: "host_idle 0 demo_host"
  by (simp add: host_idle_def device_ok_def lock_free_def demo_host_def)

lemma demo_frame_ok: "frame_ok 0x3FC90000"
  by (simp add: frame_ok_def esp_ptr_dma_capable_def)

lemma demo_ready: "port_ready demo_ctx demo_machine"
  using demo_wire_ok demo_host_idle demo_frame_ok
  by (simp add: port_ready_def demo_ctx_def bus_ready_def demo_machine_def MAX_DEV_NUM_def)

lemma write_register_combines_witness:
  "\<exists>s1. RA8875_write_register demo_ctx 0x40 0x80 demo_machine = Inr s1 \<and> ops s1 = [Select 0x40, Put_Data 0x80]"
  using write_register_combines [OF demo_ready, of "0x40" "0x80"]
  by (auto simp: ops_def demo_machine_def)

lemma write_data_block_limits_witness:
  "\<exists>s'. RA8875_write_data_block demo_ctx 0x3FC90000 3 demo_machine = Inr s' \<and>
     ops s' = [Put_Data 0, Put_Data 1, Put_Data 2]"
proof -
  have "load (mem demo_machine) 0x3FC90000 3 = [0, 1, 2]"
    by (simp add: load_def demo_machine_def upt_rec)
  then show ?thesis
    using write_data_block_limits [OF demo_ready, of "0x3FC90000" 3]
    by (simp add: esp_ptr_dma_capable_def) (simp add: ops_def demo_machine_def)
qed

end
