(* ===== verification/RA8875_Core.thy ===== *)
theory RA8875_Core
  imports Panel
begin

text \<open>
  Set-up of the panel, the cursors, the layers and the backlight
  (\<open>components/RA8875/core.c\<close> and \<open>helper.c\<close>). Expressions of type \<open>int\<close> are
  written in \<open>int\<close>, with the division of C, and cut to the type of the parameter they are passed
  as.
\<close>

section \<open>Registers and their bits\<close>

definition RA8875_PWRR :: u8 where "RA8875_PWRR = 0x01"
definition RA8875_PWRR_NORMAL :: u8 where "RA8875_PWRR_NORMAL = 0x00"
definition RA8875_PWRR_DISPON :: u8 where "RA8875_PWRR_DISPON = 0x80"
definition RA8875_MRWC :: u8 where "RA8875_MRWC = 0x02"
definition RA8875_GPIOX :: u8 where "RA8875_GPIOX = 0xC7"
definition RA8875_PLLC1 :: u8 where "RA8875_PLLC1 = 0x88"
definition RA8875_PLLC1_PLLDIV1 :: u8 where "RA8875_PLLC1_PLLDIV1 = 0x00"
definition RA8875_PLLC2 :: u8 where "RA8875_PLLC2 = 0x89"
definition RA8875_PLLC2_DIV1 :: u8 where "RA8875_PLLC2_DIV1 = 0x00"
definition RA8875_SYSR :: u8 where "RA8875_SYSR = 0x10"
definition RA8875_SYSR_8BPP :: u8 where "RA8875_SYSR_8BPP = 0x00"
definition RA8875_PCSR :: u8 where "RA8875_PCSR = 0x04"
definition RA8875_PCSR_PDATL :: u8 where "RA8875_PCSR_PDATL = 0x80"
definition RA8875_PCSR_2CLK :: u8 where "RA8875_PCSR_2CLK = 0x01"
definition RA8875_HDWR :: u8 where "RA8875_HDWR = 0x14"
definition RA8875_HNDFTR :: u8 where "RA8875_HNDFTR = 0x15"
definition RA8875_HNDFTR_DE_HIGH :: u8 where "RA8875_HNDFTR_DE_HIGH = 0x00"
definition RA8875_HNDR :: u8 where "RA8875_HNDR = 0x16"
definition RA8875_HSTR :: u8 where "RA8875_HSTR = 0x17"
definition RA8875_HPWR :: u8 where "RA8875_HPWR = 0x18"
definition RA8875_HPWR_LOW :: u8 where "RA8875_HPWR_LOW = 0x00"
definition RA8875_VDHR0 :: u8 where "RA8875_VDHR0 = 0x19"
definition RA8875_VDHR1 :: u8 where "RA8875_VDHR1 = 0x1A"
definition RA8875_VNDR0 :: u8 where "RA8875_VNDR0 = 0x1B"
definition RA8875_VNDR1 :: u8 where "RA8875_VNDR1 = 0x1C"
definition RA8875_VSTR0 :: u8 where "RA8875_VSTR0 = 0x1D"
definition RA8875_VSTR1 :: u8 where "RA8875_VSTR1 = 0x1E"
definition RA8875_VPWR :: u8 where "RA8875_VPWR = 0x1F"
definition RA8875_VPWR_LOW :: u8 where "RA8875_VPWR_LOW = 0x00"
definition RA8875_HSAW0 :: u8 where "RA8875_HSAW0 = 0x30"
definition RA8875_HSAW1 :: u8 where "RA8875_HSAW1 = 0x31"
definition RA8875_VSAW0 :: u8 where "RA8875_VSAW0 = 0x32"
definition RA8875_VSAW1 :: u8 where "RA8875_VSAW1 = 0x33"
definition RA8875_HEAW0 :: u8 where "RA8875_HEAW0 = 0x34"
definition RA8875_HEAW1 :: u8 where "RA8875_HEAW1 = 0x35"
definition RA8875_VEAW0 :: u8 where "RA8875_VEAW0 = 0x36"
definition RA8875_VEAW1 :: u8 where "RA8875_VEAW1 = 0x37"
definition RA8875_MCLR :: u8 where "RA8875_MCLR = 0x8E"
definition RA8875_MCLR_START :: u8 where "RA8875_MCLR_START = 0x80"
definition RA8875_MCLR_FULL :: u8 where "RA8875_MCLR_FULL = 0x00"
definition RA8875_DCR :: u8 where "RA8875_DCR = 0x90"
definition RA8875_CURH0 :: u8 where "RA8875_CURH0 = 0x46"
definition RA8875_CURH1 :: u8 where "RA8875_CURH1 = 0x47"
definition RA8875_CURV0 :: u8 where "RA8875_CURV0 = 0x48"
definition RA8875_CURV1 :: u8 where "RA8875_CURV1 = 0x49"
definition RA8875_RCURH0 :: u8 where "RA8875_RCURH0 = 0x4A"
definition RA8875_RCURH1 :: u8 where "RA8875_RCURH1 = 0x4B"
definition RA8875_RCURV0 :: u8 where "RA8875_RCURV0 = 0x4C"
definition RA8875_RCURV1 :: u8 where "RA8875_RCURV1 = 0x4D"
definition RA8875_P1CR :: u8 where "RA8875_P1CR = 0x8A"
definition RA8875_P1CR_ENABLE :: u8 where "RA8875_P1CR_ENABLE = 0x80"
definition RA8875_P1DCR :: u8 where "RA8875_P1DCR = 0x8B"
definition RA8875_PWM_CLK_DIV1024 :: u8 where "RA8875_PWM_CLK_DIV1024 = 0x0A"

lemmas ra8875_defs =
  RA8875_PWRR_def RA8875_PWRR_NORMAL_def RA8875_PWRR_DISPON_def RA8875_MRWC_def RA8875_GPIOX_def
  RA8875_PLLC1_def RA8875_PLLC1_PLLDIV1_def RA8875_PLLC2_def RA8875_PLLC2_DIV1_def
  RA8875_SYSR_def RA8875_SYSR_8BPP_def RA8875_PCSR_def RA8875_PCSR_PDATL_def RA8875_PCSR_2CLK_def
  RA8875_HDWR_def RA8875_HNDFTR_def RA8875_HNDFTR_DE_HIGH_def RA8875_HNDR_def RA8875_HSTR_def
  RA8875_HPWR_def RA8875_HPWR_LOW_def RA8875_VDHR0_def RA8875_VDHR1_def RA8875_VNDR0_def
  RA8875_VNDR1_def RA8875_VSTR0_def RA8875_VSTR1_def RA8875_VPWR_def RA8875_VPWR_LOW_def
  RA8875_HSAW0_def RA8875_HSAW1_def RA8875_VSAW0_def RA8875_VSAW1_def RA8875_HEAW0_def
  RA8875_HEAW1_def RA8875_VEAW0_def RA8875_VEAW1_def RA8875_MCLR_def RA8875_MCLR_START_def
  RA8875_MCLR_FULL_def RA8875_DCR_def RA8875_CURH0_def RA8875_CURH1_def RA8875_CURV0_def
  RA8875_CURV1_def RA8875_RCURH0_def RA8875_RCURH1_def RA8875_RCURV0_def RA8875_RCURV1_def
  RA8875_P1CR_def RA8875_P1CR_ENABLE_def RA8875_P1DCR_def RA8875_PWM_CLK_DIV1024_def

section \<open>core.c\<close>

text \<open>The register writes of \<open>RA8875_configure\<close>, in order.\<close>

definition configure_regs ::
  "u8 \<Rightarrow> u8 \<Rightarrow> u8 \<Rightarrow> u8 \<Rightarrow> u16 \<Rightarrow> u16 \<Rightarrow> u8 \<Rightarrow> u16 \<Rightarrow> u16 \<Rightarrow> u16 \<Rightarrow> (u8 \<times> u8) list" where
  "configure_regs hsync_nondisp hsync_start hsync_pw hsync_finetune
      vsync_nondisp vsync_start vsync_pw width height voffset =
      [(RA8875_PWRR, RA8875_PWRR_NORMAL OR RA8875_PWRR_DISPON),
       (RA8875_GPIOX, 1),
       (RA8875_P1CR, RA8875_P1CR_ENABLE OR (RA8875_PWM_CLK_DIV1024 AND 0xF)),
       (RA8875_PLLC1, RA8875_PLLC1_PLLDIV1 + 23),
       (RA8875_PLLC2, RA8875_PLLC2_DIV1),
       (RA8875_SYSR, RA8875_SYSR_8BPP),
       (RA8875_PCSR, RA8875_PCSR_PDATL OR RA8875_PCSR_2CLK),
       (0x20, push_bit 7 1),
       (RA8875_HDWR, word_of_int (uint width div 8 - 1)),
       (RA8875_HNDFTR, RA8875_HNDFTR_DE_HIGH + hsync_finetune),
       (RA8875_HNDR, word_of_int ((uint hsync_nondisp - uint hsync_finetune - 2) sdiv 8)),
       (RA8875_HSTR, word_of_int (uint hsync_start div 8 - 1)),
       (RA8875_HPWR, word_of_int (uint RA8875_HPWR_LOW + (uint hsync_pw div 8 - 1))),
       (RA8875_VDHR0, ucast ((height - 1 + voffset) AND 0xFF)),
       (RA8875_VDHR1, ucast (drop_bit 8 (height - 1 + voffset))),
       (RA8875_VNDR0, word_of_int (uint vsync_nondisp - 1)),
       (RA8875_VNDR1, ucast (drop_bit 8 vsync_nondisp)),
       (RA8875_VSTR0, word_of_int (uint vsync_start - 1)),
       (RA8875_VSTR1, ucast (drop_bit 8 vsync_start)),
       (RA8875_VPWR, word_of_int (uint RA8875_VPWR_LOW + uint vsync_pw - 1)),
       (RA8875_HSAW0, 0),
       (RA8875_HSAW1, 0),
       (RA8875_HEAW0, ucast ((width - 1) AND 0xFF)),
       (RA8875_HEAW1, ucast (drop_bit 8 (width - 1))),
       (RA8875_VSAW0, ucast (0 + voffset)),
       (RA8875_VSAW1, ucast (0 + voffset)),
       (RA8875_VEAW0, ucast ((height - 1 + voffset) AND 0xFF)),
       (RA8875_VEAW1, ucast (drop_bit 8 (height - 1 + voffset)))]"

definition RA8875_configure ::
  "RA8875_context \<Rightarrow> u8 \<Rightarrow> u8 \<Rightarrow> u8 \<Rightarrow> u8 \<Rightarrow> u16 \<Rightarrow> u16 \<Rightarrow> u8 \<Rightarrow> u16 \<Rightarrow> u16 \<Rightarrow> u16
     \<Rightarrow> 'a spi_machine_scheme \<Rightarrow> 'a spi_machine_scheme outcome" where
  "RA8875_configure ctx hsync_nondisp hsync_start hsync_pw hsync_finetune
      vsync_nondisp vsync_start vsync_pw width height voffset =
     write_regs ctx (configure_regs hsync_nondisp hsync_start hsync_pw hsync_finetune
      vsync_nondisp vsync_start vsync_pw width height voffset)"

definition RA8875_clear ::
  "RA8875_context \<Rightarrow> 'a spi_machine_scheme \<Rightarrow> 'a spi_machine_scheme outcome" where
  "RA8875_clear ctx = write_regs ctx [(RA8875_MCLR, RA8875_MCLR_START OR RA8875_MCLR_FULL)]"

definition RA8875_set_backlight_brightness ::
  "RA8875_context \<Rightarrow> u8 \<Rightarrow> 'a spi_machine_scheme \<Rightarrow> 'a spi_machine_scheme outcome" where
  "RA8875_set_backlight_brightness ctx brightness = write_regs ctx [(RA8875_P1DCR, brightness)]"

section \<open>helper.c\<close>

definition RA8875_set_write_cursor_position ::
  "RA8875_context \<Rightarrow> u16 \<Rightarrow> u16 \<Rightarrow> 'a spi_machine_scheme \<Rightarrow> 'a spi_machine_scheme outcome" where
  "RA8875_set_write_cursor_position ctx x y =
     write_regs ctx [(RA8875_CURH0, ucast x), (RA8875_CURH1, ucast (drop_bit 8 x)),
       (RA8875_CURV0, ucast y), (RA8875_CURV1, ucast (drop_bit 8 y))]"

definition RA8875_set_read_cursor_position ::
  "RA8875_context \<Rightarrow> u16 \<Rightarrow> u16 \<Rightarrow> 'a spi_machine_scheme \<Rightarrow> 'a spi_machine_scheme outcome" where
  "RA8875_set_read_cursor_position ctx x y =
     write_regs ctx [(RA8875_RCURH0, ucast x), (RA8875_RCURH1, ucast (drop_bit 8 x)),
       (RA8875_RCURV0, ucast y), (RA8875_RCURV1, ucast (drop_bit 8 y))]"

definition RA8875_set_layer_transparency ::
  "RA8875_context \<Rightarrow> u8 \<Rightarrow> u8 \<Rightarrow> u8 \<Rightarrow> 'a spi_machine_scheme \<Rightarrow> 'a spi_machine_scheme outcome" where
  "RA8875_set_layer_transparency ctx scrollMode floatingWindowsEnable displayMode =
     write_regs ctx
       [(0x52, displayMode OR push_bit 5 floatingWindowsEnable OR push_bit 6 scrollMode)]"

definition RA8875_set_writing_layer ::
  "RA8875_context \<Rightarrow> u8 \<Rightarrow> 'a spi_machine_scheme \<Rightarrow> 'a spi_machine_scheme outcome" where
  "RA8875_set_writing_layer ctx layer = write_regs ctx [(0x41, layer AND 1)]"

section \<open>The timing the panel is given\<close>

text \<open>
  The formulas that the comments of \<open>RA8875_configure\<close> give for the registers. The low byte of
  \<open>VNDR\<close> and \<open>VSTR\<close> is that of the value minus one, the high byte that of the value.
\<close>

lemma uint_u8: "0 \<le> k \<Longrightarrow> k < 256 \<Longrightarrow> uint (word_of_int k :: u8) = k"
  by (simp only: uint_word_of_int) simp

lemma uint_hi8: "uint (hi8 v) = uint v div 256"
proof -
  have "uint v < 65536"
    using uint_lt2p [of v] by simp
  then have "uint v div 256 mod 256 = uint v div 256"
    by (intro mod_pos_pos_trivial) (simp_all add: pos_imp_zdiv_nonneg_iff)
  then show ?thesis
    by (simp add: hi8_def unsigned_ucast_eq drop_bit_eq_div uint_div take_bit_eq_mod)
qed

lemma uint_lo8: "uint (lo8 v) = uint v mod 256"
  by (simp add: lo8_def unsigned_ucast_eq take_bit_eq_mod)

lemma uint_word16: "uint (word16 lo hi) = uint lo + 256 * uint hi"
proof -
  define w where "w = (word_of_int (uint lo + 256 * uint hi) :: u16)"
  have b: "uint lo < 256" "uint lo + 256 * uint hi < 65536"
    using uint_lt2p [of lo] uint_lt2p [of hi] by simp_all
  then have u: "uint w = uint lo + 256 * uint hi"
    unfolding w_def by (simp only: uint_word_of_int) simp
  have "lo8 w = lo" "hi8 w = hi"
    using b(1) by (simp_all add: word_uint_eq_iff uint_lo8 uint_hi8 u)
  then show ?thesis
    using word16_lo_hi [of w] u by simp
qed

lemma minus_one_pair_int:
  "(x - 1) mod 256 + 256 * (x div 256) + 1 = x + (if x mod 256 = 0 then 256 else (0 :: int))"
proof -
  define q r where "q = x div 256" and "r = x mod 256"
  have x: "x = 256 * q + r" and r: "0 \<le> r" "r < 256"
    by (simp_all add: q_def r_def)
  have "(x - 1) mod 256 = (if r = 0 then 255 else r - 1)"
  proof (cases "r = 0")
    case True
    have "(x - 1) mod 256 = (255 + 256 * (q - 1)) mod 256"
      by (simp add: x True)
    also have "\<dots> = 255"
      by (simp only: mod_mult_self2) simp
    finally show ?thesis using True by simp
  next
    case False
    have "(x - 1) mod 256 = ((r - 1) + 256 * q) mod 256"
      by (simp add: x algebra_simps)
    also have "\<dots> = r - 1"
      using r False by (simp only: mod_mult_self2) simp
    finally show ?thesis using False by simp
  qed
  then show ?thesis
    unfolding q_def [symmetric] r_def [symmetric] by (simp add: x)
qed

lemma minus_one_pair:
  "word16 (word_of_int (uint v - 1)) (ucast (drop_bit 8 v)) + 1 = v + (if lo8 v = 0 then 256 else 0)"
proof -
  let ?w = "word16 (word_of_int (uint v - 1)) (ucast (drop_bit 8 v))"
  have lo: "uint (word_of_int (uint v - 1) :: u8) = (uint v - 1) mod 256"
    by (simp only: uint_word_of_int) simp
  have u: "uint ?w = (uint v - 1) mod 256 + 256 * (uint v div 256)"
    unfolding uint_word16 lo hi8_def [symmetric] uint_hi8 ..
  have z: "lo8 v = 0 \<longleftrightarrow> uint v mod 256 = 0"
    by (simp add: word_uint_eq_iff uint_lo8)
  have "uint ?w + 1 = uint v + (if lo8 v = 0 then 256 else 0)"
    unfolding u z by (rule minus_one_pair_int)
  then have "word_of_int (uint ?w + 1) = (word_of_int (uint v + (if lo8 v = 0 then 256 else 0)) :: u16)"
    by (rule arg_cong)
  then show ?thesis
    by (auto split: if_splits)
qed

text \<open>
  The timing registers after \<open>RA8875_configure\<close> stand for the timing given, but
  for the vertical non-display and start periods, which come out 256 too large when their low byte
  is 0, and the high byte of the vertical window start, which repeats the low byte.
\<close>

theorem configure_timing:
  fixes s :: "'a spi_machine_scheme"
  assumes ready: "port_ready ctx s"
    and width: "8 \<le> uint width" "uint width \<le> 2048" "uint width mod 8 = 0"
    and hnd: "uint hsync_nondisp = 8 * k + uint hsync_finetune + 2" "0 \<le> k"
    and hst: "8 \<le> uint hsync_start" "uint hsync_start mod 8 = 0"
    and hpw: "8 \<le> uint hsync_pw" "uint hsync_pw mod 8 = 0"
    and vpw: "vsync_pw \<noteq> 0"
  shows "\<exists>s'. RA8875_configure ctx hsync_nondisp hsync_start hsync_pw hsync_finetune
      vsync_nondisp vsync_start vsync_pw width height voffset s = Inr s' \<and> port_ready ctx s' \<and>
    (let rs = regs (panel_of s') in
      (uint (rs RA8875_HDWR) + 1) * 8 = uint width \<and>
      uint (rs RA8875_HNDR) * 8 + uint (rs RA8875_HNDFTR) + 2 = uint hsync_nondisp \<and>
      (uint (rs RA8875_HSTR) + 1) * 8 = uint hsync_start \<and>
      (uint (rs RA8875_HPWR) + 1) * 8 = uint hsync_pw \<and>
      reg16 rs RA8875_VDHR0 + 1 = height + voffset \<and>
      reg16 rs RA8875_VNDR0 + 1 = vsync_nondisp + (if lo8 vsync_nondisp = 0 then 256 else 0) \<and>
      reg16 rs RA8875_VSTR0 + 1 = vsync_start + (if lo8 vsync_start = 0 then 256 else 0) \<and>
      rs RA8875_VPWR + 1 = vsync_pw \<and>
      reg16 rs RA8875_HSAW0 = 0 \<and> reg16 rs RA8875_HEAW0 = width - 1 \<and>
      reg16 rs RA8875_VSAW0 = word16 (lo8 voffset) (lo8 voffset) \<and>
      reg16 rs RA8875_VEAW0 = height - 1 + voffset)"
proof -
  let ?c = "RA8875_configure ctx hsync_nondisp hsync_start hsync_pw hsync_finetune
      vsync_nondisp vsync_start vsync_pw width height voffset"
  have b: "uint hsync_start < 256" "uint hsync_pw < 256" "uint hsync_nondisp < 256"
    using uint_lt2p [of hsync_start] uint_lt2p [of hsync_pw] uint_lt2p [of hsync_nondisp] by simp_all
  have hnd': "uint (word_of_int ((uint hsync_nondisp - uint hsync_finetune - 2) sdiv 8) :: u8) = k"
  proof -
    have "(uint hsync_nondisp - uint hsync_finetune - 2) sdiv 8 = k"
      using hnd by (simp add: signed_divide_int_def sgn_if)
    moreover have "k < 256"
      using hnd b(3) uint_ge_0 [of hsync_finetune] by linarith
    ultimately show ?thesis
      using hnd(2) by (simp add: uint_u8)
  qed
  have q: "uint (word_of_int (n div 8 - 1) :: u8) = n div 8 - 1"
    if "8 \<le> n" "n \<le> 2048" for n :: int
    using that by (intro uint_u8) presburger+
  have hi: "word16 (ucast (x AND 0xFF)) (ucast (drop_bit 8 x)) = x" for x
    unfolding lo8_mask hi8_def [symmetric] by (rule word16_lo_hi)
  obtain s' where s': "?c s = Inr s'" "port_ready ctx s'"
    and rs: "regs (panel_of s') = fold (\<lambda>(r, v) rs. rs(r := v))
      (configure_regs hsync_nondisp hsync_start hsync_pw hsync_finetune
        vsync_nondisp vsync_start vsync_pw width height voffset) (regs (panel_of s))"
    using write_regs_panel [OF ready] port.rel_ready
    by (fastforce simp: RA8875_configure_def set_regs_registers configure_regs_def ra8875_defs)
  let ?rs = "regs (panel_of s')"
  note r = rs configure_regs_def reg16_def ra8875_defs
  have regs:
    "?rs RA8875_HDWR = word_of_int (uint width div 8 - 1)"
    "?rs RA8875_HNDR = word_of_int ((uint hsync_nondisp - uint hsync_finetune - 2) sdiv 8)"
    "?rs RA8875_HNDFTR = hsync_finetune"
    "?rs RA8875_HSTR = word_of_int (uint hsync_start div 8 - 1)"
    "?rs RA8875_HPWR = word_of_int (uint hsync_pw div 8 - 1)"
    "?rs RA8875_VPWR = word_of_int (uint vsync_pw - 1)"
    "reg16 ?rs RA8875_VDHR0 = word16 (ucast ((height - 1 + voffset) AND 0xFF))
       (ucast (drop_bit 8 (height - 1 + voffset)))"
    "reg16 ?rs RA8875_VNDR0 = word16 (word_of_int (uint vsync_nondisp - 1)) (ucast (drop_bit 8 vsync_nondisp))"
    "reg16 ?rs RA8875_VSTR0 = word16 (word_of_int (uint vsync_start - 1)) (ucast (drop_bit 8 vsync_start))"
    "reg16 ?rs RA8875_HSAW0 = word16 0 0"
    "reg16 ?rs RA8875_HEAW0 = word16 (ucast ((width - 1) AND 0xFF)) (ucast (drop_bit 8 (width - 1)))"
    "reg16 ?rs RA8875_VSAW0 = word16 (lo8 voffset) (lo8 voffset)"
    "reg16 ?rs RA8875_VEAW0 = word16 (ucast ((height - 1 + voffset) AND 0xFF))
       (ucast (drop_bit 8 (height - 1 + voffset)))"
    by (simp_all add: r lo8_def)
  have "(uint width div 8 - 1 + 1) * 8 = uint width" "(uint hsync_start div 8 - 1 + 1) * 8 = uint hsync_start"
      "(uint hsync_pw div 8 - 1 + 1) * 8 = uint hsync_pw"
    using width hst hpw by (simp_all add: minus_mod_eq_div_mult [symmetric])
  moreover have "k * 8 + uint hsync_finetune + 2 = uint hsync_nondisp"
    using hnd by simp
  moreover have "word_of_int (uint vsync_pw - 1) + 1 = vsync_pw" "word16 0 0 = 0"
      "height - 1 + voffset + 1 = height + voffset"
    by (simp_all add: word16_def)
  moreover have "uint (word_of_int (uint width div 8 - 1) :: u8) = uint width div 8 - 1"
    "uint (word_of_int (uint hsync_start div 8 - 1) :: u8) = uint hsync_start div 8 - 1"
    "uint (word_of_int (uint hsync_pw div 8 - 1) :: u8) = uint hsync_pw div 8 - 1"
    by (rule q; use width hst hpw b in linarith)+
  ultimately show ?thesis
    unfolding Let_def
    by (intro exI [of _ s'] conjI s') (simp_all only: regs hnd' minus_one_pair hi)
qed

lemma configure_timing_witness:
  "\<exists>s'. RA8875_configure demo_ctx 26 32 96 0 32 23 2 800 480 0 demo_machine = Inr s' \<and>
     port_ready demo_ctx s' \<and> (uint (regs (panel_of s') RA8875_HDWR) + 1) * 8 = 800 \<and>
     reg16 (regs (panel_of s')) RA8875_VNDR0 + 1 = 32 \<and>
     reg16 (regs (panel_of s')) RA8875_VEAW0 = 479"
  using configure_timing [of demo_ctx demo_machine 800 26 3 0 32 96 2 32 23 480 0] demo_ready
  by (auto simp: Let_def lo8_def)

end
