(* ===== verification/RA8875_Drawing.thy ===== *)
theory RA8875_Drawing
  imports RA8875_Core
begin

text \<open>
  The rectangles and the pixel data of \<open>components/RA8875/drawing.c\<close>. A rectangle is proved to be
  the figure that its arguments describe, whatever the registers held before.
\<close>

definition set_double_register ::
  "RA8875_context \<Rightarrow> u8 \<Rightarrow> u16 \<Rightarrow> 'a spi_machine_scheme \<Rightarrow> 'a spi_machine_scheme outcome" where
  "set_double_register ctx reg v = write_regs ctx [(reg, ucast v), (reg + 1, ucast (drop_bit 8 v))]"

definition RA8875_draw_rect ::
  "RA8875_context \<Rightarrow> u16 \<Rightarrow> u16 \<Rightarrow> u16 \<Rightarrow> u16 \<Rightarrow> u8 \<Rightarrow> u8
     \<Rightarrow> 'a spi_machine_scheme \<Rightarrow> 'a spi_machine_scheme outcome" where
  "RA8875_draw_rect ctx x1 y1 x2 y2 color filled =
     seq [set_double_register ctx 0x91 x1, set_double_register ctx 0x93 y1,
          set_double_register ctx 0x95 x2, set_double_register ctx 0x97 y2,
          write_regs ctx [(0x63, drop_bit 0 color AND 7), (0x64, drop_bit 3 color AND 7),
            (0x65, drop_bit 6 color AND 3)],
          write_regs ctx [(RA8875_DCR, if filled \<noteq> 0 then 0xB0 else 0x90)]]"

definition RA8875_draw_rect_fast ::
  "RA8875_context \<Rightarrow> u16 \<Rightarrow> u16 \<Rightarrow> u16 \<Rightarrow> u16 \<Rightarrow> 'a spi_machine_scheme \<Rightarrow> 'a spi_machine_scheme outcome" where
  "RA8875_draw_rect_fast ctx x1 y1 x2 y2 =
     seq [set_double_register ctx 0x91 x1, set_double_register ctx 0x93 y1,
          set_double_register ctx 0x95 x2, set_double_register ctx 0x97 y2,
          write_regs ctx [(RA8875_DCR, 0xB0)]]"

definition RA8875_draw_data ::
  "RA8875_context \<Rightarrow> u16 \<Rightarrow> u16 \<Rightarrow> u32 \<Rightarrow> int \<Rightarrow> 'a spi_machine_scheme \<Rightarrow> 'a spi_machine_scheme outcome" where
  "RA8875_draw_data ctx x y buffer len =
     seq [set_double_register ctx RA8875_CURH0 x, set_double_register ctx RA8875_CURV0 y,
          RA8875_write_command ctx RA8875_MRWC, RA8875_write_data_block ctx buffer len]"

section \<open>Rectangles\<close>

text \<open>The register writes of a rectangle, and what they make of the panel.\<close>

definition corner_regs :: "u16 \<Rightarrow> u16 \<Rightarrow> u16 \<Rightarrow> u16 \<Rightarrow> (u8 \<times> u8) list" where
  "corner_regs x1 y1 x2 y2 =
     [(0x91, lo8 x1), (0x92, hi8 x1), (0x93, lo8 y1), (0x94, hi8 y1),
      (0x95, lo8 x2), (0x96, hi8 x2), (0x97, lo8 y2), (0x98, hi8 y2)]"

definition colour_regs :: "u8 \<Rightarrow> (u8 \<times> u8) list" where
  "colour_regs c = [(0x63, c AND 7), (0x64, drop_bit 3 c AND 7), (0x65, drop_bit 6 c AND 3)]"

lemma draw_rect_writes:
  "RA8875_draw_rect ctx x1 y1 x2 y2 color filled =
     write_regs ctx (corner_regs x1 y1 x2 y2 @ colour_regs color @ [(0x90, if filled \<noteq> 0 then 0xB0 else 0x90)])"
  by (simp add: RA8875_draw_rect_def set_double_register_def seq_write_regs seq_single corner_regs_def
      colour_regs_def RA8875_DCR_def hi8_def lo8_def del: seq.simps)

lemma draw_rect_fast_writes:
  "RA8875_draw_rect_fast ctx x1 y1 x2 y2 = write_regs ctx (corner_regs x1 y1 x2 y2 @ [(0x90, 0xB0)])"
  by (simp add: RA8875_draw_rect_fast_def set_double_register_def seq_write_regs seq_single
      corner_regs_def RA8875_DCR_def hi8_def lo8_def del: seq.simps)

definition rect_regs :: "u16 \<Rightarrow> u16 \<Rightarrow> u16 \<Rightarrow> u16 \<Rightarrow> (u8 \<Rightarrow> u8) \<Rightarrow> (u8 \<Rightarrow> u8)" where
  "rect_regs x1 y1 x2 y2 rs = rs(0x91 := lo8 x1, 0x92 := hi8 x1, 0x93 := lo8 y1, 0x94 := hi8 y1,
     0x95 := lo8 x2, 0x96 := hi8 x2, 0x97 := lo8 y2, 0x98 := hi8 y2)"

definition colour_set :: "u8 \<Rightarrow> (u8 \<Rightarrow> u8) \<Rightarrow> (u8 \<Rightarrow> u8)" where
  "colour_set c rs = rs(0x63 := c AND 7, 0x64 := drop_bit 3 c AND 7, 0x65 := drop_bit 6 c AND 3)"

lemma foreground_colour_set [simp]: "foreground (colour_set c rs) = c"
  by (simp add: colour_set_def)

lemma foreground_other [simp]:
  "foreground (rect_regs x1 y1 x2 y2 rs) = foreground rs" "foreground (rs(0x90 := v)) = foreground rs"
  by (simp_all add: foreground_def rect_regs_def)

lemma rect_regs_corners [simp]:
  "reg16 (rect_regs x1 y1 x2 y2 rs) 0x91 = x1" "reg16 (rect_regs x1 y1 x2 y2 rs) 0x93 = y1"
  "reg16 (rect_regs x1 y1 x2 y2 rs) 0x95 = x2" "reg16 (rect_regs x1 y1 x2 y2 rs) 0x97 = y2"
  "reg16 (colour_set c rs) 0x91 = reg16 rs 0x91" "reg16 (colour_set c rs) 0x93 = reg16 rs 0x93"
  "reg16 (colour_set c rs) 0x95 = reg16 rs 0x95" "reg16 (colour_set c rs) 0x97 = reg16 rs 0x97"
  by (simp_all add: reg16_def rect_regs_def colour_set_def)

lemma colour_set_other [simp]:
  "r \<notin> {0x63, 0x64, 0x65} \<Longrightarrow> colour_set c rs r = rs r"
  "r \<notin> {0x62, 0x63, 0x64, 0x65} \<Longrightarrow> reg16 (colour_set c rs) r = reg16 rs r"
  by (auto simp: colour_set_def reg16_def eq_diff_eq [symmetric])

lemma run_corner_regs:
  "panel_run (set_regs (corner_regs x1 y1 x2 y2)) p =
     p\<lparr>selected := 0x98, regs := rect_regs x1 y1 x2 y2 (regs p)\<rparr>"
  by (rule panel_eqI) (simp_all add: corner_regs_def rect_regs_def)

lemma run_colour_regs:
  "panel_run (set_regs (colour_regs c)) p = p\<lparr>selected := 0x65, regs := colour_set c (regs p)\<rparr>"
  by (rule panel_eqI) (simp_all add: colour_regs_def colour_set_def)

lemma run_rect:
  "panel_run (set_regs (corner_regs x1 y1 x2 y2 @ colour_regs color @ [(0x90, if filled then 0xB0 else 0x90)])) p =
     p\<lparr>selected := 0x90,
       regs := (colour_set color (rect_regs x1 y1 x2 y2 (regs p)))(0x90 := if filled then 0xB0 else 0x90),
       figs := figs p @ [Rect x1 y1 x2 y2 color filled]\<rparr>"
  by (rule panel_eqI) (simp_all add: run_corner_regs run_colour_regs triggered_def)

lemma run_rect_fast:
  "panel_run (set_regs (corner_regs x1 y1 x2 y2 @ [(0x90, 0xB0)])) p =
     p\<lparr>selected := 0x90, regs := (rect_regs x1 y1 x2 y2 (regs p))(0x90 := 0xB0),
       figs := figs p @ [Rect x1 y1 x2 y2 (foreground (regs p)) True]\<rparr>"
  by (rule panel_eqI) (simp_all add: run_corner_regs triggered_def)

text \<open>
  \<open>RA8875_draw_rect\<close> asks for exactly the rectangle of its arguments, whatever
  the registers held before.
\<close>

theorem draw_rect_figure:
  fixes s :: "'a spi_machine_scheme"
  assumes "port_ready ctx s"
  shows "\<exists>s'. RA8875_draw_rect ctx x1 y1 x2 y2 color filled s = Inr s' \<and> port_ready ctx s' \<and>
    figs (panel_of s') = figs (panel_of s) @ [Rect x1 y1 x2 y2 color (filled \<noteq> 0)] \<and>
    foreground (regs (panel_of s')) = color \<and> mem s' = mem s"
proof -
  obtain s' where s': "RA8875_draw_rect ctx x1 y1 x2 y2 color filled s = Inr s'"
    and asks: "asks ctx (set_regs (corner_regs x1 y1 x2 y2 @ colour_regs color @
      [(0x90, if filled \<noteq> 0 then 0xB0 else 0x90)])) s s'"
    using write_regs_asks [OF assms] unfolding draw_rect_writes by blast
  from asks show ?thesis
    by (intro exI [of _ s']) (simp only: asks_panel [OF asks] run_rect s', simp add: asks_def bus_only_fields(2))
qed

lemma draw_rect_figure_witness:
  "\<exists>s'. RA8875_draw_rect demo_ctx 0 90 800 180 5 1 demo_machine = Inr s' \<and>
     figs (panel_of s') = figs (panel_of demo_machine) @ [Rect 0 90 800 180 5 True]"
  using draw_rect_figure [OF demo_ready, of 0 90 800 180 5 1] by auto

text \<open>\<open>RA8875_draw_rect_fast\<close> fills its rectangle with the colour that was set last.\<close>

lemma draw_rect_fast_asks:
  "port_ready ctx s \<Longrightarrow> \<exists>s'. RA8875_draw_rect_fast ctx x1 y1 x2 y2 s = Inr s' \<and>
     asks ctx (set_regs (corner_regs x1 y1 x2 y2 @ [(0x90, 0xB0)])) s s'"
  unfolding draw_rect_fast_writes by (rule write_regs_asks)

section \<open>Pixel data\<close>

text \<open>
  The payload follows the two cursor registers and the selection of the memory port. The block
  is sent in one transfer, so its length is bounded by that of a transfer.
\<close>

definition cursor_regs :: "u16 \<Rightarrow> u16 \<Rightarrow> (u8 \<times> u8) list" where
  "cursor_regs x y = [(0x46, lo8 x), (0x47, hi8 x), (0x48, lo8 y), (0x49, hi8 y)]"

lemma run_put_data:
  "selected p = 2 \<Longrightarrow> regs p 0x40 AND 0x80 = 0 \<Longrightarrow>
   panel_run (map Put_Data bs) p = p\<lparr>figs := figs p @ map Pixel_Byte bs\<rparr>"
  by (induction bs arbitrary: p) auto

lemma run_put_text:
  "selected p = 2 \<Longrightarrow> regs p 0x40 AND 0x80 \<noteq> 0 \<Longrightarrow>
   panel_run (map Put_Data bs) p =
     p\<lparr>figs := figs p @ map (Text_Byte (reg16 (regs p) 0x2A) (reg16 (regs p) 0x2C)
       (regs p 0x22) (foreground (regs p))) bs\<rparr>"
  by (induction bs arbitrary: p) auto

text \<open>
  \<open>RA8875_draw_data\<close> puts the write cursor at its position and sends the block,
  in graphic mode.
\<close>

theorem draw_data_sends_block:
  fixes s :: "'a spi_machine_scheme"
  assumes ready: "port_ready ctx s" and len: "0 < len" "len \<le> 8184"
    and buf: "esp_ptr_dma_capable buffer"
    and mode: "regs (panel_of s) 0x40 AND 0x80 = 0"
  shows "\<exists>s'. RA8875_draw_data ctx x y buffer len s = Inr s' \<and> port_ready ctx s' \<and>
    reg16 (regs (panel_of s')) RA8875_CURH0 = x \<and> reg16 (regs (panel_of s')) RA8875_CURV0 = y \<and>
    figs (panel_of s') = figs (panel_of s) @ map Pixel_Byte (load (mem s) buffer (nat len))"
proof -
  have c: "RA8875_draw_data ctx x y buffer len =
      seq [write_regs ctx (cursor_regs x y), RA8875_write_command ctx 2, RA8875_write_data_block ctx buffer len]"
    by (simp add: RA8875_draw_data_def set_double_register_def seq_write_regs cursor_regs_def
        ra8875_defs lo8_def hi8_def del: seq.simps)
  obtain s1 where s1: "write_regs ctx (cursor_regs x y) s = Inr s1" "asks ctx (set_regs (cursor_regs x y)) s s1"
    using write_regs_asks [OF ready] by blast
  obtain s2 where s2: "RA8875_write_command ctx 2 s1 = Inr s2" "asks ctx [Select 2] s1 s2"
    using write_command_asks [OF port.rel_ready [OF s1(2)]] by blast
  obtain s3 where s3: "RA8875_write_data_block ctx buffer len s2 = Inr s3"
      "asks ctx (map Put_Data (load (mem s2) buffer (nat len))) s2 s3"
    using write_data_block_asks [OF port.rel_ready [OF s2(2)] len buf] by blast
  have m: "mem s2 = mem s"
    using asks_same(1) [OF s1(2)] asks_same(1) [OF s2(2)] by simp
  have p2: "panel_of s2 = (panel_of s)\<lparr>selected := 2,
      regs := (regs (panel_of s))(0x46 := lo8 x, 0x47 := hi8 x, 0x48 := lo8 y, 0x49 := hi8 y)\<rparr>"
    by (simp add: asks_panel [OF s2(2)] asks_panel [OF s1(2)] cursor_regs_def reg_write_def)
  have "panel_of s3 = (panel_of s2)\<lparr>figs := figs (panel_of s2) @
      map Pixel_Byte (load (mem s2) buffer (nat len))\<rparr>"
    unfolding asks_panel [OF s3(2)] by (rule run_put_data) (simp_all add: p2 mode)
  moreover have "RA8875_draw_data ctx x y buffer len s = Inr s3"
    by (simp add: c s1 s2 s3)
  ultimately show ?thesis
    using port.rel_ready [OF s3(2)]
    by (intro exI [of _ s3]) (simp add: p2 m reg16_def ra8875_defs)
qed

lemma draw_data_sends_block_witness:
  "\<exists>s'. RA8875_draw_data demo_ctx 300 200 0x3FC90000 2 demo_machine = Inr s' \<and>
     figs (panel_of s') = figs (panel_of demo_machine) @ [Pixel_Byte 0, Pixel_Byte 1]"
proof -
  have mode: "regs (panel_of demo_machine) 0x40 AND 0x80 = 0"
    by (simp add: panel_of_def ops_def demo_machine_def panel0_def)
  have buf: "esp_ptr_dma_capable 0x3FC90000"
    by (simp add: esp_ptr_dma_capable_def)
  have bs: "map Pixel_Byte (load (mem demo_machine) 0x3FC90000 (nat 2)) = [Pixel_Byte 0, Pixel_Byte 1]"
    by (simp add: load_def demo_machine_def upt_rec)
  have "(0 :: int) < 2" "(2 :: int) \<le> 8184" by simp_all
  from draw_data_sends_block [OF demo_ready this buf mode, of 300 200, unfolded bs]
  show ?thesis by blast
qed

end
