(* ===== verification/Gpio.thy ===== *)
theory Gpio
  imports Machine
begin

text \<open>
  The GPIO driver of ESP-IDF (\<open>esp_driver_gpio/src/gpio.c\<close>, with the RTC pads of \<open>rtc_io.c\<close> and
  the register writes of \<open>hal/gpio_hal.c\<close> and \<open>gpio_ll.h\<close>): pad configuration and the interrupt service that calls
  the handlers of the buttons. Handlers are of a type parameter; what a handler does is an
  argument of the service routine. Sleep, hold and drive strength are in \<open>Gpio_Sleep\<close>.
\<close>

section \<open>Pads and the driver context\<close>

text \<open>
  \<open>func_out_sel_cfg\<close>: which signal the GPIO matrix sends to a pin and who enables its output; \<open>func_in_sel_cfg\<close>: the pin
  from which a signal comes, unless it bypasses the matrix. \<open>rtc_pad\<close>: the registers of a pin that has an RTC pad as well.
\<close>

record func_out_sel_cfg =
  out_func_sel :: nat
  out_inv_sel :: bool
  oen_sel :: bool
  oen_inv_sel :: bool

record func_in_sel_cfg =
  in_func_sel :: int
  in_inv_sel :: bool
  sig_in_sel :: bool

record rtc_pad =
  rtc_mux :: bool
  rtc_fun_sel :: int
  rtc_ie :: bool
  rtc_oe :: bool
  rtc_od :: bool
  rtc_rue :: bool
  rtc_rde :: bool
  rtc_out :: bool
  rtc_drv :: u32
  rtc_hold :: bool
  rtc_wakeup :: bool
  rtc_int_type :: nat
  rtc_slp_ie :: bool
  rtc_slp_oe :: bool
  rtc_slp_sel :: bool

record pad =
  ie :: bool
  oe :: bool
  od :: bool
  pu :: bool
  pd :: bool
  mcu_sel :: int
  out_cfg :: func_out_sel_cfg
  int_type :: nat
  int_ena :: bool
  out_level :: bool
  fun_drv :: u32
  wakeup_ena :: bool
  slp_sel :: bool
  slp_ie :: bool
  slp_oe :: bool
  slp_pu :: bool
  slp_pd :: bool
  dig_hold :: bool
  rtc :: rtc_pad

text \<open>Bits that are not of one pad: the pads of the USB port, and the hold of all pads.\<close>

record pad_control =
  usb_pad_enable :: bool
  usb_pull_override :: bool
  usb_dp_pullup :: bool
  dg_force_hold :: bool
  dg_force_unhold :: bool
  dg_autohold_en :: bool
  rtc_force_hold :: bool

record 'h isr_entry =
  isr_fn :: "'h option"
  isr_args :: u32

text \<open>
  \<open>intr_status\<close> and \<open>intr_status_high\<close> are the pending bits of pins 0 to 31 and from 32 on;
  \<open>gpio_isr_func\<close> is the handler table, \<open>None\<close> when the service is not installed. \<open>in_cfg\<close> is indexed by the number of
  the signal.
\<close>

record 'h gpio_context =
  pads :: "nat \<Rightarrow> pad"
  in_cfg :: "nat \<Rightarrow> func_in_sel_cfg"
  pad_ctl :: pad_control
  intr_status :: u32
  intr_status_high :: u32
  isr_core_id :: nat
  gpio_isr_func :: "(nat \<Rightarrow> 'h isr_entry) option"
  gpio_isr_handle :: "nat option"
  isr_clr_on_entry_mask :: u64

definition GPIO_ISR_CORE_ID_UNINIT :: nat where "GPIO_ISR_CORE_ID_UNINIT = 3"
definition GPIO_PIN_COUNT :: nat where "GPIO_PIN_COUNT = 49"
definition SOC_GPIO_SUPPORT_RTC_INDEPENDENT :: bool where "SOC_GPIO_SUPPORT_RTC_INDEPENDENT = True"
definition PIN_FUNC_GPIO :: int where "PIN_FUNC_GPIO = 1"
definition SIG_GPIO_OUT_IDX :: nat where "SIG_GPIO_OUT_IDX = 256"
definition USB_INT_PHY0_DM_GPIO_NUM :: int where "USB_INT_PHY0_DM_GPIO_NUM = 19"
definition USB_INT_PHY0_DP_GPIO_NUM :: int where "USB_INT_PHY0_DP_GPIO_NUM = 20"

definition GPIO_INTR_DISABLE :: nat where "GPIO_INTR_DISABLE = 0"
definition GPIO_INTR_POSEDGE :: nat where "GPIO_INTR_POSEDGE = 1"
definition GPIO_INTR_NEGEDGE :: nat where "GPIO_INTR_NEGEDGE = 2"
definition GPIO_INTR_ANYEDGE :: nat where "GPIO_INTR_ANYEDGE = 3"
definition GPIO_INTR_LOW_LEVEL :: nat where "GPIO_INTR_LOW_LEVEL = 4"
definition GPIO_INTR_HIGH_LEVEL :: nat where "GPIO_INTR_HIGH_LEVEL = 5"
definition GPIO_INTR_MAX :: nat where "GPIO_INTR_MAX = 6"

definition GPIO_MODE_DEF_INPUT :: u32 where "GPIO_MODE_DEF_INPUT = 1"
definition GPIO_MODE_DEF_OUTPUT :: u32 where "GPIO_MODE_DEF_OUTPUT = 2"
definition GPIO_MODE_DEF_OD :: u32 where "GPIO_MODE_DEF_OD = 4"
definition GPIO_MODE_INPUT :: u32 where "GPIO_MODE_INPUT = GPIO_MODE_DEF_INPUT"
definition GPIO_MODE_INPUT_OUTPUT :: u32 where "GPIO_MODE_INPUT_OUTPUT = GPIO_MODE_DEF_INPUT OR GPIO_MODE_DEF_OUTPUT"

lemmas gpio_const_defs = GPIO_ISR_CORE_ID_UNINIT_def GPIO_PIN_COUNT_def GPIO_INTR_DISABLE_def
  GPIO_INTR_POSEDGE_def GPIO_INTR_NEGEDGE_def GPIO_INTR_ANYEDGE_def GPIO_INTR_LOW_LEVEL_def GPIO_INTR_HIGH_LEVEL_def
  GPIO_INTR_MAX_def GPIO_MODE_DEF_INPUT_def GPIO_MODE_DEF_OUTPUT_def GPIO_MODE_DEF_OD_def GPIO_MODE_INPUT_def
  GPIO_MODE_INPUT_OUTPUT_def

text \<open>On the ESP32-S3 the pins 0 to 21 have an RTC pad (\<open>soc/esp32s3/rtc_io_periph.c\<close>).\<close>

definition rtc_gpio_is_valid_gpio :: "int \<Rightarrow> bool" where
  "rtc_gpio_is_valid_gpio n \<longleftrightarrow> 0 \<le> n \<and> n \<le> 21"

definition upd_pad :: "int \<Rightarrow> (pad \<Rightarrow> pad) \<Rightarrow> 'h gpio_context \<Rightarrow> 'h gpio_context" where
  "upd_pad n f g = g\<lparr>pads := (pads g)(nat n := f (pads g (nat n)))\<rparr>"

definition upd_rtc :: "int \<Rightarrow> (rtc_pad \<Rightarrow> rtc_pad) \<Rightarrow> 'h gpio_context \<Rightarrow> 'h gpio_context" where
  "upd_rtc n f = upd_pad n (\<lambda>p. p\<lparr>rtc := f (rtc p)\<rparr>)"

definition upd_ctl :: "(pad_control \<Rightarrow> pad_control) \<Rightarrow> 'h gpio_context \<Rightarrow> 'h gpio_context" where
  "upd_ctl f g = g\<lparr>pad_ctl := f (pad_ctl g)\<rparr>"

section \<open>Registers of a pad\<close>

text \<open>
  The functions of \<open>gpio_ll.h\<close> that do more than set a bit: the pull-up of the USB data line has an override of its own,
  a pin that becomes a GPIO is taken from the USB port, and disabling the output hands it to the enable bit.
\<close>

definition gpio_ll_pullup_dis :: "int \<Rightarrow> 'h gpio_context \<Rightarrow> 'h gpio_context" where
  "gpio_ll_pullup_dis n g =
     upd_pad n (\<lambda>p. p\<lparr>pu := False\<rparr>)
       (if n = USB_INT_PHY0_DP_GPIO_NUM then upd_ctl (\<lambda>c. c\<lparr>usb_pull_override := True, usb_dp_pullup := False\<rparr>) g else g)"

definition gpio_hal_func_sel :: "int \<Rightarrow> int \<Rightarrow> 'h gpio_context \<Rightarrow> 'h gpio_context" where
  "gpio_hal_func_sel n func g =
     upd_pad n (\<lambda>p. p\<lparr>mcu_sel := func\<rparr>)
       (if n = USB_INT_PHY0_DM_GPIO_NUM \<or> n = USB_INT_PHY0_DP_GPIO_NUM then upd_ctl (\<lambda>c. c\<lparr>usb_pad_enable := False\<rparr>) g else g)"

definition set_output_enable_ctrl :: "bool \<Rightarrow> bool \<Rightarrow> pad \<Rightarrow> pad" where
  "set_output_enable_ctrl ctrl_by_periph oen_inv p =
     p\<lparr>out_cfg := (out_cfg p)\<lparr>oen_inv_sel := oen_inv, oen_sel := \<not> ctrl_by_periph\<rparr>\<rparr>"

definition matrix_out_default :: "pad \<Rightarrow> pad" where
  "matrix_out_default p =
     p\<lparr>out_cfg := \<lparr>out_func_sel = SIG_GPIO_OUT_IDX, out_inv_sel = False, oen_sel = False, oen_inv_sel = False\<rparr>\<rparr>"

section \<open>Pull resistors\<close>

definition rtc_gpio_pullup_en :: "int \<Rightarrow> 'h gpio_context \<Rightarrow> esp_err_t \<times> 'h gpio_context" where
  "rtc_gpio_pullup_en n g =
     (if \<not> rtc_gpio_is_valid_gpio n then (ESP_ERR_INVALID_ARG, g)
      else (ESP_OK, upd_rtc n (\<lambda>r. r\<lparr>rtc_rue := True\<rparr>) g))"

definition rtc_gpio_pullup_dis :: "int \<Rightarrow> 'h gpio_context \<Rightarrow> esp_err_t \<times> 'h gpio_context" where
  "rtc_gpio_pullup_dis n g =
     (if \<not> rtc_gpio_is_valid_gpio n then (ESP_ERR_INVALID_ARG, g)
      else (ESP_OK, upd_rtc n (\<lambda>r. r\<lparr>rtc_rue := False\<rparr>)
        (if n = USB_INT_PHY0_DP_GPIO_NUM then upd_ctl (\<lambda>c. c\<lparr>usb_pull_override := True, usb_dp_pullup := False\<rparr>) g else g)))"

definition rtc_gpio_pulldown_en :: "int \<Rightarrow> 'h gpio_context \<Rightarrow> esp_err_t \<times> 'h gpio_context" where
  "rtc_gpio_pulldown_en n g =
     (if \<not> rtc_gpio_is_valid_gpio n then (ESP_ERR_INVALID_ARG, g)
      else (ESP_OK, upd_rtc n (\<lambda>r. r\<lparr>rtc_rde := True\<rparr>) g))"

definition rtc_gpio_pulldown_dis :: "int \<Rightarrow> 'h gpio_context \<Rightarrow> esp_err_t \<times> 'h gpio_context" where
  "rtc_gpio_pulldown_dis n g =
     (if \<not> rtc_gpio_is_valid_gpio n then (ESP_ERR_INVALID_ARG, g)
      else (ESP_OK, upd_rtc n (\<lambda>r. r\<lparr>rtc_rde := False\<rparr>) g))"

definition rtc_gpio_deinit :: "int \<Rightarrow> 'h gpio_context \<Rightarrow> esp_err_t \<times> 'h gpio_context" where
  "rtc_gpio_deinit n g =
     (if \<not> rtc_gpio_is_valid_gpio n then (ESP_ERR_INVALID_ARG, g)
      else (ESP_OK, upd_rtc n (\<lambda>r. r\<lparr>rtc_mux := False\<rparr>) g))"

datatype rtc_gpio_mode_t =
  RTC_GPIO_MODE_INPUT_ONLY | RTC_GPIO_MODE_OUTPUT_ONLY | RTC_GPIO_MODE_INPUT_OUTPUT | RTC_GPIO_MODE_DISABLED |
  RTC_GPIO_MODE_OUTPUT_OD | RTC_GPIO_MODE_INPUT_OUTPUT_OD

text \<open>\<open>rtcio_hal_set_direction\<close>: open drain, output, input.\<close>

definition rtcio_hal_set_direction :: "rtc_gpio_mode_t \<Rightarrow> rtc_pad \<Rightarrow> rtc_pad" where
  "rtcio_hal_set_direction m r =
     (case m of
        RTC_GPIO_MODE_INPUT_ONLY \<Rightarrow> r\<lparr>rtc_od := False, rtc_oe := False, rtc_ie := True\<rparr>
      | RTC_GPIO_MODE_OUTPUT_ONLY \<Rightarrow> r\<lparr>rtc_od := False, rtc_oe := True, rtc_ie := False\<rparr>
      | RTC_GPIO_MODE_INPUT_OUTPUT \<Rightarrow> r\<lparr>rtc_od := False, rtc_oe := True, rtc_ie := True\<rparr>
      | RTC_GPIO_MODE_DISABLED \<Rightarrow> r\<lparr>rtc_od := False, rtc_oe := False, rtc_ie := False\<rparr>
      | RTC_GPIO_MODE_OUTPUT_OD \<Rightarrow> r\<lparr>rtc_od := True, rtc_oe := True, rtc_ie := False\<rparr>
      | RTC_GPIO_MODE_INPUT_OUTPUT_OD \<Rightarrow> r\<lparr>rtc_od := True, rtc_oe := True, rtc_ie := True\<rparr>)"

definition rtc_gpio_set_direction :: "int \<Rightarrow> rtc_gpio_mode_t \<Rightarrow> 'h gpio_context \<Rightarrow> esp_err_t \<times> 'h gpio_context" where
  "rtc_gpio_set_direction n m g =
     (if \<not> rtc_gpio_is_valid_gpio n then (ESP_ERR_INVALID_ARG, g)
      else (ESP_OK, upd_rtc n (rtcio_hal_set_direction m) g))"

definition gpio_pullup_en :: "int \<Rightarrow> 'h gpio_context \<Rightarrow> esp_err_t \<times> 'h gpio_context" where
  "gpio_pullup_en n g =
     (if \<not> GPIO_IS_VALID_OUTPUT_GPIO n then (ESP_ERR_INVALID_ARG, g)
      else (ESP_OK, if \<not> rtc_gpio_is_valid_gpio n \<or> SOC_GPIO_SUPPORT_RTC_INDEPENDENT
                    then upd_pad n (\<lambda>p. p\<lparr>pu := True\<rparr>) g
                    else snd (rtc_gpio_pullup_en n g)))"

definition gpio_pullup_dis :: "int \<Rightarrow> 'h gpio_context \<Rightarrow> esp_err_t \<times> 'h gpio_context" where
  "gpio_pullup_dis n g =
     (if \<not> GPIO_IS_VALID_GPIO n then (ESP_ERR_INVALID_ARG, g)
      else (ESP_OK, if \<not> rtc_gpio_is_valid_gpio n \<or> SOC_GPIO_SUPPORT_RTC_INDEPENDENT then gpio_ll_pullup_dis n g
                    else snd (rtc_gpio_pullup_dis n g)))"

definition gpio_pulldown_en :: "int \<Rightarrow> 'h gpio_context \<Rightarrow> esp_err_t \<times> 'h gpio_context" where
  "gpio_pulldown_en n g =
     (if \<not> GPIO_IS_VALID_OUTPUT_GPIO n then (ESP_ERR_INVALID_ARG, g)
      else (ESP_OK, if \<not> rtc_gpio_is_valid_gpio n \<or> SOC_GPIO_SUPPORT_RTC_INDEPENDENT
                    then upd_pad n (\<lambda>p. p\<lparr>pd := True\<rparr>) g
                    else snd (rtc_gpio_pulldown_en n g)))"

definition gpio_pulldown_dis :: "int \<Rightarrow> 'h gpio_context \<Rightarrow> esp_err_t \<times> 'h gpio_context" where
  "gpio_pulldown_dis n g =
     (if \<not> GPIO_IS_VALID_GPIO n then (ESP_ERR_INVALID_ARG, g)
      else (ESP_OK, if \<not> rtc_gpio_is_valid_gpio n \<or> SOC_GPIO_SUPPORT_RTC_INDEPENDENT
                    then upd_pad n (\<lambda>p. p\<lparr>pd := False\<rparr>) g
                    else snd (rtc_gpio_pulldown_dis n g)))"

section \<open>Interrupt type and enable\<close>

definition pin_bit :: "int \<Rightarrow> u64" where
  "pin_bit n = push_bit (nat n) 1"

definition gpio_set_intr_type :: "int \<Rightarrow> nat \<Rightarrow> 'h gpio_context \<Rightarrow> esp_err_t \<times> 'h gpio_context" where
  "gpio_set_intr_type n ty g =
     (if \<not> GPIO_IS_VALID_GPIO n then (ESP_ERR_INVALID_ARG, g)
      else if \<not> ty < GPIO_INTR_MAX then (ESP_ERR_INVALID_ARG, g)
      else
        let g1 = upd_pad n (\<lambda>p. p\<lparr>int_type := ty\<rparr>) g
        in (ESP_OK,
            if ty = GPIO_INTR_POSEDGE \<or> ty = GPIO_INTR_NEGEDGE \<or> ty = GPIO_INTR_ANYEDGE
            then g1\<lparr>isr_clr_on_entry_mask := isr_clr_on_entry_mask g1 OR pin_bit n\<rparr>
            else g1\<lparr>isr_clr_on_entry_mask := isr_clr_on_entry_mask g1 AND NOT (pin_bit n)\<rparr>))"

definition gpio_hal_clear_intr_status_bit :: "int \<Rightarrow> 'h gpio_context \<Rightarrow> 'h gpio_context" where
  "gpio_hal_clear_intr_status_bit n g =
     (if n < 32 then g\<lparr>intr_status := intr_status g AND NOT (push_bit (nat n) 1)\<rparr>
      else g\<lparr>intr_status_high := intr_status_high g AND NOT (push_bit (nat (n - 32)) 1)\<rparr>)"

definition gpio_hal_intr_enable_on_core :: "int \<Rightarrow> nat \<Rightarrow> 'h gpio_context \<Rightarrow> 'h gpio_context" where
  "gpio_hal_intr_enable_on_core n core g =
     upd_pad n (\<lambda>p. p\<lparr>int_ena := True\<rparr>) (gpio_hal_clear_intr_status_bit n g)"

definition gpio_hal_intr_disable :: "int \<Rightarrow> 'h gpio_context \<Rightarrow> 'h gpio_context" where
  "gpio_hal_intr_disable n g =
     gpio_hal_clear_intr_status_bit n (upd_pad n (\<lambda>p. p\<lparr>int_ena := False\<rparr>) g)"

definition gpio_intr_enable_on_core :: "int \<Rightarrow> nat \<Rightarrow> 'h gpio_context \<Rightarrow> esp_err_t \<times> 'h gpio_context" where
  "gpio_intr_enable_on_core n core g = (ESP_OK, gpio_hal_intr_enable_on_core n core g)"

text \<open>\<open>core\<close> is the core the caller runs on (\<open>xPortGetCoreID\<close>).\<close>

definition gpio_intr_enable :: "nat \<Rightarrow> int \<Rightarrow> 'h gpio_context \<Rightarrow> esp_err_t \<times> 'h gpio_context" where
  "gpio_intr_enable core n g =
     (if \<not> GPIO_IS_VALID_GPIO n then (ESP_ERR_INVALID_ARG, g)
      else
        let g1 = (if isr_core_id g = GPIO_ISR_CORE_ID_UNINIT then g\<lparr>isr_core_id := core\<rparr> else g)
        in gpio_intr_enable_on_core n (isr_core_id g1) g1)"

definition gpio_intr_disable :: "int \<Rightarrow> 'h gpio_context \<Rightarrow> esp_err_t \<times> 'h gpio_context" where
  "gpio_intr_disable n g =
     (if \<not> GPIO_IS_VALID_GPIO n then (ESP_ERR_INVALID_ARG, g)
      else (ESP_OK, gpio_hal_intr_disable n g))"

section \<open>Direction and level\<close>

definition gpio_input_disable :: "int \<Rightarrow> 'h gpio_context \<Rightarrow> esp_err_t \<times> 'h gpio_context" where
  "gpio_input_disable n g =
     (if \<not> GPIO_IS_VALID_GPIO n then (ESP_ERR_INVALID_ARG, g)
      else (ESP_OK, upd_pad n (\<lambda>p. p\<lparr>ie := False\<rparr>) g))"

definition gpio_input_enable :: "int \<Rightarrow> 'h gpio_context \<Rightarrow> esp_err_t \<times> 'h gpio_context" where
  "gpio_input_enable n g =
     (if \<not> GPIO_IS_VALID_GPIO n then (ESP_ERR_INVALID_ARG, g)
      else (ESP_OK, upd_pad n (\<lambda>p. p\<lparr>ie := True\<rparr>) g))"

definition gpio_output_disable :: "int \<Rightarrow> 'h gpio_context \<Rightarrow> esp_err_t \<times> 'h gpio_context" where
  "gpio_output_disable n g =
     (if \<not> GPIO_IS_VALID_GPIO n then (ESP_ERR_INVALID_ARG, g)
      else (ESP_OK, upd_pad n (set_output_enable_ctrl False False) (upd_pad n (\<lambda>p. p\<lparr>oe := False\<rparr>) g)))"

definition gpio_output_enable :: "int \<Rightarrow> 'h gpio_context \<Rightarrow> esp_err_t \<times> 'h gpio_context" where
  "gpio_output_enable n g =
     (if \<not> GPIO_IS_VALID_OUTPUT_GPIO n then (ESP_ERR_INVALID_ARG, g)
      else (ESP_OK, upd_pad n (\<lambda>p. p\<lparr>oe := True\<rparr>) (upd_pad n matrix_out_default g)))"

definition gpio_od_disable :: "int \<Rightarrow> 'h gpio_context \<Rightarrow> esp_err_t \<times> 'h gpio_context" where
  "gpio_od_disable n g =
     (if \<not> GPIO_IS_VALID_GPIO n then (ESP_ERR_INVALID_ARG, g)
      else (ESP_OK, upd_pad n (\<lambda>p. p\<lparr>od := False\<rparr>) g))"

definition gpio_od_enable :: "int \<Rightarrow> 'h gpio_context \<Rightarrow> esp_err_t \<times> 'h gpio_context" where
  "gpio_od_enable n g =
     (if \<not> GPIO_IS_VALID_GPIO n then (ESP_ERR_INVALID_ARG, g)
      else (ESP_OK, upd_pad n (\<lambda>p. p\<lparr>od := True\<rparr>) g))"

definition gpio_set_level :: "int \<Rightarrow> u32 \<Rightarrow> 'h gpio_context \<Rightarrow> esp_err_t \<times> 'h gpio_context" where
  "gpio_set_level n level g =
     (if \<not> GPIO_IS_VALID_OUTPUT_GPIO n then (ESP_ERR_INVALID_ARG, g)
      else (ESP_OK, upd_pad n (\<lambda>p. p\<lparr>out_level := (level \<noteq> 0)\<rparr>) g))"

text \<open>The level of an input pin comes from outside; reading it is an event of the log.\<close>

definition gpio_get_level :: "int \<Rightarrow> 'a machine_scheme \<Rightarrow> bool \<times> 'a machine_scheme" where
  "gpio_get_level n s =
     (let pin = word_of_int n; level = pin_level (environ s) (log s) pin
      in (level, emit (Pin_Read pin level) s))"

datatype gpio_pull_mode_t =
  GPIO_PULLUP_ONLY | GPIO_PULLDOWN_ONLY | GPIO_PULLUP_PULLDOWN | GPIO_FLOATING

definition gpio_set_pull_mode ::
  "int \<Rightarrow> gpio_pull_mode_t \<Rightarrow> 'h gpio_context \<Rightarrow> esp_err_t \<times> 'h gpio_context" where
  "gpio_set_pull_mode n pull g =
     (if \<not> GPIO_IS_VALID_GPIO n then (ESP_ERR_INVALID_ARG, g)
      else (ESP_OK, case pull of
          GPIO_PULLUP_ONLY \<Rightarrow> snd (gpio_pullup_en n (snd (gpio_pulldown_dis n g)))
        | GPIO_PULLDOWN_ONLY \<Rightarrow> snd (gpio_pullup_dis n (snd (gpio_pulldown_en n g)))
        | GPIO_PULLUP_PULLDOWN \<Rightarrow> snd (gpio_pullup_en n (snd (gpio_pulldown_en n g)))
        | GPIO_FLOATING \<Rightarrow> snd (gpio_pullup_dis n (snd (gpio_pulldown_dis n g)))))"

definition gpio_set_direction :: "int \<Rightarrow> u32 \<Rightarrow> 'h gpio_context \<Rightarrow> esp_err_t \<times> 'h gpio_context" where
  "gpio_set_direction n mode g =
     (if \<not> GPIO_IS_VALID_GPIO n then (ESP_ERR_INVALID_ARG, g)
      else if \<not> GPIO_IS_VALID_OUTPUT_GPIO n \<and> mode AND GPIO_MODE_DEF_OUTPUT \<noteq> 0
      then (ESP_ERR_INVALID_ARG, g)
      else
        let g1 = snd (if mode AND GPIO_MODE_DEF_INPUT \<noteq> 0 then gpio_input_enable n g
                      else gpio_input_disable n g);
            g2 = snd (if mode AND GPIO_MODE_DEF_OUTPUT \<noteq> 0 then gpio_output_enable n g1
                      else gpio_output_disable n g1)
        in (ESP_OK, snd (if mode AND GPIO_MODE_DEF_OD \<noteq> 0 then gpio_od_enable n g2
                         else gpio_od_disable n g2)))"

section \<open>gpio\_config\<close>

record gpio_config_t =
  pin_bit_mask :: u64
  mode :: u32
  pull_up_en :: bool
  pull_down_en :: bool
  intr_type :: nat

text \<open>The body of the loop, for a pin whose bit is set.\<close>

definition config_pin ::
  "nat \<Rightarrow> gpio_config_t \<Rightarrow> int \<Rightarrow> 'h gpio_context \<Rightarrow> 'h gpio_context" where
  "config_pin core c n g =
     (let g0 = (if rtc_gpio_is_valid_gpio n then snd (rtc_gpio_deinit n g) else g);
          g1 = snd (if mode c AND GPIO_MODE_DEF_INPUT \<noteq> 0 then gpio_input_enable n g0
                    else gpio_input_disable n g0);
          g2 = snd (if mode c AND GPIO_MODE_DEF_OD \<noteq> 0 then gpio_od_enable n g1
                    else gpio_od_disable n g1);
          g3 = snd (if mode c AND GPIO_MODE_DEF_OUTPUT \<noteq> 0 then gpio_output_enable n g2
                    else gpio_output_disable n g2);
          g4 = snd (if pull_up_en c then gpio_pullup_en n g3 else gpio_pullup_dis n g3);
          g5 = snd (if pull_down_en c then gpio_pulldown_en n g4 else gpio_pulldown_dis n g4);
          g6 = snd (gpio_set_intr_type n (intr_type c) g5);
          g7 = snd (if intr_type c \<noteq> 0 then gpio_intr_enable core n g6 else gpio_intr_disable n g6)
      in gpio_hal_func_sel n PIN_FUNC_GPIO g7)"

definition gpio_config ::
  "nat \<Rightarrow> gpio_config_t \<Rightarrow> 'h gpio_context \<Rightarrow> esp_err_t \<times> 'h gpio_context" where
  "gpio_config core c g =
     (if pin_bit_mask c = 0 \<or> pin_bit_mask c AND NOT SOC_GPIO_VALID_GPIO_MASK \<noteq> 0
      then (ESP_ERR_INVALID_ARG, g)
      else if mode c AND GPIO_MODE_DEF_OUTPUT \<noteq> 0 \<and>
              pin_bit_mask c AND NOT SOC_GPIO_VALID_OUTPUT_GPIO_MASK \<noteq> 0
      then (ESP_ERR_INVALID_ARG, g)
      else (ESP_OK, fold (\<lambda>io g. if drop_bit io (pin_bit_mask c) AND 1 \<noteq> 0
                                 then config_pin core c (int io) g else g)
                      [0..<GPIO_PIN_COUNT] g))"

definition gpio_config_as_analog :: "int \<Rightarrow> 'h gpio_context \<Rightarrow> esp_err_t \<times> 'h gpio_context" where
  "gpio_config_as_analog n g =
     (if \<not> GPIO_IS_VALID_GPIO n then (ESP_ERR_INVALID_ARG, g)
      else
        let g1 = gpio_hal_func_sel n PIN_FUNC_GPIO (snd (gpio_pulldown_dis n (snd (gpio_pullup_dis n
                   (snd (gpio_output_disable n (snd (gpio_input_disable n g))))))))
        in (ESP_OK, if rtc_gpio_is_valid_gpio n
                    then snd (rtc_gpio_pulldown_dis n (snd (rtc_gpio_pullup_dis n
                           (snd (rtc_gpio_set_direction n RTC_GPIO_MODE_DISABLED (snd (rtc_gpio_deinit n g1)))))))
                    else g1))"

definition gpio_reset_pin :: "int \<Rightarrow> 'h gpio_context \<Rightarrow> esp_err_t \<times> 'h gpio_context" where
  "gpio_reset_pin n g =
     (if \<not> GPIO_IS_VALID_GPIO n then (ESP_ERR_INVALID_ARG, g)
      else
        let g1 = snd (gpio_output_disable n (snd (gpio_input_disable n (snd (gpio_pulldown_dis n
                   (snd (gpio_pullup_en n (snd (gpio_intr_disable n g)))))))));
            g2 = (if rtc_gpio_is_valid_gpio n then snd (rtc_gpio_deinit n g1) else g1)
        in (ESP_OK, gpio_hal_func_sel n PIN_FUNC_GPIO g2))"

section \<open>The interrupt service\<close>

lemma clear_bit_less:
  fixes x :: "'a::len word"
  assumes "bit x i"
  shows "x AND NOT (push_bit i 1) < x"
proof -
  have "x AND NOT (push_bit i 1) \<le> x"
    by (rule word_and_le2)
  moreover have "i < LENGTH('a)"
    using assms by (rule bit_imp_le_length)
  then have "\<not> bit (x AND NOT (push_bit i 1)) i"
    by (simp add: bit_simps)
  then have "x AND NOT (push_bit i 1) \<noteq> x"
    using assms by metis
  ultimately show ?thesis by simp
qed

text \<open>
  \<open>call\<close> runs a handler with its argument on the rest of the state. The clearing of the status
  bit comes before the handler for edge-triggered pins, after it for the others. A handler cannot change
  the GPIO driver here and no pin latches while the service runs, so that what a handler or an edge in
  the middle of the service does is outside the model; the status word that is cleared is also the
  word that the service reads, which on the chip is masked by the enabled pins of the core.
\<close>

definition run_pin_handler ::
  "('h \<Rightarrow> u32 \<Rightarrow> 's \<Rightarrow> 's) \<Rightarrow> nat \<Rightarrow> 'h gpio_context \<times> 's \<Rightarrow> 'h gpio_context \<times> 's" where
  "run_pin_handler call n gs =
     (let g = fst gs;
          cleared = pin_bit (int n) AND isr_clr_on_entry_mask g \<noteq> 0;
          g1 = (if cleared then gpio_hal_clear_intr_status_bit (int n) g else g);
          e = the (gpio_isr_func g1) n;
          s1 = (case isr_fn e of None \<Rightarrow> snd gs | Some f \<Rightarrow> call f (isr_args e) (snd gs))
      in (if cleared then g1 else gpio_hal_clear_intr_status_bit (int n) g1, s1))"

function gpio_isr_loop ::
  "('h \<Rightarrow> u32 \<Rightarrow> 's \<Rightarrow> 's) \<Rightarrow> u32 \<Rightarrow> nat \<Rightarrow> 'h gpio_context \<times> 's \<Rightarrow> 'h gpio_context \<times> 's" where
  "gpio_isr_loop call status gpio_num_start gs =
     (if status = 0 then gs
      else
        let nbit = ffs status - 1;
            status' = status AND NOT (push_bit nbit 1)
        in gpio_isr_loop call status' gpio_num_start
             (run_pin_handler call (gpio_num_start + nbit) gs))"
  by pat_completeness auto
termination
proof (relation "measure (\<lambda>(call, status, start, gs). unat status)")
  fix call :: "'h \<Rightarrow> u32 \<Rightarrow> 's \<Rightarrow> 's" and status status' :: u32 and start nbit gs
  assume "status \<noteq> 0" "nbit = ffs status - 1" "status' = status AND NOT (push_bit nbit 1)"
  then have "status' < status"
    using ffs_bit [of status] clear_bit_less [of status nbit] by simp
  then show "((call, status', start, run_pin_handler call (start + nbit) gs), (call, status, start, gs))
      \<in> measure (\<lambda>(call, status, start, gs). unat status)"
    by (simp add: word_less_nat_alt)
qed simp

declare gpio_isr_loop.simps [simp del]

definition gpio_intr_service ::
  "('h \<Rightarrow> u32 \<Rightarrow> 's \<Rightarrow> 's) \<Rightarrow> 'h gpio_context \<times> 's \<Rightarrow> 'h gpio_context \<times> 's" where
  "gpio_intr_service call gs =
     (if gpio_isr_func (fst gs) = None then gs
      else
        let gs1 = (if intr_status (fst gs) \<noteq> 0
                   then gpio_isr_loop call (intr_status (fst gs)) 0 gs else gs)
        in if intr_status_high (fst gs1) \<noteq> 0
           then gpio_isr_loop call (intr_status_high (fst gs1)) 32 gs1 else gs1)"

section \<open>Installing the service and adding handlers\<close>

definition gpio_uninstall_isr_service :: "'h gpio_context \<Rightarrow> 'h gpio_context" where
  "gpio_uninstall_isr_service g =
     (if gpio_isr_func g = None then g
      else g\<lparr>gpio_isr_func := None, gpio_isr_handle := None, isr_core_id := GPIO_ISR_CORE_ID_UNINIT\<rparr>)"

definition gpio_isr_register :: "env \<Rightarrow> nat \<Rightarrow> 'h gpio_context \<Rightarrow> esp_err_t \<times> 'h gpio_context" where
  "gpio_isr_register e core g =
     (let g1 = (if isr_core_id g = GPIO_ISR_CORE_ID_UNINIT then g\<lparr>isr_core_id := core\<rparr> else g)
      in if step_result e ''esp_ipc_call_blocking'' \<noteq> ESP_OK then (ESP_ERR_NOT_FOUND, g1)
         else if step_result e ''esp_intr_alloc'' \<noteq> ESP_OK then (ESP_ERR_NOT_FOUND, g1)
         else (ESP_OK, g1\<lparr>gpio_isr_handle := Some (isr_core_id g1)\<rparr>))"

definition gpio_install_isr_service ::
  "env \<Rightarrow> nat \<Rightarrow> 'h gpio_context \<Rightarrow> esp_err_t \<times> 'h gpio_context" where
  "gpio_install_isr_service e core g =
     (if gpio_isr_func g \<noteq> None then (ESP_ERR_INVALID_STATE, g)
      else if step_result e ''heap_caps_calloc'' \<noteq> ESP_OK then (ESP_ERR_NO_MEM, g)
      else case gpio_isr_register e core
             (g\<lparr>gpio_isr_func := Some (\<lambda>_. \<lparr>isr_fn = None, isr_args = 0\<rparr>)\<rparr>) of
        (ret, g1) \<Rightarrow> (ret, if ret \<noteq> ESP_OK then gpio_uninstall_isr_service g1 else g1))"

definition gpio_isr_handler_add ::
  "int \<Rightarrow> 'h \<Rightarrow> u32 \<Rightarrow> 'h gpio_context \<Rightarrow> esp_err_t \<times> 'h gpio_context" where
  "gpio_isr_handler_add n isr_handler args g =
     (case gpio_isr_func g of
        None \<Rightarrow> (ESP_ERR_INVALID_STATE, g)
      | Some table \<Rightarrow>
          if \<not> GPIO_IS_VALID_GPIO n then (ESP_ERR_INVALID_ARG, g)
          else
            let g1 = snd (gpio_intr_disable n g);
                g2 = g1\<lparr>gpio_isr_func :=
                       Some (table(nat n := \<lparr>isr_fn = Some isr_handler, isr_args = args\<rparr>))\<rparr>
            in (ESP_OK, snd (gpio_intr_enable_on_core n (the (gpio_isr_handle g2)) g2)))"

definition gpio_isr_handler_remove :: "int \<Rightarrow> 'h gpio_context \<Rightarrow> esp_err_t \<times> 'h gpio_context" where
  "gpio_isr_handler_remove n g =
     (case gpio_isr_func g of
        None \<Rightarrow> (ESP_ERR_INVALID_STATE, g)
      | Some table \<Rightarrow>
          if \<not> GPIO_IS_VALID_GPIO n then (ESP_ERR_INVALID_ARG, g)
          else
            let g1 = snd (gpio_intr_disable n g)
            in (ESP_OK, g1\<lparr>gpio_isr_func := Some (table(nat n := \<lparr>isr_fn = None, isr_args = 0\<rparr>))\<rparr>))"

section \<open>Dispatch of the pending interrupts\<close>

text \<open>The set bits of a status word in the order in which the loop takes them.\<close>

definition pending :: "u32 \<Rightarrow> nat list" where
  "pending status = filter (bit status) [0..<32]"

lemma pending_0 [simp]: "pending 0 = []"
  by (simp add: pending_def)

lemma pending_step:
  assumes "status \<noteq> 0"
  shows "pending status =
    (ffs status - 1) # pending (status AND NOT (push_bit (ffs status - 1) 1))"
proof -
  define i where "i = ffs status - 1"
  have i: "bit status i" "\<And>j. j < i \<Longrightarrow> \<not> bit status j"
    using ffs_bit [OF assms] by (auto simp: i_def)
  then have "i < 32"
    using bit_imp_le_length [of status i] by simp
  then have split: "[0..<32] = [0..<i] @ i # [Suc i..<32]"
    by (metis append_Cons append_Nil append_assoc le_eq_less_or_eq less_imp_le upt_add_eq_append
        upt_conv_Cons zero_le add_diff_inverse_nat not_less0 linorder_not_less)
  have low: "filter (bit status) [0..<i] = []"
      "filter (bit (status AND NOT (push_bit i 1))) [0..<i] = []"
    using i(2) by (auto simp: filter_empty_conv bit_simps)
  have high: "filter (bit (status AND NOT (push_bit i 1))) [Suc i..<32] = filter (bit status) [Suc i..<32]"
    by (rule filter_cong) (auto simp: bit_simps)
  show ?thesis
    unfolding pending_def i_def [symmetric] split filter_append
    using i(1) low high \<open>i < 32\<close> by (simp add: bit_simps)
qed

definition handler_effect ::
  "('h \<Rightarrow> u32 \<Rightarrow> 's \<Rightarrow> 's) \<Rightarrow> (nat \<Rightarrow> 'h isr_entry) \<Rightarrow> nat \<Rightarrow> 's \<Rightarrow> 's" where
  "handler_effect call table n s =
     (case isr_fn (table n) of None \<Rightarrow> s | Some f \<Rightarrow> call f (isr_args (table n)) s)"

lemma gpio_isr_func_clear [simp]:
  "gpio_isr_func (gpio_hal_clear_intr_status_bit n g) = gpio_isr_func g"
  by (simp add: gpio_hal_clear_intr_status_bit_def)

lemma run_pin_handler_eq:
  "gpio_isr_func g = Some table \<Longrightarrow>
   run_pin_handler call n (g, s) =
     (gpio_hal_clear_intr_status_bit (int n) g, handler_effect call table n s)"
  by (simp add: run_pin_handler_def handler_effect_def Let_def split: option.split)

lemma gpio_isr_loop_effect:
  "gpio_isr_func g = Some table \<Longrightarrow>
   gpio_isr_loop call status start (g, s) =
     (fold (\<lambda>i g. gpio_hal_clear_intr_status_bit (int (start + i)) g) (pending status) g,
      fold (\<lambda>i s. handler_effect call table (start + i) s) (pending status) s)"
proof (induction call status start "(g, s)" arbitrary: g s rule: gpio_isr_loop.induct)
  case (1 call status start g s)
  show ?case
  proof (cases "status = 0")
    case True
    then show ?thesis by (simp add: gpio_isr_loop.simps [of call 0])
  next
    case False
    let ?i = "ffs status - 1"
    have "gpio_isr_loop call status start (g, s) =
        gpio_isr_loop call (status AND NOT (push_bit ?i 1)) start
          (gpio_hal_clear_intr_status_bit (int (start + ?i)) g, handler_effect call table (start + ?i) s)"
      using False by (simp add: gpio_isr_loop.simps [of call status] run_pin_handler_eq [OF 1(2)] Let_def)
    also have "\<dots> = (fold (\<lambda>i g. gpio_hal_clear_intr_status_bit (int (start + i)) g)
        (pending (status AND NOT (push_bit ?i 1))) (gpio_hal_clear_intr_status_bit (int (start + ?i)) g),
        fold (\<lambda>i s. handler_effect call table (start + i) s)
        (pending (status AND NOT (push_bit ?i 1))) (handler_effect call table (start + ?i) s))"
      by (rule 1(1) [OF False refl refl]) (simp_all add: run_pin_handler_eq [OF 1(2)] 1(2))
    finally show ?thesis
      by (simp add: pending_step [OF False])
  qed
qed

text \<open>Clearing the pending bits one after the other clears the whole word.\<close>

definition clear_pin :: "nat \<Rightarrow> u32 \<Rightarrow> u32" where
  "clear_pin i st = st AND NOT (push_bit i 1)"

lemma clear_low:
  "\<forall>i \<in> set is. i < 32 \<Longrightarrow>
   fold (\<lambda>i g. gpio_hal_clear_intr_status_bit (int i) g) is g =
     g\<lparr>intr_status := fold clear_pin is (intr_status g)\<rparr>"
  by (induction "is" arbitrary: g) (simp_all add: gpio_hal_clear_intr_status_bit_def clear_pin_def)

lemma clear_high:
  "fold (\<lambda>i. gpio_hal_clear_intr_status_bit (32 + int i)) is g =
     g\<lparr>intr_status_high := fold clear_pin is (intr_status_high g)\<rparr>"
  by (induction "is" arbitrary: g) (simp_all add: gpio_hal_clear_intr_status_bit_def clear_pin_def)

lemma bit_clear_fold:
  "bit (fold clear_pin is (w :: u32)) n \<longleftrightarrow> bit w n \<and> n \<notin> set is"
proof (induction "is" arbitrary: w)
  case (Cons i "is")
  then show ?case
    using bit_imp_le_length [of w n] by (auto simp: bit_simps clear_pin_def)
qed simp

lemma clear_pending: "fold clear_pin (pending w) w = 0"
  by (rule bit_word_eqI) (simp add: bit_clear_fold pending_def)

lemma gpio_intr_service_dispatch_core:
  assumes "gpio_isr_func g = Some table"
  shows "gpio_intr_service call (g, s) =
    (g\<lparr>intr_status := 0, intr_status_high := 0\<rparr>,
     fold (handler_effect call table)
       (pending (intr_status g) @ map ((+) 32) (pending (intr_status_high g))) s)"
proof -
  have lo: "gpio_isr_loop call (intr_status g) 0 (g, s) =
      (g\<lparr>intr_status := 0\<rparr>, fold (handler_effect call table) (pending (intr_status g)) s)"
    unfolding gpio_isr_loop_effect [OF assms]
    using clear_low [of "pending (intr_status g)" g] clear_pending [of "intr_status g"]
    by (simp add: pending_def)
  have hi: "gpio_isr_loop call (intr_status_high g) 32 (g\<lparr>intr_status := 0\<rparr>, s') =
      (g\<lparr>intr_status := 0, intr_status_high := 0\<rparr>,
       fold (handler_effect call table) (map ((+) 32) (pending (intr_status_high g))) s')" for s'
    by (subst gpio_isr_loop_effect [where table = table])
      (simp_all add: assms clear_high clear_pending fold_map comp_def)
  show ?thesis
  proof (cases "intr_status g = 0")
    case True
    then have g: "g\<lparr>intr_status := 0\<rparr> = g" by simp
    show ?thesis
      using assms hi [of s, unfolded g] True by (auto simp: gpio_intr_service_def Let_def)
  next
    case False
    then show ?thesis
      using assms by (auto simp: gpio_intr_service_def lo hi Let_def)
  qed
qed

text \<open>
  C39: The interrupt service ends; it has run the handler of every latched pin once, in the order
  of the pin numbers, and cleared both status words.
\<close>

theorem gpio_intr_service_dispatch:
  assumes "gpio_isr_func g = Some table"
  shows "gpio_intr_service call (g, s) =
    (g\<lparr>intr_status := 0, intr_status_high := 0\<rparr>,
     fold (handler_effect call table)
       (pending (intr_status g) @ map ((+) 32) (pending (intr_status_high g))) s)"
  by (rule gpio_intr_service_dispatch_core [OF assms])

lemma gpio_intr_service_dispatch_witness:
  "gpio_intr_service (\<lambda>f a s. s @ [f])
      (\<lparr>pads = (\<lambda>_. undefined), in_cfg = (\<lambda>_. undefined), pad_ctl = undefined, intr_status = 0, intr_status_high = 0x18000, isr_core_id = 0,
        gpio_isr_func = Some ((\<lambda>_. \<lparr>isr_fn = None, isr_args = 0\<rparr>)
          (47 := \<lparr>isr_fn = Some ''sub'', isr_args = 0\<rparr>, 48 := \<lparr>isr_fn = Some ''mode'', isr_args = 0\<rparr>)),
        gpio_isr_handle = Some 0, isr_clr_on_entry_mask = 0\<rparr>, []) =
   (\<lparr>pads = (\<lambda>_. undefined), in_cfg = (\<lambda>_. undefined), pad_ctl = undefined, intr_status = 0, intr_status_high = 0, isr_core_id = 0,
        gpio_isr_func = Some ((\<lambda>_. \<lparr>isr_fn = None, isr_args = 0\<rparr>)
          (47 := \<lparr>isr_fn = Some ''sub'', isr_args = 0\<rparr>, 48 := \<lparr>isr_fn = Some ''mode'', isr_args = 0\<rparr>)),
        gpio_isr_handle = Some 0, isr_clr_on_entry_mask = 0\<rparr>, [''sub'', ''mode''])"
proof -
  have "pending 0x18000 = [15, 16]"
    by (simp add: pending_def upt_rec bit_simps)
  then show ?thesis
    by (subst gpio_intr_service_dispatch [OF gpio_context.select_convs(7)]) (simp add: handler_effect_def)
qed

section \<open>What gpio\_config leaves\<close>

definition output_cfg :: "bool \<Rightarrow> func_out_sel_cfg \<Rightarrow> func_out_sel_cfg" where
  "output_cfg b c =
     (if b then \<lparr>out_func_sel = SIG_GPIO_OUT_IDX, out_inv_sel = False, oen_sel = False, oen_inv_sel = False\<rparr>
      else c\<lparr>oen_inv_sel := False, oen_sel := True\<rparr>)"

definition configured :: "gpio_config_t \<Rightarrow> nat \<Rightarrow> pad \<Rightarrow> pad" where
  "configured c n p =
     p\<lparr>rtc := (rtc p)\<lparr>rtc_mux := (rtc_mux (rtc p) \<and> 21 < n)\<rparr>, ie := (mode c AND GPIO_MODE_DEF_INPUT \<noteq> 0),
       od := (mode c AND GPIO_MODE_DEF_OD \<noteq> 0), oe := (mode c AND GPIO_MODE_DEF_OUTPUT \<noteq> 0),
       out_cfg := output_cfg (mode c AND GPIO_MODE_DEF_OUTPUT \<noteq> 0) (out_cfg p),
       pu := pull_up_en c, pd := pull_down_en c, int_type := intr_type c,
       int_ena := (intr_type c \<noteq> 0), mcu_sel := PIN_FUNC_GPIO\<rparr>"

lemma valid_output_gpio: "GPIO_IS_VALID_OUTPUT_GPIO n = GPIO_IS_VALID_GPIO n"
  by (simp add: GPIO_IS_VALID_OUTPUT_GPIO_def GPIO_IS_VALID_GPIO_def SOC_GPIO_VALID_OUTPUT_GPIO_MASK_def)

lemma pads_clear [simp]: "pads (gpio_hal_clear_intr_status_bit n g) = pads g"
  by (simp add: gpio_hal_clear_intr_status_bit_def)

lemma pads_upd [simp]: "pads (upd_pad n f g) = (pads g)(nat n := f (pads g (nat n)))"
  by (simp add: upd_pad_def)

lemma pads_upd_ctl [simp]: "pads (upd_ctl f g) = pads g"
  by (simp add: upd_ctl_def)

lemmas gpio_op_defs =
  rtc_gpio_pullup_en_def rtc_gpio_pullup_dis_def rtc_gpio_pulldown_en_def rtc_gpio_pulldown_dis_def
  rtc_gpio_deinit_def gpio_pullup_en_def gpio_pullup_dis_def gpio_pulldown_en_def
  gpio_pulldown_dis_def gpio_input_enable_def gpio_input_disable_def gpio_output_enable_def
  gpio_output_disable_def gpio_od_enable_def gpio_od_disable_def gpio_ll_pullup_dis_def upd_rtc_def
  SOC_GPIO_SUPPORT_RTC_INDEPENDENT_def

text \<open>The fields that the pad operations leave alone.\<close>

definition upd_by :: "int \<Rightarrow> (pad \<Rightarrow> pad) \<Rightarrow> 'h gpio_context \<Rightarrow> 'h gpio_context \<Rightarrow> bool" where
  "upd_by n f g g' \<longleftrightarrow> pads g' = (pads g)(nat n := f (pads g (nat n)))"

lemma upd_by_trans: "upd_by n f g g1 \<Longrightarrow> upd_by n f' g1 g2 \<Longrightarrow> upd_by n (f' \<circ> f) g g2"
  by (simp add: upd_by_def)

lemma upd_by_ops:
  assumes "GPIO_IS_VALID_GPIO n"
  shows "upd_by n (\<lambda>p. p\<lparr>ie := b\<rparr>) g (snd (if b then gpio_input_enable n g else gpio_input_disable n g))"
    "upd_by n (\<lambda>p. p\<lparr>oe := b, out_cfg := output_cfg b (out_cfg p)\<rparr>) g (snd (if b then gpio_output_enable n g else gpio_output_disable n g))"
    "upd_by n (\<lambda>p. p\<lparr>od := b\<rparr>) g (snd (if b then gpio_od_enable n g else gpio_od_disable n g))"
    "upd_by n (\<lambda>p. p\<lparr>pu := b\<rparr>) g (snd (if b then gpio_pullup_en n g else gpio_pullup_dis n g))"
    "upd_by n (\<lambda>p. p\<lparr>pd := b\<rparr>) g (snd (if b then gpio_pulldown_en n g else gpio_pulldown_dis n g))"
    "upd_by n (\<lambda>p. p\<lparr>rtc := (rtc p)\<lparr>rtc_mux := (rtc_mux (rtc p) \<and> \<not> rtc_gpio_is_valid_gpio n)\<rparr>\<rparr>) g
       (if rtc_gpio_is_valid_gpio n then snd (rtc_gpio_deinit n g) else g)"
    "ty < GPIO_INTR_MAX \<Longrightarrow> upd_by n (\<lambda>p. p\<lparr>int_type := ty\<rparr>) g (snd (gpio_set_intr_type n ty g))"
    "upd_by n (\<lambda>p. p\<lparr>int_ena := b\<rparr>) g (snd (if b then gpio_intr_enable core n g else gpio_intr_disable n g))"
    "upd_by n (\<lambda>p. p\<lparr>mcu_sel := func\<rparr>) g (gpio_hal_func_sel n func g)"
  using assms
  by (auto simp: upd_by_def gpio_op_defs valid_output_gpio gpio_set_intr_type_def Let_def
      gpio_intr_enable_def gpio_intr_enable_on_core_def gpio_hal_intr_enable_on_core_def
      gpio_intr_disable_def gpio_hal_intr_disable_def gpio_hal_func_sel_def output_cfg_def matrix_out_default_def
      set_output_enable_ctrl_def)

lemma config_pin_pads:
  assumes v: "GPIO_IS_VALID_GPIO (int n)" and ty: "intr_type c < GPIO_INTR_MAX"
  shows "pads (config_pin core c (int n) g) = (pads g)(n := configured c n (pads g n))"
proof -
  note u = upd_by_ops [OF v]
  define g0 where "g0 = (if rtc_gpio_is_valid_gpio (int n) then snd (rtc_gpio_deinit (int n) g) else g)"
  define g1 where "g1 = snd (if mode c AND GPIO_MODE_DEF_INPUT \<noteq> 0 then gpio_input_enable (int n) g0
                    else gpio_input_disable (int n) g0)"
  define g2 where "g2 = snd (if mode c AND GPIO_MODE_DEF_OD \<noteq> 0 then gpio_od_enable (int n) g1
                    else gpio_od_disable (int n) g1)"
  define g3 where "g3 = snd (if mode c AND GPIO_MODE_DEF_OUTPUT \<noteq> 0 then gpio_output_enable (int n) g2
                    else gpio_output_disable (int n) g2)"
  define g4 where "g4 = snd (if pull_up_en c then gpio_pullup_en (int n) g3 else gpio_pullup_dis (int n) g3)"
  define g5 where "g5 = snd (if pull_down_en c then gpio_pulldown_en (int n) g4 else gpio_pulldown_dis (int n) g4)"
  define g6 where "g6 = snd (gpio_set_intr_type (int n) (intr_type c) g5)"
  define g7 where "g7 = snd (if intr_type c \<noteq> 0 then gpio_intr_enable core (int n) g6 else gpio_intr_disable (int n) g6)"
  note g = g0_def g1_def g2_def g3_def g4_def g5_def g6_def g7_def
  have "config_pin core c (int n) g = gpio_hal_func_sel (int n) PIN_FUNC_GPIO g7"
    unfolding config_pin_def g Let_def ..
  have "upd_by (int n) (\<lambda>p. p\<lparr>rtc := (rtc p)\<lparr>rtc_mux := (rtc_mux (rtc p) \<and> \<not> rtc_gpio_is_valid_gpio (int n))\<rparr>\<rparr>) g g0"
    unfolding g0_def by (rule u(6))
  moreover have "upd_by (int n) (\<lambda>p. p\<lparr>ie := (mode c AND GPIO_MODE_DEF_INPUT \<noteq> 0)\<rparr>) g0 g1"
    unfolding g1_def by (rule u(1))
  moreover have "upd_by (int n) (\<lambda>p. p\<lparr>od := (mode c AND GPIO_MODE_DEF_OD \<noteq> 0)\<rparr>) g1 g2"
    unfolding g2_def by (rule u(3))
  moreover have "upd_by (int n) (\<lambda>p. p\<lparr>oe := (mode c AND GPIO_MODE_DEF_OUTPUT \<noteq> 0),
      out_cfg := output_cfg (mode c AND GPIO_MODE_DEF_OUTPUT \<noteq> 0) (out_cfg p)\<rparr>) g2 g3"
    unfolding g3_def by (rule u(2))
  moreover have "upd_by (int n) (\<lambda>p. p\<lparr>pu := pull_up_en c\<rparr>) g3 g4"
    unfolding g4_def by (rule u(4))
  moreover have "upd_by (int n) (\<lambda>p. p\<lparr>pd := pull_down_en c\<rparr>) g4 g5"
    unfolding g5_def by (rule u(5))
  moreover have "upd_by (int n) (\<lambda>p. p\<lparr>int_type := intr_type c\<rparr>) g5 g6"
    unfolding g6_def by (rule u(7) [OF ty])
  moreover have "upd_by (int n) (\<lambda>p. p\<lparr>int_ena := (intr_type c \<noteq> 0)\<rparr>) g6 g7"
    unfolding g7_def by (rule u(8))
  ultimately show ?thesis
    using \<open>config_pin core c (int n) g = gpio_hal_func_sel (int n) PIN_FUNC_GPIO g7\<close> u(9) [of PIN_FUNC_GPIO g7]
    by (simp add: upd_by_def configured_def rtc_gpio_is_valid_gpio_def not_le)
qed

lemma valid_mask_pin:
  assumes "m AND NOT SOC_GPIO_VALID_GPIO_MASK = 0" "bit m n"
  shows "GPIO_IS_VALID_GPIO (int n)"
proof -
  have n: "n < 64"
    using bit_imp_le_length [OF assms(2)] by simp
  have "bit SOC_GPIO_VALID_GPIO_MASK n"
  proof (rule ccontr)
    assume "\<not> bit SOC_GPIO_VALID_GPIO_MASK n"
    then have "bit (m AND NOT SOC_GPIO_VALID_GPIO_MASK) n"
      using assms(2) n by (simp add: bit_and_iff bit_not_iff)
    then show False using assms(1) by simp
  qed
  then have "bit (push_bit n 1 AND SOC_GPIO_VALID_GPIO_MASK) n"
    using n by (simp add: bit_and_iff bit_exp_iff)
  then show ?thesis
    by (auto simp: GPIO_IS_VALID_GPIO_def)
qed

lemma gpio_config_pads_core:
  assumes mask: "pin_bit_mask c \<noteq> 0" "pin_bit_mask c AND NOT SOC_GPIO_VALID_GPIO_MASK = 0"
    and ty: "intr_type c < GPIO_INTR_MAX"
  shows "\<exists>g' :: 'h gpio_context. gpio_config core c g = (ESP_OK, g') \<and>
    (\<forall>n. pads g' n = (if bit (pin_bit_mask c) n \<and> n < GPIO_PIN_COUNT
                      then configured c n (pads g n) else pads g n))"
proof -
  have b: "drop_bit io (pin_bit_mask c) AND 1 \<noteq> 0 \<longleftrightarrow> bit (pin_bit_mask c) io" for io
    by (simp add: bit_iff_odd_drop_bit and_one_eq odd_iff_mod_2_eq_one)
  define step :: "nat \<Rightarrow> 'h gpio_context \<Rightarrow> 'h gpio_context" where "step = (\<lambda>io g. if bit (pin_bit_mask c) io then config_pin core c (int io) g else g)"
  have "pads (fold step [0..<k] g) n =
      (if bit (pin_bit_mask c) n \<and> n < k then configured c n (pads g n) else pads g n)" for k n
  proof (induction k)
    case (Suc k)
    have "pads (step k g') = (if bit (pin_bit_mask c) k then (pads g')(k := configured c k (pads g' k)) else pads g')"
      for g'
      by (simp add: step_def config_pin_pads valid_mask_pin [OF mask(2)] ty)
    with Suc show ?case
      by (auto simp: less_Suc_eq)
  qed simp
  moreover have "gpio_config core c g = (ESP_OK, fold step [0..<GPIO_PIN_COUNT] g)"
    using mask by (simp add: gpio_config_def SOC_GPIO_VALID_OUTPUT_GPIO_MASK_def b step_def)
  ultimately show ?thesis by blast
qed

text \<open>
  \<open>gpio_config\<close> sets every pin of its mask to the configuration and leaves every
  other pin alone.
\<close>

theorem gpio_config_pads:
  assumes mask: "pin_bit_mask c \<noteq> 0" "pin_bit_mask c AND NOT SOC_GPIO_VALID_GPIO_MASK = 0"
    and ty: "intr_type c < GPIO_INTR_MAX"
  shows "\<exists>g' :: 'h gpio_context. gpio_config core c g = (ESP_OK, g') \<and>
    (\<forall>n. pads g' n = (if bit (pin_bit_mask c) n \<and> n < GPIO_PIN_COUNT
                      then configured c n (pads g n) else pads g n))"
  by (rule gpio_config_pads_core [OF assms])

definition demo_gpio :: "'h gpio_context" where
  "demo_gpio = \<lparr>pads = (\<lambda>_. \<lparr>ie = False, oe = False, od = False, pu = True, pd = False, mcu_sel = 0,
     out_cfg = \<lparr>out_func_sel = SIG_GPIO_OUT_IDX, out_inv_sel = False, oen_sel = False, oen_inv_sel = False\<rparr>,
     int_type = 0, int_ena = False, out_level = False, fun_drv = 2, wakeup_ena = False, slp_sel = False, slp_ie = False,
     slp_oe = False, slp_pu = False, slp_pd = False, dig_hold = False,
     rtc = \<lparr>rtc_mux = True, rtc_fun_sel = 0, rtc_ie = False, rtc_oe = False, rtc_od = False, rtc_rue = False, rtc_rde = False,
       rtc_out = False, rtc_drv = 2, rtc_hold = False, rtc_wakeup = False, rtc_int_type = 0, rtc_slp_ie = False,
       rtc_slp_oe = False, rtc_slp_sel = False\<rparr>\<rparr>),
     in_cfg = (\<lambda>_. \<lparr>in_func_sel = 0, in_inv_sel = False, sig_in_sel = False\<rparr>),
     pad_ctl = \<lparr>usb_pad_enable = True, usb_pull_override = False, usb_dp_pullup = True, dg_force_hold = False,
       dg_force_unhold = True, dg_autohold_en = False, rtc_force_hold = False\<rparr>,
     intr_status = 0, intr_status_high = 0, isr_core_id = GPIO_ISR_CORE_ID_UNINIT,
     gpio_isr_func = None, gpio_isr_handle = None, isr_clr_on_entry_mask = 0\<rparr>"

lemma gpio_config_pads_witness:
  "\<exists>g'. gpio_config 0 \<lparr>pin_bit_mask = 0x10, mode = GPIO_MODE_INPUT, pull_up_en = False,
       pull_down_en = False, intr_type = 0\<rparr> (demo_gpio :: nat gpio_context) = (ESP_OK, g') \<and>
     ie (pads g' 4) \<and> \<not> pu (pads g' 4) \<and> \<not> rtc_mux (rtc (pads g' 4)) \<and> pu (pads g' 5)"
  using gpio_config_pads [of "\<lparr>pin_bit_mask = 0x10, mode = GPIO_MODE_INPUT, pull_up_en = False,
       pull_down_en = False, intr_type = 0\<rparr>" 0 "demo_gpio :: nat gpio_context"]
  by (auto simp: SOC_GPIO_VALID_GPIO_MASK_def gpio_const_defs configured_def demo_gpio_def)

end
