(* ===== verification/RA8875_Bte.thy ===== *)
theory RA8875_Bte
  imports RA8875_Drawing Gpio
begin

text \<open>
  Block transfers and the waits for their completion (\<open>components/RA8875/bte.c\<close>). The loops that
  wait for the interrupt line have no bound in the code; they run on the poll budget of the
  environment and give \<open>Blocked\<close> when it is used up. The bounded wait of \<open>RA8875_bte_move\<close> is a
  recursion on its counter.
\<close>

section \<open>Set-up of a transfer\<close>

definition set_bte_src :: "RA8875_context \<Rightarrow> u16 \<Rightarrow> u16 \<Rightarrow> u8 \<Rightarrow> 'a spi_machine_scheme \<Rightarrow> 'a spi_machine_scheme outcome" where
  "set_bte_src ctx x y layer =
     write_regs ctx [(0x54, ucast x), (0x55, ucast (drop_bit 8 x)), (0x56, ucast y),
       (0x57, ucast (drop_bit 8 y) OR push_bit 7 layer)]"

definition set_bte_dst :: "RA8875_context \<Rightarrow> u16 \<Rightarrow> u16 \<Rightarrow> u8 \<Rightarrow> 'a spi_machine_scheme \<Rightarrow> 'a spi_machine_scheme outcome" where
  "set_bte_dst ctx x y layer =
     write_regs ctx [(0x58, ucast x), (0x59, ucast (drop_bit 8 x)), (0x5A, ucast y),
       (0x5B, ucast (drop_bit 8 y) OR push_bit 7 layer)]"

definition set_bte_size :: "RA8875_context \<Rightarrow> u16 \<Rightarrow> u16 \<Rightarrow> 'a spi_machine_scheme \<Rightarrow> 'a spi_machine_scheme outcome" where
  "set_bte_size ctx width height =
     write_regs ctx [(0x5C, ucast (width AND 0xFF)), (0x5D, ucast (drop_bit 8 width)),
       (0x5E, ucast (height AND 0xFF)), (0x5F, ucast (drop_bit 8 height))]"

definition set_bte_foreground :: "RA8875_context \<Rightarrow> u8 \<Rightarrow> 'a spi_machine_scheme \<Rightarrow> 'a spi_machine_scheme outcome" where
  "set_bte_foreground ctx color =
     write_regs ctx [(0x63, drop_bit 0 color AND 7), (0x64, drop_bit 3 color AND 7),
       (0x65, drop_bit 6 color AND 3)]"

definition set_bte_opcode :: "RA8875_context \<Rightarrow> u8 \<Rightarrow> u8 \<Rightarrow> 'a spi_machine_scheme \<Rightarrow> 'a spi_machine_scheme outcome" where
  "set_bte_opcode ctx opcode rop = write_regs ctx [(0x51, opcode OR push_bit 4 rop)]"

definition exec_bte :: "RA8875_context \<Rightarrow> 'a spi_machine_scheme \<Rightarrow> 'a spi_machine_scheme outcome" where
  "exec_bte ctx = write_regs ctx [(0x50, push_bit 7 1)]"

section \<open>Waiting\<close>

text \<open>\<open>while (gpio_get_level(ctx->pin_int));\<close>\<close>

primrec wait_line_low :: "nat \<Rightarrow> RA8875_context \<Rightarrow> 'a spi_machine_scheme \<Rightarrow> 'a spi_machine_scheme outcome" where
  "wait_line_low 0 ctx s = Inl Blocked"
| "wait_line_low (Suc n) ctx s =
     (case gpio_get_level (pin_int ctx) s of (level, s') \<Rightarrow>
        if level then wait_line_low n ctx s' else Inr s')"

primrec wait_status ::
  "nat \<Rightarrow> RA8875_context \<Rightarrow> u8 \<Rightarrow> 'a spi_machine_scheme \<Rightarrow> 'a spi_machine_scheme outcome" where
  "wait_status 0 ctx bits s = Inl Blocked"
| "wait_status (Suc n) ctx bits s =
     bindr (wait_line_low (poll_budget (environ s)) ctx s) (\<lambda>s1.
     bindr (RA8875_read_register ctx 0xF1 s1) (\<lambda>(st, s2).
     bindr (RA8875_write_register ctx 0xF1 st s2) (\<lambda>s3.
       if st AND bits = 0 then wait_status n ctx bits s3 else Inr s3)))"

definition wait_for_interrupt ::
  "RA8875_context \<Rightarrow> u8 \<Rightarrow> 'a spi_machine_scheme \<Rightarrow> 'a spi_machine_scheme outcome" where
  "wait_for_interrupt ctx bits s = wait_status (poll_budget (environ s)) ctx bits s"

text \<open>\<open>n\<close> is the number of polls left of \<open>max_polls\<close>.\<close>

primrec poll_status ::
  "nat \<Rightarrow> RA8875_context \<Rightarrow> u8 \<Rightarrow> 'a spi_machine_scheme \<Rightarrow> 'a spi_machine_scheme outcome" where
  "poll_status 0 ctx bits s = Inr s"
| "poll_status (Suc n) ctx bits s =
     bindr (RA8875_read_register ctx 0xF1 s) (\<lambda>(st, s1).
       if st AND bits \<noteq> 0 then RA8875_write_register ctx 0xF1 st s1
       else bindr (vTaskDelay (pdMS_TO_TICKS 1) s1) (poll_status n ctx bits))"

definition max_polls :: nat where "max_polls = 1000"

definition wait_for_interrupt_polling ::
  "RA8875_context \<Rightarrow> u8 \<Rightarrow> 'a spi_machine_scheme \<Rightarrow> 'a spi_machine_scheme outcome" where
  "wait_for_interrupt_polling ctx bits s = poll_status max_polls ctx bits s"

section \<open>The transfers\<close>

definition MAX_BLOCK_SIZE :: int where "MAX_BLOCK_SIZE = 512"
definition INT_BTE_RW :: u8 where "INT_BTE_RW = 1"
definition INT_BTE_COMPLETED :: u8 where "INT_BTE_COMPLETED = push_bit 1 1"

function send_blocks ::
  "RA8875_context \<Rightarrow> u32 \<Rightarrow> int \<Rightarrow> int \<Rightarrow> 'a spi_machine_scheme \<Rightarrow> 'a spi_machine_scheme outcome" where
  "send_blocks ctx data len offset s =
     (if offset < len then
        let rest = len - offset;
            blockLen = (if rest > MAX_BLOCK_SIZE then MAX_BLOCK_SIZE else rest)
        in bindr (seq [RA8875_write_command ctx 0x02,
                       RA8875_write_data_block ctx (data + word_of_int offset) blockLen,
                       wait_for_interrupt ctx INT_BTE_RW] s)
             (send_blocks ctx data len (offset + blockLen))
      else Inr s)"
  by pat_completeness auto
termination
  by (relation "measure (\<lambda>(ctx, data, len, offset, s). nat (len - offset))")
    (auto simp: MAX_BLOCK_SIZE_def)

declare send_blocks.simps [simp del]

definition RA8875_bte_write ::
  "RA8875_context \<Rightarrow> u16 \<Rightarrow> u16 \<Rightarrow> u8 \<Rightarrow> u16 \<Rightarrow> u16 \<Rightarrow> u8 \<Rightarrow> u32 \<Rightarrow> 'a spi_machine_scheme \<Rightarrow> 'a spi_machine_scheme outcome" where
  "RA8875_bte_write ctx x y layer width height rop data =
     seq [set_bte_dst ctx x y layer, set_bte_size ctx width height, set_bte_opcode ctx 0x00 rop,
          exec_bte ctx, wait_for_interrupt ctx INT_BTE_RW,
          send_blocks ctx data (uint width * uint height) 0]"

definition RA8875_bte_move ::
  "RA8875_context \<Rightarrow> u16 \<Rightarrow> u16 \<Rightarrow> u8 \<Rightarrow> u16 \<Rightarrow> u16 \<Rightarrow> u8 \<Rightarrow> u16 \<Rightarrow> u16 \<Rightarrow> u8 \<Rightarrow> u8
     \<Rightarrow> 'a spi_machine_scheme \<Rightarrow> 'a spi_machine_scheme outcome" where
  "RA8875_bte_move ctx srcX srcY srcLayer dstX dstY dstLayer width height negative rop =
     seq [set_bte_src ctx srcX srcY srcLayer, set_bte_dst ctx dstX dstY dstLayer,
          set_bte_size ctx width height, set_bte_opcode ctx (if negative \<noteq> 0 then 0x3 else 0x2) rop,
          exec_bte ctx, wait_for_interrupt_polling ctx INT_BTE_COMPLETED]"

definition RA8875_bte_fill ::
  "RA8875_context \<Rightarrow> u16 \<Rightarrow> u16 \<Rightarrow> u8 \<Rightarrow> u16 \<Rightarrow> u16 \<Rightarrow> u8 \<Rightarrow> 'a spi_machine_scheme \<Rightarrow> 'a spi_machine_scheme outcome" where
  "RA8875_bte_fill ctx x y layer width height color =
     seq [set_bte_dst ctx x y layer, set_bte_size ctx width height, set_bte_opcode ctx 0x0C 0,
          set_bte_foreground ctx color, exec_bte ctx, wait_for_interrupt ctx INT_BTE_COMPLETED]"

section \<open>The waits on a working bus\<close>

lemma asks_emit:
  "port_ready ctx s \<Longrightarrow> event_ops e = [] \<Longrightarrow> asks ctx [] s (emit e s)"
  by (simp add: asks_def bus_only_def port_ready_def bus_ready_def emit_def ops_def split: option.splits)

definition polls :: "u8 \<Rightarrow> panel_op list" where
  "polls st = [Select 0xF1, Get_Data, Select 0xF1, Put_Data st]"

text \<open>
  \<open>raises bits e\<close>: in this environment the panel raises the interrupts \<open>bits\<close> at once. The
  interrupt line is active low.
\<close>

definition raises :: "u8 \<Rightarrow> env \<Rightarrow> bool" where
  "raises bits e \<longleftrightarrow> 0 < poll_budget e \<and> (\<forall>l p. \<not> pin_level e l p) \<and>
     (\<forall>l cfg tx rx. wire e l cfg tx = Some rx \<longrightarrow> length rx = 3 \<longrightarrow> rx ! 2 AND bits \<noteq> 0)"

lemma panel_answer_wire:
  assumes "port_ready ctx s"
  shows "\<exists>l cfg tx rx. wire (environ s) l cfg tx = Some rx \<and> length rx = 3 \<and> rx ! 2 = panel_answer ctx s reg"
proof -
  have sf: "small_flags (SPI_TRANS_USE_TXDATA OR SPI_TRANS_USE_RXDATA)"
    by (simp add: small_flags_def)
  have "(24 :: u32) \<in> {8, 24}" "length [reg, ucast RA8875_DATAREAD, 0, 0] = 4" by simp_all
  from small_transfer_asks [OF assms this(1) sf this(2), of RA8875_CMDWRITE]
  show ?thesis by (fastforce simp: panel_answer_def)
qed

lemma raises_answer:
  "raises bits (environ s) \<Longrightarrow> port_ready ctx s \<Longrightarrow> panel_answer ctx s reg AND bits \<noteq> 0"
  using panel_answer_wire [of ctx s reg] by (fastforce simp: raises_def)

lemma wait_line_low_asks:
  assumes "0 < n" "\<And>l p. \<not> pin_level (environ s) l p" "port_ready ctx s"
  shows "\<exists>s'. wait_line_low n ctx s = Inr s' \<and> asks ctx [] s s'"
  using assms by (cases n) (auto simp: gpio_get_level_def Let_def intro: asks_emit)

lemma wait_for_interrupt_asks:
  assumes e: "raises bits (environ s)" and ready: "port_ready ctx s"
  shows "\<exists>st s'. wait_for_interrupt ctx bits s = Inr s' \<and> asks ctx (polls st) s s'"
proof -
  obtain n where n: "poll_budget (environ s) = Suc n"
    using e by (auto simp: raises_def dest: gr0_implies_Suc)
  obtain s1 where s1: "wait_line_low (Suc n) ctx s = Inr s1" "asks ctx [] s s1"
    using wait_line_low_asks [of "Suc n" s ctx] e ready by (auto simp: raises_def)
  let ?st = "panel_answer ctx s1 0xF1"
  obtain s2 where s2: "RA8875_read_register ctx 0xF1 s1 = Inr (?st, s2)" "asks ctx [Select 0xF1, Get_Data] s1 s2"
    using read_register_asks [OF port.rel_ready [OF s1(2)]] by blast
  obtain s3 where s3: "RA8875_write_register ctx 0xF1 ?st s2 = Inr s3"
      "asks ctx [Select 0xF1, Put_Data ?st] s2 s3"
    using write_register_asks [OF port.rel_ready [OF s2(2)]] by blast
  have "?st AND bits \<noteq> 0"
    using e asks_same(2) [OF s1(2)] by (intro raises_answer port.rel_ready [OF s1(2)]) simp
  then have "wait_for_interrupt ctx bits s = Inr s3"
    by (simp add: wait_for_interrupt_def n s1 s2 s3 del: wait_line_low.simps)
  moreover have "asks ctx (polls ?st) s s3"
    using port.rel_trans [OF port.rel_trans [OF s1(2) s2(2)] s3(2)] by (simp add: polls_def)
  ultimately show ?thesis by blast
qed

text \<open>The bounded wait returns whatever the panel answers.\<close>

definition quiet :: "panel_op list \<Rightarrow> bool" where
  "quiet os \<longleftrightarrow> (\<forall>p. figs (panel_run os p) = figs p \<and>
     (\<forall>r. r \<noteq> 0xF1 \<longrightarrow> regs (panel_run os p) r = regs p r))"

lemma quiet_simps [simp]: "quiet []" "quiet (polls st)" "quiet [Select 0xF1, Get_Data]"
  "quiet [Select 0xF1, Put_Data v]"
  by (simp_all add: quiet_def polls_def)

lemma quiet_append: "quiet xs \<Longrightarrow> quiet ys \<Longrightarrow> quiet (xs @ ys)"
  by (simp add: quiet_def)

lemma poll_status_asks:
  "port_ready ctx s \<Longrightarrow> \<exists>os s'. poll_status n ctx bits s = Inr s' \<and> asks ctx os s s' \<and> quiet os \<and>
     length (filter ((=) Get_Data) os) \<le> n"
proof (induction n arbitrary: s)
  case 0
  then show ?case
    by (intro exI [of _ "[]"] exI [of _ s]) (simp add: port.rel_refl)
next
  case (Suc n)
  let ?st = "panel_answer ctx s 0xF1"
  obtain s1 where s1: "RA8875_read_register ctx 0xF1 s = Inr (?st, s1)" "asks ctx [Select 0xF1, Get_Data] s s1"
    using read_register_asks [OF Suc.prems] by blast
  show ?case
  proof (cases "?st AND bits = 0")
    case True
    let ?s2 = "emit (Delay (pdMS_TO_TICKS 1)) s1"
    have s2: "asks ctx [] s1 ?s2"
      by (rule asks_emit) (simp_all add: port.rel_ready [OF s1(2)])
    obtain os s3 where s3: "poll_status n ctx bits ?s2 = Inr s3" "asks ctx os ?s2 s3" "quiet os"
        "length (filter ((=) Get_Data) os) \<le> n"
      using Suc.IH [OF port.rel_ready [OF s2]] by blast
    have "asks ctx ([Select 0xF1, Get_Data] @ os) s s3"
      using port.rel_trans [OF port.rel_trans [OF s1(2) s2] s3(2)] by simp
    moreover have "quiet ([Select 0xF1, Get_Data] @ os)"
      by (rule quiet_append) (simp_all add: s3(3))
    ultimately show ?thesis
      using s3(1,4) True by (intro exI [of _ "[Select 0xF1, Get_Data] @ os"] exI [of _ s3])
        (simp add: s1(1) vTaskDelay_def)
  next
    case False
    obtain s2 where s2: "RA8875_write_register ctx 0xF1 ?st s1 = Inr s2"
        "asks ctx [Select 0xF1, Put_Data ?st] s1 s2"
      using write_register_asks [OF port.rel_ready [OF s1(2)]] by blast
    have "asks ctx (polls ?st) s s2"
      using port.rel_trans [OF s1(2) s2(2)] by (simp add: polls_def)
    then show ?thesis
      using False s2(1) by (intro exI [of _ "polls ?st"] exI [of _ s2]) (simp add: s1(1), simp add: polls_def)
  qed
qed

section \<open>What the transfers ask for\<close>

text \<open>The row register pair of a transfer: the layer is its topmost bit.\<close>

definition layered :: "u16 \<Rightarrow> u8 \<Rightarrow> u16" where
  "layered y layer = word16 (lo8 y) (hi8 y OR push_bit 7 layer)"

definition src_regs :: "u16 \<Rightarrow> u16 \<Rightarrow> u8 \<Rightarrow> (u8 \<times> u8) list" where
  "src_regs x y layer = [(0x54, lo8 x), (0x55, hi8 x), (0x56, lo8 y), (0x57, hi8 y OR push_bit 7 layer)]"

definition dst_regs :: "u16 \<Rightarrow> u16 \<Rightarrow> u8 \<Rightarrow> (u8 \<times> u8) list" where
  "dst_regs x y layer = [(0x58, lo8 x), (0x59, hi8 x), (0x5A, lo8 y), (0x5B, hi8 y OR push_bit 7 layer)]"

definition size_regs :: "u16 \<Rightarrow> u16 \<Rightarrow> (u8 \<times> u8) list" where
  "size_regs w h = [(0x5C, lo8 w), (0x5D, hi8 w), (0x5E, lo8 h), (0x5F, hi8 h)]"

lemmas bte_setup_defs = set_bte_src_def set_bte_dst_def set_bte_size_def set_bte_foreground_def
  set_bte_opcode_def exec_bte_def

lemma bte_writes:
  "set_bte_src ctx x y l = write_regs ctx (src_regs x y l)"
  "set_bte_dst ctx x y l = write_regs ctx (dst_regs x y l)"
  "set_bte_size ctx w h = write_regs ctx (size_regs w h)"
  "set_bte_opcode ctx op rop = write_regs ctx [(0x51, op OR push_bit 4 rop)]"
  "set_bte_foreground ctx color = write_regs ctx (colour_regs color)"
  "exec_bte ctx = write_regs ctx [(0x50, 0x80)]"
  by (simp_all add: bte_setup_defs src_regs_def dst_regs_def size_regs_def
      colour_regs_def lo8_def hi8_def del: seq.simps)

definition bte_regs :: "u16 \<Rightarrow> u16 \<Rightarrow> u8 \<Rightarrow> u16 \<Rightarrow> u16 \<Rightarrow> u8 \<Rightarrow> (u8 \<Rightarrow> u8) \<Rightarrow> (u8 \<Rightarrow> u8)" where
  "bte_regs x y layer w h op rs =
     rs(0x58 := lo8 x, 0x59 := hi8 x, 0x5A := lo8 y, 0x5B := hi8 y OR push_bit 7 layer,
        0x5C := lo8 w, 0x5D := hi8 w, 0x5E := lo8 h, 0x5F := hi8 h, 0x51 := op)"

lemma run_bte_regs:
  "panel_run (set_regs (dst_regs x y l @ size_regs w h @ [(0x51, op)])) p =
     p\<lparr>selected := 0x51, regs := bte_regs x y l w h op (regs p)\<rparr>"
  by (rule panel_eqI) (simp_all add: dst_regs_def size_regs_def bte_regs_def)

lemma bte_regs_fields [simp]:
  "reg16 (bte_regs x y l w h op rs) 0x54 = reg16 rs 0x54" "reg16 (bte_regs x y l w h op rs) 0x56 = reg16 rs 0x56"
  "reg16 (bte_regs x y l w h op rs) 0x58 = x" "reg16 (bte_regs x y l w h op rs) 0x5A = layered y l"
  "reg16 (bte_regs x y l w h op rs) 0x5C = w" "reg16 (bte_regs x y l w h op rs) 0x5E = h"
  "bte_regs x y l w h op rs 0x51 = op" "bte_regs x y l w h op rs 0x40 = rs 0x40"
  "foreground (bte_regs x y l w h op rs) = foreground rs"
  by (simp_all add: bte_regs_def reg16_def layered_def foreground_def)

lemma run_exec:
  "panel_run (set_regs [(0x50, 0x80)]) p =
     p\<lparr>selected := 0x50, regs := (regs p)(0x50 := 0x80), figs := figs p @
       [Bte_Op (regs p 0x51) (reg16 (regs p) 0x54, reg16 (regs p) 0x56)
         (reg16 (regs p) 0x58, reg16 (regs p) 0x5A) (reg16 (regs p) 0x5C) (reg16 (regs p) 0x5E)
         (foreground (regs p))]\<rparr>"
  by (rule panel_eqI) (simp_all add: triggered_def)

text \<open>The registers of a copy, and the operations of the call.\<close>

definition move_opcode :: "u8 \<Rightarrow> u8 \<Rightarrow> u8" where
  "move_opcode negative rop = (if negative \<noteq> 0 then 3 else 2) OR push_bit 4 rop"

definition move_regs ::
  "u16 \<Rightarrow> u16 \<Rightarrow> u8 \<Rightarrow> u16 \<Rightarrow> u16 \<Rightarrow> u8 \<Rightarrow> u16 \<Rightarrow> u16 \<Rightarrow> u8 \<Rightarrow> u8 \<Rightarrow> (u8 \<times> u8) list" where
  "move_regs srcX srcY srcLayer dstX dstY dstLayer width height negative rop =
     src_regs srcX srcY srcLayer @ (dst_regs dstX dstY dstLayer @ size_regs width height @
       [(0x51, move_opcode negative rop)]) @ [(0x50, 0x80)]"

lemma bte_move_asks:
  fixes s :: "'a spi_machine_scheme"
  assumes ready: "port_ready ctx s"
  shows "\<exists>os s'. RA8875_bte_move ctx srcX srcY srcLayer dstX dstY dstLayer width height negative rop s = Inr s' \<and>
    asks ctx (set_regs (move_regs srcX srcY srcLayer dstX dstY dstLayer width height negative rop) @ os) s s' \<and>
    quiet os \<and> length (filter ((=) Get_Data) os) \<le> max_polls"
proof -
  let ?rvs = "move_regs srcX srcY srcLayer dstX dstY dstLayer width height negative rop"
  have c: "RA8875_bte_move ctx srcX srcY srcLayer dstX dstY dstLayer width height negative rop =
      seq [write_regs ctx ?rvs, wait_for_interrupt_polling ctx INT_BTE_COMPLETED]"
    by (cases "negative = 0")
      (simp_all add: RA8875_bte_move_def move_regs_def move_opcode_def bte_writes seq_write_regs del: seq.simps)
  obtain s1 where s1: "write_regs ctx ?rvs s = Inr s1" "asks ctx (set_regs ?rvs) s s1"
    using write_regs_asks [OF ready] by blast
  obtain os s2 where s2: "poll_status max_polls ctx INT_BTE_COMPLETED s1 = Inr s2" "asks ctx os s1 s2"
      "quiet os" "length (filter ((=) Get_Data) os) \<le> max_polls"
    using poll_status_asks [OF port.rel_ready [OF s1(2)]] by blast
  have "RA8875_bte_move ctx srcX srcY srcLayer dstX dstY dstLayer width height negative rop s = Inr s2"
    unfolding c by (simp only: seq.simps s1(1) sum.case wait_for_interrupt_polling_def s2(1))
  then show ?thesis
    using port.rel_trans [OF s1(2) s2(2)] s2(3,4) by blast
qed

lemma run_move_regs:
  "figs (panel_run (set_regs (move_regs srcX srcY srcLayer dstX dstY dstLayer width height negative rop)) p) =
     figs p @ [Bte_Op (move_opcode negative rop) (srcX, layered srcY srcLayer)
      (dstX, layered dstY dstLayer) width height (foreground (regs p))]"
proof -
  let ?p = "panel_run (set_regs (src_regs srcX srcY srcLayer)) p"
  have p: "figs ?p = figs p" "reg16 (regs ?p) 0x54 = srcX" "reg16 (regs ?p) 0x56 = layered srcY srcLayer"
      "foreground (regs ?p) = foreground (regs p)"
    by (simp_all add: src_regs_def reg16_def layered_def foreground_def)
  show ?thesis
    unfolding move_regs_def set_regs_simps(3) [of "src_regs srcX srcY srcLayer"]
      set_regs_simps(3) [of _ "[(0x50, 0x80)]"] panel_run_append [of _ _ p] panel_run_append
      run_exec run_bte_regs
    by (simp add: p)
qed

text \<open>
  \<open>RA8875_bte_move\<close> always returns, after at most 1000 polls, and asks the panel
  for one copy with the source, destination, layers, size and operation of its arguments.
\<close>

theorem bte_move_copies:
  fixes s :: "'a spi_machine_scheme"
  assumes ready: "port_ready ctx s"
  shows "\<exists>s'. RA8875_bte_move ctx srcX srcY srcLayer dstX dstY dstLayer width height negative rop s = Inr s' \<and>
    port_ready ctx s' \<and>
    figs (panel_of s') = figs (panel_of s) @
      [Bte_Op (move_opcode negative rop) (srcX, layered srcY srcLayer)
        (dstX, layered dstY dstLayer) width height (foreground (regs (panel_of s)))] \<and>
    length (filter ((=) Get_Data) (drop (length (ops s)) (ops s'))) \<le> max_polls"
proof -
  let ?rvs = "move_regs srcX srcY srcLayer dstX dstY dstLayer width height negative rop"
  obtain os s' where
    s': "RA8875_bte_move ctx srcX srcY srcLayer dstX dstY dstLayer width height negative rop s = Inr s'"
      "asks ctx (set_regs ?rvs @ os) s s'" "quiet os" "length (filter ((=) Get_Data) os) \<le> max_polls"
    using bte_move_asks [OF ready] by blast
  have "filter ((=) Get_Data) (set_regs ?rvs) = []"
    by (simp add: set_reg_def move_regs_def src_regs_def dst_regs_def size_regs_def)
  then have "length (filter ((=) Get_Data) (drop (length (ops s)) (ops s'))) \<le> max_polls"
    using s'(2,4) by (simp add: asks_def)
  moreover have "figs (panel_of s') = figs (panel_run (set_regs ?rvs) (panel_of s))"
    using s'(3) by (simp add: asks_panel [OF s'(2)] quiet_def)
  ultimately show ?thesis
    using s'(1) port.rel_ready [OF s'(2)] by (simp add: run_move_regs)
qed

lemma bte_move_copies_witness:
  "\<exists>s'. RA8875_bte_move demo_ctx 0 0 0 0 0 1 800 400 0 0xC demo_machine = Inr s' \<and>
     figs (panel_of s') = figs (panel_of demo_machine) @
       [Bte_Op 0xC2 (0, 0) (0, 0x8000) 800 400 (foreground (regs (panel_of demo_machine)))]"
  using bte_move_copies [OF demo_ready, of 0 0 0 0 0 1 800 400 0 "0xC"]
  by (auto simp: layered_def word16_def lo8_def hi8_def move_opcode_def)

text \<open>
  \<open>RA8875_bte_fill\<close> asks the panel for one fill of the given region in the given
  colour, and returns when the panel raises its interrupt.
\<close>

theorem bte_fill_fills:
  fixes s :: "'a spi_machine_scheme"
  assumes ready: "port_ready ctx s" and intr: "raises INT_BTE_COMPLETED (environ s)"
  shows "\<exists>s'. RA8875_bte_fill ctx x y layer width height color s = Inr s' \<and> port_ready ctx s' \<and>
    figs (panel_of s') = figs (panel_of s) @
      [Bte_Op 0x0C (reg16 (regs (panel_of s)) 0x54, reg16 (regs (panel_of s)) 0x56)
        (x, layered y layer) width height color]"
proof -
  let ?rvs = "(dst_regs x y layer @ size_regs width height @ [(0x51, 0x0C)]) @ colour_regs color @ [(0x50, 0x80)]"
  have c: "RA8875_bte_fill ctx x y layer width height color =
      seq [write_regs ctx ?rvs, wait_for_interrupt ctx INT_BTE_COMPLETED]"
    by (simp add: RA8875_bte_fill_def bte_writes seq_write_regs del: seq.simps)
  obtain s1 where s1: "write_regs ctx ?rvs s = Inr s1" "asks ctx (set_regs ?rvs) s s1"
    using write_regs_asks [OF ready] by blast
  have "raises INT_BTE_COMPLETED (environ s1)"
    using intr asks_same(2) [OF s1(2)] by simp
  then obtain st s2 where s2: "wait_for_interrupt ctx INT_BTE_COMPLETED s1 = Inr s2" "asks ctx (polls st) s1 s2"
    using wait_for_interrupt_asks port.rel_ready [OF s1(2)] by blast
  have "panel_of s1 = panel_run (set_regs [(0x50, 0x80)]) (panel_run (set_regs (colour_regs color))
      (panel_run (set_regs (dst_regs x y layer @ size_regs width height @ [(0x51, 0x0C)])) (panel_of s)))"
    by (simp only: asks_panel [OF s1(2)] set_regs_simps(3) panel_run_append)
  then have f: "figs (panel_of s1) = figs (panel_of s) @
      [Bte_Op 0x0C (reg16 (regs (panel_of s)) 0x54, reg16 (regs (panel_of s)) 0x56)
        (x, layered y layer) width height color]"
    unfolding run_exec run_colour_regs run_bte_regs by simp
  have run: "RA8875_bte_fill ctx x y layer width height color s = Inr s2"
    unfolding c by (simp only: seq.simps s1(1) sum.case s2(1))
  have "figs (panel_of s2) = figs (panel_of s1)"
    using quiet_simps(2) [of st] by (simp add: asks_panel [OF s2(2)] quiet_def)
  then show ?thesis
    using f run port.rel_ready [OF s2(2)] by (intro exI [of _ s2]) simp
qed

lemma demo_raises: "raises 1 demo_env"
  by (auto simp: raises_def demo_env_def)

text \<open>A bus whose panel raises every interrupt.\<close>

definition demo_raise :: spi_machine where
  "demo_raise = demo_machine\<lparr>environ := demo_env\<lparr>wire :=
     (\<lambda>_ cfg _. Some (replicate (unat (byte_len (hal_rx_bitlen cfg))) 0xFF))\<rparr>\<rparr>"

lemma demo_raise_ready: "port_ready demo_ctx demo_raise" "raises INT_BTE_COMPLETED (environ demo_raise)"
proof -
  show "port_ready demo_ctx demo_raise"
    using demo_host_idle demo_frame_ok
    by (simp add: port_ready_def demo_ctx_def bus_ready_def demo_raise_def demo_machine_def
        MAX_DEV_NUM_def wire_ok_def)
  show "raises INT_BTE_COMPLETED (environ demo_raise)"
    by (auto simp: raises_def demo_raise_def demo_env_def INT_BTE_COMPLETED_def)
qed

lemma bte_fill_fills_witness:
  "\<exists>s'. RA8875_bte_fill demo_ctx 10 20 1 30 40 5 demo_raise = Inr s' \<and>
     (\<exists>src. figs (panel_of s') = figs (panel_of demo_raise) @ [Bte_Op 0x0C src (10, layered 20 1) 30 40 5])"
  using bte_fill_fills [OF demo_raise_ready, of 10 20 1 30 40 5] by blast

section \<open>Block writes\<close>

text \<open>A list in blocks of \<open>n\<close>, the last one as short as needed.\<close>

fun blocks_of :: "nat \<Rightarrow> 'a list \<Rightarrow> 'a list list" where
  "blocks_of n xs = (if n = 0 \<or> xs = [] then [] else take n xs # blocks_of n (drop n xs))"

declare blocks_of.simps [simp del]

lemma concat_blocks: "0 < n \<Longrightarrow> concat (blocks_of n xs) = xs"
  by (induction n xs rule: blocks_of.induct) (subst blocks_of.simps, auto)

lemma blocks_of_append:
  assumes "xs \<noteq> []" "length xs = n \<or> length xs \<le> n \<and> ys = []"
  shows "blocks_of n (xs @ ys) = xs # blocks_of n ys"
proof -
  have "0 < length xs" using assms(1) by simp
  then have "0 < n" using assms(2) by linarith
  then show ?thesis
    using assms by (subst blocks_of.simps) (auto simp: blocks_of.simps [of n "[]"])
qed

text \<open>A block as the panel sees it: register 2, the data, and the answer that ends the wait.\<close>

definition block_ops :: "u8 list list \<Rightarrow> u8 list \<Rightarrow> panel_op list" where
  "block_ops bs sts = concat (map2 (\<lambda>blk st. Select 2 # map Put_Data blk @ polls st) bs sts)"

lemma block_ops_simps [simp]:
  "block_ops [] [] = []"
  "block_ops (blk # bs) (st # sts) = Select 2 # map Put_Data blk @ polls st @ block_ops bs sts"
  by (simp_all add: block_ops_def)

lemma run_block_ops:
  "length bs = length sts \<Longrightarrow> regs p 0x40 AND 0x80 = 0 \<Longrightarrow>
   figs (panel_run (block_ops bs sts) p) = figs p @ map Pixel_Byte (concat bs)"
proof (induction bs sts arbitrary: p rule: list_induct2)
  case (Cons blk bs st sts)
  let ?q = "panel_run (map Put_Data blk) (panel_step (Select 2) p)"
  have q: "?q = (panel_step (Select 2) p)\<lparr>figs := figs p @ map Pixel_Byte blk\<rparr>"
    using run_put_data [of "panel_step (Select 2) p" blk] Cons.prems by simp
  have "quiet (polls st)" by simp
  then have "figs (panel_run (polls st) ?q) = figs ?q" "regs (panel_run (polls st) ?q) 0x40 = regs ?q 0x40"
    unfolding quiet_def by simp_all
  then have r: "figs (panel_run (polls st) ?q) = figs p @ map Pixel_Byte blk"
      "regs (panel_run (polls st) ?q) 0x40 = regs p 0x40"
    unfolding q by simp_all
  have "panel_run (block_ops (blk # bs) (st # sts)) p = panel_run (block_ops bs sts) (panel_run (polls st) ?q)"
    by (simp add: panel_run_append del: panel_step.simps)
  then show ?case
    using Cons.IH [of "panel_run (polls st) ?q"] r Cons.prems by simp
qed simp

lemma send_block:
  fixes s :: "'a spi_machine_scheme"
  assumes ready: "port_ready ctx s" and intr: "raises INT_BTE_RW (environ s)"
    and n: "0 < n" "n \<le> 512" and a: "esp_ptr_dma_capable a"
  shows "\<exists>st s'. seq [RA8875_write_command ctx 0x02, RA8875_write_data_block ctx a n,
      wait_for_interrupt ctx INT_BTE_RW] s = Inr s' \<and>
    asks ctx (Select 2 # map Put_Data (load (mem s) a (nat n)) @ polls st) s s'"
proof -
  have n': "n \<le> 8184" using n by simp
  obtain s1 where s1: "RA8875_write_command ctx 2 s = Inr s1" "asks ctx [Select 2] s s1"
    using write_command_asks [OF ready] by blast
  obtain s2 where s2: "RA8875_write_data_block ctx a n s1 = Inr s2"
      "asks ctx (map Put_Data (load (mem s1) a (nat n))) s1 s2"
    using write_data_block_asks [OF port.rel_ready [OF s1(2)] n(1) n' a] by blast
  note same = asks_same [OF s1(2)] asks_same [OF s2(2)]
  have "raises INT_BTE_RW (environ s2)"
    using intr same by simp
  then obtain st s3 where s3: "wait_for_interrupt ctx INT_BTE_RW s2 = Inr s3" "asks ctx (polls st) s2 s3"
    using wait_for_interrupt_asks [OF _ port.rel_ready [OF s2(2)]] by blast
  have "asks ctx (Select 2 # map Put_Data (load (mem s) a (nat n)) @ polls st) s s3"
    using port.rel_trans [OF port.rel_trans [OF s1(2) s2(2)] s3(2)] same by simp
  then show ?thesis
    using s1(1) s2(1) s3(1) by (intro exI [of _ st] exI [of _ s3]) simp
qed

lemma load_split: "0 \<le> i \<Longrightarrow> 0 \<le> j \<Longrightarrow>
  load m a (nat (i + j)) = load m a (nat i) @ load m (a + word_of_int i) (nat j)"
  by (simp add: nat_add_distrib load_append)

lemma load_blocks:
  assumes "0 < n" "n \<le> rest" "n = 512 \<or> n = rest \<and> n \<le> 512"
  shows "blocks_of 512 (load m a (nat rest)) =
    load m a (nat n) # blocks_of 512 (load m (a + word_of_int n) (nat (rest - n)))"
proof -
  have "load m a (nat rest) = load m a (nat n) @ load m (a + word_of_int n) (nat (rest - n))"
    using load_split [of n "rest - n" m a] assms by simp
  moreover have "load m a (nat n) \<noteq> []"
    using assms(1) by (simp add: load_def)
  moreover have "length (load m a (nat n)) = 512 \<or>
      length (load m a (nat n)) \<le> 512 \<and> load m (a + word_of_int n) (nat (rest - n)) = []"
    using assms by (auto simp: load_def)
  ultimately show ?thesis
    using blocks_of_append by metis
qed

lemma send_blocks_asks:
  fixes s :: "'a spi_machine_scheme"
  assumes "port_ready ctx s" "raises INT_BTE_RW (environ s)"
    and "\<And>k. offset \<le> k \<Longrightarrow> k < len \<Longrightarrow> esp_ptr_dma_capable (data + word_of_int k)"
  shows "\<exists>bs sts s'. bs = blocks_of 512 (load (mem s) (data + word_of_int offset) (nat (len - offset))) \<and>
    send_blocks ctx data len offset s = Inr s' \<and> length bs = length sts \<and> asks ctx (block_ops bs sts) s s'"
  using assms
proof (induction ctx data len offset s rule: send_blocks.induct)
  case (1 ctx data len offset s)
  show ?case
  proof (cases "offset < len")
    case False
    then show ?thesis
      using 1(2) by (simp add: send_blocks.simps [of ctx data len] load_def blocks_of.simps [of _ "[]"] port.rel_refl)
  next
    case True
    define n where "n = (if len - offset > MAX_BLOCK_SIZE then MAX_BLOCK_SIZE else len - offset)"
    have n: "0 < n" "n \<le> 512" "n \<le> len - offset" "n = 512 \<or> n = len - offset \<and> n \<le> 512"
      using True by (auto simp: n_def MAX_BLOCK_SIZE_def)
    let ?a = "data + word_of_int offset"
    let ?block = "seq [RA8875_write_command ctx 0x02,
      RA8875_write_data_block ctx ?a n, wait_for_interrupt ctx INT_BTE_RW]"
    obtain st s1 where s1: "?block s = Inr s1"
        "asks ctx (Select 2 # map Put_Data (load (mem s) ?a (nat n)) @ polls st) s s1"
      using send_block [OF 1(2,3) n(1,2) 1(4) [OF order_refl True]] by blast
    note same = asks_same [OF s1(2)]
    have "\<exists>bs sts s'. bs = blocks_of 512 (load (mem s1) (data + word_of_int (offset + n)) (nat (len - (offset + n)))) \<and>
        send_blocks ctx data len (offset + n) s1 = Inr s' \<and> length bs = length sts \<and> asks ctx (block_ops bs sts) s1 s'"
      by (rule 1(1) [OF True refl n_def]) (use 1(3,4) port.rel_ready [OF s1(2)] same n in simp_all)
    then obtain bs sts s2 where s2: "send_blocks ctx data len (offset + n) s1 = Inr s2"
        "length bs = length sts" "asks ctx (block_ops bs sts) s1 s2"
        "bs = blocks_of 512 (load (mem s1) (data + word_of_int (offset + n)) (nat (len - (offset + n))))"
      by blast
    have "send_blocks ctx data len offset s = bindr (?block s) (send_blocks ctx data len (offset + n))"
      using True by (simp add: send_blocks.simps [of ctx data len offset] n_def Let_def del: seq.simps)
    then have "send_blocks ctx data len offset s = Inr s2"
      by (simp only: s1(1) s2(1) bindr_simps)
    moreover have "blocks_of 512 (load (mem s) ?a (nat (len - offset))) = load (mem s) ?a (nat n) # bs"
      using load_blocks [OF n(1,3,4), of "mem s" ?a] s2(4) same by (simp add: add.assoc diff_diff_eq)
    moreover have "asks ctx (block_ops (load (mem s) ?a (nat n) # bs) (st # sts)) s s2"
      using port.rel_trans [OF s1(2) s2(3)] by simp
    ultimately show ?thesis
      using s2(2) by (intro exI [of _ "load (mem s) ?a (nat n) # bs"] exI [of _ "st # sts"] exI [of _ s2]) simp
  qed
qed

text \<open>
  C16: In graphic mode, with the image in memory that the DMA can reach and a panel that raises
  its interrupt, \<open>RA8875_bte_write\<close> returns; the panel is asked for the transfer and
  waited for, and then gets the bytes of the image, in order, in blocks of 512 bytes and a last
  one with the rest, each block after a selection of the memory port and followed by a wait.
\<close>

theorem bte_write_sends_image:
  fixes s :: "'a spi_machine_scheme"
  assumes ready: "port_ready ctx s" and intr: "raises INT_BTE_RW (environ s)"
    and mode: "regs (panel_of s) 0x40 AND 0x80 = 0"
    and buf: "\<And>k. 0 \<le> k \<Longrightarrow> k < uint width * uint height \<Longrightarrow> esp_ptr_dma_capable (data + word_of_int k)"
  shows "\<exists>s' img bs st sts. img = load (mem s) data (nat (uint width * uint height)) \<and> bs = blocks_of 512 img \<and>
    RA8875_bte_write ctx x y layer width height rop data s = Inr s' \<and> port_ready ctx s' \<and>
    ops s' = ops s @ set_regs (dst_regs x y layer @ size_regs width height @
        [(0x51, push_bit 4 rop), (0x50, 0x80)]) @ polls st @ block_ops bs sts \<and>
    length bs = length sts \<and> concat bs = img \<and>
    figs (panel_of s') = figs (panel_of s) @
      Bte_Op (push_bit 4 rop) (reg16 (regs (panel_of s)) 0x54, reg16 (regs (panel_of s)) 0x56)
        (x, layered y layer) width height (foreground (regs (panel_of s)))
      # map Pixel_Byte img"
proof -
  let ?rvs = "(dst_regs x y layer @ size_regs width height @ [(0x51, push_bit 4 rop)]) @ [(0x50, 0x80)]"
  have c: "RA8875_bte_write ctx x y layer width height rop data =
      seq [write_regs ctx ?rvs, wait_for_interrupt ctx INT_BTE_RW,
        send_blocks ctx data (uint width * uint height) 0]"
    by (simp add: RA8875_bte_write_def bte_writes seq_write_regs del: seq.simps)
  obtain s1 where s1: "write_regs ctx ?rvs s = Inr s1" "asks ctx (set_regs ?rvs) s s1"
    using write_regs_asks [OF ready] by blast
  note same1 = asks_same [OF s1(2)]
  have "panel_of s1 = panel_run (set_regs [(0x50, 0x80)])
      (panel_run (set_regs (dst_regs x y layer @ size_regs width height @ [(0x51, push_bit 4 rop)])) (panel_of s))"
    by (simp only: asks_panel [OF s1(2)] set_regs_simps(3) panel_run_append)
  then have f: "figs (panel_of s1) = figs (panel_of s) @
      [Bte_Op (push_bit 4 rop) (reg16 (regs (panel_of s)) 0x54, reg16 (regs (panel_of s)) 0x56)
        (x, layered y layer) width height (foreground (regs (panel_of s)))]"
    and m1: "regs (panel_of s1) 0x40 = regs (panel_of s) 0x40"
    unfolding run_exec run_bte_regs by simp_all
  have "raises INT_BTE_RW (environ s1)"
    using intr same1 by simp
  then obtain st s2 where s2: "wait_for_interrupt ctx INT_BTE_RW s1 = Inr s2" "asks ctx (polls st) s1 s2"
    using wait_for_interrupt_asks [OF _ port.rel_ready [OF s1(2)]] by blast
  note same2 = asks_same [OF s2(2)]
  have "raises INT_BTE_RW (environ s2)"
    using intr same1 same2 by simp
  from send_blocks_asks [OF port.rel_ready [OF s2(2)] this buf, of 0 "uint width * uint height"]
  obtain bs sts s3 where
    s3: "send_blocks ctx data (uint width * uint height) 0 s2 = Inr s3" "length bs = length sts"
      "asks ctx (block_ops bs sts) s2 s3"
      "bs = blocks_of 512 (load (mem s) data (nat (uint width * uint height)))"
    using same1 same2 by fastforce
  have "RA8875_bte_write ctx x y layer width height rop data s = Inr s3"
    unfolding c by (simp only: seq.simps s1(1) sum.case s2(1) s3(1))
  moreover have "asks ctx (set_regs ?rvs @ polls st @ block_ops bs sts) s s3"
    using port.rel_trans [OF s1(2) port.rel_trans [OF s2(2) s3(3)]] by simp
  moreover have "figs (panel_of s2) = figs (panel_of s1)" "regs (panel_of s2) 0x40 = regs (panel_of s) 0x40"
    using m1 by (simp_all add: asks_panel [OF s2(2)] polls_def)
  then have "figs (panel_of s3) = figs (panel_of s1) @ map Pixel_Byte (concat bs)"
    using run_block_ops [OF s3(2), of "panel_of s2"] mode by (simp add: asks_panel [OF s3(3)])
  ultimately show ?thesis
    using s3(2,4) f by (intro exI [of _ s3] exI [of _ "load (mem s) data (nat (uint width * uint height))"]
        exI [of _ bs] exI [of _ st] exI [of _ sts]) (simp add: asks_def concat_blocks)
qed

lemma bte_write_sends_image_witness:
  "\<exists>s' src. RA8875_bte_write demo_ctx 5 6 0 2 1 0xC 0x3FC90000 demo_machine = Inr s' \<and>
     figs (panel_of s') = figs (panel_of demo_machine) @
       [Bte_Op 0xC0 src (5, layered 6 0) 2 1 (foreground (regs (panel_of demo_machine))),
        Pixel_Byte 0, Pixel_Byte 1]"
proof -
  have buf: "esp_ptr_dma_capable (0x3FC90000 + word_of_int k)"
    if "0 \<le> k" "k < uint (2 :: u16) * uint (1 :: u16)" for k
  proof -
    have "k = 0 \<or> k = 1" using that by auto
    then show ?thesis by (auto simp: esp_ptr_dma_capable_def)
  qed
  have mode: "regs (panel_of demo_machine) 0x40 AND 0x80 = 0"
    by (simp add: panel_of_def ops_def demo_machine_def panel0_def)
  have intr: "raises INT_BTE_RW (environ demo_machine)"
    using demo_raises by (simp add: INT_BTE_RW_def demo_machine_def)
  have bs: "map Pixel_Byte (load (mem demo_machine) 0x3FC90000 (nat (uint (2 :: u16) * uint (1 :: u16)))) =
      [Pixel_Byte 0, Pixel_Byte 1]"
    by (simp add: load_def demo_machine_def upt_rec)
  have op: "push_bit 4 (0xC :: u8) = 0xC0" by simp
  from bte_write_sends_image [OF demo_ready intr mode, where width = 2 and height = 1 and x = 5
      and y = 6 and layer = 0 and rop = "0xC" and data = "0x3FC90000", OF buf]
  show ?thesis
    using bs op by (metis (no_types, lifting))
qed

end
