(* ===== verification/Canvas.thy ===== *)
theory Canvas
  imports RA8875_Bte
begin

text \<open>
  What the display code relies on of the panel: the mode, the font size, the foreground colour and
  the text cursor. Every drawing call is a function on this view that also says which figures it
  asks for; statement lists compose to compositions of these functions.
\<close>

section \<open>The view of the panel\<close>

record canvas =
  in_text :: bool
  text_size :: u8
  pen :: u8
  caret :: "u16 \<times> u16"

definition canvas_of :: "panel \<Rightarrow> canvas" where
  "canvas_of p = \<lparr>in_text = (regs p 0x40 AND 0x80 \<noteq> 0), text_size = regs p 0x22,
     pen = foreground (regs p), caret = (reg16 (regs p) 0x2A, reg16 (regs p) 0x2C)\<rparr>"

type_synonym painting = "canvas \<Rightarrow> canvas \<times> figure list"

definition then_paint :: "painting \<Rightarrow> painting \<Rightarrow> painting" where
  "then_paint f g cv = (fst (g (fst (f cv))), snd (f cv) @ snd (g (fst (f cv))))"

definition no_paint :: painting where
  "no_paint cv = (cv, [])"

definition shows_panel :: "painting \<Rightarrow> panel \<Rightarrow> panel \<Rightarrow> bool" where
  "shows_panel f p p' \<longleftrightarrow> canvas_of p' = fst (f (canvas_of p)) \<and> figs p' = figs p @ snd (f (canvas_of p))"

definition painted ::
  "RA8875_context \<Rightarrow> painting \<Rightarrow> 'a spi_machine_scheme \<Rightarrow> 'a spi_machine_scheme \<Rightarrow> bool" where
  "painted ctx f s s' \<longleftrightarrow> (\<exists>os. asks ctx os s s' \<and> shows_panel f (panel_of s) (panel_of s'))"

definition paints ::
  "RA8875_context \<Rightarrow> painting \<Rightarrow> ('a spi_machine_scheme \<Rightarrow> 'a spi_machine_scheme outcome) \<Rightarrow> bool" where
  "paints ctx = achieves (port_ready ctx) (painted ctx)"

lemma shows_trans:
  "shows_panel f p q \<Longrightarrow> shows_panel g q r \<Longrightarrow> shows_panel (then_paint f g) p r"
  by (simp add: shows_panel_def then_paint_def)

lemma paintsD:
  assumes "paints ctx f c" "port_ready ctx s"
  obtains os s' where "c s = Inr s'" "asks ctx os s s'" "port_ready ctx s'"
    "shows_panel f (panel_of s) (panel_of s')"
  using assms port.rel_ready unfolding paints_def achieves_def painted_def by blast

lemma paints_ops:
  fixes c :: "'a spi_machine_scheme \<Rightarrow> 'a spi_machine_scheme outcome"
  assumes "\<And>s. port_ready ctx s \<Longrightarrow> \<exists>os s'. c s = Inr s' \<and> asks ctx os s s' \<and>
    shows_panel f (panel_of s) (panel_run os (panel_of s))"
  shows "paints ctx f c"
  unfolding paints_def achieves_def painted_def using assms by (metis asks_panel)

lemma paints_cong: "paints ctx f c \<Longrightarrow> (\<And>cv. f cv = g cv) \<Longrightarrow> paints ctx g c"
  by (simp add: paints_def achieves_def painted_def shows_panel_def)

section \<open>Statement lists\<close>

interpretation paint: effects "port_ready ctx" "painted ctx" no_paint then_paint for ctx
proof unfold_locales
  show "painted ctx no_paint s s" if "port_ready ctx s" for s :: "'a spi_machine_scheme"
    using port.effect_refl [OF that] by (auto simp: painted_def shows_panel_def no_paint_def)
  show "painted ctx (then_paint e f) s u" if "painted ctx e s t" "painted ctx f t u"
    for e f and s t u :: "'a spi_machine_scheme"
    using that shows_trans port.effect_trans unfolding painted_def by blast
  show "port_ready ctx t" if "painted ctx e s t" for e and s t :: "'a spi_machine_scheme"
    using that port.effect_ready unfolding painted_def by blast
qed

lemmas paints_Nil = paint.achieves_Nil [folded paints_def]
lemmas paints_Cons = paint.achieves_Cons [folded paints_def]

text \<open>Statements that leave the canvas alone and draw in the current colour.\<close>

definition stroke :: "(u8 \<Rightarrow> figure list) \<Rightarrow> painting" where
  "stroke F cv = (cv, F (pen cv))"

lemma stroke_Nil: "stroke (\<lambda>_. []) = no_paint"
  by (rule ext) (simp add: stroke_def no_paint_def)

lemma then_stroke: "then_paint (stroke F) (stroke G) = stroke (\<lambda>c. F c @ G c)"
  by (rule ext) (simp add: stroke_def then_paint_def)

lemma paints_strokes:
  "(\<And>x. paints ctx (stroke (F x)) (c x)) \<Longrightarrow>
   paints ctx (stroke (\<lambda>p. concat (map (\<lambda>x. F x p) xs))) (seq (map c xs))"
proof (induction xs)
  case Nil
  then show ?case using paints_Nil by (simp add: stroke_Nil del: seq.simps)
next
  case (Cons x xs)
  have "paints ctx (then_paint (stroke (F x)) (stroke (\<lambda>p. concat (map (\<lambda>x. F x p) xs)))) (seq (c x # map c xs))"
    by (rule paints_Cons) (use Cons in auto)
  then show ?case by (simp add: then_stroke del: seq.simps)
qed

section \<open>The calls\<close>

lemma paints_write_regs:
  assumes "\<And>p. shows_panel f p (panel_run (set_regs rvs) p)"
  shows "paints ctx f (write_regs ctx rvs)"
  by (rule paints_ops) (use write_regs_asks assms in blast)

lemma canvas_rect_regs [simp]:
  "canvas_of (p\<lparr>selected := a, regs := (rect_regs x1 y1 x2 y2 rs)(0x90 := v), figs := fs\<rparr>) =
     canvas_of (p\<lparr>regs := rs\<rparr>)"
  by (simp add: canvas_of_def foreground_def rect_regs_def reg16_def)

lemma paints_rect_fast:
  "paints ctx (stroke (\<lambda>c. [Rect x1 y1 x2 y2 c True])) (RA8875_draw_rect_fast ctx x1 y1 x2 y2)"
  unfolding draw_rect_fast_writes
  by (rule paints_write_regs) (simp only: run_rect_fast, simp add: shows_panel_def stroke_def, simp add: canvas_of_def)

definition box :: "u16 \<Rightarrow> u16 \<Rightarrow> u16 \<Rightarrow> u16 \<Rightarrow> u8 \<Rightarrow> bool \<Rightarrow> painting" where
  "box x1 y1 x2 y2 c filled cv = (cv\<lparr>pen := c\<rparr>, [Rect x1 y1 x2 y2 c filled])"

lemma paints_rect:
  "paints ctx (box x1 y1 x2 y2 c (filled \<noteq> 0)) (RA8875_draw_rect ctx x1 y1 x2 y2 c filled)"
proof -
  have k: "canvas_of (p\<lparr>selected := 0x90, regs := (colour_set c (rect_regs x1 y1 x2 y2 (regs p)))(0x90 := v),
      figs := fs\<rparr>) = (canvas_of p)\<lparr>pen := c\<rparr>" for p v fs
    by (simp add: canvas_of_def rect_regs_def reg16_def)
  show ?thesis
    unfolding draw_rect_writes
    by (rule paints_write_regs) (simp only: run_rect, simp add: shows_panel_def box_def k)
qed

definition ink :: "u8 \<Rightarrow> painting" where "ink c cv = (cv\<lparr>pen := c\<rparr>, [])"

definition wipe :: painting where "wipe cv = (cv, [Clear_Layer False])"

lemma paints_clear: "paints ctx wipe (RA8875_clear ctx)"
  unfolding RA8875_clear_def
  by (rule paints_write_regs)
    (simp add: shows_panel_def wipe_def ra8875_defs triggered_def canvas_of_def reg16_def foreground_def)

definition transfer :: "u8 \<Rightarrow> u16 \<times> u16 \<Rightarrow> u16 \<times> u16 \<Rightarrow> u16 \<Rightarrow> u16 \<Rightarrow> painting" where
  "transfer op src dst w h = stroke (\<lambda>c. [Bte_Op op src dst w h c])"

lemma panel_quiet: "quiet os \<Longrightarrow> figs (panel_run os p) = figs p \<and> canvas_of (panel_run os p) = canvas_of p"
  by (simp add: quiet_def canvas_of_def reg16_def foreground_def)

lemma paints_move:
  "paints ctx (transfer (move_opcode negative rop) (srcX, layered srcY srcLayer) (dstX, layered dstY dstLayer)
       width height)
     (RA8875_bte_move ctx srcX srcY srcLayer dstX dstY dstLayer width height negative rop)"
proof (rule paints_ops)
  fix s :: "'a spi_machine_scheme"
  assume ready: "port_ready ctx s"
  let ?rvs = "move_regs srcX srcY srcLayer dstX dstY dstLayer width height negative rop"
  obtain os s' where
    s': "RA8875_bte_move ctx srcX srcY srcLayer dstX dstY dstLayer width height negative rop s = Inr s'"
      "asks ctx (set_regs ?rvs @ os) s s'" "quiet os"
    using bte_move_asks [OF ready] by blast
  have "canvas_of (panel_run (set_regs ?rvs) p) = canvas_of p" for p
    by (simp add: canvas_of_def move_regs_def src_regs_def dst_regs_def size_regs_def reg16_def
        foreground_def)
  then show "\<exists>os s'. RA8875_bte_move ctx srcX srcY srcLayer dstX dstY dstLayer width height negative rop s = Inr s' \<and>
      asks ctx os s s' \<and> shows_panel (transfer (move_opcode negative rop) (srcX, layered srcY srcLayer)
        (dstX, layered dstY dstLayer) width height) (panel_of s) (panel_run os (panel_of s))"
    using s' panel_quiet [OF s'(3)]
    by (intro exI [of _ "set_regs ?rvs @ os"] exI [of _ s'])
      (simp add: shows_panel_def transfer_def stroke_def run_move_regs canvas_of_def)
qed

end
