(* ===== verification/Font.thy ===== *)
theory Font
  imports Canvas
begin

text \<open>
  The bitmap font (\<open>main/comicsans_font.h\<close>) and the functions of \<open>main/display.c\<close> that unpack
  and draw its glyphs. Glyphs are numbered by character code; a glyph is 16 bytes, one per row,
  the leftmost pixel in the highest bit. Drawing a glyph is proved to cover exactly its lit
  pixels, scaled.
\<close>

section \<open>The glyph tables\<close>

definition glyphs_digits :: "(nat \<times> u8 list) list" where
  "glyphs_digits =
     [(32, [0x00, 0x00, 0x00, 0x00, 0x00, 0x00, 0x00, 0x00, 0x00, 0x00, 0x00, 0x00, 0x00, 0x00, 0x00, 0x00]),
      (37, [0x63, 0x96, 0x66, 0x0C, 0x0C, 0x18, 0x18, 0x30, 0x30, 0x66, 0x69, 0xC6, 0x00, 0x00, 0x00, 0x00]),
      (46, [0x00, 0x00, 0x00, 0x00, 0x00, 0x00, 0x00, 0x00, 0x00, 0x00, 0x00, 0x18, 0x00, 0x00, 0x00, 0x00]),
      (48, [0x3C, 0x66, 0xC3, 0x83, 0x83, 0x83, 0x83, 0x83, 0x83, 0xC6, 0x7E, 0x3C, 0x00, 0x00, 0x00, 0x00]),
      (49, [0x18, 0x38, 0x78, 0x18, 0x18, 0x18, 0x18, 0x18, 0x18, 0x18, 0x3C, 0x3C, 0x00, 0x00, 0x00, 0x00]),
      (50, [0x3C, 0x66, 0xC2, 0x02, 0x06, 0x1C, 0x38, 0x60, 0x40, 0xC0, 0xFE, 0x72, 0x00, 0x00, 0x00, 0x00]),
      (51, [0x7C, 0x6E, 0x02, 0x06, 0x1E, 0x3C, 0x0E, 0x06, 0x02, 0xC6, 0xFE, 0x38, 0x00, 0x00, 0x00, 0x00]),
      (52, [0x0C, 0x1C, 0x1C, 0x34, 0x64, 0x44, 0xC6, 0xFF, 0x06, 0x04, 0x04, 0x04, 0x00, 0x00, 0x00, 0x00]),
      (53, [0xFE, 0xC0, 0xC0, 0xFC, 0xFE, 0xC3, 0x83, 0x03, 0x03, 0x82, 0xCE, 0x7C, 0x00, 0x00, 0x00, 0x00]),
      (54, [0x18, 0x30, 0x60, 0x40, 0xD8, 0xFE, 0xC6, 0x82, 0x82, 0xC2, 0x66, 0x7C, 0x00, 0x00, 0x00, 0x00]),
      (55, [0xFF, 0xFF, 0x06, 0x0C, 0x0C, 0x18, 0x18, 0x10, 0x30, 0x20, 0x60, 0x60, 0x00, 0x00, 0x00, 0x00]),
      (56, [0x3C, 0x66, 0xC6, 0xC6, 0x6E, 0x7C, 0x66, 0xC2, 0x83, 0xC3, 0xE6, 0x7C, 0x00, 0x00, 0x00, 0x00]),
      (57, [0x3C, 0x46, 0xC3, 0x83, 0x83, 0xC3, 0x7F, 0x16, 0x06, 0x0C, 0x38, 0x70, 0x00, 0x00, 0x00, 0x00])]"

definition glyphs_upper_1 :: "(nat \<times> u8 list) list" where
  "glyphs_upper_1 =
     [(65, [0x04, 0x0C, 0x1C, 0x1E, 0x36, 0x26, 0x7E, 0xFE, 0xC3, 0x83, 0x81, 0x01, 0x00, 0x00, 0x00, 0x00]),
      (66, [0x7C, 0x46, 0x42, 0x42, 0x46, 0x6E, 0x7E, 0xC7, 0xC1, 0xC3, 0xFE, 0x78, 0x00, 0x00, 0x00, 0x00]),
      (67, [0x0F, 0x1F, 0x31, 0x60, 0x40, 0xC0, 0x80, 0x80, 0x80, 0xC3, 0x7E, 0x38, 0x00, 0x00, 0x00, 0x00]),
      (68, [0xC0, 0xF8, 0x9C, 0x86, 0x83, 0x81, 0x81, 0x81, 0x81, 0x83, 0x86, 0xFC, 0x00, 0x00, 0x00, 0x00]),
      (69, [0xFF, 0xC0, 0xC0, 0xC0, 0xC0, 0xFF, 0xE0, 0xC0, 0xC0, 0xC0, 0xC0, 0x7F, 0x00, 0x00, 0x00, 0x00]),
      (70, [0xFF, 0xC0, 0xC0, 0xC0, 0xDE, 0xFE, 0xC0, 0xC0, 0xC0, 0xC0, 0xC0, 0xC0, 0x00, 0x00, 0x00, 0x00]),
      (71, [0x3C, 0x7E, 0xC3, 0xC0, 0xCF, 0xC3, 0xC3, 0xC3, 0xC3, 0xC3, 0x7E, 0x3C, 0x00, 0x00, 0x00, 0x00]),
      (72, [0x80, 0x80, 0x80, 0x80, 0x81, 0x8F, 0xFF, 0x81, 0x81, 0x81, 0x81, 0x80, 0x00, 0x00, 0x00, 0x00]),
      (73, [0xFC, 0xFE, 0x30, 0x30, 0x30, 0x30, 0x30, 0x30, 0x30, 0x30, 0xFE, 0xFC, 0x00, 0x00, 0x00, 0x00]),
      (74, [0x7F, 0x7E, 0x08, 0x08, 0x08, 0x08, 0x08, 0x08, 0x08, 0x18, 0x98, 0xF0, 0x20, 0x00, 0x00, 0x00]),
      (75, [0x82, 0x86, 0x8C, 0x98, 0xB0, 0xE0, 0xE0, 0xE0, 0xB0, 0x9C, 0x8E, 0x82, 0x00, 0x00, 0x00, 0x00]),
      (76, [0xC0, 0xC0, 0xC0, 0xC0, 0xC0, 0xC0, 0xC0, 0xC0, 0x80, 0x80, 0x8E, 0xFC, 0x00, 0x00, 0x00, 0x00]),
      (77, [0x66, 0x5A, 0x5A, 0x52, 0xC3, 0xC3, 0xC3, 0xC3, 0x81, 0x81, 0x81, 0x81, 0x00, 0x00, 0x00, 0x00]),
      (78, [0x82, 0xC7, 0xCF, 0xCF, 0xCF, 0xDB, 0xDB, 0xF3, 0xF3, 0xE3, 0xC3, 0x82, 0x00, 0x00, 0x00, 0x00])]"

definition glyphs_upper_2 :: "(nat \<times> u8 list) list" where
  "glyphs_upper_2 =
     [(79, [0x3E, 0xFF, 0x81, 0x81, 0x01, 0x01, 0x01, 0x01, 0x03, 0x07, 0xFE, 0x78, 0x00, 0x00, 0x00, 0x00]),
      (80, [0xF8, 0xCC, 0x86, 0x86, 0x84, 0xDC, 0xF8, 0x80, 0x80, 0x80, 0x80, 0x80, 0x00, 0x00, 0x00, 0x00]),
      (81, [0x3E, 0xFF, 0x81, 0x00, 0x00, 0x00, 0x00, 0x00, 0x18, 0x1D, 0xCF, 0xFF, 0x11, 0x00, 0x00, 0x00]),
      (82, [0xF8, 0xFC, 0xC6, 0xC3, 0xC3, 0xC3, 0xFE, 0xF8, 0xDC, 0xC6, 0xC3, 0x81, 0x00, 0x00, 0x00, 0x00]),
      (83, [0x1C, 0x7E, 0xC0, 0xC0, 0xC0, 0x7E, 0x07, 0x03, 0x03, 0x83, 0xCE, 0xFC, 0x00, 0x00, 0x00, 0x00]),
      (84, [0xFF, 0xFF, 0x10, 0x18, 0x18, 0x18, 0x18, 0x18, 0x18, 0x18, 0x18, 0x00, 0x00, 0x00, 0x00, 0x00]),
      (85, [0x81, 0x81, 0x81, 0x81, 0x81, 0x81, 0x81, 0x81, 0x83, 0xC3, 0xEE, 0x3C, 0x00, 0x00, 0x00, 0x00]),
      (86, [0x81, 0x83, 0x82, 0x86, 0xC6, 0xC4, 0x4C, 0x48, 0x78, 0x78, 0x30, 0x30, 0x00, 0x00, 0x00, 0x00]),
      (87, [0x00, 0x00, 0x81, 0x81, 0x81, 0x81, 0x81, 0x81, 0x83, 0xC3, 0x52, 0x5A, 0x5A, 0x66, 0x00, 0x00]),
      (88, [0x81, 0xC3, 0xC3, 0x66, 0x3C, 0x18, 0x38, 0x3C, 0x66, 0xC6, 0x83, 0x01, 0x00, 0x00, 0x00, 0x00]),
      (89, [0x81, 0x83, 0xC3, 0x66, 0x66, 0x34, 0x3C, 0x18, 0x18, 0x18, 0x30, 0x20, 0x00, 0x00, 0x00, 0x00]),
      (90, [0xFF, 0xFF, 0x06, 0x0C, 0x18, 0x30, 0x60, 0x60, 0xC0, 0x80, 0x9F, 0xFF, 0x00, 0x00, 0x00, 0x00])]"

definition glyphs_lower_1 :: "(nat \<times> u8 list) list" where
  "glyphs_lower_1 =
     [(97, [0x00, 0x00, 0x00, 0x00, 0x3E, 0x62, 0x46, 0xC6, 0xC2, 0x42, 0x66, 0x3B, 0x00, 0x00, 0x00, 0x00]),
      (98, [0xC0, 0xC0, 0xC0, 0xC0, 0xFC, 0xC6, 0xC2, 0xC3, 0xC2, 0xC2, 0xFE, 0xF8, 0x00, 0x00, 0x00, 0x00]),
      (99, [0x00, 0x00, 0x00, 0x08, 0x3E, 0x22, 0x60, 0x40, 0x40, 0x40, 0x76, 0x3E, 0x00, 0x00, 0x00, 0x00]),
      (100, [0x02, 0x02, 0x02, 0x02, 0x7E, 0xC6, 0x82, 0x82, 0x82, 0xC6, 0x7E, 0x3A, 0x00, 0x00, 0x00, 0x00]),
      (101, [0x00, 0x00, 0x00, 0x00, 0x7C, 0xC4, 0x8C, 0xB8, 0xE0, 0x82, 0xEE, 0x7C, 0x00, 0x00, 0x00, 0x00]),
      (102, [0x0E, 0x18, 0x10, 0x10, 0x7E, 0x70, 0x10, 0x10, 0x10, 0x10, 0x10, 0x30, 0x10, 0x00, 0x00, 0x00]),
      (103, [0x00, 0x00, 0x00, 0x00, 0x3E, 0x73, 0x43, 0x42, 0xC2, 0x46, 0x7E, 0x3A, 0x02, 0x06, 0x4C, 0x78]),
      (104, [0xC0, 0xC0, 0xC0, 0xC0, 0xDC, 0xF6, 0xE6, 0xC6, 0xC6, 0xC6, 0xC2, 0x82, 0x00, 0x00, 0x00, 0x00]),
      (105, [0x08, 0x08, 0x00, 0x00, 0x08, 0x18, 0x18, 0x18, 0x18, 0x18, 0x18, 0x00, 0x00, 0x00, 0x00, 0x00]),
      (106, [0x08, 0x08, 0x00, 0x00, 0x0C, 0x0C, 0x0C, 0x0C, 0x0C, 0x0C, 0x0C, 0x0C, 0x0C, 0x6C, 0x6C, 0x38]),
      (107, [0xC0, 0xC0, 0xC0, 0xC2, 0xC6, 0xCC, 0xF8, 0xF8, 0xCC, 0xCC, 0xC6, 0xC2, 0x00, 0x00, 0x00, 0x00]),
      (108, [0x10, 0x18, 0x18, 0x18, 0x18, 0x38, 0x18, 0x18, 0x18, 0x18, 0x18, 0x08, 0x00, 0x00, 0x00, 0x00]),
      (109, [0x00, 0x00, 0x00, 0x00, 0xFE, 0xBB, 0x33, 0x31, 0x31, 0x31, 0x11, 0x11, 0x00, 0x00, 0x00, 0x00]),
      (110, [0x00, 0x00, 0x00, 0x00, 0xDC, 0xFE, 0xC6, 0xC6, 0xC6, 0xC6, 0xC6, 0xC6, 0x00, 0x00, 0x00, 0x00])]"

definition glyphs_lower_2 :: "(nat \<times> u8 list) list" where
  "glyphs_lower_2 =
     [(111, [0x00, 0x00, 0x00, 0x00, 0x3C, 0x66, 0x62, 0x42, 0x42, 0x42, 0x7E, 0x3C, 0x00, 0x00, 0x00, 0x00]),
      (112, [0x00, 0x00, 0x00, 0x80, 0xFC, 0xEC, 0xC6, 0xC6, 0xC6, 0xC4, 0xFC, 0xF8, 0xC0, 0xC0, 0xC0, 0xC0]),
      (113, [0x00, 0x00, 0x00, 0x00, 0x3E, 0x62, 0x42, 0x42, 0xC2, 0x46, 0x7E, 0x3E, 0x06, 0x06, 0x04, 0x04]),
      (114, [0x00, 0x00, 0x00, 0x00, 0x7E, 0x72, 0x62, 0x60, 0x60, 0x60, 0x60, 0x40, 0x00, 0x00, 0x00, 0x00]),
      (115, [0x00, 0x00, 0x00, 0x0E, 0x3E, 0x62, 0x60, 0x3C, 0x0C, 0x06, 0xFE, 0x7C, 0x00, 0x00, 0x00, 0x00]),
      (116, [0x10, 0x18, 0x18, 0x18, 0xFF, 0x38, 0x18, 0x18, 0x18, 0x18, 0x18, 0x08, 0x00, 0x00, 0x00, 0x00]),
      (117, [0x00, 0x00, 0x00, 0x00, 0x62, 0x42, 0x42, 0x42, 0x42, 0x62, 0x7E, 0x3E, 0x00, 0x00, 0x00, 0x00]),
      (118, [0x00, 0x00, 0x00, 0x00, 0x42, 0x46, 0x66, 0x24, 0x3C, 0x38, 0x18, 0x10, 0x00, 0x00, 0x00, 0x00]),
      (119, [0x00, 0x00, 0x00, 0x00, 0x11, 0x31, 0x3B, 0x3B, 0xEA, 0xCE, 0xCE, 0x8C, 0x00, 0x00, 0x00, 0x00]),
      (120, [0x00, 0x00, 0x00, 0x41, 0x43, 0x66, 0x3C, 0x38, 0x38, 0xEC, 0xC6, 0x02, 0x00, 0x00, 0x00, 0x00]),
      (121, [0x00, 0x00, 0x00, 0x00, 0xC3, 0xC2, 0x66, 0x64, 0x3C, 0x1C, 0x18, 0x18, 0x10, 0x30, 0x20, 0x20]),
      (122, [0x00, 0x00, 0x00, 0x00, 0xFE, 0x0C, 0x0C, 0x18, 0x30, 0x20, 0x7C, 0xFE, 0x00, 0x00, 0x00, 0x00])]"

text \<open>The lookup table \<open>glyphs[256]\<close>; \<open>None\<close> is a null entry.\<close>

definition glyphs :: "nat \<Rightarrow> u8 list option" where
  "glyphs = map_of (glyphs_digits @ glyphs_upper_1 @ glyphs_upper_2 @ glyphs_lower_1 @ glyphs_lower_2)"

lemmas glyph_table_defs = glyphs_digits_def glyphs_upper_1_def glyphs_upper_2_def
  glyphs_lower_1_def glyphs_lower_2_def

text \<open>The advance of a character: 16, but for the letters with a spacing of their own.\<close>

definition glyphAdvanceComicSans :: "nat \<Rightarrow> nat" where
  "glyphAdvanceComicSans c =
     (if c = 32 then 12 else if c = 108 then 13 else if c = 105 then 13 else if c = 111 then 15
      else if c = 114 then 15 else if c = 103 then 15 else if c = 97 then 17 else if c = 109 then 17
      else if c = 78 then 17 else if c = 77 then 18 else if c = 71 then 18 else 16)"

section \<open>Unpacked glyphs\<close>

text \<open>\<open>GlyphBuffer\<close>: 16 rows of 8 pixels. The cache starts out cleared.\<close>

type_synonym glyph_buffer = "bool list list"

definition empty_buffer :: glyph_buffer where
  "empty_buffer = replicate 16 (replicate 8 False)"

definition unpack_glyph :: "u8 list \<Rightarrow> glyph_buffer" where
  "unpack_glyph g = map (\<lambda>row. map (\<lambda>col. g ! row AND push_bit (7 - col) 1 \<noteq> 0) [0..<8]) [0..<16]"

definition precompute_glyphs :: "(nat \<Rightarrow> glyph_buffer) \<Rightarrow> (nat \<Rightarrow> glyph_buffer)" where
  "precompute_glyphs cache =
     fold (\<lambda>i cache. case glyphs i of None \<Rightarrow> cache | Some g \<Rightarrow> cache(i := unpack_glyph g)) [0..<256] cache"

definition pixel :: "glyph_buffer \<Rightarrow> nat \<Rightarrow> nat \<Rightarrow> bool" where
  "pixel buf row col = buf ! row ! col"

lemma precompute_upto:
  "fold (\<lambda>i cache. case glyphs i of None \<Rightarrow> cache | Some g \<Rightarrow> cache(i := unpack_glyph g)) [0..<n] cache c =
     (if c < n then (case glyphs c of None \<Rightarrow> cache c | Some g \<Rightarrow> unpack_glyph g) else cache c)"
  by (induction n) (auto split: option.splits simp: less_Suc_eq)

lemma precompute_glyphs_at:
  "c < 256 \<Longrightarrow> precompute_glyphs cache c = (case glyphs c of None \<Rightarrow> cache c | Some g \<Rightarrow> unpack_glyph g)"
  by (simp add: precompute_glyphs_def precompute_upto)

lemma pixel_unpack:
  "row < 16 \<Longrightarrow> col < 8 \<Longrightarrow> pixel (unpack_glyph g) row col \<longleftrightarrow> bit (g ! row) (7 - col)"
proof -
  assume "row < 16" "col < 8"
  moreover have "(b AND push_bit i 1 \<noteq> 0) = bit b i" if "i < 8" for b :: u8 and i
  proof -
    have "b AND push_bit i 1 = (if bit b i then push_bit i 1 else 0)"
      using that by (intro bit_word_eqI) (auto simp: bit_and_iff bit_exp_iff)
    moreover have "bit (push_bit i 1 :: u8) i"
      using that by (simp add: bit_exp_iff)
    then have "push_bit i 1 \<noteq> (0 :: u8)" by (metis bit_0_eq bot_apply bot_bool_def)
    ultimately show ?thesis by simp
  qed
  ultimately show ?thesis
    by (simp add: pixel_def unpack_glyph_def)
qed

section \<open>Drawing a glyph\<close>

definition GLYPH_SCALE :: nat where "GLYPH_SCALE = 2"

text \<open>The inner loop: the first row from \<open>row\<close> on that is not lit, at most 16.\<close>

function skip_lit :: "glyph_buffer \<Rightarrow> nat \<Rightarrow> nat \<Rightarrow> nat" where
  "skip_lit buf col row = (if row < 16 \<and> pixel buf row col then skip_lit buf col (row + 1) else row)"
  by pat_completeness auto
termination by (relation "measure (\<lambda>(buf, col, row). 16 - row)") auto

declare skip_lit.simps [simp del]

lemma skip_lit_ge: "row \<le> skip_lit buf col row"
  by (induction buf col row rule: skip_lit.induct) (subst skip_lit.simps, auto)

lemma skip_lit_le: "row \<le> 16 \<Longrightarrow> skip_lit buf col row \<le> 16"
  by (induction buf col row rule: skip_lit.induct) (subst skip_lit.simps, auto)

lemma skip_lit_gt: "row < 16 \<Longrightarrow> pixel buf row col \<Longrightarrow> row < skip_lit buf col row"
  using skip_lit_ge [of "row + 1" buf col] by (subst skip_lit.simps) auto

lemma skip_lit_lit: "row \<le> r \<Longrightarrow> r < skip_lit buf col row \<Longrightarrow> pixel buf r col"
proof (induction buf col row rule: skip_lit.induct)
  case (1 buf col row)
  show ?case
  proof (cases "row < 16 \<and> pixel buf row col")
    case True
    then show ?thesis
      using 1 skip_lit.simps [of buf col row] by (cases "r = row") auto
  next
    case False
    then have "skip_lit buf col row = row"
      by (subst skip_lit.simps) auto
    then show ?thesis
      using 1(2,3) by simp
  qed
qed

lemma skip_lit_end: "skip_lit buf col row < 16 \<Longrightarrow> \<not> pixel buf (skip_lit buf col row) col"
proof (induction buf col row rule: skip_lit.induct)
  case (1 buf col row)
  then show ?case
    by (cases "row < 16 \<and> pixel buf row col") (auto simp: skip_lit.simps [of buf col row])
qed

text \<open>One column: every run of lit rows is one filled rectangle.\<close>

definition draw_span ::
  "RA8875_context \<Rightarrow> u16 \<Rightarrow> u16 \<Rightarrow> nat \<Rightarrow> nat \<times> nat \<Rightarrow> 'a spi_machine_scheme \<Rightarrow> 'a spi_machine_scheme outcome" where
  "draw_span ctx x y col = (\<lambda>(start_row, row).
     let px1 = x + of_nat (col * GLYPH_SCALE);
         px2 = px1 + of_nat GLYPH_SCALE - 1;
         py1 = y + of_nat (start_row * GLYPH_SCALE);
         py2 = y + of_nat ((row - 1) * GLYPH_SCALE + GLYPH_SCALE - 1)
     in RA8875_draw_rect_fast ctx px1 py1 px2 py2)"

function blit_column ::
  "RA8875_context \<Rightarrow> u16 \<Rightarrow> u16 \<Rightarrow> glyph_buffer \<Rightarrow> nat \<Rightarrow> nat \<Rightarrow> 'a spi_machine_scheme \<Rightarrow> 'a spi_machine_scheme outcome" where
  "blit_column ctx x y buf col row s =
     (if \<not> row < 16 then Inr s
      else if \<not> pixel buf row col then blit_column ctx x y buf col (row + 1) s
      else
        let row' = skip_lit buf col row
        in bindr (draw_span ctx x y col (row, row') s) (blit_column ctx x y buf col row'))"
  by pat_completeness auto
termination
proof (relation "measure (\<lambda>(ctx, x, y, buf, col, row, s). 16 - row)")
  fix ctx x y buf col row row' and s s' :: "'a spi_machine_scheme"
  assume "\<not> \<not> row < 16" "\<not> \<not> pixel buf row col" "row' = skip_lit buf col row"
  then show "((ctx, x, y, buf, col, row', s'), ctx, x, y, buf, col, row, s)
      \<in> measure (\<lambda>(ctx, x, y, buf, col, row, s). 16 - row)"
    using skip_lit_gt [of row buf col] by auto
qed auto

declare blit_column.simps [simp del]

text \<open>The runs of a column, from \<open>row\<close> on, as pairs of the first row and the row after the last.\<close>

function spans :: "glyph_buffer \<Rightarrow> nat \<Rightarrow> nat \<Rightarrow> (nat \<times> nat) list" where
  "spans buf col row =
     (if \<not> row < 16 then []
      else if \<not> pixel buf row col then spans buf col (row + 1)
      else (row, skip_lit buf col row) # spans buf col (skip_lit buf col row))"
  by pat_completeness auto
termination
  by (relation "measure (\<lambda>(buf, col, row). 16 - row)") (auto intro!: diff_less_mono2 skip_lit_gt)

declare spans.simps [simp del]

lemma blit_column_spans:
  "blit_column ctx x y buf col row = seq (map (draw_span ctx x y col) (spans buf col row))"
proof (rule ext)
  fix s :: "'a spi_machine_scheme"
  show "blit_column ctx x y buf col row s = seq (map (draw_span ctx x y col) (spans buf col row)) s"
  proof (induction buf col row arbitrary: s rule: spans.induct)
    case (1 buf col row)
    then show ?case
      by (auto simp: blit_column.simps [of ctx x y buf col row] spans.simps [of buf col row] Let_def
          bindr_def split: sum.splits)
  qed
qed

lemma spans_lit: "(\<exists>(a, b) \<in> set (spans buf col row). a \<le> r \<and> r < b) \<longleftrightarrow> row \<le> r \<and> r < 16 \<and> pixel buf r col"
proof (induction buf col row rule: spans.induct)
  case (1 buf col row)
  consider "16 \<le> row" | "row < 16" "\<not> pixel buf row col" | "row < 16" "pixel buf row col" by linarith
  then show ?case
  proof cases
    case 1
    then show ?thesis by (auto simp: spans.simps [of buf col row])
  next
    case 2
    then have "spans buf col row = spans buf col (row + 1)"
      by (simp add: spans.simps [of buf col row])
    then show ?thesis
      using 1(1) 2 by (auto simp: Suc_le_eq)
  next
    case 3
    let ?e = "skip_lit buf col row"
    have s: "spans buf col row = (row, ?e) # spans buf col ?e"
      using 3 by (simp add: spans.simps [of buf col row])
    have ih: "(\<exists>(a, b) \<in> set (spans buf col ?e). a \<le> r \<and> r < b) \<longleftrightarrow> ?e \<le> r \<and> r < 16 \<and> pixel buf r col"
      using 1(2) 3 by simp
    have "?e \<le> 16" "row < ?e"
      using 3 skip_lit_le [of row buf col] skip_lit_gt [of row buf col] by auto
    then show ?thesis
      unfolding s list.set bex_simps(5) ih prod.case
      using skip_lit_lit [of row r buf col] by auto
  qed
qed

section \<open>Whole glyphs\<close>

definition Display_ForegroundWhite :: "RA8875_context \<Rightarrow> 'a spi_machine_scheme \<Rightarrow> 'a spi_machine_scheme outcome" where
  "Display_ForegroundWhite lcd = write_regs lcd [(0x63, 0x07), (0x64, 0x07), (0x65, 0x03)]"

definition Display_BlitGlyph ::
  "RA8875_context \<Rightarrow> u16 \<Rightarrow> u16 \<Rightarrow> glyph_buffer \<Rightarrow> 'a spi_machine_scheme \<Rightarrow> 'a spi_machine_scheme outcome" where
  "Display_BlitGlyph lcd x y buf =
     seq [Display_ForegroundWhite lcd, seq (map (\<lambda>col. blit_column lcd x y buf col 0) [0..<8])]"

definition COLOR_WHITE :: u8 where "COLOR_WHITE = 255"

lemma paints_white: "paints lcd (ink COLOR_WHITE) (Display_ForegroundWhite lcd)"
  unfolding Display_ForegroundWhite_def
  by (rule paints_write_regs)
    (simp add: shows_panel_def ink_def COLOR_WHITE_def canvas_of_def reg16_def foreground_def)

definition span_rect :: "u16 \<Rightarrow> u16 \<Rightarrow> nat \<Rightarrow> nat \<times> nat \<Rightarrow> u8 \<Rightarrow> figure" where
  "span_rect x y col ab c = Rect (x + of_nat (col * GLYPH_SCALE)) (y + of_nat (fst ab * GLYPH_SCALE))
     (x + of_nat (col * GLYPH_SCALE) + of_nat GLYPH_SCALE - 1)
     (y + of_nat ((snd ab - 1) * GLYPH_SCALE + GLYPH_SCALE - 1)) c True"

definition glyph_spans :: "glyph_buffer \<Rightarrow> (nat \<times> nat \<times> nat) list" where
  "glyph_spans buf = concat (map (\<lambda>col. map (Pair col) (spans buf col 0)) [0..<8])"

definition glyph_figs :: "u16 \<Rightarrow> u16 \<Rightarrow> glyph_buffer \<Rightarrow> u8 \<Rightarrow> figure list" where
  "glyph_figs x y buf c = map (\<lambda>(col, ab). span_rect x y col ab c) (glyph_spans buf)"

lemma paints_span: "paints lcd (stroke (\<lambda>c. [span_rect x y col ab c])) (draw_span lcd x y col ab)"
  using paints_rect_fast by (cases ab) (simp add: draw_span_def span_rect_def Let_def)

lemma paints_column:
  "paints lcd (stroke (\<lambda>c. map (\<lambda>ab. span_rect x y col ab c) (spans buf col 0))) (blit_column lcd x y buf col 0)"
  using paints_strokes [where F = "\<lambda>ab c. [span_rect x y col ab c]" and xs = "spans buf col 0", OF paints_span]
  unfolding blit_column_spans by simp

lemma paints_glyph:
  "paints lcd (\<lambda>cv. (cv\<lparr>pen := COLOR_WHITE\<rparr>, glyph_figs x y buf COLOR_WHITE)) (Display_BlitGlyph lcd x y buf)"
proof -
  let ?cols = "\<lambda>c. concat (map (\<lambda>col. map (\<lambda>ab. span_rect x y col ab c) (spans buf col 0)) [0..<8])"
  have f: "?cols c = glyph_figs x y buf c" for c
    by (simp add: glyph_figs_def glyph_spans_def map_concat comp_def)
  have "paints lcd (stroke (glyph_figs x y buf)) (seq (map (\<lambda>col. blit_column lcd x y buf col 0) [0..<8]))"
    unfolding f [symmetric] by (rule paints_strokes) (rule paints_column)
  from paints_Cons [OF paints_white paints_Cons [OF this paints_Nil]]
  show ?thesis
    unfolding Display_BlitGlyph_def
    by (rule paints_cong) (simp add: then_paint_def ink_def stroke_def no_paint_def)
qed

section \<open>The pixels of a glyph\<close>

text \<open>The panel points that a filled rectangle covers, both corners included.\<close>

definition covers :: "figure \<Rightarrow> nat \<Rightarrow> nat \<Rightarrow> bool" where
  "covers fig px py = (case fig of
     Rect x1 y1 x2 y2 c filled \<Rightarrow> unat x1 \<le> px \<and> px \<le> unat x2 \<and> unat y1 \<le> py \<and> py \<le> unat y2
   | _ \<Rightarrow> False)"

lemma spans_bounds: "(a, b) \<in> set (spans buf col row) \<Longrightarrow> row \<le> a \<and> a < b \<and> b \<le> 16"
proof (induction buf col row rule: spans.induct)
  case (1 buf col row)
  then show ?case
    using skip_lit_le [of row buf col] skip_lit_gt [of row buf col]
    by (subst (asm) (3) spans.simps) (fastforce split: if_splits)
qed

lemma covers_span:
  assumes x: "unat x + 16 \<le> 65536" and y: "unat y + 32 \<le> 65536"
    and col: "col < 8" and ab: "a < b" "b \<le> 16"
  shows "covers (span_rect x y col (a, b) c) px py \<longleftrightarrow>
    unat x \<le> px \<and> (px - unat x) div 2 = col \<and>
    unat y \<le> py \<and> a \<le> (py - unat y) div 2 \<and> (py - unat y) div 2 < b"
proof -
  have add: "unat (w + of_nat n) = unat w + n" if "unat w + n < 65536" for w :: u16 and n
    using that by (simp add: unat_word_ariths unat_of_nat)
  have x1: "unat (x + of_nat (col * 2)) = unat x + col * 2"
    using x col by (intro add) simp
  have x2: "unat (x + of_nat (col * 2) + of_nat 2 - 1) = unat x + col * 2 + 1"
  proof -
    have "x + of_nat (col * 2) + of_nat 2 - 1 = x + of_nat (col * 2 + 1)"
      by simp
    then show ?thesis using x col by (simp only:) (subst add, auto)
  qed
  have y1: "unat (y + of_nat (a * 2)) = unat y + a * 2"
    using y ab by (intro add) simp
  have y2: "unat (y + of_nat ((b - 1) * 2 + 2 - 1)) = unat y + (b * 2 - 1)"
  proof -
    have "(b - 1) * 2 + 2 - 1 = b * 2 - 1" using ab by simp
    then show ?thesis using y ab by (simp only:) (subst add, auto)
  qed
  show ?thesis
    unfolding covers_def span_rect_def GLYPH_SCALE_def fst_conv snd_conv figure.case x1 x2 y1 y2
    using ab by auto
qed

text \<open>The eight pixels of a row as the byte of the font table, the left one first.\<close>

definition pack_row :: "bool list \<Rightarrow> u8" where
  "pack_row row = horner_sum of_bool 2 (rev row)"

lemma glyphs_16_rows: "list_all (\<lambda>(c, g). c < 256 \<and> length g = 16) (glyphs_digits @ glyphs_upper_1 @
    glyphs_upper_2 @ glyphs_lower_1 @ glyphs_lower_2)"
  by (simp add: glyph_table_defs)

lemma glyph_length: "glyphs c = Some g \<Longrightarrow> c < 256 \<and> length g = 16"
  using glyphs_16_rows map_of_SomeD unfolding glyphs_def list_all_iff by fastforce

lemma pack_row_unpack:
  assumes "row < 16"
  shows "pack_row (unpack_glyph g ! row) = g ! row"
proof (rule bit_word_eqI)
  fix n
  assume n: "n < LENGTH(8)"
  have "unpack_glyph g ! row ! (7 - n) = bit (g ! row) (7 - (7 - n))"
    using pixel_unpack [OF assms, of "7 - n" g] n by (simp add: pixel_def)
  moreover have "length (unpack_glyph g ! row) = 8"
    using assms by (simp add: unpack_glyph_def)
  ultimately show "bit (pack_row (unpack_glyph g ! row)) n = bit (g ! row) n"
    using n by (simp add: pack_row_def bit_horner_sum_bit_word_iff rev_nth)
qed

text \<open>
  C11: \<open>Display_PrecomputeGlyphs\<close> unpacks every glyph of the font without loss:
  packing the cached rows gives back the sixteen bytes of the table, and a character without a
  glyph keeps its buffer.
\<close>

theorem glyph_cache_packs_back:
  "case glyphs c of
     Some g \<Rightarrow> map pack_row (precompute_glyphs cache c) = g \<and> length (precompute_glyphs cache c) = 16
   | None \<Rightarrow> precompute_glyphs cache c = cache c"
proof (cases "glyphs c")
  case None
  then show ?thesis
    by (simp add: precompute_glyphs_def precompute_upto)
next
  case (Some g)
  then have g: "c < 256" "length g = 16"
    using glyph_length by auto
  have "map pack_row (unpack_glyph g) = g"
    by (rule nth_equalityI) (use g pack_row_unpack in \<open>simp_all add: unpack_glyph_def\<close>)
  then show ?thesis
    using Some g by (simp add: precompute_glyphs_at) (simp add: unpack_glyph_def)
qed

text \<open>
  C10: \<open>Display_BlitGlyph\<close> returns and draws rectangles that together cover exactly
  the lit pixels of the cached glyph, doubled in both directions and placed at the given point.
\<close>

theorem blit_glyph_pixels:
  fixes s :: "'a spi_machine_scheme"
  assumes ready: "port_ready lcd s" and x: "unat x + 16 \<le> 65536" and y: "unat y + 32 \<le> 65536"
  shows "\<exists>s' new. Display_BlitGlyph lcd x y buf s = Inr s' \<and> port_ready lcd s' \<and>
    figs (panel_of s') = figs (panel_of s) @ new \<and>
    (\<forall>fig \<in> set new. \<exists>x1 y1 x2 y2. fig = Rect x1 y1 x2 y2 COLOR_WHITE True) \<and>
    (\<forall>px py. (\<exists>fig \<in> set new. covers fig px py) \<longleftrightarrow>
       unat x \<le> px \<and> (px - unat x) div 2 < 8 \<and> unat y \<le> py \<and> (py - unat y) div 2 < 16 \<and>
       pixel buf ((py - unat y) div 2) ((px - unat x) div 2))"
proof -
  let ?new = "glyph_figs x y buf COLOR_WHITE"
  obtain os s' where s': "Display_BlitGlyph lcd x y buf s = Inr s'" "port_ready lcd s'"
      "figs (panel_of s') = figs (panel_of s) @ ?new"
    using paintsD [OF paints_glyph ready] by (metis shows_panel_def snd_conv)
  have "(\<exists>fig \<in> set ?new. covers fig px py) \<longleftrightarrow>
      unat x \<le> px \<and> (px - unat x) div 2 < 8 \<and> unat y \<le> py \<and> (py - unat y) div 2 < 16 \<and>
       pixel buf ((py - unat y) div 2) ((px - unat x) div 2)" for px py
  proof -
    have "(\<exists>fig \<in> set ?new. covers fig px py) \<longleftrightarrow>
        (\<exists>col < 8. \<exists>(a, b) \<in> set (spans buf col 0). covers (span_rect x y col (a, b) COLOR_WHITE) px py)"
      by (auto simp: glyph_figs_def glyph_spans_def)
    also have "\<dots> \<longleftrightarrow> (\<exists>col < 8. \<exists>(a, b) \<in> set (spans buf col 0).
        unat x \<le> px \<and> (px - unat x) div 2 = col \<and> unat y \<le> py \<and>
        a \<le> (py - unat y) div 2 \<and> (py - unat y) div 2 < b)"
      using covers_span [OF x y] spans_bounds [of _ _ buf _ 0]
      by (intro ex_cong1 conj_cong refl bex_cong) auto
    also have "\<dots> \<longleftrightarrow> (\<exists>col < 8. (px - unat x) div 2 = col \<and> unat x \<le> px \<and> unat y \<le> py \<and>
        (\<exists>(a, b) \<in> set (spans buf col 0). a \<le> (py - unat y) div 2 \<and> (py - unat y) div 2 < b))"
      by auto
    finally show ?thesis
      unfolding spans_lit by auto
  qed
  moreover have "\<forall>fig \<in> set ?new. \<exists>x1 y1 x2 y2. fig = Rect x1 y1 x2 y2 COLOR_WHITE True"
    by (auto simp: glyph_figs_def span_rect_def)
  ultimately show ?thesis
    using s' by blast
qed

lemma blit_glyph_pixels_witness:
  "\<exists>s' new. Display_BlitGlyph demo_ctx 30 11 (unpack_glyph [0, 0x18, 0, 0, 0, 0, 0, 0, 0, 0, 0, 0, 0, 0, 0, 0])
      demo_machine = Inr s' \<and>
     figs (panel_of s') = figs (panel_of demo_machine) @ new \<and> (\<exists>fig \<in> set new. covers fig 36 14)"
proof -
  let ?buf = "unpack_glyph [0, 0x18, 0, 0, 0, 0, 0, 0, 0, 0, 0, 0, 0, 0, 0, 0]"
  have "unat (30 :: u16) + 16 \<le> 65536" "unat (11 :: u16) + 32 \<le> 65536" by simp_all
  from blit_glyph_pixels [OF demo_ready this, of ?buf] obtain s' new where
    s': "Display_BlitGlyph demo_ctx 30 11 ?buf demo_machine = Inr s'"
      "figs (panel_of s') = figs (panel_of demo_machine) @ new"
    and c: "\<forall>px py. (\<exists>fig \<in> set new. covers fig px py) \<longleftrightarrow>
       unat (30 :: u16) \<le> px \<and> (px - unat (30 :: u16)) div 2 < 8 \<and> unat (11 :: u16) \<le> py \<and>
       (py - unat (11 :: u16)) div 2 < 16 \<and>
       pixel ?buf ((py - unat (11 :: u16)) div 2) ((px - unat (30 :: u16)) div 2)"
    by blast
  have "pixel ?buf 1 3"
    by (simp add: pixel_unpack bit_numeral_iff bit_iff_odd)
  then have "\<exists>fig \<in> set new. covers fig 36 14"
    using c [rule_format, of 36 14] by simp
  then show ?thesis
    using s' by blast
qed

end
