(* ===== verification/Format.thy ===== *)
theory Format
  imports Machine
begin

text \<open>
  What \<open>Display_WriteNumberAt\<close> (\<open>main/display.c\<close>) uses of the C library: \<open>snprintf\<close> with the formats
  \<open>%d\<close>, \<open>%.2f\<close> and \<open>%.5f\<close>. A \<open>float\<close> is a sign, a mantissa and a binary exponent, an infinity or a
  NaN; the conversion to \<open>double\<close> in the call is exact. The digits printed are those of the
  decimal nearest to the value, ties going to the even last digit.
\<close>

section \<open>Floating point numbers\<close>

datatype c_float = Finite bool nat int | Infinity bool | Not_A_Number bool

definition float_zero :: c_float where "float_zero = Finite False 0 0"

text \<open>The magnitude of a finite float times \<open>10 ^ d\<close>, as a quotient.\<close>

definition scaled_num :: "nat \<Rightarrow> nat \<Rightarrow> int \<Rightarrow> nat" where
  "scaled_num d m e = m * 10 ^ d * 2 ^ nat e"

definition scaled_den :: "int \<Rightarrow> nat" where
  "scaled_den e = 2 ^ nat (- e)"

definition round_even :: "nat \<Rightarrow> nat \<Rightarrow> nat" where
  "round_even num den =
     (let q = num div den; r = num mod den
      in if 2 * r < den then q else if den < 2 * r then q + 1 else if even q then q else q + 1)"

lemma round_even_nearest:
  assumes "0 < den"
  shows "\<bar>2 * int (round_even num den * den) - 2 * int num\<bar> \<le> int den"
proof -
  define q r where "q = num div den" and "r = num mod den"
  have n: "num = q * den + r" and r: "r < den"
    using assms by (simp_all add: q_def r_def)
  have "round_even num den = (if 2 * r < den then q else if den < 2 * r then q + 1 else if even q then q else q + 1)"
    by (simp add: round_even_def q_def r_def Let_def)
  then consider "round_even num den = q" "2 * r \<le> den" | "round_even num den = q + 1" "den \<le> 2 * r"
    by (auto split: if_splits)
  then show ?thesis
  proof cases
    case 1
    then show ?thesis unfolding n 1(1) by simp
  next
    case 2
    then show ?thesis unfolding n 2(1) using r by (simp add: algebra_simps)
  qed
qed

lemma round_even_exact: "0 < den \<Longrightarrow> round_even (q * den) den = q"
  by (simp add: round_even_def)

section \<open>Decimal numerals\<close>

definition digit :: "nat \<Rightarrow> char" where
  "digit n = char_of (48 + n)"

fun dec :: "nat \<Rightarrow> string" where
  "dec n = (if n < 10 then [digit n] else dec (n div 10) @ [digit (n mod 10)])"

declare dec.simps [simp del]

text \<open>Exactly \<open>d\<close> digits, with leading zeros.\<close>

primrec dec_pad :: "nat \<Rightarrow> nat \<Rightarrow> string" where
  "dec_pad 0 n = []"
| "dec_pad (Suc d) n = dec_pad d (n div 10) @ [digit (n mod 10)]"

definition dec_int :: "int \<Rightarrow> string" where
  "dec_int i = (if i < 0 then ''-'' else []) @ dec (nat \<bar>i\<bar>)"

definition sign_text :: "bool \<Rightarrow> string" where
  "sign_text neg = (if neg then ''-'' else [])"

text \<open>\<open>%.<d>f\<close>\<close>

fun format_fixed :: "nat \<Rightarrow> c_float \<Rightarrow> string" where
  "format_fixed d (Finite neg m e) =
     (let q = round_even (scaled_num d m e) (scaled_den e)
      in sign_text neg @ dec (q div 10 ^ d) @ ''.'' @ dec_pad d (q mod 10 ^ d))"
| "format_fixed d (Infinity neg) = sign_text neg @ ''inf''"
| "format_fixed d (Not_A_Number neg) = sign_text neg @ ''nan''"

text \<open>What \<open>snprintf\<close> leaves in a buffer of \<open>sz\<close> bytes, up to the terminating zero.\<close>

definition snprintf_text :: "nat \<Rightarrow> string \<Rightarrow> string" where
  "snprintf_text sz txt = take (sz - 1) txt"

section \<open>Reading numerals back\<close>

definition digit_value :: "char \<Rightarrow> nat" where
  "digit_value c = of_char c - 48"

definition digits_value :: "string \<Rightarrow> nat" where
  "digits_value cs = foldl (\<lambda>n c. 10 * n + digit_value c) 0 cs"

lemma digit_value_digit [simp]: "n < 10 \<Longrightarrow> digit_value (digit n) = n"
  by (simp add: digit_value_def digit_def)

lemma digits_value_snoc [simp]: "digits_value (cs @ [c]) = 10 * digits_value cs + digit_value c"
  by (simp add: digits_value_def)

lemma digits_value_dec [simp]: "digits_value (dec n) = n"
proof (induction n rule: dec.induct)
  case (1 n)
  then show ?case
    by (cases "n < 10") (simp_all add: dec.simps [of n] digits_value_def)
qed

lemma digits_value_dec_pad:
  "digits_value (cs @ dec_pad d n) = digits_value cs * 10 ^ d + n mod 10 ^ d"
proof (induction d arbitrary: n)
  case (Suc d)
  have "digits_value (cs @ dec_pad (Suc d) n) = 10 * digits_value (cs @ dec_pad d (n div 10)) + n mod 10"
    using digits_value_snoc [of "cs @ dec_pad d (n div 10)" "digit (n mod 10)"] by simp
  also have "\<dots> = digits_value cs * 10 ^ Suc d + (10 * (n div 10 mod 10 ^ d) + n mod 10)"
    by (simp add: Suc algebra_simps)
  also have "10 * (n div 10 mod 10 ^ d) + n mod 10 = n mod 10 ^ Suc d"
    by (simp add: mod_mult2_eq)
  finally show ?case .
qed simp

text \<open>The first digits of a numeral are its quotient by a power of ten.\<close>

lemma digits_value_take_dec: "digits_value (take n (dec m)) = m div 10 ^ (length (dec m) - n)"
proof (induction m rule: dec.induct)
  case (1 m)
  show ?case
  proof (cases "m < 10")
    case True
    then show ?thesis
      by (cases n) (simp_all add: dec.simps [of m] digits_value_def)
  next
    case False
    then have d: "dec m = dec (m div 10) @ [digit (m mod 10)]"
      by (simp add: dec.simps [of m])
    show ?thesis
    proof (cases "n \<le> length (dec (m div 10))")
      case True
      then show ?thesis
        using "1.IH" [OF False] by (simp add: d Suc_diff_le div_mult2_eq)
    next
      case out: False
      then have "take n (dec m) = dec m" "length (dec m) - n = 0"
        by (simp_all add: d)
      then show ?thesis by simp
    qed
  qed
qed

lemma length_dec_pad [simp]: "length (dec_pad d n) = d"
  by (induction d arbitrary: n) simp_all

lemma length_dec: "n < 10 ^ k \<Longrightarrow> 0 < k \<Longrightarrow> length (dec n) \<le> k"
proof (induction k arbitrary: n)
  case (Suc k)
  show ?case
  proof (cases "n < 10")
    case False
    then have "0 < k" using Suc.prems(1) by (cases k) auto
    moreover have "n div 10 < 10 ^ k"
      using Suc.prems(1) by (simp add: less_mult_imp_div_less mult.commute)
    ultimately show ?thesis
      using Suc.IH False by (simp add: dec.simps [of n])
  qed (simp add: dec.simps [of n])
qed simp

lemma length_dec_ge: "10 ^ k \<le> n \<Longrightarrow> k < length (dec n)"
proof (induction k arbitrary: n)
  case 0
  then show ?case by (simp add: dec.simps [of n])
next
  case (Suc k)
  then have "\<not> n < 10" "10 ^ k \<le> n div 10"
    by (auto simp: less_eq_div_iff_mult_less_eq mult.commute
        intro: order_trans [OF _ Suc.prems] dest: order_le_less_trans [OF Suc.prems])
  then show ?case using Suc.IH by (simp add: dec.simps [of n])
qed

text \<open>The point aside, the digits of a numeral are the rounded magnitude.\<close>

definition number_value :: "string \<Rightarrow> nat" where
  "number_value txt = digits_value (filter (\<lambda>c. c \<noteq> CHR ''.'' \<and> c \<noteq> CHR ''-'') txt)"

lemma digit_not_mark [simp]: "n < 10 \<Longrightarrow> digit n \<noteq> CHR ''.''" "n < 10 \<Longrightarrow> digit n \<noteq> CHR ''-''"
proof -
  assume "n < 10"
  then have c: "of_char (digit n) = 48 + n" by (simp add: digit_def)
  show "digit n \<noteq> CHR ''.''" "digit n \<noteq> CHR ''-''"
    using c by auto
qed

lemma digit_numerals:
  "digit 0 = CHR ''0''" "digit (Suc 0) = CHR ''1''" "digit 1 = CHR ''1''" "digit 2 = CHR ''2''"
  "digit 3 = CHR ''3''" "digit 4 = CHR ''4''" "digit 5 = CHR ''5''" "digit 6 = CHR ''6''"
  "digit 7 = CHR ''7''" "digit 8 = CHR ''8''" "digit 9 = CHR ''9''"
  by code_simp+

lemma dec_pad_2: "dec_pad 2 n = [digit (n div 10 mod 10), digit (n mod 10)]"
  by (simp add: numeral_2_eq_2)

lemma dec_pad_5: "dec_pad 5 n = [digit (n div 10000 mod 10), digit (n div 1000 mod 10),
    digit (n div 100 mod 10), digit (n div 10 mod 10), digit (n mod 10)]"
proof -
  have five: "(5 :: nat) = Suc (Suc (Suc (Suc (Suc 0))))" by simp
  show ?thesis
    by (subst five) (simp only: dec_pad.simps append_Nil append_Cons div_mult2_eq [symmetric], simp)
qed

lemmas dec_numerals = dec.simps [of 0] dec.simps [of 1] dec.simps [of "Suc 0"] dec.simps [of "numeral k" for k]

lemmas print_simps = dec_numerals digit_numerals dec_pad_2 dec_pad_5 sign_text_def

lemma print_zero:
  "format_fixed 2 float_zero = ''0.00''" "format_fixed 5 float_zero = ''0.00000''"
  by (simp_all add: float_zero_def scaled_num_def scaled_den_def round_even_def print_simps)

definition numeric :: "string \<Rightarrow> bool" where
  "numeric cs \<longleftrightarrow> filter (\<lambda>c. c \<noteq> CHR ''.'' \<and> c \<noteq> CHR ''-'') cs = cs"

lemma numeric_dec: "numeric (dec n)"
proof (induction n rule: dec.induct)
  case (1 n)
  then show ?case by (cases "n < 10") (simp_all add: numeric_def dec.simps [of n])
qed

lemma numeric_dec_pad: "numeric (dec_pad d n)"
  by (induction d arbitrary: n) (simp_all add: numeric_def)

lemma number_value_fixed:
  "number_value (sign_text neg @ dec (q div 10 ^ d) @ ''.'' @ dec_pad d (q mod 10 ^ d)) = q"
proof -
  have "filter (\<lambda>c. c \<noteq> CHR ''.'' \<and> c \<noteq> CHR ''-'')
      (sign_text neg @ dec (q div 10 ^ d) @ ''.'' @ dec_pad d (q mod 10 ^ d)) =
      dec (q div 10 ^ d) @ dec_pad d (q mod 10 ^ d)"
    using numeric_dec [of "q div 10 ^ d"] numeric_dec_pad [of d "q mod 10 ^ d"]
    by (simp add: numeric_def sign_text_def)
  then show ?thesis
    by (simp add: number_value_def digits_value_dec_pad div_mult_mod_eq)
qed

text \<open>The length of a printed number, and when it fits its buffer.\<close>

lemma length_fixed_le:
  assumes "round_even (scaled_num d m e) (scaled_den e) < 10 ^ (k + d)" "0 < k"
  shows "length (format_fixed d (Finite neg m e)) \<le> (if neg then 1 else 0) + k + 1 + d"
proof -
  let ?q = "round_even (scaled_num d m e) (scaled_den e)"
  have "?q div 10 ^ d < 10 ^ k"
    using assms(1) by (simp add: less_mult_imp_div_less power_add)
  then have "length (dec (?q div 10 ^ d)) \<le> k"
    using assms(2) by (rule length_dec)
  then show ?thesis
    by (simp add: sign_text_def Let_def)
qed

lemma fixed_text_exact:
  assumes fits: "round_even (scaled_num d m e) (scaled_den e) < 10 ^ (k + d)"
    and room: "0 < k" "(if neg then 1 else 0) + k + 1 + d < sz"
  shows "snprintf_text sz (format_fixed d (Finite neg m e)) = format_fixed d (Finite neg m e) \<and>
    \<bar>2 * int (number_value (snprintf_text sz (format_fixed d (Finite neg m e))) * scaled_den e)
      - 2 * int (scaled_num d m e)\<bar> \<le> int (scaled_den e)"
proof -
  have full: "snprintf_text sz (format_fixed d (Finite neg m e)) = format_fixed d (Finite neg m e)"
    using length_fixed_le [OF fits room(1), of neg] room(2) by (simp add: snprintf_text_def)
  have "number_value (format_fixed d (Finite neg m e)) = round_even (scaled_num d m e) (scaled_den e)"
    using number_value_fixed by (simp add: Let_def)
  moreover have "0 < scaled_den e"
    by (simp add: scaled_den_def)
  ultimately show ?thesis
    unfolding full using round_even_nearest by simp
qed

text \<open>
  A number whose integer part fills the buffer is cut, silently: what is left has no point, and its
  digits are the first ones of the integer part.
\<close>

definition sign_length :: "bool \<Rightarrow> nat" where
  "sign_length neg = (if neg then 1 else 0)"

lemma number_value_cut:
  "number_value (take n (sign_text neg @ dec w)) = digits_value (take (n - sign_length neg) (dec w))"
proof -
  have "numeric (take k (dec w))" for k
  proof -
    have "set (take k (dec w)) \<subseteq> set (dec w)" by (rule set_take_subset)
    then show ?thesis
      using numeric_dec [of w] by (auto simp: numeric_def filter_id_conv)
  qed
  then show ?thesis
    by (cases n; cases neg) (simp_all add: number_value_def numeric_def sign_text_def sign_length_def)
qed

lemma fixed_text_cut:
  assumes "10 ^ (sz - 2 + d) \<le> round_even (scaled_num d m e) (scaled_den e)" "2 \<le> sz"
  defines "w \<equiv> round_even (scaled_num d m e) (scaled_den e) div 10 ^ d"
  shows "length (snprintf_text sz (format_fixed d (Finite neg m e))) = sz - 1"
    "CHR ''.'' \<notin> set (snprintf_text sz (format_fixed d (Finite neg m e)))"
    "number_value (snprintf_text sz (format_fixed d (Finite neg m e))) =
      w div 10 ^ (length (dec w) - (sz - 1 - sign_length neg))"
proof -
  let ?q = "round_even (scaled_num d m e) (scaled_den e)"
  have "10 ^ (sz - 2) \<le> w"
    using assms(1) unfolding w_def
    by (simp only: less_eq_div_iff_mult_less_eq power_add zero_less_power zero_less_numeral)
  then have l: "sz - 1 \<le> length (dec w)"
    using length_dec_ge assms(2) by fastforce
  have dot: "CHR ''.'' \<notin> set (dec n)" for n
    using numeric_dec [of n] by (auto simp: numeric_def filter_id_conv)
  have cut: "snprintf_text sz (format_fixed d (Finite neg m e)) = take (sz - 1) (sign_text neg @ dec w)"
    using l by (simp add: snprintf_text_def Let_def w_def)
  show "length (snprintf_text sz (format_fixed d (Finite neg m e))) = sz - 1"
    "CHR ''.'' \<notin> set (snprintf_text sz (format_fixed d (Finite neg m e)))"
    unfolding cut using l dot by (auto simp: sign_text_def dest!: in_set_takeD)
  show "number_value (snprintf_text sz (format_fixed d (Finite neg m e))) =
      w div 10 ^ (length (dec w) - (sz - 1 - sign_length neg))"
    unfolding cut number_value_cut digits_value_take_dec ..
qed

lemma cut_too_small:
  assumes "10 ^ k \<le> w" shows "10 * (w div 10 ^ (length (dec w) - k)) \<le> w"
proof -
  have "0 < length (dec w) - k" using length_dec_ge [OF assms] by simp
  then obtain j where "length (dec w) - k = Suc j" by (metis gr0_conv_Suc)
  moreover have "w div 10 ^ j div 10 * 10 \<le> w"
    by (rule order_trans [OF div_times_less_eq_dividend div_le_dividend])
  ultimately show ?thesis
    by (simp add: mult.commute [of 10] div_mult2_eq)
qed

end
