(* ===== verification/Spi_Setup.thy ===== *)
theory Spi_Setup
  imports Spi_Master
begin

text \<open>
  Setting up and taking down the bus and its devices: \<open>spi_bus_initialize\<close>, \<open>spi_bus_free\<close>
  (\<open>spi_common.c\<close>), \<open>spi_master_init_driver\<close>, \<open>spi_bus_add_device\<close> and
  \<open>spi_bus_remove_device\<close> (\<open>spi_master.c\<close>), with their error paths. The state is that of the one
  host the display uses. Allocations and calls into other drivers may fail: what they return is
  \<open>step_result\<close> of the environment under their name. Routing the pins is one of these steps here; what it does is in \<open>Spi_Pins\<close>.
\<close>

definition SPI2_HOST :: int where "SPI2_HOST = 1"
definition SPI_DMA_DISABLED :: int where "SPI_DMA_DISABLED = 0"
definition SPI_DMA_CH_AUTO :: int where "SPI_DMA_CH_AUTO = 3"
definition SPI_DEVICE_NO_RETURN_RESULT :: u32 where "SPI_DEVICE_NO_RETURN_RESULT = 0x100"
definition SPI_DEVICE_NO_DUMMY :: u32 where "SPI_DEVICE_NO_DUMMY = 0x40"
definition ESP_INTR_FLAGS_FORBIDDEN :: u32 where
  \<comment> \<open>\<open>ESP_INTR_FLAG_HIGH | EDGE | INTRDISABLED\<close>, and \<open>IRAM\<close>\<close>
  "ESP_INTR_FLAGS_FORBIDDEN = 0xF0 OR 0x200 OR 0x800 OR 0x400"

lemmas spi_setup_consts = SPI2_HOST_def SPI_DMA_DISABLED_def SPI_DMA_CH_AUTO_def
  SPI_DEVICE_NO_RETURN_RESULT_def SPI_DEVICE_NO_DUMMY_def SPI3_HOST_def

definition is_valid_host :: "int \<Rightarrow> bool" where
  "is_valid_host h \<longleftrightarrow> SPI2_HOST \<le> h \<and> h \<le> int SPI3_HOST"

definition SOC_SPI_PERIPH_CS_NUM :: "int \<Rightarrow> nat" where
  "SOC_SPI_PERIPH_CS_NUM i = (if i = 0 then 2 else if i = 1 then 6 else 3)"

definition step_ok :: "'a machine_scheme \<Rightarrow> string \<Rightarrow> bool" where
  "step_ok s name \<longleftrightarrow> step_result (environ s) name = ESP_OK"

section \<open>The bus\<close>

record spi_bus_config =
  mosi_io_num :: int
  miso_io_num :: int
  sclk_io_num :: int
  quadwp_io_num :: int
  quadhd_io_num :: int
  cfg_max_transfer_sz :: int
  bus_intr_flags :: u32

definition spicommon_periph_claim :: "'a spi_machine_scheme \<Rightarrow> bool \<times> 'a spi_machine_scheme" where
  "spicommon_periph_claim s = (\<not> periph_claimed s, s\<lparr>periph_claimed := True\<rparr>)"

definition spicommon_periph_free :: "'a spi_machine_scheme \<Rightarrow> 'a spi_machine_scheme" where
  "spicommon_periph_free s = s\<lparr>periph_claimed := False\<rparr>"

text \<open>\<open>spicommon_dma_chan_alloc\<close>: its context and the two GDMA channels.\<close>

definition spicommon_dma_chan_alloc :: "'a spi_machine_scheme \<Rightarrow> esp_err_t" where
  "spicommon_dma_chan_alloc s =
     (if \<not> step_ok s ''heap_caps_calloc spi_dma_ctx_t'' then ESP_ERR_NO_MEM
      else step_result (environ s) ''alloc_dma_chan'')"

text \<open>The label \<open>cleanup\<close>.\<close>

definition bus_cleanup :: "esp_err_t \<Rightarrow> 'a spi_machine_scheme \<Rightarrow> esp_err_t \<times> 'a spi_machine_scheme" where
  "bus_cleanup err s = (err, (spicommon_periph_free s)\<lparr>bus_ctx_set := False\<rparr>)"

definition set_bus_attr :: "spi_bus_attr \<Rightarrow> 'a spi_machine_scheme \<Rightarrow> 'a spi_machine_scheme" where
  "set_bus_attr a s = set_host (\<lambda>h. h\<lparr>bus_attr := a\<rparr>) s"

definition spi_bus_initialize ::
  "int \<Rightarrow> spi_bus_config \<Rightarrow> int \<Rightarrow> 'a spi_machine_scheme \<Rightarrow> esp_err_t \<times> 'a spi_machine_scheme" where
  "spi_bus_initialize host_num bus_config dma_chan s =
     (if \<not> is_valid_host host_num then (ESP_ERR_INVALID_ARG, s)
      else if bus_ctx_set s then (ESP_ERR_INVALID_STATE, s)
      else if \<not> (dma_chan = SPI_DMA_DISABLED \<or> dma_chan = SPI_DMA_CH_AUTO) then (ESP_ERR_INVALID_ARG, s)
      else if bus_intr_flags bus_config AND ESP_INTR_FLAGS_FORBIDDEN \<noteq> 0 then (ESP_ERR_INVALID_ARG, s)
      else case spicommon_periph_claim s of (claimed, s1) \<Rightarrow>
        if \<not> claimed then (ESP_ERR_INVALID_STATE, s1)
        else if \<not> step_ok s1 ''heap_caps_calloc spicommon_bus_context_t'' then bus_cleanup ESP_ERR_NO_MEM s1
        else
          let s2 = s1\<lparr>bus_ctx_set := True\<rparr>;
              dma = (dma_chan \<noteq> SPI_DMA_DISABLED);
              err1 = (if dma then spicommon_dma_chan_alloc s2 else ESP_OK);
              (err2, count, max_sz) =
                spicommon_dma_desc_alloc (step_ok s2 ''dmadesc_tx'') (step_ok s2 ''dmadesc_rx'')
                  (cfg_max_transfer_sz bus_config)
          in if err1 \<noteq> ESP_OK then bus_cleanup err1 s2
             else if dma \<and> err2 \<noteq> ESP_OK then bus_cleanup err2 s2
             else
               let s3 = set_bus_attr
                     (if dma then \<lparr>max_transfer_sz = word_of_int max_sz, dma_enabled = True,
                                   internal_mem_align_size = 4\<rparr>
                      else \<lparr>max_transfer_sz = SOC_SPI_MAXIMUM_BUFFER_SIZE, dma_enabled = False,
                            internal_mem_align_size = 0\<rparr>) s2
               in if \<not> step_ok s3 ''spi_bus_init_lock'' then bus_cleanup ESP_ERR_NO_MEM s3
                  else
                    let s4 = set_host (\<lambda>h. h\<lparr>bus_lock :=
                               spi_bus_init_lock (SOC_SPI_PERIPH_CS_NUM host_num)\<rparr>) s3;
                        err3 = step_result (environ s4) ''spicommon_bus_initialize_io''
                    in if err3 \<noteq> ESP_OK then bus_cleanup err3 s4 else (ESP_OK, s4))"

section \<open>The driver\<close>

text \<open>The handle of an interrupt on either core is not modelled; \<open>isr_cpu_id\<close> is automatic.\<close>

definition spi_master_init_driver :: "int \<Rightarrow> 'a spi_machine_scheme \<Rightarrow> esp_err_t \<times> 'a spi_machine_scheme" where
  "spi_master_init_driver host_num s =
     (if \<not> bus_ctx_set s then (ESP_ERR_INVALID_STATE, s)
      else if \<not> step_ok s ''heap_caps_malloc spi_host_t'' then (ESP_ERR_NO_MEM, s)
      else if \<not> step_ok s ''esp_intr_alloc spi'' then (step_result (environ s) ''esp_intr_alloc spi'', s)
      else (ESP_OK, (set_host (\<lambda>h. h\<lparr>host_id := nat host_num, cur_cs := DEV_NUM_MAX, polling := False,
               device_acquiring_lock := None, device_set := (\<lambda>_. False)\<rparr>) s)\<lparr>bus_driver_ctx_set := True\<rparr>))"

definition spi_master_deinit_driver :: "'a spi_machine_scheme \<Rightarrow> esp_err_t \<times> 'a spi_machine_scheme" where
  "spi_master_deinit_driver s =
     (if \<exists>i \<in> set [0..<DEV_NUM_MAX]. device_set (host s) i then (ESP_ERR_INVALID_STATE, s)
      else (ESP_OK, s\<lparr>bus_driver_ctx_set := False\<rparr>))"

text \<open>The destroy function is registered with the driver; the slots of the lock must be free.\<close>

definition spi_bus_free :: "'a spi_machine_scheme \<Rightarrow> (esp_err_t \<times> 'a spi_machine_scheme) outcome" where
  "spi_bus_free s =
     (if \<not> bus_ctx_set s then Inr (ESP_ERR_INVALID_STATE, s)
      else case (if bus_driver_ctx_set s then spi_master_deinit_driver s else (ESP_OK, s)) of (err, s1) \<Rightarrow>
        if err \<noteq> ESP_OK then Inr (err, s1)
        else if \<exists>i \<in> set [0..<DEV_NUM_MAX]. dev (bus_lock (host s1)) i \<noteq> Slot_Null then Inl Assert_Failed
        else Inr (ESP_OK, (spicommon_periph_free s1)\<lparr>bus_ctx_set := False\<rparr>))"

section \<open>Devices\<close>

record spi_device_config =
  dcfg_command_bits :: u8
  dcfg_address_bits :: u8
  dcfg_dummy_bits :: u8
  dcfg_clock_speed_hz :: int
  dcfg_duty_cycle_pos :: int
  dcfg_input_delay_ns :: int
  dcfg_spics_io_num :: int
  dcfg_flags :: u32
  dcfg_post_cb :: bool

text \<open>
  \<open>dev\<close> is null at \<open>nomem\<close> until the device has been allocated, so a lock slot that was registered
  before is given back only after that.
\<close>

definition register_lock :: "bool \<Rightarrow> 'a spi_machine_scheme \<Rightarrow> esp_err_t \<times> int \<times> 'a spi_machine_scheme" where
  "register_lock cs_required s =
     (case spi_bus_lock_register_dev (step_ok s ''heap_caps_calloc dev_lock'')
             (step_ok s ''xSemaphoreCreateBinaryWithCaps'') cs_required (bus_lock (host s)) of
        (err, i, l) \<Rightarrow> (err, i, set_host (\<lambda>h. h\<lparr>bus_lock := l\<rparr>) s))"

definition unregister_lock :: "nat \<Rightarrow> 'a spi_machine_scheme \<Rightarrow> 'a spi_machine_scheme" where
  "unregister_lock i s = set_host (\<lambda>h. h\<lparr>bus_lock := spi_bus_lock_unregister_dev i (bus_lock h)\<rparr>) s"

definition new_device :: "nat \<Rightarrow> spi_device_config \<Rightarrow> spi_hal_timing_conf \<Rightarrow> spi_device" where
  "new_device i c tc =
     \<lparr>dev_id = i, cfg_command_bits = dcfg_command_bits c, cfg_address_bits = dcfg_address_bits c,
      cfg_dummy_bits = dcfg_dummy_bits c, cfg_flags = dcfg_flags c,
      timing_dummy = (timing_dummy_n tc \<noteq> 0)\<rparr>"

definition add_device_body ::
  "spi_device_config \<Rightarrow> 'a spi_machine_scheme \<Rightarrow> esp_err_t \<times> handle \<times> 'a spi_machine_scheme" where
  "add_device_body c s =
     (case register_lock (dcfg_spics_io_num c \<noteq> -1) s of (err, i, s1) \<Rightarrow>
        if err \<noteq> ESP_OK then (ESP_ERR_NO_MEM, None, s1)
        else
          let duty_cycle = (if dcfg_duty_cycle_pos c = 0 then 128 else dcfg_duty_cycle_pos c);
              (ret, tc) = spi_hal_cal_clock_conf (clk_src_hz (environ s1)) (dcfg_clock_speed_hz c)
                            duty_cycle True (dcfg_input_delay_ns c)
          in if ret \<noteq> ESP_OK then (ret, None, s1)
             else if \<not> step_ok s1 ''heap_caps_malloc spi_device_t'' then (ESP_ERR_NO_MEM, None, s1)
             else if \<not> step_ok s1 ''xQueueCreate trans_queue'' then
               (ESP_ERR_NO_MEM, None, unregister_lock (nat i) s1)
             else if \<not> flag (dcfg_flags c) SPI_DEVICE_NO_RETURN_RESULT \<and> \<not> step_ok s1 ''xQueueCreate ret_queue''
             then (ESP_ERR_NO_MEM, None, unregister_lock (nat i) s1)
             else (ESP_OK, Some (nat i),
               set_host (\<lambda>h. h\<lparr>devices := (devices h)(nat i := new_device (nat i) c tc),
                              device_set := (device_set h)(nat i := True)\<rparr>) s1))"

definition spi_bus_add_device ::
  "int \<Rightarrow> spi_device_config \<Rightarrow> 'a spi_machine_scheme \<Rightarrow> esp_err_t \<times> handle \<times> 'a spi_machine_scheme" where
  "spi_bus_add_device host_num c s =
     (if \<not> is_valid_host host_num then (ESP_ERR_INVALID_ARG, None, s)
      else case (if \<not> bus_driver_ctx_set s then spi_master_init_driver host_num s else (ESP_OK, s)) of
        (err, s1) \<Rightarrow>
        if err \<noteq> ESP_OK then (err, None, s1)
        else if \<not> (dcfg_spics_io_num c < 0 \<or> GPIO_IS_VALID_OUTPUT_GPIO (dcfg_spics_io_num c))
        then (ESP_ERR_INVALID_ARG, None, s1)
        else if \<not> 0 < dcfg_clock_speed_hz c then (ESP_ERR_INVALID_ARG, None, s1)
        else if \<not> step_ok s1 ''esp_clk_tree_enable_src'' then (ESP_ERR_INVALID_STATE, None, s1)
        else if \<not> dcfg_clock_speed_hz c \<le> clk_src_hz (environ s1) then (ESP_ERR_INVALID_ARG, None, s1)
        else if flag (dcfg_flags c) SPI_DEVICE_NO_RETURN_RESULT \<and> \<not> dcfg_post_cb c
        then (ESP_ERR_INVALID_ARG, None, s1)
        else add_device_body c s1)"

text \<open>\<open>idle_queues\<close>: no transaction is waiting in the queues of the device.\<close>

definition spi_bus_remove_device ::
  "bool \<Rightarrow> handle \<Rightarrow> 'a spi_machine_scheme \<Rightarrow> (esp_err_t \<times> 'a spi_machine_scheme) outcome" where
  "spi_bus_remove_device idle_queues handle s =
     (case handle of None \<Rightarrow> Inr (ESP_ERR_INVALID_ARG, s)
      | Some i \<Rightarrow>
        if \<not> idle_queues then Inr (ESP_ERR_INVALID_STATE, s)
        else if \<not> (cur_cs (host s) = DEV_NUM_MAX \<or> cur_cs (host s) \<noteq> i) then Inr (ESP_ERR_INVALID_STATE, s)
        else if \<not> step_ok s ''esp_clk_tree_enable_src off'' then Inr (ESP_ERR_INVALID_STATE, s)
        else
          let s1 = unregister_lock i s
          in if \<not> device_set (host s1) i then Inl Assert_Failed
             else Inr (ESP_OK, set_host (\<lambda>h. h\<lparr>device_set := (device_set h)(i := False)\<rparr>) s1))"

definition spi_bus_get_max_transaction_len ::
  "int \<Rightarrow> 'a spi_machine_scheme \<Rightarrow> esp_err_t \<times> u32" where
  "spi_bus_get_max_transaction_len host_num s =
     (if \<not> is_valid_host host_num then (ESP_ERR_INVALID_ARG, 0)
      else if \<not> bus_driver_ctx_set s then (ESP_ERR_INVALID_ARG, 0)
      else if dma_enabled (bus_attr (host s))
      then (ESP_OK, min (max_transfer_sz (bus_attr (host s))) (SPI_LL_DMA_MAX_BIT_LEN div 8))
      else (ESP_OK, min (max_transfer_sz (bus_attr (host s))) (SPI_LL_CPU_MAX_BIT_LEN div 8)))"

section \<open>Error paths\<close>

text \<open>
  A failed \<open>spi_bus_initialize\<close> leaves no trace: the peripheral, the context of
  the bus, the memory and the heap are as they were.
\<close>

lemma bus_initialize_error_restores:
  assumes "spi_bus_initialize host_num c dma_chan s = (err, s')" "err \<noteq> ESP_OK"
  shows "periph_claimed s' = periph_claimed s \<and> bus_ctx_set s' = bus_ctx_set s \<and>
    environ s' = environ s \<and> log s' = log s \<and> mem s' = mem s \<and> heap_live s' = heap_live s"
  using assms
  by (auto simp: spi_bus_initialize_def spicommon_periph_claim_def spicommon_periph_free_def
      bus_cleanup_def set_bus_attr_def set_host_def Let_def split: if_splits prod.splits)

definition fresh :: spi_machine where
  "fresh = \<lparr>environ = \<lparr>wire = (\<lambda>_ cfg _. Some (replicate (unat (byte_len (hal_rx_bitlen cfg))) 0x75)),
       dma_alloc = (\<lambda>_ live n. 0), pin_level = (\<lambda>_ _. False), poll_budget = 3,
       step_result = (\<lambda>_. ESP_OK), clk_src_hz = 80000000, stray_int = (\<lambda>_. 0)\<rparr>,
     log = [], mem = (\<lambda>_. 0), frame_base = 0x3FC90000, heap_live = [],
     host = \<lparr>host_id = 0, devices = (\<lambda>_. \<lparr>dev_id = 0, cfg_command_bits = 0, cfg_address_bits = 0,
         cfg_dummy_bits = 0, cfg_flags = 0, timing_dummy = False\<rparr>), device_set = (\<lambda>_. False), cur_cs = 0,
       cur_trans = \<lparr>priv_trans = trans0, buffer_to_send = Null_ptr, buffer_to_rcv = Null_ptr\<rparr>,
       bus_attr = \<lparr>max_transfer_sz = 0, dma_enabled = False, internal_mem_align_size = 0\<rparr>,
       device_acquiring_lock = None, polling = False, bus_lock = spi_bus_init_lock 0\<rparr>,
     periph_claimed = False, bus_ctx_set = False, bus_driver_ctx_set = False\<rparr>"

definition fail_step :: "string \<Rightarrow> spi_machine \<Rightarrow> spi_machine" where
  "fail_step name s = s\<lparr>environ := (environ s)\<lparr>step_result :=
     (\<lambda>n. if n = name then ESP_ERR_NO_MEM else ESP_OK)\<rparr>\<rparr>"

definition lcd_bus_config :: spi_bus_config where
  "lcd_bus_config = \<lparr>mosi_io_num = 13, miso_io_num = 12, sclk_io_num = 11, quadwp_io_num = -1,
     quadhd_io_num = -1, cfg_max_transfer_sz = 8000, bus_intr_flags = 0\<rparr>"

definition lcd_device_config :: "int \<Rightarrow> int \<Rightarrow> spi_device_config" where
  "lcd_device_config speed cs = \<lparr>dcfg_command_bits = 8, dcfg_address_bits = 0, dcfg_dummy_bits = 0,
     dcfg_clock_speed_hz = speed, dcfg_duty_cycle_pos = 128, dcfg_input_delay_ns = 0,
     dcfg_spics_io_num = cs, dcfg_flags = 0, dcfg_post_cb = False\<rparr>"

lemma dma_8000: "spicommon_dma_desc_alloc True True 8000 = (ESP_OK, 2, 8184)"
  by (simp add: spicommon_dma_desc_alloc_def dma_desc_count_def
      DMA_DESCRIPTOR_BUFFER_MAX_SIZE_4B_ALIGNED_def signed_divide_int_def Let_def)

lemma bus_initialize_error_restores_witness:
  "\<exists>s'. spi_bus_initialize 2 lcd_bus_config SPI_DMA_CH_AUTO
      (fail_step ''spicommon_bus_initialize_io'' fresh) = (ESP_ERR_NO_MEM, s') \<and>
    \<not> periph_claimed s' \<and> \<not> bus_ctx_set s'"
proof -
  let ?s = "fail_step ''spicommon_bus_initialize_io'' fresh"
  obtain s' where s': "spi_bus_initialize 2 lcd_bus_config SPI_DMA_CH_AUTO ?s = (ESP_ERR_NO_MEM, s')"
    by (simp add: spi_bus_initialize_def is_valid_host_def spi_setup_consts lcd_bus_config_def fresh_def
        fail_step_def spicommon_periph_claim_def step_ok_def spicommon_dma_chan_alloc_def dma_8000
        set_bus_attr_def set_host_def bus_cleanup_def Let_def)
  have "\<not> periph_claimed ?s" "\<not> bus_ctx_set ?s"
    by (simp_all add: fail_step_def fresh_def)
  then show ?thesis
    using bus_initialize_error_restores [OF s'] s' by simp
qed

text \<open>The bus and its device come up ready when nothing fails.\<close>

definition all_steps_ok :: "env \<Rightarrow> bool" where
  "all_steps_ok e \<longleftrightarrow> (\<forall>name. step_result e name = ESP_OK) \<and> clk_src_hz e = 80000000"

definition pristine :: "'a spi_machine_scheme \<Rightarrow> bool" where
  "pristine s \<longleftrightarrow> \<not> periph_claimed s \<and> \<not> bus_ctx_set s \<and> \<not> bus_driver_ctx_set s"

lemma all_steps_step_ok: "all_steps_ok (environ s) \<Longrightarrow> step_ok s name"
  by (simp add: all_steps_ok_def step_ok_def)

lemma bus_initialize_ok:
  assumes "all_steps_ok (environ s)" "pristine s"
  shows "spi_bus_initialize 2 lcd_bus_config SPI_DMA_CH_AUTO s =
    (ESP_OK, s\<lparr>periph_claimed := True, bus_ctx_set := True, host := (host s)
      \<lparr>bus_attr := \<lparr>max_transfer_sz = 8184, dma_enabled = True, internal_mem_align_size = 4\<rparr>,
       bus_lock := spi_bus_init_lock 3\<rparr>\<rparr>)"
  using assms
  by (simp add: spi_bus_initialize_def is_valid_host_def spi_setup_consts lcd_bus_config_def
      pristine_def spicommon_periph_claim_def step_ok_def spicommon_dma_chan_alloc_def dma_8000
      set_bus_attr_def set_host_def all_steps_ok_def SOC_SPI_PERIPH_CS_NUM_def Let_def)

text \<open>The first free slot, for a device with a chip select.\<close>

lemma register_first_slot:
  "spi_bus_lock_register_dev True True True (spi_bus_init_lock 3) =
     (ESP_OK, 0, (spi_bus_init_lock 3)\<lparr>dev := (\<lambda>_. Slot_Null)(0 := Slot_Dev), semphr := (\<lambda>_. False)\<rparr>)"
  by (simp add: spi_bus_lock_register_dev_def try_acquire_free_dev_def spi_bus_init_lock_def upt_rec
      fun_upd_idem Let_def)

lemma cal_timing_no_dummy: "fst (spi_hal_cal_timing 80000000 eff g 0) = 0"
proof -
  have "((80000000 sdiv 1000) sdiv 1000) sdiv 1000 = (0 :: int)"
    by (simp add: signed_divide_int_def)
  moreover have "(0 :: int) sdiv x = 0" for x
    by (simp add: signed_divide_int_def)
  ultimately show ?thesis
    by (simp add: spi_hal_cal_timing_def Let_def)
qed

text \<open>\<open>speed_ok\<close>: a speed for which the divider is in range, so that no extra dummy bits are needed.\<close>

definition speed_ok :: "int \<Rightarrow> bool" where
  "speed_ok hz \<longleftrightarrow> 0 < hz \<and> hz \<le> 80000000 \<and>
     timing_dummy_n (snd (spi_hal_cal_clock_conf 80000000 hz 128 True 0)) = 0"

lemma speed_ok_any: "0 < hz \<Longrightarrow> hz \<le> 80000000 \<Longrightarrow> speed_ok hz"
proof -
  assume hz: "0 < hz" "hz \<le> 80000000"
  show "speed_ok hz"
    using hz cal_timing_no_dummy
    by (simp add: speed_ok_def spi_hal_cal_clock_conf_def case_prod_unfold Let_def)
qed

lemma spi_setup_ready_core:
  fixes s :: "'a spi_machine_scheme"
  assumes steps: "all_steps_ok (environ s)" and start: "pristine s"
    and speed: "0 < speed" "speed \<le> 80000000" and cs: "0 \<le> cs" "GPIO_IS_VALID_OUTPUT_GPIO cs"
  shows "\<exists>s1 s2. spi_bus_initialize 2 lcd_bus_config SPI_DMA_CH_AUTO s = (ESP_OK, s1) \<and>
    spi_bus_add_device 2 (lcd_device_config speed cs) s1 = (ESP_OK, Some 0, s2) \<and>
    host_idle 0 (host s2) \<and> environ s2 = environ s \<and> log s2 = log s \<and> mem s2 = mem s \<and>
    frame_base s2 = frame_base s \<and> spi_machine.more s2 = spi_machine.more s \<and> spi_bus_get_max_transaction_len 2 s2 = (ESP_OK, 8184)"
proof -
  define s1 where "s1 = s\<lparr>periph_claimed := True, bus_ctx_set := True, host := (host s)
      \<lparr>bus_attr := \<lparr>max_transfer_sz = 8184, dma_enabled = True, internal_mem_align_size = 4\<rparr>,
       bus_lock := spi_bus_init_lock 3\<rparr>\<rparr>"
  have init: "spi_bus_initialize 2 lcd_bus_config SPI_DMA_CH_AUTO s = (ESP_OK, s1)"
    unfolding s1_def by (rule bus_initialize_ok [OF steps start])
  have ok: "step_result (environ s) name = ESP_OK" for name
    using steps by (simp add: all_steps_ok_def)
  have clk: "clk_src_hz (environ s) = 80000000"
    using steps by (simp add: all_steps_ok_def)
  have tc: "timing_dummy_n (snd (spi_hal_cal_clock_conf 80000000 speed 128 True 0)) = 0"
      "fst (spi_hal_cal_clock_conf 80000000 speed 128 True 0) = ESP_OK"
    using speed_ok_any [OF speed] by (simp_all add: speed_ok_def spi_hal_cal_clock_conf_def case_prod_unfold Let_def)
  obtain s2 where s2: "spi_bus_add_device 2 (lcd_device_config speed cs) s1 = (ESP_OK, Some 0, s2)"
    and eq: "s2 = s\<lparr>periph_claimed := True, bus_ctx_set := True, bus_driver_ctx_set := True,
      host := (host s)\<lparr>bus_attr := \<lparr>max_transfer_sz = 8184, dma_enabled = True, internal_mem_align_size = 4\<rparr>,
       host_id := 2, cur_cs := DEV_NUM_MAX, polling := False, device_acquiring_lock := None,
       bus_lock := (spi_bus_init_lock 3)\<lparr>dev := (\<lambda>_. Slot_Null)(0 := Slot_Dev), semphr := (\<lambda>_. False)\<rparr>,
       devices := (devices (host s))(0 := \<lparr>dev_id = 0, cfg_command_bits = 8, cfg_address_bits = 0,
          cfg_dummy_bits = 0, cfg_flags = 0, timing_dummy = False\<rparr>),
       device_set := (\<lambda>_. False)(0 := True)\<rparr>\<rparr>"
    using start speed cs tc
    by (simp add: spi_bus_add_device_def is_valid_host_def spi_setup_consts s1_def pristine_def
        spi_master_init_driver_def step_ok_def ok clk lcd_device_config_def flag_def add_device_body_def
        register_lock_def register_first_slot set_host_def new_device_def case_prod_unfold Let_def)
  have "host_idle 0 (host s2)"
    by (simp add: eq host_idle_def device_ok_def lock_free_def spi_bus_init_lock_def SPI3_HOST_def)
  moreover have "spi_bus_get_max_transaction_len 2 s2 = (ESP_OK, 8184)"
    by (simp add: eq spi_bus_get_max_transaction_len_def is_valid_host_def spi_setup_consts
        SPI_LL_DMA_MAX_BIT_LEN_def min_def)
  ultimately show ?thesis
    using init s2 by (intro exI [of _ s1] exI [of _ s2]) (simp add: eq)
qed

text \<open>
  When no step fails, initialising the bus and adding the device of the display leaves an
  idle host with the device registered, ready for transfers.
\<close>

theorem spi_setup_ready:
  fixes s :: "'a spi_machine_scheme"
  assumes steps: "all_steps_ok (environ s)" and start: "pristine s"
    and speed: "0 < speed" "speed \<le> 80000000" and cs: "0 \<le> cs" "GPIO_IS_VALID_OUTPUT_GPIO cs"
  shows "\<exists>s1 s2. spi_bus_initialize 2 lcd_bus_config SPI_DMA_CH_AUTO s = (ESP_OK, s1) \<and>
    spi_bus_add_device 2 (lcd_device_config speed cs) s1 = (ESP_OK, Some 0, s2) \<and>
    host_idle 0 (host s2) \<and> environ s2 = environ s \<and> log s2 = log s \<and> mem s2 = mem s \<and>
    frame_base s2 = frame_base s \<and> spi_machine.more s2 = spi_machine.more s \<and> spi_bus_get_max_transaction_len 2 s2 = (ESP_OK, 8184)"
  by (rule spi_setup_ready_core [OF assms])

lemma fresh_ok: "all_steps_ok (environ fresh)" "pristine fresh"
  by (simp_all add: all_steps_ok_def fresh_def pristine_def)

lemma cs_pin_ok: "GPIO_IS_VALID_OUTPUT_GPIO 6"
  by (simp add: GPIO_IS_VALID_OUTPUT_GPIO_def SOC_GPIO_VALID_OUTPUT_GPIO_MASK_def
      SOC_GPIO_VALID_GPIO_MASK_def)

lemma spi_setup_ready_witness:
  "\<exists>s1 s2. spi_bus_initialize 2 lcd_bus_config SPI_DMA_CH_AUTO fresh = (ESP_OK, s1) \<and>
     spi_bus_add_device 2 (lcd_device_config 170000 6) s1 = (ESP_OK, Some 0, s2) \<and> host_idle 0 (host s2)"
  using spi_setup_ready [OF fresh_ok, of 170000 6] cs_pin_ok by auto

text \<open>
  When the memory for the device structure is exhausted, \<open>spi_bus_add_device\<close>
  fails without giving back the lock slot it had registered.
\<close>

theorem add_device_no_mem_leaks_slot:
  fixes s :: "'a spi_machine_scheme"
  assumes "is_valid_host host_num" "bus_driver_ctx_set s" "step_ok s ''esp_clk_tree_enable_src''"
    and "step_ok s ''heap_caps_calloc dev_lock''" "step_ok s ''xSemaphoreCreateBinaryWithCaps''"
    and "\<not> step_ok s ''heap_caps_malloc spi_device_t''"
    and "0 \<le> dcfg_spics_io_num c" "GPIO_IS_VALID_OUTPUT_GPIO (dcfg_spics_io_num c)"
    and "0 < dcfg_clock_speed_hz c" "dcfg_clock_speed_hz c \<le> clk_src_hz (environ s)" "dcfg_flags c = 0"
    and free: "List.find (\<lambda>i. dev (bus_lock (host s)) i = Slot_Null) [0..<periph_cs_num (bus_lock (host s))] = Some i"
  shows "\<exists>s'. spi_bus_add_device host_num c s = (ESP_ERR_NO_MEM, None, s') \<and>
    dev (bus_lock (host s')) i = Slot_Dev \<and> device_set (host s') = device_set (host s)"
  using assms
  by (simp add: spi_bus_add_device_def add_device_body_def flag_def register_lock_def
      spi_bus_lock_register_dev_def try_acquire_free_dev_def spi_hal_cal_clock_conf_def
      step_ok_def set_host_def case_prod_unfold Let_def)

definition with_lock :: "spi_bus_lock \<Rightarrow> spi_machine" where
  "with_lock l = fresh\<lparr>bus_driver_ctx_set := True, host := (host fresh)\<lparr>bus_lock := l\<rparr>\<rparr>"

lemma with_lock_simps [simp]:
  "bus_driver_ctx_set (with_lock l)" "bus_lock (host (with_lock l)) = l"
  "step_ok (with_lock l) n" "clk_src_hz (environ (with_lock l)) = 80000000"
  "bus_driver_ctx_set (fail_step f (with_lock l))" "bus_lock (host (fail_step f (with_lock l))) = l"
  "step_ok (fail_step f (with_lock l)) n \<longleftrightarrow> n \<noteq> f" "clk_src_hz (environ (fail_step f (with_lock l))) = 80000000"
  by (simp_all add: with_lock_def fail_step_def step_ok_def fresh_def)

lemma valid_host_2: "is_valid_host 2"
  by (simp add: is_valid_host_def spi_setup_consts)

lemma add_device_no_mem_leaks_slot_witness:
  "\<exists>s'. spi_bus_add_device 2 (lcd_device_config 170000 6)
       (fail_step ''heap_caps_malloc spi_device_t'' (with_lock (spi_bus_init_lock 3))) = (ESP_ERR_NO_MEM, None, s') \<and>
     dev (bus_lock (host s')) 0 = Slot_Dev"
proof -
  have free: "List.find (\<lambda>i. dev (spi_bus_init_lock 3) i = Slot_Null) [0..<periph_cs_num (spi_bus_init_lock 3)] = Some 0"
    by (simp add: spi_bus_init_lock_def upt_rec)
  show ?thesis
    using add_device_no_mem_leaks_slot [of 2 "fail_step ''heap_caps_malloc spi_device_t'' (with_lock (spi_bus_init_lock 3))"
        "lcd_device_config 170000 6" 0] valid_host_2 cs_pin_ok free
    by (simp add: lcd_device_config_def) blast
qed

text \<open>
  When every chip-select slot is taken, \<open>spi_bus_add_device\<close> returns
  \<open>ESP_ERR_NO_MEM\<close>, not the documented \<open>ESP_ERR_NOT_FOUND\<close>.
\<close>

theorem add_device_no_slot_error:
  fixes s :: "'a spi_machine_scheme"
  assumes "is_valid_host host_num" "bus_driver_ctx_set s" "step_ok s ''esp_clk_tree_enable_src''"
    and "0 \<le> dcfg_spics_io_num c" "GPIO_IS_VALID_OUTPUT_GPIO (dcfg_spics_io_num c)"
    and "0 < dcfg_clock_speed_hz c" "dcfg_clock_speed_hz c \<le> clk_src_hz (environ s)" "dcfg_flags c = 0"
    and full: "\<forall>i < periph_cs_num (bus_lock (host s)). dev (bus_lock (host s)) i \<noteq> Slot_Null"
  shows "spi_bus_add_device host_num c s = (ESP_ERR_NO_MEM, None, s)"
proof -
  have "List.find (\<lambda>i. dev (bus_lock (host s)) i = Slot_Null) [0..<periph_cs_num (bus_lock (host s))] = None"
    using full by (auto simp: find_None_iff)
  then show ?thesis
    using assms
    by (simp add: spi_bus_add_device_def add_device_body_def flag_def register_lock_def
        spi_bus_lock_register_dev_def try_acquire_free_dev_def set_host_def)
qed

lemma add_device_no_slot_error_witness:
  "spi_bus_add_device 2 (lcd_device_config 170000 6)
     (with_lock ((spi_bus_init_lock 3)\<lparr>dev := (\<lambda>_. Slot_Dev)\<rparr>)) =
   (ESP_ERR_NO_MEM, None, with_lock ((spi_bus_init_lock 3)\<lparr>dev := (\<lambda>_. Slot_Dev)\<rparr>))"
  by (rule add_device_no_slot_error)
    (simp_all add: valid_host_2 cs_pin_ok lcd_device_config_def)

end
