(* ===== verification/RA8875_Init.thy ===== *)
theory RA8875_Init
  imports RA8875_Bte Spi_Setup
begin

text \<open>
  \<open>RA8875_init\<close> (\<open>components/RA8875/core.c\<close>): the bus, the device, the interrupt pin, and the loop
  that reads register 0 until the panel answers \<open>0x75\<close>. The loop has no bound in the code; it
  runs on the poll budget of the environment.
\<close>

record 'h board = spi_machine +
  gpio :: "'h gpio_context"

definition set_gpio :: "('h gpio_context \<Rightarrow> 'h gpio_context) \<Rightarrow> ('h, 'a) board_scheme \<Rightarrow> ('h, 'a) board_scheme" where
  "set_gpio f s = s\<lparr>gpio := f (gpio s)\<rparr>"

definition retry_message :: string where
  "retry_message = ''ERROR: Got invalid value reading register 0x75. Check the SPI connection. Retrying...''"

primrec test_connection ::
  "nat \<Rightarrow> RA8875_context \<Rightarrow> 'a spi_machine_scheme \<Rightarrow> 'a spi_machine_scheme outcome" where
  "test_connection 0 ctx s = Inl Blocked"
| "test_connection (Suc n) ctx s =
     bindr (RA8875_read_register ctx 0 s) (\<lambda>(v, s1).
       if v \<noteq> 0x75 then
         bindr (puts retry_message s1) (\<lambda>s2.
         bindr (vTaskDelay (100 div portTICK_PERIOD_MS) s2) (test_connection n ctx))
       else Inr s1)"

text \<open>The application runs on core \<open>0\<close>.\<close>

definition app_core :: nat where "app_core = 0"

definition int_pin_config :: "int \<Rightarrow> gpio_config_t" where
  "int_pin_config pinInt = \<lparr>pin_bit_mask = ucast (push_bit (nat pinInt) (1 :: u32)), mode = GPIO_MODE_INPUT,
     pull_up_en = False, pull_down_en = False, intr_type = GPIO_INTR_DISABLE\<rparr>"

definition RA8875_init ::
  "int \<Rightarrow> int \<Rightarrow> int \<Rightarrow> int \<Rightarrow> int \<Rightarrow> int \<Rightarrow> int \<Rightarrow> ('h, 'a) board_scheme
     \<Rightarrow> (int \<times> RA8875_context \<times> ('h, 'a) board_scheme) outcome" where
  "RA8875_init host_num speed pinMosi pinMiso pinSclk pinCs pinInt s =
     (let ctx0 = \<lparr>spi_device = None, pin_int = pinInt\<rparr>;
          bus_cfg = \<lparr>mosi_io_num = pinMosi, miso_io_num = pinMiso, sclk_io_num = pinSclk,
            quadwp_io_num = -1, quadhd_io_num = -1, cfg_max_transfer_sz = 8000, bus_intr_flags = 0\<rparr>
      in case spi_bus_initialize host_num bus_cfg SPI_DMA_CH_AUTO s of (err, s1) \<Rightarrow>
        if err \<noteq> ESP_OK then Inr (0, ctx0, s1)
        else case spi_bus_add_device host_num (lcd_device_config speed pinCs) s1 of (err2, handle, s2) \<Rightarrow>
          let ctx = ctx0\<lparr>spi_device := handle\<rparr>
          in if err2 \<noteq> ESP_OK then Inr (0, ctx, s2)
             else
               let s3 = set_gpio (\<lambda>g. snd (gpio_config app_core (int_pin_config pinInt) g)) s2
               in bindr (test_connection (poll_budget (environ s3)) ctx s3) (\<lambda>s4.
                  bindr (seq [RA8875_write_register ctx 0xF0 3, RA8875_write_register ctx 0xF1 0xFF] s4)
                    (\<lambda>s5. Inr (1, ctx, s5))))"

section \<open>The connection test\<close>

text \<open>The state after a read that did not answer \<open>0x75\<close>.\<close>

definition retry :: "RA8875_context \<Rightarrow> 'a spi_machine_scheme \<Rightarrow> 'a spi_machine_scheme" where
  "retry ctx s = (case RA8875_read_register ctx 0 s of
     Inl h \<Rightarrow> s | Inr (v, s1) \<Rightarrow> emit (Delay (100 div portTICK_PERIOD_MS)) (emit (Put retry_message) s1))"

lemma retry_asks:
  assumes "port_ready ctx s"
  shows "asks ctx [Select 0, Get_Data] s (retry ctx s)"
proof -
  obtain s1 where s1: "RA8875_read_register ctx 0 s = Inr (panel_answer ctx s 0, s1)"
      "asks ctx [Select 0, Get_Data] s s1"
    using read_register_asks [OF assms] by blast
  have "asks ctx [] s1 (emit (Put retry_message) s1)"
    by (rule asks_emit) (simp_all add: port.rel_ready [OF s1(2)])
  moreover from port.rel_ready [OF this]
  have "asks ctx [] (emit (Put retry_message) s1)
      (emit (Delay (100 div portTICK_PERIOD_MS)) (emit (Put retry_message) s1))"
    by (rule asks_emit) simp
  ultimately have "asks ctx ([Select 0, Get_Data] @ [] @ []) s
      (emit (Delay (100 div portTICK_PERIOD_MS)) (emit (Put retry_message) s1))"
    using s1(2) port.rel_trans by blast
  then show ?thesis
    by (simp add: retry_def s1(1))
qed

lemma test_connection_Suc:
  assumes "port_ready ctx s"
  shows "\<exists>s1. asks ctx [Select 0, Get_Data] s s1 \<and> test_connection (Suc n) ctx s =
    (if panel_answer ctx s 0 \<noteq> 0x75 then test_connection n ctx (retry ctx s) else Inr s1)"
  using read_register_asks [OF assms, of 0]
  by (auto simp: retry_def puts_def vTaskDelay_def)

declare test_connection.simps(2) [simp del]

definition answers :: "RA8875_context \<Rightarrow> 'a spi_machine_scheme \<Rightarrow> nat \<Rightarrow> bool" where
  "answers ctx s k \<longleftrightarrow> panel_answer ctx ((retry ctx ^^ k) s) 0 = 0x75"

lemma answers_Suc: "answers ctx s (Suc k) = answers ctx (retry ctx s) k"
  by (simp add: answers_def funpow_swap1)

lemma test_connection_returns_iff_core:
  fixes s :: "'a spi_machine_scheme"
  assumes "port_ready ctx s"
  shows "if \<exists>k < n. answers ctx s k
    then \<exists>s'. test_connection n ctx s = Inr s' \<and> port_ready ctx s' \<and>
      environ s' = environ s \<and> spi_machine.more s' = spi_machine.more s \<and>
      panel_of s' = (panel_of s)\<lparr>selected := 0\<rparr>
    else test_connection n ctx s = Inl Blocked"
  using assms
proof (induction n arbitrary: s)
  case (Suc n)
  note r = retry_asks [OF Suc.prems]
  obtain s1 where s1: "asks ctx [Select 0, Get_Data] s s1" "test_connection (Suc n) ctx s =
      (if panel_answer ctx s 0 \<noteq> 0x75 then test_connection n ctx (retry ctx s) else Inr s1)"
    using test_connection_Suc [OF Suc.prems] by blast
  show ?case
  proof (cases "answers ctx s 0")
    case True
    then have "\<exists>k < Suc n. answers ctx s k" by blast
    moreover have "test_connection (Suc n) ctx s = Inr s1"
      using True s1(2) by (simp add: answers_def)
    ultimately show ?thesis
      using port.rel_ready [OF s1(1)] asks_same [OF s1(1)] asks_panel [OF s1(1)] by simp
  next
    case False
    then have ex: "(\<exists>k < Suc n. answers ctx s k) \<longleftrightarrow> (\<exists>k < n. answers ctx (retry ctx s) k)"
      by (metis answers_Suc Suc_less_eq gr0_conv_Suc zero_less_Suc bot_nat_0.not_eq_extremum)
    have "test_connection (Suc n) ctx s = test_connection n ctx (retry ctx s)"
      using False s1(2) by (simp add: answers_def)
    then show ?thesis
      using Suc.IH [OF port.rel_ready [OF r]] asks_same [OF r] asks_panel [OF r] unfolding ex
      by (auto split: if_splits)
  qed
qed simp

text \<open>
  The connection test returns exactly when the panel answers \<open>0x75\<close> to one of
  the reads within the poll budget; otherwise it is still polling.
\<close>

theorem test_connection_returns_iff:
  fixes s :: "'a spi_machine_scheme"
  assumes "port_ready ctx s"
  shows "if \<exists>k < n. answers ctx s k
    then \<exists>s'. test_connection n ctx s = Inr s' \<and> port_ready ctx s' \<and>
      environ s' = environ s \<and> spi_machine.more s' = spi_machine.more s \<and>
      panel_of s' = (panel_of s)\<lparr>selected := 0\<rparr>
    else test_connection n ctx s = Inl Blocked"
  by (rule test_connection_returns_iff_core [OF assms])

section \<open>Bringing the panel up\<close>

text \<open>\<open>identifies e\<close>: every read of a register answers \<open>0x75\<close>.\<close>

definition identifies :: "env \<Rightarrow> bool" where
  "identifies e \<longleftrightarrow> 0 < poll_budget e \<and>
     (\<forall>l cfg tx rx. wire e l cfg tx = Some rx \<longrightarrow> length rx = 3 \<longrightarrow> rx ! 2 = 0x75)"

lemma identifies_answers:
  assumes "identifies (environ s)" "port_ready ctx s"
  shows "answers ctx s 0"
  using panel_answer_wire [OF assms(2), of 0] assms(1) by (auto simp: identifies_def answers_def)

lemma pin_mask:
  assumes "GPIO_IS_VALID_GPIO n" "n < 32"
  shows "(ucast (push_bit (nat n) (1 :: u32)) :: u64) \<noteq> 0"
    "(ucast (push_bit (nat n) (1 :: u32)) :: u64) AND NOT SOC_GPIO_VALID_GPIO_MASK = 0"
    "bit (ucast (push_bit (nat n) (1 :: u32)) :: u64) k \<longleftrightarrow> k = nat n"
proof -
  let ?m = "ucast (push_bit (nat n) (1 :: u32)) :: u64"
  have n: "0 \<le> n" "nat n < 32"
    using assms by (auto simp: GPIO_IS_VALID_GPIO_def)
  show b: "bit ?m k \<longleftrightarrow> k = nat n" for k
    using n(2) by (auto simp: bit_ucast_iff bit_exp_iff)
  then show "?m \<noteq> 0" by (metis bit_0_eq bot_apply bot_bool_def)
  have v: "bit SOC_GPIO_VALID_GPIO_MASK (nat n)"
  proof (rule ccontr)
    assume nb: "\<not> bit SOC_GPIO_VALID_GPIO_MASK (nat n)"
    have "push_bit (nat n) 1 AND SOC_GPIO_VALID_GPIO_MASK = 0"
    proof (rule bit_word_eqI)
      fix k assume "k < LENGTH(64)"
      then show "bit (push_bit (nat n) 1 AND SOC_GPIO_VALID_GPIO_MASK) k = bit (0 :: u64) k"
        using nb by (cases "k = nat n") (auto simp: bit_and_iff bit_exp_iff)
    qed
    then show False using assms(1) by (simp add: GPIO_IS_VALID_GPIO_def)
  qed
  show "?m AND NOT SOC_GPIO_VALID_GPIO_MASK = 0"
  proof (rule bit_word_eqI)
    fix k assume "k < LENGTH(64)"
    then show "bit (?m AND NOT SOC_GPIO_VALID_GPIO_MASK) k = bit (0 :: u64) k"
      using v by (cases "k = nat n") (auto simp: bit_and_iff bit_not_iff bit_ucast_iff bit_exp_iff)
  qed
qed

lemma set_gpio_fields [simp]:
  "environ (set_gpio f s) = environ s" "log (set_gpio f s) = log s" "mem (set_gpio f s) = mem s"
  "host (set_gpio f s) = host s" "frame_base (set_gpio f s) = frame_base s" "gpio (set_gpio f s) = f (gpio s)"
  "ops (set_gpio f s) = ops s" "board.more (set_gpio f s) = board.more s"
  by (simp_all add: set_gpio_def ops_def)

lemma gpio_more:
  assumes "spi_machine.more s' = spi_machine.more (s :: ('h, 'a) board_scheme)"
  shows "gpio s' = gpio s" "board.more s' = board.more s"
  using assms by (cases s, cases s', simp)+

lemma RA8875_init_ready_core:
  fixes s :: "('h, 'a) board_scheme"
  assumes steps: "all_steps_ok (environ s)" and start: "pristine s" and log: "log s = []"
    and env: "wire_ok (environ s)" "identifies (environ s)" "frame_ok (frame_base s)"
    and speed: "0 < speed" "speed \<le> 80000000" and cs: "0 \<le> cs" "GPIO_IS_VALID_OUTPUT_GPIO cs"
    and pin: "GPIO_IS_VALID_GPIO pin" "pin < 32"
  shows "\<exists>ctx s'. RA8875_init 2 speed 13 12 11 cs pin s = Inr (1, ctx, s') \<and>
    ctx = \<lparr>spi_device = Some 0, pin_int = pin\<rparr> \<and> port_ready ctx s' \<and> environ s' = environ s \<and>
    figs (panel_of s') = [] \<and> regs (panel_of s') 0xF0 = 3 \<and> regs (panel_of s') 0xF1 = 0xFF \<and>
    ie (pads (gpio s') (nat pin)) \<and> \<not> int_ena (pads (gpio s') (nat pin)) \<and>
    (\<forall>n. n \<noteq> nat pin \<longrightarrow> pads (gpio s') n = pads (gpio s) n) \<and>
    gpio s' = snd (gpio_config app_core (int_pin_config pin) (gpio s)) \<and> board.more s' = board.more s"
proof -
  let ?ctx = "\<lparr>spi_device = Some 0, pin_int = pin\<rparr>"
  let ?conf = "int_pin_config pin"
  obtain s1 s2 where s1: "spi_bus_initialize 2 lcd_bus_config SPI_DMA_CH_AUTO s = (ESP_OK, s1)"
    and s2: "spi_bus_add_device 2 (lcd_device_config speed cs) s1 = (ESP_OK, Some 0, s2)"
      "host_idle 0 (host s2)" "environ s2 = environ s" "log s2 = log s" "frame_base s2 = frame_base s"
      "spi_machine.more s2 = spi_machine.more s"
    using spi_setup_ready_core [OF steps start speed cs] by blast
  define s3 where "s3 = set_gpio (\<lambda>g. snd (gpio_config app_core ?conf g)) s2"
  have ready3: "port_ready ?ctx s3"
    using s2 env by (simp add: s3_def port_ready_def bus_ready_def MAX_DEV_NUM_def)
  have p3: "panel_of s3 = panel0"
    using s2(4) log by (simp add: s3_def panel_of_def ops_def)
  have e3: "environ s3 = environ s"
    by (simp add: s3_def s2(3))
  have "\<exists>k < poll_budget (environ s3). answers ?ctx s3 k"
    using identifies_answers [OF _ ready3] env(2) e3 by (auto simp: identifies_def)
  then obtain s4 where s4: "test_connection (poll_budget (environ s3)) ?ctx s3 = Inr s4" "port_ready ?ctx s4"
      "environ s4 = environ s3" "spi_machine.more s4 = spi_machine.more s3" "panel_of s4 = (panel_of s3)\<lparr>selected := 0\<rparr>"
    using test_connection_returns_iff_core [OF ready3] by metis
  obtain s5 where s5: "write_regs ?ctx [(0xF0, 3), (0xF1, 0xFF)] s4 = Inr s5"
      "asks ?ctx (set_regs [(0xF0, 3), (0xF1, 0xFF)]) s4 s5"
    using write_regs_asks [OF s4(2)] by blast
  have run: "RA8875_init 2 speed 13 12 11 cs pin s = Inr (1, ?ctx, s5)"
  proof -
    have "bindr (test_connection (poll_budget (environ s3)) ?ctx s3) (\<lambda>s4.
        bindr (seq [RA8875_write_register ?ctx 0xF0 3, RA8875_write_register ?ctx 0xF1 0xFF] s4)
          (\<lambda>s5. Inr (1, ?ctx, s5))) = Inr (1, ?ctx, s5)"
      using s5(1) by (simp only: s4(1) bindr_simps write_regs_def list.map prod.case)
    then show ?thesis
      using s1 s2(1) unfolding RA8875_init_def s3_def
      by (simp add: lcd_bus_config_def Let_def del: seq.simps)
  qed
  obtain g where g: "gpio_config app_core ?conf (gpio s2) = (ESP_OK, g)"
    "\<forall>n. pads g n = (if bit (pin_bit_mask ?conf) n \<and> n < GPIO_PIN_COUNT
       then configured ?conf n (pads (gpio s2) n) else pads (gpio s2) n)"
    using gpio_config_pads_core [of ?conf app_core "gpio s2"] pin_mask [OF pin]
    by (auto simp: gpio_const_defs int_pin_config_def)
  have "gpio s5 = gpio s3"
    using gpio_more(1) [of s5 s3] asks_same(4) [OF s5(2)] s4(4) by simp
  moreover have g3: "gpio s3 = g" "gpio s2 = gpio s"
    using g(1) gpio_more(1) [OF s2(6)] by (simp_all add: s3_def)
  moreover have "nat pin < GPIO_PIN_COUNT"
    using pin by (simp add: gpio_const_defs)
  ultimately have "ie (pads (gpio s5) (nat pin)) \<and> \<not> int_ena (pads (gpio s5) (nat pin)) \<and>
      (\<forall>n. n \<noteq> nat pin \<longrightarrow> pads (gpio s5) n = pads (gpio s) n)"
    using g(2) pin_mask(3) [OF pin] by (simp add: configured_def gpio_const_defs int_pin_config_def)
  moreover have "gpio s5 = snd (gpio_config app_core ?conf (gpio s))"
    using \<open>gpio s5 = gpio s3\<close> g3 g(1) by (simp add: app_core_def)
  moreover have "board.more s5 = board.more s"
    using gpio_more(2) [of s5 s3] gpio_more(2) [OF s2(6)] asks_same(4) [OF s5(2)] s4(4) by (simp add: s3_def)
  moreover have "figs (panel_of s5) = []" "regs (panel_of s5) 0xF0 = 3" "regs (panel_of s5) 0xF1 = 0xFF"
    by (simp_all add: asks_panel [OF s5(2)] s4(5) p3 panel0_def)
  ultimately show ?thesis
    using run port.rel_ready [OF s5(2)] asks_same(2) [OF s5(2)] s4(3) e3
    by (intro exI [of _ ?ctx] exI [of _ s5]) simp
qed

text \<open>
  When no initialisation step fails and the panel answers, \<open>RA8875_init\<close> returns
  1 with a working port: the device registered, the interrupt pin an input without interrupts, the
  BTE interrupts enabled and cleared, and no figure drawn.
\<close>

theorem RA8875_init_ready:
  fixes s :: "('h, 'a) board_scheme"
  assumes steps: "all_steps_ok (environ s)" and start: "pristine s" and log: "log s = []"
    and env: "wire_ok (environ s)" "identifies (environ s)" "frame_ok (frame_base s)"
    and speed: "0 < speed" "speed \<le> 80000000" and cs: "0 \<le> cs" "GPIO_IS_VALID_OUTPUT_GPIO cs"
    and pin: "GPIO_IS_VALID_GPIO pin" "pin < 32"
  shows "\<exists>ctx s'. RA8875_init 2 speed 13 12 11 cs pin s = Inr (1, ctx, s') \<and>
    ctx = \<lparr>spi_device = Some 0, pin_int = pin\<rparr> \<and> port_ready ctx s' \<and> environ s' = environ s \<and>
    figs (panel_of s') = [] \<and> regs (panel_of s') 0xF0 = 3 \<and> regs (panel_of s') 0xF1 = 0xFF \<and>
    ie (pads (gpio s') (nat pin)) \<and> \<not> int_ena (pads (gpio s') (nat pin)) \<and>
    (\<forall>n. n \<noteq> nat pin \<longrightarrow> pads (gpio s') n = pads (gpio s) n)"
  using RA8875_init_ready_core [OF assms] by blast

definition fresh_board :: "nat board" where
  "fresh_board = spi_machine.extend fresh \<lparr>gpio = demo_gpio\<rparr>"

lemma fresh_board_fields [simp]:
  "environ fresh_board = environ fresh" "log fresh_board = []" "frame_base fresh_board = 0x3FC90000"
  "pristine fresh_board" "gpio fresh_board = demo_gpio"
  by (simp_all add: fresh_board_def spi_machine.extend_def fresh_def pristine_def)

lemma fresh_env: "wire_ok (environ fresh)" "identifies (environ fresh)"
  by (auto simp: wire_ok_def fresh_def identifies_def)

lemma int_pin_ok: "GPIO_IS_VALID_GPIO 4"
  by (simp add: GPIO_IS_VALID_GPIO_def SOC_GPIO_VALID_GPIO_MASK_def)

lemma RA8875_init_ready_witness:
  "\<exists>ctx s'. RA8875_init 2 170000 13 12 11 6 4 fresh_board = Inr (1, ctx, s') \<and> port_ready ctx s' \<and>
     regs (panel_of s') 0xF0 = 3"
  using RA8875_init_ready [of fresh_board 170000 6 4] fresh_ok(1) fresh_env demo_frame_ok cs_pin_ok
    int_pin_ok by auto

lemma test_connection_returns_iff_witness:
  "\<exists>s'. test_connection 3 demo_ctx demo_machine = Inr s' \<and> port_ready demo_ctx s'"
proof -
  have "identifies (environ demo_machine)"
    by (auto simp: identifies_def demo_machine_def demo_env_def)
  then have "\<exists>k < 3. answers demo_ctx demo_machine k"
    using identifies_answers [OF _ demo_ready] by (intro exI [of _ 0]) simp
  then show ?thesis
    using test_connection_returns_iff [OF demo_ready, of 3] by auto
qed

end
