(* ===== verification/Display.thy ===== *)
theory Display
  imports Font Format RA8875_Init
begin

text \<open>
  The drawing primitives of \<open>main/display.c\<close>: modes, fonts, text, numbers and rectangles. Each is
  proved to make given marks on the display: a mark stands for the figures of one call, so that
  a screen is a short list of marks. The state of the module is its static variables, added to
  the board.
\<close>

section \<open>State\<close>

datatype Screen_t = SCREEN_MAIN_NO_LAPS | SCREEN_MAIN_LAPS | SCREEN_DEBUG_RTD | SCREEN_DEBUG_NO_RTD | SCREEN_WARN

datatype DisplayFont_t = DISPLAY_FONT_INTERNAL | DISPLAY_FONT_COMIC_SANS

record LineSpec =
  lx1 :: u16
  ly1 :: u16
  lx2 :: u16
  ly2 :: u16

record 'h display = "'h board" +
  lcd :: RA8875_context
  currentFont :: DisplayFont_t
  inGraphicMode :: bool
  glyph_cache :: "nat \<Rightarrow> glyph_buffer"
  CURRENT_SCREEN :: Screen_t

type_synonym ('h, 'a) display_stmt = "('h, 'a) display_scheme \<Rightarrow> ('h, 'a) display_scheme outcome"

definition on_lcd :: "(RA8875_context \<Rightarrow> ('h, 'a) display_stmt) \<Rightarrow> ('h, 'a) display_stmt" where
  "on_lcd c s = c (lcd s) s"

section \<open>Operations\<close>

definition FONT_SIZE_DOUBLE :: u8 where "FONT_SIZE_DOUBLE = 0x05 OR 0x40"
definition FONT_SIZE_TRIPLE :: u8 where "FONT_SIZE_TRIPLE = 0x0A OR 0x40"
definition FONT_SIZE_QUADRUPLE :: u8 where "FONT_SIZE_QUADRUPLE = 0x0F OR 0x40"

lemmas font_size_defs = FONT_SIZE_DOUBLE_def FONT_SIZE_TRIPLE_def FONT_SIZE_QUADRUPLE_def

definition Display_InternalFontSize :: "u8 \<Rightarrow> ('h, 'a) display_stmt" where
  "Display_InternalFontSize sz = on_lcd (\<lambda>lcd. write_regs lcd [(0x22, sz), (0x41, 0x00), (0x21, 0x00)])"

definition Display_SetTextCursor :: "u16 \<Rightarrow> u16 \<Rightarrow> ('h, 'a) display_stmt" where
  "Display_SetTextCursor x y = on_lcd (\<lambda>lcd. write_regs lcd
     [(0x2A, ucast (x AND 0xFF)), (0x2B, ucast (drop_bit 8 x)),
      (0x2C, ucast (y AND 0xFF)), (0x2D, ucast (drop_bit 8 y))])"

definition Display_ResetState :: "('h, 'a) display_stmt" where
  "Display_ResetState = seq [on_lcd RA8875_clear, Display_SetTextCursor 0 0, on_lcd Display_ForegroundWhite]"

definition Display_EnableDrawMode :: "('h, 'a) display_stmt" where
  "Display_EnableDrawMode s =
     (if \<not> inGraphicMode s then
        seq [on_lcd (\<lambda>lcd. write_regs lcd [(0x40, 0x00)]), assign (\<lambda>s. s\<lparr>inGraphicMode := True\<rparr>)] s
      else Inr s)"

definition Display_EnableTextModeAndFont :: "DisplayFont_t \<Rightarrow> ('h, 'a) display_stmt" where
  "Display_EnableTextModeAndFont fontType s =
     (let s1 = s\<lparr>currentFont := fontType\<rparr>
      in case fontType of
        DISPLAY_FONT_INTERNAL \<Rightarrow>
          seq [\<lambda>s. if inGraphicMode s then on_lcd (\<lambda>lcd. write_regs lcd [(0x40, 0x80)]) s else Inr s,
               on_lcd Display_ForegroundWhite, Display_InternalFontSize FONT_SIZE_TRIPLE] s1
      | DISPLAY_FONT_COMIC_SANS \<Rightarrow> Display_EnableDrawMode s1)"

definition Display_DrawRect :: "u16 \<Rightarrow> u16 \<Rightarrow> u16 \<Rightarrow> u16 \<Rightarrow> u8 \<Rightarrow> bool \<Rightarrow> ('h, 'a) display_stmt" where
  "Display_DrawRect x1 y1 x2 y2 color filled =
     on_lcd (\<lambda>lcd. RA8875_draw_rect lcd x1 y1 x2 y2 color (if filled then 1 else 0))"

definition Display_DrawBorders :: "LineSpec list \<Rightarrow> ('h, 'a) display_stmt" where
  "Display_DrawBorders lines =
     seq (map (\<lambda>l. Display_DrawRect (lx1 l) (ly1 l) (lx2 l) (ly2 l) COLOR_WHITE True) lines)"

text \<open>The loop of \<open>Display_WriteTextAt\<close> over a text in the bitmap font.\<close>

primrec write_glyphs :: "string \<Rightarrow> u16 \<Rightarrow> u16 \<Rightarrow> ('h, 'a) display_stmt" where
  "write_glyphs [] cursorX y s = Inr s"
| "write_glyphs (c # cs) cursorX y s =
     (let ch = of_char c in case glyphs ch of
        None \<Rightarrow> write_glyphs cs cursorX y s
      | Some _ \<Rightarrow> bindr (Display_BlitGlyph (lcd s) cursorX y (glyph_cache s ch) s)
          (write_glyphs cs (cursorX + of_nat (glyphAdvanceComicSans ch)) y))"

text \<open>The body of its other loop.\<close>

definition write_char :: "char \<Rightarrow> ('h, 'a) display_stmt" where
  "write_char c = on_lcd (\<lambda>lcd. RA8875_write_data lcd (of_char c))"

definition Display_WriteTextAt :: "u16 \<Rightarrow> u16 \<Rightarrow> string \<Rightarrow> ('h, 'a) display_stmt" where
  "Display_WriteTextAt x y msg s =
     (case currentFont s of
        DISPLAY_FONT_INTERNAL \<Rightarrow>
          seq [Display_SetTextCursor x y, on_lcd (\<lambda>lcd. RA8875_write_command lcd 0x02),
               seq (map write_char msg)] s
      | DISPLAY_FONT_COMIC_SANS \<Rightarrow> write_glyphs msg x y s)"

definition Display_WriteNumberAt :: "u16 \<Rightarrow> u16 \<Rightarrow> bool \<Rightarrow> c_float \<Rightarrow> bool \<Rightarrow> ('h, 'a) display_stmt" where
  "Display_WriteNumberAt x y isWholeNumber v hasManyDigits s =
     (if hasManyDigits then
        Display_WriteTextAt x y (snprintf_text 11 (format_fixed 5 v)) s
      else
        Display_WriteTextAt x y (snprintf_text 8
          (if isWholeNumber then dec_int (stray_int (environ s) (log s)) else format_fixed 2 v)) s)"

section \<open>Marks\<close>

text \<open>
  \<open>Chars t x y sz c msg\<close>: characters of the built-in font, at the text cursor \<open>(x, y)\<close> if the panel
  is in text mode (\<open>t\<close>) and stray pixel data otherwise. \<open>Number\<close> is such a text whose digits the
  program does not determine.
\<close>

datatype mark =
    Wiped
  | Box u16 u16 u16 u16 u8 bool
  | Copied u8 "u16 \<times> u16" "u16 \<times> u16" u16 u16
  | Glyphs u16 u16 string
  | Chars bool u16 u16 u8 u8 string
  | Number bool u16 u16 u8 u8

primrec glyph_text :: "string \<Rightarrow> u16 \<Rightarrow> u16 \<Rightarrow> figure list" where
  "glyph_text [] x y = []"
| "glyph_text (c # cs) x y = (case glyphs (of_char c) of
     None \<Rightarrow> glyph_text cs x y
   | Some g \<Rightarrow> glyph_figs x y (unpack_glyph g) COLOR_WHITE @
       glyph_text cs (x + of_nat (glyphAdvanceComicSans (of_char c))) y)"

definition panel_chars :: "bool \<Rightarrow> u16 \<Rightarrow> u16 \<Rightarrow> u8 \<Rightarrow> u8 \<Rightarrow> string \<Rightarrow> figure list" where
  "panel_chars t x y sz c msg =
     map (\<lambda>ch. if t then Text_Byte x y sz c (of_char ch) else Pixel_Byte (of_char ch)) msg"

fun draws :: "mark \<Rightarrow> figure list \<Rightarrow> bool" where
  "draws Wiped fs \<longleftrightarrow> fs = [Clear_Layer False]"
| "draws (Box x1 y1 x2 y2 c filled) fs \<longleftrightarrow> fs = [Rect x1 y1 x2 y2 c filled]"
| "draws (Copied op src dst w h) fs \<longleftrightarrow> (\<exists>c. fs = [Bte_Op op src dst w h c])"
| "draws (Glyphs x y msg) fs \<longleftrightarrow> fs = glyph_text msg x y"
| "draws (Chars t x y sz c msg) fs \<longleftrightarrow> fs = panel_chars t x y sz c msg"
| "draws (Number t x y sz c) fs \<longleftrightarrow> (\<exists>i. fs = panel_chars t x y sz c (take 7 (dec_int i)))"

primrec depicts :: "mark list \<Rightarrow> figure list \<Rightarrow> bool" where
  "depicts [] fs \<longleftrightarrow> fs = []"
| "depicts (m # ms) fs \<longleftrightarrow> (\<exists>as bs. fs = as @ bs \<and> draws m as \<and> depicts ms bs)"

lemma depicts_append: "depicts xs as \<Longrightarrow> depicts ys bs \<Longrightarrow> depicts (xs @ ys) (as @ bs)"
  by (induction xs arbitrary: as) (auto, metis append.assoc)

lemma depicts_single [simp]: "depicts [m] fs = draws m fs"
  by simp

section \<open>Statements as brushes\<close>

record sheet =
  paper :: canvas
  chosen :: DisplayFont_t
  graphic :: bool

type_synonym brush = "sheet \<Rightarrow> sheet \<times> mark list"

definition sheet_of :: "('h, 'a) display_scheme \<Rightarrow> sheet" where
  "sheet_of s = \<lparr>paper = canvas_of (panel_of s), chosen = currentFont s, graphic = inGraphicMode s\<rparr>"

text \<open>The fields that drawing leaves alone.\<close>

definition keeps :: "('h, 'a) display_scheme \<Rightarrow> ('h, 'a) display_scheme \<Rightarrow> bool" where
  "keeps s s' \<longleftrightarrow> environ s' = environ s \<and> mem s' = mem s \<and> heap_live s' = heap_live s \<and>
     gpio s' = gpio s \<and> lcd s' = lcd s \<and> glyph_cache s' = glyph_cache s \<and>
     CURRENT_SCREEN s' = CURRENT_SCREEN s \<and> display.more s' = display.more s"

definition cache_filled :: "(nat \<Rightarrow> glyph_buffer) \<Rightarrow> bool" where
  "cache_filled cache \<longleftrightarrow> (\<forall>c < 256. \<forall>g. glyphs c = Some g \<longrightarrow> cache c = unpack_glyph g)"

definition display_ready :: "('h, 'a) display_scheme \<Rightarrow> bool" where
  "display_ready s \<longleftrightarrow> port_ready (lcd s) s \<and> cache_filled (glyph_cache s)"

definition brushed :: "brush \<Rightarrow> ('h, 'a) display_scheme \<Rightarrow> ('h, 'a) display_scheme \<Rightarrow> bool" where
  "brushed f s s' \<longleftrightarrow> keeps s s' \<and> display_ready s' \<and> sheet_of s' = fst (f (sheet_of s)) \<and>
     (\<exists>fs. figs (panel_of s') = figs (panel_of s) @ fs \<and> depicts (snd (f (sheet_of s))) fs)"

definition simulates :: "brush \<Rightarrow> ('h, 'a) display_stmt \<Rightarrow> bool" where
  "simulates = achieves display_ready brushed"

definition then_brush :: "brush \<Rightarrow> brush \<Rightarrow> brush" where
  "then_brush f g sh = (fst (g (fst (f sh))), snd (f sh) @ snd (g (fst (f sh))))"

definition no_brush :: brush where "no_brush sh = (sh, [])"

lemma simulatesD:
  assumes "simulates f c" "display_ready s"
  obtains s' where "c s = Inr s'" "brushed f s s'" "display_ready s'"
  using assms unfolding simulates_def achieves_def brushed_def by blast

lemma simulates_cong: "simulates f c \<Longrightarrow> (\<And>sh. f sh = g sh) \<Longrightarrow> simulates g c"
  by (simp add: simulates_def achieves_def brushed_def)

lemma brushed_refl: "display_ready s \<Longrightarrow> brushed no_brush s s"
  by (simp add: brushed_def keeps_def no_brush_def)

lemma brushed_trans:
  assumes "brushed f s t" "brushed g t u"
  shows "brushed (then_brush f g) s u"
proof -
  obtain as where as: "figs (panel_of t) = figs (panel_of s) @ as" "depicts (snd (f (sheet_of s))) as"
    using assms(1) by (auto simp: brushed_def)
  obtain bs where bs: "figs (panel_of u) = figs (panel_of t) @ bs" "depicts (snd (g (sheet_of t))) bs"
    using assms(2) by (auto simp: brushed_def)
  have "sheet_of t = fst (f (sheet_of s))"
    using assms(1) by (simp add: brushed_def)
  then have "depicts (snd (then_brush f g (sheet_of s))) (as @ bs)"
    using as(2) bs(2) by (simp add: then_brush_def depicts_append)
  then show ?thesis
    using assms as(1) bs(1) by (auto simp: brushed_def keeps_def then_brush_def)
qed

interpretation brush: effects "display_ready :: ('h, 'a) display_scheme \<Rightarrow> bool" brushed no_brush then_brush
proof unfold_locales
  show "display_ready t" if "brushed f s t" for f and s t :: "('h, 'a) display_scheme"
    using that by (simp add: brushed_def)
qed (fact brushed_refl brushed_trans)+

lemmas simulates_Nil = brush.achieves_Nil [folded simulates_def]
lemmas simulates_Cons = brush.achieves_Cons [folded simulates_def]

lemma display_fields:
  assumes "spi_machine.more s' = spi_machine.more (s :: ('h, 'a) display_scheme)"
  shows "gpio s' = gpio s" "lcd s' = lcd s" "currentFont s' = currentFont s"
    "inGraphicMode s' = inGraphicMode s" "glyph_cache s' = glyph_cache s"
    "CURRENT_SCREEN s' = CURRENT_SCREEN s" "display.more s' = display.more s"
  using assms by (cases s, cases s', simp)+

definition on_paper :: "(canvas \<Rightarrow> canvas \<times> mark list) \<Rightarrow> brush" where
  "on_paper p sh = (sh\<lparr>paper := fst (p (paper sh))\<rparr>, snd (p (paper sh)))"

lemma simulates_port:
  fixes c :: "RA8875_context \<Rightarrow> ('h, 'a) display_stmt"
  assumes c: "\<And>ctx. paints ctx p (c ctx)"
    and ms: "\<And>cv. fst (q cv) = fst (p cv) \<and> depicts (snd (q cv)) (snd (p cv))"
  shows "simulates (on_paper q) (on_lcd c)"
  unfolding simulates_def achieves_def
proof (intro allI impI)
  fix s :: "('h, 'a) display_scheme"
  assume s: "display_ready s"
  then have "port_ready (lcd s) s" by (simp add: display_ready_def)
  with c obtain os s' where s': "c (lcd s) s = Inr s'" "asks (lcd s) os s s'" "port_ready (lcd s) s'"
      "shows_panel p (panel_of s) (panel_of s')"
    by (rule paintsD)
  note same = asks_same [OF s'(2)] display_fields [OF asks_same(4) [OF s'(2)]]
  have "brushed (on_paper q) s s'"
    using s'(3,4) s same ms by (simp add: brushed_def keeps_def display_ready_def sheet_of_def
        on_paper_def shows_panel_def)
  then show "\<exists>s'. on_lcd c s = Inr s' \<and> brushed (on_paper q) s s'"
    using s'(1) by (auto simp: on_lcd_def)
qed

section \<open>The primitives\<close>

definition quiet_paper :: "(canvas \<Rightarrow> canvas) \<Rightarrow> brush" where
  "quiet_paper f = on_paper (\<lambda>cv. (f cv, []))"

lemma simulates_quiet:
  assumes "\<And>ctx. paints ctx (\<lambda>cv. (f cv, [])) (c ctx)"
  shows "simulates (quiet_paper f) (on_lcd c)"
  unfolding quiet_paper_def using assms by (rule simulates_port) simp

lemma simulates_regs:
  assumes "\<And>p. canvas_of (panel_run (set_regs rvs) p) = f (canvas_of p)"
    "\<And>p. figs (panel_run (set_regs rvs) p) = figs p"
  shows "simulates (quiet_paper f) (on_lcd (\<lambda>lcd. write_regs lcd rvs))"
  by (rule simulates_quiet, rule paints_write_regs) (simp add: shows_panel_def assms)

lemma simulates_font_size: "simulates (quiet_paper (text_size_update (\<lambda>_. sz))) (Display_InternalFontSize sz)"
  unfolding Display_InternalFontSize_def
  by (rule simulates_regs) (simp_all add: canvas_of_def reg16_def foreground_def)

lemma simulates_cursor: "simulates (quiet_paper (caret_update (\<lambda>_. (x, y)))) (Display_SetTextCursor x y)"
  unfolding Display_SetTextCursor_def
  by (rule simulates_regs) (simp_all add: canvas_of_def reg16_def foreground_def hi8_def [symmetric])

lemma simulates_white: "simulates (quiet_paper (pen_update (\<lambda>_. COLOR_WHITE))) (on_lcd Display_ForegroundWhite)"
  by (rule simulates_quiet) (rule paints_cong [OF paints_white], simp add: ink_def)

definition reset_brush :: brush where
  "reset_brush sh = (sh\<lparr>paper := (paper sh)\<lparr>caret := (0, 0), pen := COLOR_WHITE\<rparr>\<rparr>, [Wiped])"

lemma simulates_wipe: "simulates (on_paper (\<lambda>cv. (cv, [Wiped]))) (on_lcd RA8875_clear)"
  by (rule simulates_port [OF paints_clear]) (simp add: wipe_def)

lemma simulates_reset: "simulates reset_brush Display_ResetState"
  unfolding Display_ResetState_def
  by (rule simulates_cong [OF simulates_Cons [OF simulates_wipe simulates_Cons [OF simulates_cursor
        simulates_Cons [OF simulates_white simulates_Nil]]]])
    (simp add: then_brush_def on_paper_def quiet_paper_def no_brush_def reset_brush_def)

lemma simulates_rect: "simulates (on_paper (\<lambda>cv. (cv\<lparr>pen := c\<rparr>, [Box x1 y1 x2 y2 c filled]))) (Display_DrawRect x1 y1 x2 y2 c filled)"
  unfolding Display_DrawRect_def
  by (rule simulates_port [OF paints_rect]) (simp add: box_def)

lemma simulates_delay: "simulates no_brush (vTaskDelay n :: ('h, 'a) display_stmt)"
  unfolding simulates_def achieves_def
proof (intro allI impI)
  fix s :: "('h, 'a) display_scheme"
  assume s: "display_ready s"
  then have "asks (lcd s) [] s (emit (Delay n) s)"
    by (intro asks_emit) (simp_all add: display_ready_def)
  note this asks_same [OF this] asks_panel [OF this] port.rel_ready [OF this]
    display_fields [OF asks_same(4) [OF this]]
  then show "\<exists>s'. vTaskDelay n s = Inr s' \<and> brushed no_brush s s'"
    using s by (simp add: vTaskDelay_def brushed_def keeps_def display_ready_def sheet_of_def no_brush_def)
qed

definition draw_mode_brush :: brush where
  "draw_mode_brush sh =
     (if graphic sh then sh else sh\<lparr>paper := (paper sh)\<lparr>in_text := False\<rparr>, graphic := True\<rparr>, [])"

lemma simulates_mode:
  "simulates (quiet_paper (in_text_update (\<lambda>_. v AND 0x80 \<noteq> 0))) (on_lcd (\<lambda>lcd. write_regs lcd [(0x40, v)]))"
  by (rule simulates_regs) (simp_all add: canvas_of_def reg16_def foreground_def)

text \<open>A statement that only updates the variables of the module.\<close>

lemma brushed_local:
  assumes "display_ready s" "s' = s\<lparr>currentFont := f, inGraphicMode := g\<rparr>"
  shows "brushed (\<lambda>sh. (sh\<lparr>chosen := f, graphic := g\<rparr>, [])) s s'"
proof -
  have "panel_of s' = panel_of s"
    by (simp add: assms(2) panel_of_def ops_def)
  moreover have "port_ready (lcd s) s'"
    using assms by (simp add: display_ready_def port_ready_def bus_ready_def split: option.splits)
  ultimately show ?thesis
    using assms by (simp add: brushed_def keeps_def display_ready_def sheet_of_def)
qed

lemma simulates_graphic: "simulates (\<lambda>sh. (sh\<lparr>graphic := g\<rparr>, [])) (assign (\<lambda>s. s\<lparr>inGraphicMode := g\<rparr>) :: ('h, 'a) display_stmt)"
  unfolding simulates_def achieves_def
proof (intro allI impI)
  fix s :: "('h, 'a) display_scheme"
  assume "display_ready s"
  then have "brushed (\<lambda>sh. (sh\<lparr>chosen := currentFont s, graphic := g\<rparr>, [])) s (s\<lparr>inGraphicMode := g\<rparr>)"
    by (rule brushed_local) simp
  then have "brushed (\<lambda>sh. (sh\<lparr>graphic := g\<rparr>, [])) s (s\<lparr>inGraphicMode := g\<rparr>)"
    by (simp add: brushed_def sheet_of_def)
  then show "\<exists>s'. assign (\<lambda>s. s\<lparr>inGraphicMode := g\<rparr>) s = Inr s' \<and> brushed (\<lambda>sh. (sh\<lparr>graphic := g\<rparr>, [])) s s'"
    by simp
qed

lemma simulates_if:
  assumes "simulates f c" "simulates g d"
    and "\<And>s. b s = sb (sheet_of s)"
  shows "simulates (\<lambda>sh. if sb sh then f sh else g sh) (\<lambda>s. if b s then c s else d s)"
  using assms by (simp add: simulates_def achieves_def brushed_def)

lemma simulates_skip: "simulates no_brush (\<lambda>s. Inr s)"
  by (simp add: simulates_def achieves_def brushed_refl)

lemma simulates_draw_mode: "simulates draw_mode_brush Display_EnableDrawMode"
proof -
  have "simulates (\<lambda>sh. if \<not> graphic sh then then_brush (quiet_paper (in_text_update (\<lambda>_. (0 :: u8) AND 0x80 \<noteq> 0)))
      (then_brush (\<lambda>sh. (sh\<lparr>graphic := True\<rparr>, [])) no_brush) sh else no_brush sh)
      (\<lambda>s. if \<not> inGraphicMode s then
        seq [on_lcd (\<lambda>lcd. write_regs lcd [(0x40, 0x00)]), assign (\<lambda>s. s\<lparr>inGraphicMode := True\<rparr>)] s else Inr s)"
    by (intro simulates_if simulates_Cons simulates_mode simulates_graphic simulates_Nil simulates_skip)
      (simp add: sheet_of_def)
  then show ?thesis
    unfolding Display_EnableDrawMode_def [abs_def]
    by (rule simulates_cong)
      (simp add: draw_mode_brush_def then_brush_def quiet_paper_def on_paper_def no_brush_def)
qed

definition text_mode_brush :: "DisplayFont_t \<Rightarrow> brush" where
  "text_mode_brush f sh = (case f of
     DISPLAY_FONT_INTERNAL \<Rightarrow>
       (sh\<lparr>chosen := f, paper := (paper sh)\<lparr>in_text := graphic sh \<or> in_text (paper sh),
          pen := COLOR_WHITE, text_size := FONT_SIZE_TRIPLE\<rparr>\<rparr>, [])
   | DISPLAY_FONT_COMIC_SANS \<Rightarrow> draw_mode_brush (sh\<lparr>chosen := f\<rparr>))"

lemma simulates_font_set: "simulates (\<lambda>sh. (sh\<lparr>chosen := f\<rparr>, [])) (assign (\<lambda>s. s\<lparr>currentFont := f\<rparr>) :: ('h, 'a) display_stmt)"
  unfolding simulates_def achieves_def
proof (intro allI impI)
  fix s :: "('h, 'a) display_scheme"
  assume "display_ready s"
  then have "brushed (\<lambda>sh. (sh\<lparr>chosen := f, graphic := inGraphicMode s\<rparr>, [])) s (s\<lparr>currentFont := f\<rparr>)"
    by (rule brushed_local) simp
  then have "brushed (\<lambda>sh. (sh\<lparr>chosen := f\<rparr>, [])) s (s\<lparr>currentFont := f\<rparr>)"
    by (simp add: brushed_def sheet_of_def)
  then show "\<exists>s'. assign (\<lambda>s. s\<lparr>currentFont := f\<rparr>) s = Inr s' \<and> brushed (\<lambda>sh. (sh\<lparr>chosen := f\<rparr>, [])) s s'"
    by simp
qed

lemma simulates_text_mode: "simulates (text_mode_brush f) (Display_EnableTextModeAndFont f)"
proof (cases f)
  case DISPLAY_FONT_INTERNAL
  have eq: "Display_EnableTextModeAndFont f = seq [assign (\<lambda>s. s\<lparr>currentFont := f\<rparr>),
      \<lambda>s. if inGraphicMode s then on_lcd (\<lambda>lcd. write_regs lcd [(0x40, 0x80)]) s else Inr s,
      on_lcd Display_ForegroundWhite, Display_InternalFontSize FONT_SIZE_TRIPLE]"
    using DISPLAY_FONT_INTERNAL by (simp add: fun_eq_iff Display_EnableTextModeAndFont_def Let_def)
  have m: "simulates (then_brush (\<lambda>sh. (sh\<lparr>chosen := f\<rparr>, [])) (then_brush
      (\<lambda>sh. if graphic sh then quiet_paper (in_text_update (\<lambda>_. (0x80 :: u8) AND 0x80 \<noteq> 0)) sh else no_brush sh)
      (then_brush (quiet_paper (pen_update (\<lambda>_. COLOR_WHITE)))
        (then_brush (quiet_paper (text_size_update (\<lambda>_. FONT_SIZE_TRIPLE))) no_brush))))
      (seq [assign (\<lambda>s. s\<lparr>currentFont := f\<rparr>),
      \<lambda>s. if inGraphicMode s then on_lcd (\<lambda>lcd. write_regs lcd [(0x40, 0x80)]) s else Inr s,
      on_lcd Display_ForegroundWhite, Display_InternalFontSize FONT_SIZE_TRIPLE])"
    by (intro simulates_Cons simulates_font_set simulates_if simulates_mode simulates_white simulates_font_size
        simulates_Nil simulates_skip) (simp add: sheet_of_def)
  show ?thesis
    unfolding eq by (rule simulates_cong [OF m]) (simp add: DISPLAY_FONT_INTERNAL then_brush_def quiet_paper_def
        on_paper_def no_brush_def text_mode_brush_def)
next
  case DISPLAY_FONT_COMIC_SANS
  have eq: "Display_EnableTextModeAndFont f = seq [assign (\<lambda>s. s\<lparr>currentFont := f\<rparr>), Display_EnableDrawMode]"
    using DISPLAY_FONT_COMIC_SANS
    by (simp add: fun_eq_iff Display_EnableTextModeAndFont_def Let_def split: sum.splits)
  have m: "simulates (then_brush (\<lambda>sh. (sh\<lparr>chosen := f\<rparr>, [])) (then_brush draw_mode_brush no_brush))
      (seq [assign (\<lambda>s. s\<lparr>currentFont := f\<rparr>), Display_EnableDrawMode])"
    by (intro simulates_Cons simulates_font_set simulates_draw_mode simulates_Nil)
  show ?thesis
    unfolding eq by (rule simulates_cong [OF m]) (simp add: DISPLAY_FONT_COMIC_SANS then_brush_def no_brush_def
        text_mode_brush_def)
qed

section \<open>Text\<close>

text \<open>Sending the characters of the built-in font.\<close>

lemma send_chars:
  fixes s :: "('h, 'a) display_scheme"
  shows "port_ready (lcd s) s \<Longrightarrow>
    \<exists>s'. seq (map write_char msg) s = Inr s' \<and>
      asks (lcd s) (map (\<lambda>c. Put_Data (of_char c)) msg) s s'"
proof (induction msg arbitrary: s)
  case Nil
  then show ?case by (simp add: port.rel_refl)
next
  case (Cons c cs)
  obtain s1 where s1: "RA8875_write_data (lcd s) (of_char c) s = Inr s1"
      "asks (lcd s) [Put_Data (of_char c)] s s1"
    using write_data_asks [OF Cons.prems] by blast
  have l: "lcd s1 = lcd s"
    by (rule display_fields [OF asks_same(4) [OF s1(2)]])
  then obtain s2 where s2: "seq (map write_char cs) s1 = Inr s2"
      "asks (lcd s) (map (\<lambda>c. Put_Data (of_char c)) cs) s1 s2"
    using Cons.IH [of s1] port.rel_ready [OF s1(2)] by auto
  show ?case
    using s1(1) s2(1) port.rel_trans [OF s1(2) s2(2)]
    by (intro exI [of _ s2]) (simp add: write_char_def [of c] on_lcd_def)
qed

definition chars_brush :: "string \<Rightarrow> brush" where
  "chars_brush msg sh =
     (sh, [Chars (in_text (paper sh)) (fst (caret (paper sh))) (snd (caret (paper sh)))
        (text_size (paper sh)) (pen (paper sh)) msg])"

lemma run_chars:
  assumes "selected p = 2"
  shows "panel_run (map (\<lambda>c. Put_Data (of_char c)) msg) p = p\<lparr>figs := figs p @
    panel_chars (in_text (canvas_of p)) (fst (caret (canvas_of p))) (snd (caret (canvas_of p)))
      (text_size (canvas_of p)) (pen (canvas_of p)) msg\<rparr>"
proof -
  have m: "map (\<lambda>c. Put_Data (of_char c)) msg = map Put_Data (map of_char msg)" by simp
  show ?thesis
  proof (cases "regs p 0x40 AND 0x80 = 0")
    case True
    then show ?thesis
      unfolding m run_put_data [OF assms True] by (simp add: canvas_of_def panel_chars_def)
  next
    case False
    then show ?thesis
      unfolding m run_put_text [OF assms False] by (simp add: canvas_of_def panel_chars_def)
  qed
qed

lemma simulates_chars:
  "simulates (chars_brush msg) (seq [on_lcd (\<lambda>lcd. RA8875_write_command lcd 0x02),
     seq (map write_char msg)] :: ('h, 'a) display_stmt)" (is "simulates _ ?c")
  unfolding simulates_def achieves_def
proof (intro allI impI)
  fix s :: "('h, 'a) display_scheme"
  assume s: "display_ready s"
  then have r: "port_ready (lcd s) s" by (simp add: display_ready_def)
  obtain s1 where s1: "RA8875_write_command (lcd s) 2 s = Inr s1" "asks (lcd s) [Select 2] s s1"
    using write_command_asks [OF r] by blast
  have l: "lcd s1 = lcd s"
    by (rule display_fields [OF asks_same(4) [OF s1(2)]])
  obtain s2 where s2: "seq (map write_char msg) s1 = Inr s2"
      "asks (lcd s) (map (\<lambda>c. Put_Data (of_char c)) msg) s1 s2"
    using send_chars [of s1 msg] port.rel_ready [OF s1(2)] l by auto
  note a = port.rel_trans [OF s1(2) s2(2)]
  note same = asks_same [OF a] display_fields [OF asks_same(4) [OF a]] port.rel_ready [OF a]
  have "?c s = Inr s2"
    using s1(1) s2(1) by (simp add: on_lcd_def)
  moreover have p1: "panel_of s1 = (panel_of s)\<lparr>selected := 2\<rparr>"
    using asks_panel [OF s1(2)] by simp
  have p2: "panel_of s2 = (panel_of s1)\<lparr>figs := figs (panel_of s1) @
      panel_chars (in_text (canvas_of (panel_of s1))) (fst (caret (canvas_of (panel_of s1))))
        (snd (caret (canvas_of (panel_of s1)))) (text_size (canvas_of (panel_of s1)))
        (pen (canvas_of (panel_of s1))) msg\<rparr>"
    unfolding asks_panel [OF s2(2)] by (rule run_chars) (simp add: p1)
  have "canvas_of (panel_of s2) = canvas_of (panel_of s)" "canvas_of (panel_of s1) = canvas_of (panel_of s)"
    by (simp_all add: p1 p2 canvas_of_def)
  with p1 p2 have "brushed (chars_brush msg) s s2"
    using s same by (simp add: brushed_def keeps_def display_ready_def sheet_of_def chars_brush_def)
  ultimately show "\<exists>s'. ?c s = Inr s' \<and> brushed (chars_brush msg) s s'" by blast
qed

definition has_glyph :: "string \<Rightarrow> bool" where
  "has_glyph msg \<longleftrightarrow> (\<exists>c \<in> set msg. glyphs (of_char c) \<noteq> None)"

definition write_brush :: "u16 \<Rightarrow> u16 \<Rightarrow> string \<Rightarrow> brush" where
  "write_brush x y msg sh = (case chosen sh of
     DISPLAY_FONT_INTERNAL \<Rightarrow>
       (sh\<lparr>paper := (paper sh)\<lparr>caret := (x, y)\<rparr>\<rparr>,
        [Chars (in_text (paper sh)) x y (text_size (paper sh)) (pen (paper sh)) msg])
   | DISPLAY_FONT_COMIC_SANS \<Rightarrow>
       (sh\<lparr>paper := (paper sh)\<lparr>pen := if has_glyph msg then COLOR_WHITE else pen (paper sh)\<rparr>\<rparr>,
        [Glyphs x y msg]))"

definition glyph_brush :: "u16 \<Rightarrow> u16 \<Rightarrow> string \<Rightarrow> brush" where
  "glyph_brush x y msg sh =
     (sh\<lparr>paper := (paper sh)\<lparr>pen := if has_glyph msg then COLOR_WHITE else pen (paper sh)\<rparr>\<rparr>,
      [Glyphs x y msg])"

lemma simulates_glyph:
  fixes s :: "('h, 'a) display_scheme"
  assumes s: "display_ready s" and g: "glyphs (of_char c) = Some g"
  shows "\<exists>s'. Display_BlitGlyph (lcd s) x y (glyph_cache s (of_char c)) s = Inr s' \<and>
    keeps s s' \<and> display_ready s' \<and>
    sheet_of s' = (sheet_of s)\<lparr>paper := (paper (sheet_of s))\<lparr>pen := COLOR_WHITE\<rparr>\<rparr> \<and>
    figs (panel_of s') = figs (panel_of s) @ glyph_figs x y (unpack_glyph g) COLOR_WHITE"
proof -
  have "(of_char c :: nat) < 256"
    by (rule nat_of_char_less_256)
  then have b: "glyph_cache s (of_char c) = unpack_glyph g"
    using s g by (simp add: display_ready_def cache_filled_def)
  have "port_ready (lcd s) s"
    using s by (simp add: display_ready_def)
  with paints_glyph obtain os s' where
    s': "Display_BlitGlyph (lcd s) x y (unpack_glyph g) s = Inr s'" "asks (lcd s) os s s'" "port_ready (lcd s) s'"
      "shows_panel (\<lambda>cv. (cv\<lparr>pen := COLOR_WHITE\<rparr>, glyph_figs x y (unpack_glyph g) COLOR_WHITE))
        (panel_of s) (panel_of s')"
    by (rule paintsD)
  note same = asks_same [OF s'(2)] display_fields [OF asks_same(4) [OF s'(2)]]
  show ?thesis
    unfolding b using s' same s
    by (intro exI [of _ s']) (simp add: keeps_def display_ready_def sheet_of_def shows_panel_def)
qed

lemma simulates_glyphs: "simulates (glyph_brush x y msg) (write_glyphs msg x y :: ('h, 'a) display_stmt)"
proof (induction msg arbitrary: x)
  case Nil
  then show ?case
    by (simp add: simulates_def achieves_def brushed_def keeps_def glyph_brush_def has_glyph_def)
next
  case (Cons c cs)
  show ?case
  proof (cases "glyphs (of_char c)")
    case None
    then show ?thesis
      using Cons.IH [of x] by (simp add: simulates_def achieves_def brushed_def glyph_brush_def has_glyph_def Let_def)
  next
    case (Some g)
    show ?thesis
      unfolding simulates_def achieves_def
    proof (intro allI impI)
      fix s :: "('h, 'a) display_scheme"
      assume s: "display_ready s"
      obtain s1 where s1: "Display_BlitGlyph (lcd s) x y (glyph_cache s (of_char c)) s = Inr s1"
          "keeps s s1" "display_ready s1"
          "sheet_of s1 = (sheet_of s)\<lparr>paper := (paper (sheet_of s))\<lparr>pen := COLOR_WHITE\<rparr>\<rparr>"
          "figs (panel_of s1) = figs (panel_of s) @ glyph_figs x y (unpack_glyph g) COLOR_WHITE"
        using simulates_glyph [OF s Some] by blast
      let ?x = "x + of_nat (glyphAdvanceComicSans (of_char c))"
      from Cons.IH s1(3) obtain s2 where s2: "write_glyphs cs ?x y s1 = Inr s2"
          "brushed (glyph_brush ?x y cs) s1 s2"
        by (rule simulatesD)
      have "write_glyphs (c # cs) x y s = Inr s2"
        using Some s1(1) s2(1) by (simp add: Let_def)
      moreover have "brushed (glyph_brush x y (c # cs)) s s2"
        using s1 s2(2) Some by (simp add: brushed_def glyph_brush_def keeps_def has_glyph_def)
      ultimately show "\<exists>s'. write_glyphs (c # cs) x y s = Inr s' \<and> brushed (glyph_brush x y (c # cs)) s s'"
        by blast
    qed
  qed
qed

lemma simulates_write: "simulates (write_brush x y msg) (Display_WriteTextAt x y msg :: ('h, 'a) display_stmt)"
proof -
  let ?chars = "seq [on_lcd (\<lambda>lcd. RA8875_write_command lcd 0x02),
     seq (map write_char msg)]"
  have c: "simulates (then_brush (quiet_paper (caret_update (\<lambda>_. (x, y)))) (then_brush (chars_brush msg) no_brush))
      (seq [Display_SetTextCursor x y, ?chars])"
    by (intro simulates_Cons simulates_cursor simulates_chars simulates_Nil)
  have e: "seq [Display_SetTextCursor x y, ?chars] =
      seq [Display_SetTextCursor x y, on_lcd (\<lambda>lcd. RA8875_write_command lcd 0x02),
        seq (map write_char msg)]"
    by (simp add: fun_eq_iff split: sum.splits)
  have k: "Display_WriteTextAt x y msg s =
      (if chosen (sheet_of s) = DISPLAY_FONT_INTERNAL then seq [Display_SetTextCursor x y, ?chars] s
       else write_glyphs msg x y s)" for s :: "('h, 'a) display_scheme"
    unfolding e Display_WriteTextAt_def by (simp add: sheet_of_def split: DisplayFont_t.splits del: seq.simps)
  have "simulates (\<lambda>sh. if chosen sh = DISPLAY_FONT_INTERNAL then
        then_brush (quiet_paper (caret_update (\<lambda>_. (x, y)))) (then_brush (chars_brush msg) no_brush) sh
      else glyph_brush x y msg sh)
    (\<lambda>s :: ('h, 'a) display_scheme. if chosen (sheet_of s) = DISPLAY_FONT_INTERNAL then
       seq [Display_SetTextCursor x y, ?chars] s else write_glyphs msg x y s)"
    by (rule simulates_if [OF c simulates_glyphs refl])
  then show ?thesis
    unfolding k [abs_def, symmetric]
    by (rule simulates_cong) (simp add: write_brush_def then_brush_def quiet_paper_def on_paper_def
        chars_brush_def no_brush_def glyph_brush_def split: DisplayFont_t.splits)
qed

section \<open>Numbers\<close>

definition number_brush :: "u16 \<Rightarrow> u16 \<Rightarrow> brush" where
  "number_brush x y sh = (sh\<lparr>paper := (paper sh)\<lparr>caret := (x, y)\<rparr>\<rparr>,
     [Number (in_text (paper sh)) x y (text_size (paper sh)) (pen (paper sh))])"

lemma simulates_float:
  "simulates (write_brush x y (snprintf_text (if many then 11 else 8) (format_fixed (if many then 5 else 2) v)))
     (Display_WriteNumberAt x y False v many :: ('h, 'a) display_stmt)"
  using simulates_write
  by (cases many) (simp_all add: simulates_def achieves_def Display_WriteNumberAt_def)

text \<open>A whole number: the digits are those of whatever integer \<open>snprintf\<close> found.\<close>

lemma simulates_whole:
  fixes s :: "('h, 'a) display_scheme"
  assumes s: "display_ready s" and f: "currentFont s = DISPLAY_FONT_INTERNAL"
  shows "\<exists>s'. Display_WriteNumberAt x y True v False s = Inr s' \<and> brushed (number_brush x y) s s'"
proof -
  let ?txt = "snprintf_text 8 (dec_int (stray_int (environ s) (log s)))"
  from simulates_write s obtain s' where s': "Display_WriteTextAt x y ?txt s = Inr s'"
      "brushed (write_brush x y ?txt) s s'"
    by (rule simulatesD)
  have "brushed (number_brush x y) s s'"
    using s'(2) f by (auto simp: brushed_def write_brush_def number_brush_def sheet_of_def snprintf_text_def)
  then show ?thesis
    using s'(1) by (auto simp: Display_WriteNumberAt_def)
qed

text \<open>
  C8: A finite float written in the built-in font, with two or five decimals, is shown as its
  decimal numeral, whose digits are within half a unit of the last place of the value, whenever
  its integer part has at most four digits, or three with a sign: that much the buffers of eight
  and eleven bytes hold in either format. (With \<open>isWholeNumber\<close> the argument is read
  as an integer that is not there, and nothing is claimed.)
\<close>

theorem write_number_shows_value:
  fixes s :: "('h, 'a) display_scheme"
  defines "d \<equiv> \<lambda>many. if many then 5 else 2"
  assumes ready: "display_ready s" and font: "currentFont s = DISPLAY_FONT_INTERNAL"
    and texted: "regs (panel_of s) 0x40 AND 0x80 \<noteq> 0"
    and fits: "round_even (scaled_num (d many) m e) (scaled_den e) < 10 ^ (k + d many)" "0 < k"
      "k \<le> (if neg then 3 else 4)"
  shows "\<exists>s' txt. Display_WriteNumberAt x y False (Finite neg m e) many s = Inr s' \<and>
    figs (panel_of s') = figs (panel_of s) @
      map (\<lambda>ch. Text_Byte x y (regs (panel_of s) 0x22) (foreground (regs (panel_of s))) (of_char ch)) txt \<and>
    txt = format_fixed (d many) (Finite neg m e) \<and>
    \<bar>2 * int (number_value txt * scaled_den e) - 2 * int (scaled_num (d many) m e)\<bar> \<le> int (scaled_den e)"
proof -
  let ?sz = "if many then 11 else 8"
  let ?txt = "snprintf_text ?sz (format_fixed (d many) (Finite neg m e))"
  have room: "(if neg then 1 else 0) + k + 1 + d many < ?sz"
    using fits(3) by (auto simp: d_def split: if_splits)
  note full = fixed_text_exact [OF fits(1,2) room]
  obtain s' where s': "Display_WriteNumberAt x y False (Finite neg m e) many s = Inr s'"
      "brushed (write_brush x y ?txt) s s'"
    using simulates_float [of x y many "Finite neg m e"] ready by (auto simp: simulates_def achieves_def d_def)
  have "figs (panel_of s') = figs (panel_of s) @ panel_chars True x y (regs (panel_of s) 0x22)
      (foreground (regs (panel_of s))) ?txt"
    using s'(2) font texted by (auto simp: brushed_def write_brush_def sheet_of_def canvas_of_def)
  then show ?thesis
    using s'(1) full [THEN conjunct1] full [THEN conjunct2, unfolded full [THEN conjunct1]]
    by (intro exI [of _ s'] exI [of _ "format_fixed (d many) (Finite neg m e)"])
      (simp add: panel_chars_def del: format_fixed.simps)
qed

text \<open>
  C9: A float of two decimals whose integer part has seven digits or more does not fit the buffer
  of eight bytes: seven characters are shown, without a point, and what they read is the integer
  part without its last digits. With eight digits, or seven and a sign, the number shown is at
  most a tenth of the integer part.
\<close>

theorem write_number_cuts_point:
  fixes s :: "('h, 'a) display_scheme" and m :: nat and e :: int
  defines "w \<equiv> round_even (scaled_num 2 m e) (scaled_den e) div 100"
  assumes ready: "display_ready s" and font: "currentFont s = DISPLAY_FONT_INTERNAL"
    and texted: "regs (panel_of s) 0x40 AND 0x80 \<noteq> 0"
    and large: "10 ^ 6 \<le> w"
  shows "\<exists>s' txt. Display_WriteNumberAt x y False (Finite neg m e) False s = Inr s' \<and>
    figs (panel_of s') = figs (panel_of s) @
      map (\<lambda>ch. Text_Byte x y (regs (panel_of s) 0x22) (foreground (regs (panel_of s))) (of_char ch)) txt \<and>
    length txt = 7 \<and> CHR ''.'' \<notin> set txt \<and>
    number_value txt = w div 10 ^ (length (dec w) - (if neg then 6 else 7)) \<and>
    (10 ^ (if neg then 6 else 7) \<le> w \<longrightarrow> 10 * number_value txt \<le> w)"
proof -
  let ?txt = "snprintf_text 8 (format_fixed 2 (Finite neg m e))"
  have "10 ^ (8 - 2 + 2) \<le> round_even (scaled_num 2 m e) (scaled_den e)"
    using large by (simp add: w_def)
  from fixed_text_cut [OF this, of neg]
  have cut: "length ?txt = 7" "CHR ''.'' \<notin> set ?txt"
      "number_value ?txt = w div 10 ^ (length (dec w) - (if neg then 6 else 7))"
    by (simp_all add: w_def sign_length_def del: format_fixed.simps split: if_splits)
  obtain s' where s': "Display_WriteNumberAt x y False (Finite neg m e) False s = Inr s'"
      "brushed (write_brush x y ?txt) s s'"
    using simulates_float [of x y False "Finite neg m e"] ready by (auto simp: simulates_def achieves_def)
  have "figs (panel_of s') = figs (panel_of s) @ panel_chars True x y (regs (panel_of s) 0x22)
      (foreground (regs (panel_of s))) ?txt"
    using s'(2) font texted by (auto simp: brushed_def write_brush_def sheet_of_def canvas_of_def)
  then show ?thesis
    using s'(1) cut cut_too_small [of "if neg then 6 else 7" w]
    by (intro exI [of _ s'] exI [of _ ?txt]) (simp add: panel_chars_def del: format_fixed.simps)
qed

section \<open>Blocks of text\<close>

text \<open>
  A statement that only has to work on certain sheets: whole numbers are written in the built-in
  font only.
\<close>

definition simulates_when :: "(sheet \<Rightarrow> bool) \<Rightarrow> brush \<Rightarrow> ('h, 'a) display_stmt \<Rightarrow> bool" where
  "simulates_when P f c \<longleftrightarrow> (\<forall>s. display_ready s \<longrightarrow> P (sheet_of s) \<longrightarrow> (\<exists>s'. c s = Inr s' \<and> brushed f s s'))"

lemma simulates_whenI: "simulates f c \<Longrightarrow> simulates_when P f c"
  by (simp add: simulates_def achieves_def simulates_when_def)

lemma simulates_when_True: "simulates_when (\<lambda>_. True) f c = simulates f c"
  by (simp add: simulates_def achieves_def simulates_when_def)

lemma simulates_when_cong:
  "simulates_when P f c \<Longrightarrow> (\<And>sh. P sh \<Longrightarrow> f sh = g sh) \<Longrightarrow> simulates_when P g c"
  by (simp add: simulates_when_def brushed_def)

lemma simulates_when_Cons:
  fixes c :: "('h, 'a) display_stmt"
  assumes c: "simulates_when P f c" and cs: "simulates_when Q g (seq cs)"
    and P: "\<And>sh. P sh \<Longrightarrow> Q (fst (f sh))"
  shows "simulates_when P (then_brush f g) (seq (c # cs))"
  unfolding simulates_when_def
proof (intro allI impI)
  fix s :: "('h, 'a) display_scheme"
  assume s: "display_ready s" "P (sheet_of s)"
  then obtain s1 where s1: "c s = Inr s1" "brushed f s s1"
    using c by (auto simp: simulates_when_def)
  then have "display_ready s1" "Q (sheet_of s1)"
    using P [OF s(2)] by (simp_all add: brushed_def)
  then obtain s2 where "seq cs s1 = Inr s2" "brushed g s1 s2"
    using cs by (auto simp: simulates_when_def)
  with s1 show "\<exists>s'. seq (c # cs) s = Inr s' \<and> brushed (then_brush f g) s s'"
    using brushed_trans by auto
qed

lemma simulates_when_Nil: "simulates_when P no_brush (seq [])"
  by (rule simulates_whenI) (rule simulates_Nil)

text \<open>What the screens write in the built-in font: texts, floats and whole numbers.\<close>

datatype item = Text_Item u16 u16 string | Float_Item u16 u16 bool c_float | Whole_Item u16 u16 c_float

primrec write_item :: "item \<Rightarrow> ('h, 'a) display_stmt" where
  "write_item (Text_Item x y msg) = Display_WriteTextAt x y msg"
| "write_item (Float_Item x y many v) = Display_WriteNumberAt x y False v many"
| "write_item (Whole_Item x y v) = Display_WriteNumberAt x y True v False"

primrec item_at :: "item \<Rightarrow> u16 \<times> u16" where
  "item_at (Text_Item x y msg) = (x, y)"
| "item_at (Float_Item x y many v) = (x, y)"
| "item_at (Whole_Item x y v) = (x, y)"

primrec item_mark :: "bool \<Rightarrow> u8 \<Rightarrow> u8 \<Rightarrow> item \<Rightarrow> mark" where
  "item_mark t sz c (Text_Item x y msg) = Chars t x y sz c msg"
| "item_mark t sz c (Float_Item x y many v) = Chars t x y sz c
     (snprintf_text (if many then 11 else 8) (format_fixed (if many then 5 else 2) v))"
| "item_mark t sz c (Whole_Item x y v) = Number t x y sz c"

definition in_font :: "DisplayFont_t \<Rightarrow> sheet \<Rightarrow> bool" where
  "in_font f sh \<longleftrightarrow> chosen sh = f"

definition item_brush :: "item \<Rightarrow> brush" where
  "item_brush it sh = (sh\<lparr>paper := (paper sh)\<lparr>caret := item_at it\<rparr>\<rparr>,
     [item_mark (in_text (paper sh)) (text_size (paper sh)) (pen (paper sh)) it])"

lemma simulates_item: "simulates_when (in_font DISPLAY_FONT_INTERNAL) (item_brush it) (write_item it)"
proof (cases it)
  case (Text_Item x y msg)
  then show ?thesis
    by (simp only: write_item.simps)
      (rule simulates_when_cong [OF simulates_whenI [OF simulates_write]],
        simp add: in_font_def item_brush_def write_brush_def)
next
  case (Float_Item x y many v)
  then show ?thesis
    by (simp only: write_item.simps)
      (rule simulates_when_cong [OF simulates_whenI [OF simulates_float]],
        simp add: in_font_def item_brush_def write_brush_def)
next
  case (Whole_Item x y v)
  have w: "simulates_when (in_font DISPLAY_FONT_INTERNAL) (number_brush x y) (Display_WriteNumberAt x y True v False)"
    using simulates_whole by (auto simp: simulates_when_def in_font_def sheet_of_def)
  show ?thesis
    unfolding Whole_Item write_item.simps
    by (rule simulates_when_cong [OF w]) (simp add: item_brush_def number_brush_def)
qed

definition items_brush :: "item list \<Rightarrow> brush" where
  "items_brush its sh = (sh\<lparr>paper := (paper sh)\<lparr>caret := last (caret (paper sh) # map item_at its)\<rparr>\<rparr>,
     map (item_mark (in_text (paper sh)) (text_size (paper sh)) (pen (paper sh))) its)"

lemma simulates_items:
  "simulates_when (in_font DISPLAY_FONT_INTERNAL) (items_brush its) (seq (map write_item its) :: ('h, 'a) display_stmt)"
proof (induction its)
  case Nil
  show ?case
    unfolding list.map
    by (rule simulates_when_cong [OF simulates_when_Nil]) (simp add: items_brush_def no_brush_def)
next
  case (Cons it its)
  have "simulates_when (in_font DISPLAY_FONT_INTERNAL) (then_brush (item_brush it) (items_brush its))
      (seq (write_item it # map write_item its) :: ('h, 'a) display_stmt)"
    by (rule simulates_when_Cons [OF simulates_item Cons.IH]) (simp add: in_font_def item_brush_def)
  then show ?case
    unfolding list.map by (rule simulates_when_cong) (simp add: then_brush_def item_brush_def items_brush_def)
qed

text \<open>Labels are written in the bitmap font.\<close>

definition write_label :: "u16 \<times> u16 \<times> string \<Rightarrow> ('h, 'a) display_stmt" where
  "write_label l = (case l of (x, y, msg) \<Rightarrow> Display_WriteTextAt x y msg)"

definition label_mark :: "u16 \<times> u16 \<times> string \<Rightarrow> mark" where
  "label_mark l = (case l of (x, y, msg) \<Rightarrow> Glyphs x y msg)"

definition labels_brush :: "(u16 \<times> u16 \<times> string) list \<Rightarrow> brush" where
  "labels_brush ls sh =
     (sh\<lparr>paper := (paper sh)\<lparr>pen := if \<exists>l \<in> set ls. has_glyph (snd (snd l)) then COLOR_WHITE else pen (paper sh)\<rparr>\<rparr>,
      map label_mark ls)"

lemma simulates_labels:
  "simulates_when (in_font DISPLAY_FONT_COMIC_SANS) (labels_brush ls) (seq (map write_label ls) :: ('h, 'a) display_stmt)"
proof (induction ls)
  case Nil
  show ?case
    unfolding list.map
    by (rule simulates_when_cong [OF simulates_when_Nil]) (simp add: labels_brush_def no_brush_def)
next
  case (Cons l ls)
  obtain x y msg where l: "l = (x, y, msg)" by (cases l)
  have w: "simulates (write_brush x y msg) (write_label l)"
    using simulates_write by (simp add: write_label_def l)
  have "simulates_when (in_font DISPLAY_FONT_COMIC_SANS) (then_brush (write_brush x y msg) (labels_brush ls))
      (seq (write_label l # map write_label ls) :: ('h, 'a) display_stmt)"
    by (rule simulates_when_Cons [OF simulates_whenI [OF w] Cons.IH]) (simp add: in_font_def write_brush_def)
  then show ?case
    unfolding list.map
    by (rule simulates_when_cong)
      (auto simp: then_brush_def write_brush_def labels_brush_def in_font_def l label_mark_def)
qed

text \<open>Rectangles.\<close>

definition boxes_brush :: "(u16 \<times> u16 \<times> u16 \<times> u16 \<times> u8) list \<Rightarrow> brush" where
  "boxes_brush bs sh = (sh\<lparr>paper := (paper sh)\<lparr>pen := last (pen (paper sh) # map (\<lambda>(a, b, c, d, col). col) bs)\<rparr>\<rparr>,
     map (\<lambda>(a, b, c, d, col). Box a b c d col True) bs)"

definition border_box :: "LineSpec \<Rightarrow> u16 \<times> u16 \<times> u16 \<times> u16 \<times> u8" where
  "border_box l = (lx1 l, ly1 l, lx2 l, ly2 l, COLOR_WHITE)"

lemma simulates_box: "simulates (boxes_brush [(x1, y1, x2, y2, c)]) (Display_DrawRect x1 y1 x2 y2 c True)"
  by (rule simulates_cong [OF simulates_rect]) (simp add: on_paper_def boxes_brush_def)

lemma then_boxes: "then_brush (boxes_brush as) (boxes_brush bs) = boxes_brush (as @ bs)"
  by (rule ext) (simp add: then_brush_def boxes_brush_def)

lemma simulates_borders:
  "simulates (boxes_brush (map border_box ls)) (Display_DrawBorders ls :: ('h, 'a) display_stmt)"
proof (induction ls)
  case Nil
  show ?case
    unfolding Display_DrawBorders_def list.map
    by (rule simulates_cong [OF simulates_Nil]) (simp add: boxes_brush_def no_brush_def)
next
  case (Cons l ls)
  have "simulates (then_brush (boxes_brush [border_box l]) (boxes_brush (map border_box ls)))
      (seq (Display_DrawRect (lx1 l) (ly1 l) (lx2 l) (ly2 l) COLOR_WHITE True #
        map (\<lambda>l. Display_DrawRect (lx1 l) (ly1 l) (lx2 l) (ly2 l) COLOR_WHITE True) ls) :: ('h, 'a) display_stmt)"
    unfolding border_box_def [of l]
    by (rule simulates_Cons [OF simulates_box Cons.IH [unfolded Display_DrawBorders_def]])
  then show ?case
    by (simp add: Display_DrawBorders_def then_boxes del: seq.simps)
qed

section \<open>A concrete display\<close>

text \<open>A display on the concrete bus.\<close>

definition demo_board :: "nat board" where
  "demo_board = spi_machine.extend demo_machine \<lparr>gpio = demo_gpio\<rparr>"

definition demo_display :: "nat display" where
  "demo_display = board.extend demo_board \<lparr>lcd = demo_ctx, currentFont = DISPLAY_FONT_INTERNAL,
     inGraphicMode = False, glyph_cache = precompute_glyphs (\<lambda>_. empty_buffer),
     CURRENT_SCREEN = SCREEN_MAIN_NO_LAPS\<rparr>"

lemma cache_precomputed: "cache_filled (precompute_glyphs cache)"
  by (simp add: cache_filled_def precompute_glyphs_at)

lemma demo_display_ready: "display_ready demo_display" "CURRENT_SCREEN demo_display = SCREEN_MAIN_NO_LAPS"
proof -
  have "port_ready demo_ctx demo_display"
    using demo_ready by (simp add: port_ready_def demo_ctx_def bus_ready_def demo_display_def demo_board_def
        spi_machine.extend_def board.extend_def)
  then show "display_ready demo_display"
    by (simp add: display_ready_def cache_precomputed demo_display_def demo_board_def
        spi_machine.extend_def board.extend_def)
  show "CURRENT_SCREEN demo_display = SCREEN_MAIN_NO_LAPS"
    by (simp add: demo_display_def board.extend_def)
qed

text \<open>The same display with the panel in text mode.\<close>

definition demo_typing :: "nat display" where
  "demo_typing = demo_display\<lparr>log := [Xfer \<lparr>hal_cmd = 0x80, hal_cmd_bits = 8, hal_addr_bits = 0,
     hal_addr = 0, hal_dummy_bits = 0, hal_tx_bitlen = 24, hal_rx_bitlen = 24, hal_send_buffer = 0,
     hal_rcv_buffer = 0, hal_cs_keep_active = False, hal_data_lines = 1, hal_addr_lines = 1, hal_cmd_lines = 1\<rparr>
     [0x40, 0x00, 0x80] [0, 0, 0]]\<rparr>"

lemma demo_typing_ready: "display_ready demo_typing" "currentFont demo_typing = DISPLAY_FONT_INTERNAL"
    "regs (panel_of demo_typing) 0x40 AND 0x80 \<noteq> 0"
proof -
  show "display_ready demo_typing"
    using demo_display_ready(1)
    by (simp add: demo_typing_def display_ready_def port_ready_def bus_ready_def split: option.splits)
  show "currentFont demo_typing = DISPLAY_FONT_INTERNAL"
    by (simp add: demo_typing_def demo_display_def board.extend_def)
  show "regs (panel_of demo_typing) 0x40 AND 0x80 \<noteq> 0"
    by (simp add: demo_typing_def panel_of_def ops_def event_ops_def panel0_def)
qed

lemma write_number_shows_value_witness:
  "\<exists>s' txt. Display_WriteNumberAt 40 55 False (Finite True 1999 (-1)) False demo_typing = Inr s' \<and>
     txt = format_fixed 2 (Finite True 1999 (-1)) \<and> number_value txt = 99950"
proof -
  have q: "round_even (scaled_num (if False then 5 else 2) 1999 (-1)) (scaled_den (-1)) <
        10 ^ (3 + (if False then 5 else 2))"
      "(0 :: nat) < 3" "(3 :: nat) \<le> (if True then 3 else 4)"
    by (simp_all add: round_even_def scaled_num_def scaled_den_def)
  from write_number_shows_value [OF demo_typing_ready q, of 40 55] obtain s' chars where
    "Display_WriteNumberAt 40 55 False (Finite True 1999 (-1)) False demo_typing = Inr s'"
    "chars = format_fixed 2 (Finite True 1999 (-1))"
    by auto
  moreover have "number_value (format_fixed 2 (Finite True 1999 (-1))) = 99950"
    using number_value_fixed [of True 99950 2]
    by (simp add: round_even_def scaled_num_def scaled_den_def)
  ultimately show ?thesis by blast
qed

text \<open>Twenty million and some is shown as two million and some.\<close>

lemma write_number_cuts_point_witness:
  "\<exists>s' txt. Display_WriteNumberAt 40 55 False (Finite False 41 19) False demo_typing = Inr s' \<and>
     length txt = 7 \<and> CHR ''.'' \<notin> set txt \<and> number_value txt = 2149580"
proof -
  have w: "round_even (scaled_num 2 41 19) (scaled_den 19) div 100 = 21495808"
    by (simp add: round_even_def scaled_num_def scaled_den_def)
  have l: "length (dec 21495808) = 8"
    by (simp add: dec_numerals)
  have "10 ^ 6 \<le> round_even (scaled_num 2 41 19) (scaled_den 19) div 100"
    unfolding w by simp
  from write_number_cuts_point [OF demo_typing_ready this, of 40 55 False] show ?thesis
    unfolding w l by auto
qed

end
