(* ===== verification/Screens.thy ===== *)
theory Screens
  imports Display
begin

text \<open>
  The screens of \<open>main/display.c\<close>, \<open>Display_Init\<close> and \<open>Display_SwitchScreen\<close>. Each screen is proved
  to put a given list of marks on the display, from whatever state the last one left; the layout
  of the marks is then a matter of arithmetic.
\<close>

section \<open>Constants\<close>

definition COLOR_RED :: u8 where "COLOR_RED = 5"
definition COLOR_YELLOW :: u8 where "COLOR_YELLOW = 63"
definition LAYER_DISPLAY :: u8 where "LAYER_DISPLAY = 0"
definition LAYER_OFFSCREEN :: u8 where "LAYER_OFFSCREEN = 1"
definition LABELS_Y_OFFSET :: u16 where "LABELS_Y_OFFSET = 11"
definition VALUES_Y_OFFSET :: u16 where "VALUES_Y_OFFSET = 55"
definition DEFAULT_DELAY :: u32 where "DEFAULT_DELAY = 20"
definition WATCHDOG_DELAY :: u32 where "WATCHDOG_DELAY = 5"

definition line :: "u16 \<Rightarrow> u16 \<Rightarrow> u16 \<Rightarrow> u16 \<Rightarrow> LineSpec" where
  "line x1 y1 x2 y2 = \<lparr>lx1 = x1, ly1 = y1, lx2 = x2, ly2 = y2\<rparr>"

definition mainBordersNoLaps :: "LineSpec list" where
  "mainBordersNoLaps =
     [line 0 180 800 181,
      line 0 360 800 361,
      line 266 360 267 480,
      line 533 360 534 480]"

definition mainBordersLaps :: "LineSpec list" where
  "mainBordersLaps =
     [line 0 120 800 121,
      line 0 240 800 241,
      line 0 360 800 361,
      line 184 0 185 120,
      line 266 360 267 480,
      line 615 0 616 120,
      line 533 360 534 480]"

definition debugBordersRTD :: "LineSpec list" where
  "debugBordersRTD =
     [line 0 120 800 121,
      line 0 240 800 241,
      line 0 360 800 361,
      line 200 0 201 480,
      line 400 360 401 480,
      line 600 0 601 480,
      line 700 360 701 480]"

definition debugBordersNoRTD :: "LineSpec list" where
  "debugBordersNoRTD =
     [line 0 120 800 121,
      line 0 240 800 241,
      line 0 360 800 361,
      line 200 0 201 480,
      line 400 0 401 480,
      line 600 0 601 480]"

section \<open>The screens\<close>

definition Display_RenderMainScreen :: "bool \<Rightarrow> ('h, 'a) display_stmt" where
  "Display_RenderMainScreen isLaps = seq
     [Display_ResetState,
      Display_EnableDrawMode,
      if isLaps then Display_DrawRect 0 170 800 240 COLOR_RED True else Display_DrawRect 0 90 800 180 COLOR_RED True,
      if isLaps then Display_DrawBorders mainBordersLaps else Display_DrawBorders mainBordersNoLaps,
      vTaskDelay (pdMS_TO_TICKS DEFAULT_DELAY),
      Display_EnableTextModeAndFont DISPLAY_FONT_COMIC_SANS,
      if isLaps then seq
        [Display_WriteTextAt 30 (0 + LABELS_Y_OFFSET) ''Lap Diff'',
         Display_WriteTextAt 305 (0 + LABELS_Y_OFFSET) ''Last Lap Time'',
         Display_WriteTextAt 640 (0 + LABELS_Y_OFFSET) ''Predicted'',
         Display_WriteTextAt 350 (120 + LABELS_Y_OFFSET) ''Pack %'',
         Display_WriteTextAt 370 (240 + LABELS_Y_OFFSET) ''Lap'',
         Display_WriteTextAt 40 (360 + LABELS_Y_OFFSET) ''Torque Limit'',
         Display_WriteTextAt 315 (360 + LABELS_Y_OFFSET) ''TC Lat Mode'',
         Display_WriteTextAt 590 (360 + LABELS_Y_OFFSET) ''TV Balance'']
      else seq
        [Display_WriteTextAt 350 (0 + LABELS_Y_OFFSET + 50) ''Pack %'',
         Display_WriteTextAt 270 (185 + LABELS_Y_OFFSET + 50) ''Distance Traveled'',
         Display_WriteTextAt 40 (360 + LABELS_Y_OFFSET) ''Torque Limit'',
         Display_WriteTextAt 320 (360 + LABELS_Y_OFFSET) ''TC Lat Mode'',
         Display_WriteTextAt 590 (360 + LABELS_Y_OFFSET) ''TV Balance''],
      Display_EnableTextModeAndFont DISPLAY_FONT_INTERNAL,
      if isLaps then seq
        [Display_WriteNumberAt 40 (0 + VALUES_Y_OFFSET) False float_zero False,
         Display_WriteNumberAt 350 (0 + VALUES_Y_OFFSET) False float_zero False,
         Display_WriteNumberAt 660 (0 + VALUES_Y_OFFSET) False float_zero False,
         Display_WriteNumberAt 350 (120 + VALUES_Y_OFFSET) False float_zero False,
         Display_WriteNumberAt 380 (240 + VALUES_Y_OFFSET) True float_zero False,
         Display_WriteNumberAt 120 (360 + VALUES_Y_OFFSET) True float_zero False,
         Display_WriteNumberAt 380 (360 + VALUES_Y_OFFSET) True float_zero False,
         Display_WriteNumberAt 660 (360 + VALUES_Y_OFFSET) True float_zero False]
      else seq
        [Display_WriteNumberAt 350 (0 + VALUES_Y_OFFSET + 50) False float_zero False,
         Display_WriteNumberAt 350 (180 + VALUES_Y_OFFSET + 50) False float_zero False,
         Display_WriteNumberAt 120 (360 + VALUES_Y_OFFSET) True float_zero False,
         Display_WriteNumberAt 390 (360 + VALUES_Y_OFFSET) True float_zero False,
         Display_WriteNumberAt 660 (360 + VALUES_Y_OFFSET) True float_zero False]]"

definition Display_RenderStaticDebugScreen :: "('h, 'a) display_stmt" where
  "Display_RenderStaticDebugScreen = seq
     [Display_ResetState,
      Display_EnableDrawMode,
      Display_DrawBorders debugBordersNoRTD,
      Display_EnableTextModeAndFont DISPLAY_FONT_COMIC_SANS,
      Display_WriteTextAt 20 (0 + LABELS_Y_OFFSET) ''LV Voltage'',
      Display_WriteTextAt 240 (0 + LABELS_Y_OFFSET) ''GPS Long'',
      Display_WriteTextAt 450 (0 + LABELS_Y_OFFSET) ''GPS Lat'',
      Display_WriteTextAt 615 (0 + LABELS_Y_OFFSET) ''Pack Voltage'',
      Display_WriteTextAt 20 (120 + LABELS_Y_OFFSET) ''Motor T Max'',
      Display_WriteTextAt 240 (120 + LABELS_Y_OFFSET) ''APP Arb'',
      Display_WriteTextAt 400 (120 + LABELS_Y_OFFSET) ''Torque Rq Avg'',
      Display_WriteTextAt 650 (120 + LABELS_Y_OFFSET) ''Rotor T'',
      vTaskDelay (pdMS_TO_TICKS WATCHDOG_DELAY),
      Display_WriteTextAt 30 (240 + LABELS_Y_OFFSET) ''Inv T Max'',
      Display_WriteTextAt 220 (240 + LABELS_Y_OFFSET) ''Steer Angle'',
      Display_WriteTextAt 410 (240 + LABELS_Y_OFFSET) ''F Brake Bias'',
      Display_WriteTextAt 650 (240 + LABELS_Y_OFFSET) ''Logging'',
      Display_WriteTextAt 20 (360 + LABELS_Y_OFFSET) ''Min Cell V'',
      Display_WriteTextAt 220 (360 + LABELS_Y_OFFSET) ''Peak Cell T'',
      Display_WriteTextAt 405 (360 + LABELS_Y_OFFSET) ''F Brake Press'',
      Display_WriteTextAt 620 (360 + LABELS_Y_OFFSET) ''Power Limit'',
      Display_EnableTextModeAndFont DISPLAY_FONT_INTERNAL,
      Display_WriteNumberAt 50 (0 + VALUES_Y_OFFSET) False float_zero False,
      Display_WriteNumberAt 215 (0 + VALUES_Y_OFFSET) False float_zero True,
      Display_WriteNumberAt 415 (0 + VALUES_Y_OFFSET) False float_zero True,
      Display_WriteNumberAt 650 (0 + VALUES_Y_OFFSET) False float_zero False,
      Display_WriteNumberAt 40 (120 + VALUES_Y_OFFSET) True float_zero False,
      Display_WriteTextAt 80 (120 + VALUES_Y_OFFSET) ''RR'',
      Display_WriteNumberAt 250 (120 + VALUES_Y_OFFSET) False float_zero False,
      Display_WriteNumberAt 450 (120 + VALUES_Y_OFFSET) False float_zero False,
      Display_WriteNumberAt 690 (120 + VALUES_Y_OFFSET) True float_zero False,
      Display_WriteNumberAt 40 (240 + VALUES_Y_OFFSET) True float_zero False,
      Display_WriteTextAt 80 (240 + VALUES_Y_OFFSET) ''RR'',
      Display_WriteNumberAt 250 (240 + VALUES_Y_OFFSET) False float_zero False,
      Display_WriteNumberAt 450 (240 + VALUES_Y_OFFSET) False float_zero False,
      Display_WriteNumberAt 690 (240 + VALUES_Y_OFFSET) True float_zero False,
      Display_WriteNumberAt 30 (360 + VALUES_Y_OFFSET) True float_zero False,
      Display_WriteTextAt 50 (360 + VALUES_Y_OFFSET) '',i='',
      Display_WriteNumberAt 120 (360 + VALUES_Y_OFFSET) True float_zero False,
      Display_WriteNumberAt 230 (360 + VALUES_Y_OFFSET) True float_zero False,
      Display_WriteTextAt 250 (360 + VALUES_Y_OFFSET) '',i='',
      Display_WriteNumberAt 320 (360 + VALUES_Y_OFFSET) True float_zero False,
      Display_WriteNumberAt 450 (360 + VALUES_Y_OFFSET) False float_zero False,
      Display_WriteNumberAt 690 (360 + VALUES_Y_OFFSET) True float_zero False]"

definition Display_PrerenderDebugRTDLabels :: "('h, 'a) display_stmt" where
  "Display_PrerenderDebugRTDLabels = seq
     [Display_ResetState,
      Display_EnableDrawMode,
      Display_DrawRect 200 170 600 240 COLOR_RED True,
      Display_DrawRect 0 415 800 480 COLOR_YELLOW True,
      vTaskDelay (pdMS_TO_TICKS DEFAULT_DELAY),
      Display_EnableTextModeAndFont DISPLAY_FONT_INTERNAL,
      Display_InternalFontSize FONT_SIZE_DOUBLE,
      on_lcd (\<lambda>lcd. write_regs lcd [(0x63, 0x00)]),
      on_lcd (\<lambda>lcd. write_regs lcd [(0x64, 0x00)]),
      on_lcd (\<lambda>lcd. write_regs lcd [(0x65, 0x03)]),
      Display_WriteTextAt 40 430 ''<<< PLEASE WAIT >>>     Loading Cumic Sans... '',
      Display_EnableTextModeAndFont DISPLAY_FONT_COMIC_SANS,
      Display_WriteTextAt 20 (0 + LABELS_Y_OFFSET) ''LV Voltage'',
      Display_WriteTextAt 305 (0 + LABELS_Y_OFFSET) ''Last Lap Time'',
      Display_WriteTextAt 610 (0 + LABELS_Y_OFFSET) ''Pack Voltage'',
      Display_WriteTextAt 10 (120 + LABELS_Y_OFFSET) ''Motor T Max'',
      Display_WriteTextAt 355 (120 + LABELS_Y_OFFSET) ''Pack %'',
      Display_WriteTextAt 650 (120 + LABELS_Y_OFFSET) ''Rotor T'',
      Display_WriteTextAt 30 (240 + LABELS_Y_OFFSET) ''Inv T Max'',
      vTaskDelay (pdMS_TO_TICKS WATCHDOG_DELAY),
      Display_WriteTextAt 380 (240 + LABELS_Y_OFFSET) ''Lap'',
      Display_WriteTextAt 610 (240 + LABELS_Y_OFFSET) ''Torque Limit'',
      Display_WriteTextAt 20 (360 + LABELS_Y_OFFSET) ''Min Cell V'',
      Display_WriteTextAt 220 (360 + LABELS_Y_OFFSET) ''Peak Cell T'',
      Display_WriteTextAt 405 (360 + LABELS_Y_OFFSET) ''F Brake Press'',
      Display_WriteTextAt 640 (360 + LABELS_Y_OFFSET) ''TC'',
      Display_WriteTextAt 740 (360 + LABELS_Y_OFFSET) ''TV'',
      on_lcd (\<lambda>lcd. RA8875_bte_move lcd 0 0 LAYER_DISPLAY 0 0 LAYER_OFFSCREEN 800 400 0 0xC)]"

definition Display_UsePrerenderedDebugRTD :: "('h, 'a) display_stmt" where
  "Display_UsePrerenderedDebugRTD = seq
     [Display_ResetState,
      on_lcd (\<lambda>lcd. RA8875_bte_move lcd 0 0 LAYER_OFFSCREEN 0 0 LAYER_DISPLAY 800 400 0 0xC),
      Display_EnableDrawMode,
      Display_DrawBorders debugBordersRTD,
      Display_EnableTextModeAndFont DISPLAY_FONT_INTERNAL,
      Display_WriteNumberAt 50 (0 + VALUES_Y_OFFSET) False float_zero False,
      Display_WriteNumberAt 355 (0 + VALUES_Y_OFFSET) False float_zero False,
      Display_WriteNumberAt 655 (0 + VALUES_Y_OFFSET) False float_zero False,
      Display_WriteNumberAt 50 (120 + VALUES_Y_OFFSET) True float_zero False,
      Display_WriteTextAt 90 (120 + VALUES_Y_OFFSET) ''RR'',
      Display_WriteNumberAt 355 (120 + VALUES_Y_OFFSET) False float_zero False,
      Display_WriteNumberAt 690 (120 + VALUES_Y_OFFSET) True float_zero False,
      Display_WriteNumberAt 50 (240 + VALUES_Y_OFFSET) True float_zero False,
      Display_WriteTextAt 90 (240 + VALUES_Y_OFFSET) ''RR'',
      Display_WriteNumberAt 390 (240 + VALUES_Y_OFFSET) True float_zero False,
      Display_WriteNumberAt 690 (240 + VALUES_Y_OFFSET) True float_zero False,
      Display_WriteNumberAt 20 (360 + VALUES_Y_OFFSET) True float_zero False,
      Display_WriteTextAt 40 (360 + VALUES_Y_OFFSET) '',i='',
      Display_WriteNumberAt 120 (360 + VALUES_Y_OFFSET) True float_zero False,
      Display_WriteNumberAt 220 (360 + VALUES_Y_OFFSET) True float_zero False,
      Display_WriteTextAt 240 (360 + VALUES_Y_OFFSET) '',i='',
      Display_WriteNumberAt 320 (360 + VALUES_Y_OFFSET) True float_zero False,
      Display_WriteNumberAt 455 (360 + VALUES_Y_OFFSET) False float_zero False,
      Display_WriteNumberAt 640 (360 + VALUES_Y_OFFSET) True float_zero False,
      Display_WriteNumberAt 740 (360 + VALUES_Y_OFFSET) True float_zero False]"

definition Display_Warn :: "('h, 'a) display_stmt" where
  "Display_Warn = seq
     [Display_ResetState,
      Display_EnableDrawMode,
      Display_DrawRect 0 0 800 480 COLOR_RED True,
      vTaskDelay (pdMS_TO_TICKS DEFAULT_DELAY),
      Display_EnableTextModeAndFont DISPLAY_FONT_INTERNAL,
      Display_InternalFontSize FONT_SIZE_QUADRUPLE,
      on_lcd Display_ForegroundWhite,
      Display_WriteTextAt 290 200 ''WARNING'']"

definition Display_SwitchScreen :: "Screen_t \<Rightarrow> ('h, 'a) display_stmt" where
  "Display_SwitchScreen nextScreen s =
     (if CURRENT_SCREEN s = nextScreen then Inr s
      else seq
        [case nextScreen of
           SCREEN_MAIN_NO_LAPS \<Rightarrow> Display_RenderMainScreen False
         | SCREEN_MAIN_LAPS \<Rightarrow> Display_RenderMainScreen True
         | SCREEN_DEBUG_NO_RTD \<Rightarrow> Display_RenderStaticDebugScreen
         | SCREEN_DEBUG_RTD \<Rightarrow> Display_UsePrerenderedDebugRTD
         | SCREEN_WARN \<Rightarrow> Display_Warn,
         assign (\<lambda>s. s\<lparr>CURRENT_SCREEN := nextScreen\<rparr>)] s)"

section \<open>What the screens are to show\<close>

text \<open>The layout of a screen: its boxes, the labels in the bitmap font, the items in the built-in font.\<close>

definition laps_labels :: "(u16 \<times> u16 \<times> string) list" where
  "laps_labels =
     [(30, 0 + LABELS_Y_OFFSET, ''Lap Diff''),
      (305, 0 + LABELS_Y_OFFSET, ''Last Lap Time''),
      (640, 0 + LABELS_Y_OFFSET, ''Predicted''),
      (350, 120 + LABELS_Y_OFFSET, ''Pack %''),
      (370, 240 + LABELS_Y_OFFSET, ''Lap''),
      (40, 360 + LABELS_Y_OFFSET, ''Torque Limit''),
      (315, 360 + LABELS_Y_OFFSET, ''TC Lat Mode''),
      (590, 360 + LABELS_Y_OFFSET, ''TV Balance'')]"

definition no_laps_labels :: "(u16 \<times> u16 \<times> string) list" where
  "no_laps_labels =
     [(350, 0 + LABELS_Y_OFFSET + 50, ''Pack %''),
      (270, 185 + LABELS_Y_OFFSET + 50, ''Distance Traveled''),
      (40, 360 + LABELS_Y_OFFSET, ''Torque Limit''),
      (320, 360 + LABELS_Y_OFFSET, ''TC Lat Mode''),
      (590, 360 + LABELS_Y_OFFSET, ''TV Balance'')]"

definition laps_items :: "item list" where
  "laps_items =
     [Float_Item 40 (0 + VALUES_Y_OFFSET) False float_zero,
      Float_Item 350 (0 + VALUES_Y_OFFSET) False float_zero,
      Float_Item 660 (0 + VALUES_Y_OFFSET) False float_zero,
      Float_Item 350 (120 + VALUES_Y_OFFSET) False float_zero,
      Whole_Item 380 (240 + VALUES_Y_OFFSET) float_zero,
      Whole_Item 120 (360 + VALUES_Y_OFFSET) float_zero,
      Whole_Item 380 (360 + VALUES_Y_OFFSET) float_zero,
      Whole_Item 660 (360 + VALUES_Y_OFFSET) float_zero]"

definition no_laps_items :: "item list" where
  "no_laps_items =
     [Float_Item 350 (0 + VALUES_Y_OFFSET + 50) False float_zero,
      Float_Item 350 (180 + VALUES_Y_OFFSET + 50) False float_zero,
      Whole_Item 120 (360 + VALUES_Y_OFFSET) float_zero,
      Whole_Item 390 (360 + VALUES_Y_OFFSET) float_zero,
      Whole_Item 660 (360 + VALUES_Y_OFFSET) float_zero]"

definition debug_labels_1 :: "(u16 \<times> u16 \<times> string) list" where
  "debug_labels_1 =
     [(20, 0 + LABELS_Y_OFFSET, ''LV Voltage''),
      (240, 0 + LABELS_Y_OFFSET, ''GPS Long''),
      (450, 0 + LABELS_Y_OFFSET, ''GPS Lat''),
      (615, 0 + LABELS_Y_OFFSET, ''Pack Voltage''),
      (20, 120 + LABELS_Y_OFFSET, ''Motor T Max''),
      (240, 120 + LABELS_Y_OFFSET, ''APP Arb''),
      (400, 120 + LABELS_Y_OFFSET, ''Torque Rq Avg''),
      (650, 120 + LABELS_Y_OFFSET, ''Rotor T'')]"

definition debug_labels_2 :: "(u16 \<times> u16 \<times> string) list" where
  "debug_labels_2 =
     [(30, 240 + LABELS_Y_OFFSET, ''Inv T Max''),
      (220, 240 + LABELS_Y_OFFSET, ''Steer Angle''),
      (410, 240 + LABELS_Y_OFFSET, ''F Brake Bias''),
      (650, 240 + LABELS_Y_OFFSET, ''Logging''),
      (20, 360 + LABELS_Y_OFFSET, ''Min Cell V''),
      (220, 360 + LABELS_Y_OFFSET, ''Peak Cell T''),
      (405, 360 + LABELS_Y_OFFSET, ''F Brake Press''),
      (620, 360 + LABELS_Y_OFFSET, ''Power Limit'')]"

definition debug_items :: "item list" where
  "debug_items =
     [Float_Item 50 (0 + VALUES_Y_OFFSET) False float_zero,
      Float_Item 215 (0 + VALUES_Y_OFFSET) True float_zero,
      Float_Item 415 (0 + VALUES_Y_OFFSET) True float_zero,
      Float_Item 650 (0 + VALUES_Y_OFFSET) False float_zero,
      Whole_Item 40 (120 + VALUES_Y_OFFSET) float_zero,
      Text_Item 80 (120 + VALUES_Y_OFFSET) ''RR'',
      Float_Item 250 (120 + VALUES_Y_OFFSET) False float_zero,
      Float_Item 450 (120 + VALUES_Y_OFFSET) False float_zero,
      Whole_Item 690 (120 + VALUES_Y_OFFSET) float_zero,
      Whole_Item 40 (240 + VALUES_Y_OFFSET) float_zero,
      Text_Item 80 (240 + VALUES_Y_OFFSET) ''RR'',
      Float_Item 250 (240 + VALUES_Y_OFFSET) False float_zero,
      Float_Item 450 (240 + VALUES_Y_OFFSET) False float_zero,
      Whole_Item 690 (240 + VALUES_Y_OFFSET) float_zero,
      Whole_Item 30 (360 + VALUES_Y_OFFSET) float_zero,
      Text_Item 50 (360 + VALUES_Y_OFFSET) '',i='',
      Whole_Item 120 (360 + VALUES_Y_OFFSET) float_zero,
      Whole_Item 230 (360 + VALUES_Y_OFFSET) float_zero,
      Text_Item 250 (360 + VALUES_Y_OFFSET) '',i='',
      Whole_Item 320 (360 + VALUES_Y_OFFSET) float_zero,
      Float_Item 450 (360 + VALUES_Y_OFFSET) False float_zero,
      Whole_Item 690 (360 + VALUES_Y_OFFSET) float_zero]"

definition rtd_labels_1 :: "(u16 \<times> u16 \<times> string) list" where
  "rtd_labels_1 =
     [(20, 0 + LABELS_Y_OFFSET, ''LV Voltage''),
      (305, 0 + LABELS_Y_OFFSET, ''Last Lap Time''),
      (610, 0 + LABELS_Y_OFFSET, ''Pack Voltage''),
      (10, 120 + LABELS_Y_OFFSET, ''Motor T Max''),
      (355, 120 + LABELS_Y_OFFSET, ''Pack %''),
      (650, 120 + LABELS_Y_OFFSET, ''Rotor T''),
      (30, 240 + LABELS_Y_OFFSET, ''Inv T Max'')]"

definition rtd_labels_2 :: "(u16 \<times> u16 \<times> string) list" where
  "rtd_labels_2 =
     [(380, 240 + LABELS_Y_OFFSET, ''Lap''),
      (610, 240 + LABELS_Y_OFFSET, ''Torque Limit''),
      (20, 360 + LABELS_Y_OFFSET, ''Min Cell V''),
      (220, 360 + LABELS_Y_OFFSET, ''Peak Cell T''),
      (405, 360 + LABELS_Y_OFFSET, ''F Brake Press''),
      (640, 360 + LABELS_Y_OFFSET, ''TC''),
      (740, 360 + LABELS_Y_OFFSET, ''TV'')]"

definition rtd_items :: "item list" where
  "rtd_items =
     [Float_Item 50 (0 + VALUES_Y_OFFSET) False float_zero,
      Float_Item 355 (0 + VALUES_Y_OFFSET) False float_zero,
      Float_Item 655 (0 + VALUES_Y_OFFSET) False float_zero,
      Whole_Item 50 (120 + VALUES_Y_OFFSET) float_zero,
      Text_Item 90 (120 + VALUES_Y_OFFSET) ''RR'',
      Float_Item 355 (120 + VALUES_Y_OFFSET) False float_zero,
      Whole_Item 690 (120 + VALUES_Y_OFFSET) float_zero,
      Whole_Item 50 (240 + VALUES_Y_OFFSET) float_zero,
      Text_Item 90 (240 + VALUES_Y_OFFSET) ''RR'',
      Whole_Item 390 (240 + VALUES_Y_OFFSET) float_zero,
      Whole_Item 690 (240 + VALUES_Y_OFFSET) float_zero,
      Whole_Item 20 (360 + VALUES_Y_OFFSET) float_zero,
      Text_Item 40 (360 + VALUES_Y_OFFSET) '',i='',
      Whole_Item 120 (360 + VALUES_Y_OFFSET) float_zero,
      Whole_Item 220 (360 + VALUES_Y_OFFSET) float_zero,
      Text_Item 240 (360 + VALUES_Y_OFFSET) '',i='',
      Whole_Item 320 (360 + VALUES_Y_OFFSET) float_zero,
      Float_Item 455 (360 + VALUES_Y_OFFSET) False float_zero,
      Whole_Item 640 (360 + VALUES_Y_OFFSET) float_zero,
      Whole_Item 740 (360 + VALUES_Y_OFFSET) float_zero]"

section \<open>Stages\<close>

text \<open>
  \<open>stage P c Q ms\<close>: on a sheet with \<open>P\<close>, the statement returns, makes the marks \<open>ms\<close> and leaves a
  sheet with \<open>Q\<close>. Stages compose like the triples of a Hoare logic, the marks accumulating.
\<close>

definition staged :: "(sheet \<Rightarrow> bool) \<Rightarrow> mark list \<Rightarrow> ('h, 'a) display_scheme \<Rightarrow> ('h, 'a) display_scheme \<Rightarrow> bool" where
  "staged Q ms s s' \<longleftrightarrow> keeps s s' \<and> display_ready s' \<and> Q (sheet_of s') \<and>
     (\<exists>fs. figs (panel_of s') = figs (panel_of s) @ fs \<and> depicts ms fs)"

definition stage :: "(sheet \<Rightarrow> bool) \<Rightarrow> ('h, 'a) display_stmt \<Rightarrow> (sheet \<Rightarrow> bool) \<Rightarrow> mark list \<Rightarrow> bool" where
  "stage P c Q ms \<longleftrightarrow>
     (\<forall>s. display_ready s \<longrightarrow> P (sheet_of s) \<longrightarrow> (\<exists>s'. c s = Inr s' \<and> staged Q ms s s'))"

lemma stageI:
  assumes "simulates_when P f c" "\<And>sh. P sh \<Longrightarrow> Q (fst (f sh)) \<and> snd (f sh) = ms"
  shows "stage P c Q ms"
  using assms by (fastforce simp: stage_def staged_def simulates_when_def brushed_def)

lemma simulates_when_weaken: "simulates_when P f c \<Longrightarrow> (\<And>sh. P' sh \<Longrightarrow> P sh) \<Longrightarrow> simulates_when P' f c"
  by (simp add: simulates_when_def)

lemma stage_weaken: "stage P c Q ms \<Longrightarrow> (\<And>sh. P' sh \<Longrightarrow> P sh) \<Longrightarrow> stage P' c Q ms"
  by (simp add: stage_def)

lemma stage_post: "stage P c Q ms \<Longrightarrow> (\<And>sh. Q sh \<Longrightarrow> Q' sh) \<Longrightarrow> ms = ms' \<Longrightarrow> stage P c Q' ms'"
  by (fastforce simp: stage_def staged_def)

lemma staged_trans:
  assumes "staged Q ms s t" "staged R ns t u"
  shows "staged R (ms @ ns) s u"
  using assms by (auto simp: staged_def keeps_def intro: depicts_append)

lemma stage_Cons:
  fixes c :: "('h, 'a) display_stmt"
  assumes "stage P c Q ms" "stage Q (seq cs) R ns"
  shows "stage P (seq (c # cs)) R (ms @ ns)"
  unfolding stage_def
proof (intro allI impI)
  fix s :: "('h, 'a) display_scheme"
  assume "display_ready s" "P (sheet_of s)"
  then obtain s1 where s1: "c s = Inr s1" "staged Q ms s s1"
    using assms(1) by (auto simp: stage_def)
  then obtain s2 where "seq cs s1 = Inr s2" "staged R ns s1 s2"
    using assms(2) by (auto simp: stage_def staged_def)
  with s1 show "\<exists>s'. seq (c # cs) s = Inr s' \<and> staged R (ms @ ns) s s'"
    using staged_trans by auto
qed

lemma stage_Nil: "stage P (seq []) P []"
  by (rule stageI [OF simulates_when_Nil]) (simp add: no_brush_def)

lemma stage_last: "stage P c Q ms \<Longrightarrow> stage P (seq [c]) Q ms"
  using stage_Cons [OF _ stage_Nil] by fastforce

lemma stage_one: "stage P (seq [c]) Q ms \<Longrightarrow> stage P c Q ms"
  by (simp only: seq_single)

lemma seq_blocks: "seq (concat css) = seq (map seq css)"
proof (induction css)
  case (Cons cs css)
  have "seq (cs @ concat css) s = seq (seq cs # map seq css) s" for s
    by (simp add: seq_append bindr_def Cons split: sum.splits)
  then show ?case by (simp add: fun_eq_iff del: seq.simps)
qed simp

text \<open>The conditions between the stages of a screen.\<close>

definition any_sheet :: "sheet \<Rightarrow> bool" where "any_sheet sh \<longleftrightarrow> True"
definition drawing :: "sheet \<Rightarrow> bool" where "drawing sh \<longleftrightarrow> graphic sh"
definition lettering :: "sheet \<Rightarrow> bool" where
  "lettering sh \<longleftrightarrow> graphic sh \<and> chosen sh = DISPLAY_FONT_COMIC_SANS"
definition typing :: "u8 \<Rightarrow> u8 \<Rightarrow> sheet \<Rightarrow> bool" where
  "typing sz c sh \<longleftrightarrow> graphic sh \<and> chosen sh = DISPLAY_FONT_INTERNAL \<and> in_text (paper sh) \<and>
     text_size (paper sh) = sz \<and> pen (paper sh) = c"

lemmas stage_conditions = any_sheet_def drawing_def lettering_def typing_def

lemma stage_reset: "stage any_sheet Display_ResetState any_sheet [Wiped]"
  by (rule stageI [OF simulates_whenI [OF simulates_reset]]) (simp add: reset_brush_def any_sheet_def)

lemma stage_draw_mode: "stage any_sheet Display_EnableDrawMode drawing []"
  by (rule stageI [OF simulates_whenI [OF simulates_draw_mode]])
    (simp add: draw_mode_brush_def drawing_def)

lemma stage_box: "stage drawing (Display_DrawRect x1 y1 x2 y2 c True) drawing [Box x1 y1 x2 y2 c True]"
  by (rule stageI [OF simulates_whenI [OF simulates_box]]) (simp add: boxes_brush_def drawing_def)

lemma stage_borders: "stage drawing (Display_DrawBorders ls) drawing (map (\<lambda>l. Box (lx1 l) (ly1 l) (lx2 l) (ly2 l) COLOR_WHITE True) ls)"
  by (rule stageI [OF simulates_whenI [OF simulates_borders]])
    (simp add: boxes_brush_def drawing_def border_box_def)

lemma stage_delay: "stage P (vTaskDelay n) P []"
  by (rule stageI [OF simulates_whenI [OF simulates_delay]]) (simp add: no_brush_def)

lemma stage_comic: "stage any_sheet (Display_EnableTextModeAndFont DISPLAY_FONT_COMIC_SANS) lettering []"
  by (rule stageI [OF simulates_whenI [OF simulates_text_mode]])
    (simp add: text_mode_brush_def draw_mode_brush_def lettering_def)

lemma stage_internal:
  "stage drawing (Display_EnableTextModeAndFont DISPLAY_FONT_INTERNAL) (typing FONT_SIZE_TRIPLE COLOR_WHITE) []"
  by (rule stageI [OF simulates_whenI [OF simulates_text_mode]])
    (simp add: text_mode_brush_def typing_def drawing_def)

lemma stage_labels: "stage lettering (seq (map write_label ls)) lettering (map label_mark ls)"
proof (rule stageI)
  show "simulates_when lettering (labels_brush ls) (seq (map write_label ls))"
    by (rule simulates_when_weaken [OF simulates_labels]) (simp add: in_font_def lettering_def)
qed (simp add: labels_brush_def lettering_def)

lemma stage_items:
  "stage (typing sz c) (seq (map write_item its)) (typing sz c) (map (item_mark True sz c) its)"
proof (rule stageI)
  show "simulates_when (typing sz c) (items_brush its) (seq (map write_item its))"
    by (rule simulates_when_weaken [OF simulates_items]) (simp add: in_font_def typing_def)
qed (simp add: items_brush_def typing_def)

lemma stage_item: "stage (typing sz c) (write_item it) (typing sz c) [item_mark True sz c it]"
  using stage_items [of sz c "[it]"] by (simp add: seq_single del: seq.simps)

lemma stage_size: "stage (typing sz c) (Display_InternalFontSize sz') (typing sz' c) []"
  by (rule stageI [OF simulates_whenI [OF simulates_font_size]])
    (simp add: quiet_paper_def on_paper_def typing_def)

lemma stage_white: "stage (typing sz c) (on_lcd Display_ForegroundWhite) (typing sz COLOR_WHITE) []"
  by (rule stageI [OF simulates_whenI [OF simulates_white]])
    (simp add: quiet_paper_def on_paper_def typing_def)

lemma simulates_copy:
  "simulates (on_paper (\<lambda>cv. (cv, [Copied (move_opcode n rop) (sx, layered sy sl) (dx, layered dy dl) w h])))
     (on_lcd (\<lambda>lcd. RA8875_bte_move lcd sx sy sl dx dy dl w h n rop))"
  by (rule simulates_port [OF paints_move]) (simp add: transfer_def stroke_def)

lemma stage_copy:
  "stage P (on_lcd (\<lambda>lcd. RA8875_bte_move lcd sx sy sl dx dy dl w h n rop)) P
     [Copied (move_opcode n rop) (sx, layered sy sl) (dx, layered dy dl) w h]"
  by (rule stageI [OF simulates_whenI [OF simulates_copy]]) (simp add: on_paper_def)

lemma lettering_drawing: "lettering sh \<Longrightarrow> drawing sh"
  by (simp add: stage_conditions)

lemma stage_comic_drawing: "stage drawing (Display_EnableTextModeAndFont DISPLAY_FONT_COMIC_SANS) lettering []"
  and stage_comic_typing: "stage (typing sz c) (Display_EnableTextModeAndFont DISPLAY_FONT_COMIC_SANS) lettering []"
  by (rule stage_weaken [OF stage_comic], simp add: any_sheet_def)+

lemma stage_internal_lettering:
  "stage lettering (Display_EnableTextModeAndFont DISPLAY_FONT_INTERNAL) (typing FONT_SIZE_TRIPLE COLOR_WHITE) []"
  by (rule stage_weaken [OF stage_internal]) (rule lettering_drawing)

lemmas stage_rules = stage_Cons [OF stage_reset] stage_Cons [OF stage_draw_mode] stage_Cons [OF stage_box]
  stage_Cons [OF stage_borders] stage_Cons [OF stage_delay]
  stage_Cons [OF stage_comic_drawing] stage_Cons [OF stage_comic_typing]
  stage_Cons [OF stage_internal] stage_Cons [OF stage_internal_lettering]
  stage_Cons [OF stage_labels] stage_Cons [OF stage_items] stage_Cons [OF stage_size]
  stage_Cons [OF stage_white] stage_Cons [OF stage_item] stage_Cons [OF stage_copy] stage_Nil

section \<open>The screens show their layouts\<close>

text \<open>The boxes of the borders.\<close>

definition borders :: "LineSpec list \<Rightarrow> mark list" where
  "borders ls = map (\<lambda>l. Box (lx1 l) (ly1 l) (lx2 l) (ly2 l) COLOR_WHITE True) ls"

text \<open>The items of a screen are typed in white at triple size.\<close>

definition typed :: "item list \<Rightarrow> mark list" where
  "typed its = map (item_mark True FONT_SIZE_TRIPLE COLOR_WHITE) its"

primrec screen_marks :: "Screen_t \<Rightarrow> mark list" where
  "screen_marks SCREEN_MAIN_NO_LAPS = Wiped # Box 0 90 800 180 COLOR_RED True # borders mainBordersNoLaps @
     map label_mark no_laps_labels @ typed no_laps_items"
| "screen_marks SCREEN_MAIN_LAPS = Wiped # Box 0 170 800 240 COLOR_RED True # borders mainBordersLaps @
     map label_mark laps_labels @ typed laps_items"
| "screen_marks SCREEN_DEBUG_NO_RTD = Wiped # borders debugBordersNoRTD @
     map label_mark (debug_labels_1 @ debug_labels_2) @ typed debug_items"
| "screen_marks SCREEN_DEBUG_RTD = Wiped #
     Copied 0xC2 (0, layered 0 LAYER_OFFSCREEN) (0, layered 0 LAYER_DISPLAY) 800 400 #
     borders debugBordersRTD @ typed rtd_items"
| "screen_marks SCREEN_WARN = [Wiped, Box 0 0 800 480 COLOR_RED True,
     Chars True 290 200 FONT_SIZE_QUADRUPLE COLOR_WHITE ''WARNING'']"

lemma stage_main_laps: "stage any_sheet (Display_RenderMainScreen True) any_sheet (screen_marks SCREEN_MAIN_LAPS)"
proof -
  have e: "Display_RenderMainScreen True = seq [Display_ResetState, Display_EnableDrawMode,
      Display_DrawRect 0 170 800 240 COLOR_RED True, Display_DrawBorders mainBordersLaps,
      vTaskDelay (pdMS_TO_TICKS DEFAULT_DELAY), Display_EnableTextModeAndFont DISPLAY_FONT_COMIC_SANS,
      seq (map write_label laps_labels), Display_EnableTextModeAndFont DISPLAY_FONT_INTERNAL,
      seq (map write_item laps_items)]"
    by (simp only: Display_RenderMainScreen_def if_True laps_labels_def laps_items_def list.map
        write_label_def prod.case write_item.simps)
  show ?thesis
    unfolding e by (rule stage_post, (rule stage_rules)+) (simp_all add: any_sheet_def borders_def typed_def)
qed

lemma stage_main_no_laps: "stage any_sheet (Display_RenderMainScreen False) any_sheet (screen_marks SCREEN_MAIN_NO_LAPS)"
proof -
  have e: "Display_RenderMainScreen False = seq [Display_ResetState, Display_EnableDrawMode,
      Display_DrawRect 0 90 800 180 COLOR_RED True, Display_DrawBorders mainBordersNoLaps,
      vTaskDelay (pdMS_TO_TICKS DEFAULT_DELAY), Display_EnableTextModeAndFont DISPLAY_FONT_COMIC_SANS,
      seq (map write_label no_laps_labels), Display_EnableTextModeAndFont DISPLAY_FONT_INTERNAL,
      seq (map write_item no_laps_items)]"
    by (simp only: Display_RenderMainScreen_def if_False no_laps_labels_def no_laps_items_def list.map
        write_label_def prod.case write_item.simps)
  show ?thesis
    unfolding e by (rule stage_post, (rule stage_rules)+) (simp_all add: any_sheet_def borders_def typed_def)
qed

lemma stage_debug: "stage any_sheet Display_RenderStaticDebugScreen any_sheet (screen_marks SCREEN_DEBUG_NO_RTD)"
proof -
  have e: "Display_RenderStaticDebugScreen = seq (map seq [[Display_ResetState, Display_EnableDrawMode,
      Display_DrawBorders debugBordersNoRTD, Display_EnableTextModeAndFont DISPLAY_FONT_COMIC_SANS],
      map write_label debug_labels_1, [vTaskDelay (pdMS_TO_TICKS WATCHDOG_DELAY)],
      map write_label debug_labels_2, [Display_EnableTextModeAndFont DISPLAY_FONT_INTERNAL],
      map write_item debug_items])"
    unfolding seq_blocks [symmetric]
    by (simp only: Display_RenderStaticDebugScreen_def debug_labels_1_def debug_labels_2_def debug_items_def
        list.map concat.simps append.simps write_label_def prod.case write_item.simps)
  show ?thesis
    unfolding e list.map seq_single
    by (rule stage_post, (rule stage_rules stage_Cons)+) (simp_all add: any_sheet_def borders_def typed_def)
qed

lemma stage_rtd: "stage any_sheet Display_UsePrerenderedDebugRTD any_sheet (screen_marks SCREEN_DEBUG_RTD)"
proof -
  have e: "Display_UsePrerenderedDebugRTD = seq (map seq [[Display_ResetState,
      on_lcd (\<lambda>lcd. RA8875_bte_move lcd 0 0 LAYER_OFFSCREEN 0 0 LAYER_DISPLAY 800 400 0 0xC),
      Display_EnableDrawMode, Display_DrawBorders debugBordersRTD,
      Display_EnableTextModeAndFont DISPLAY_FONT_INTERNAL], map write_item rtd_items])"
    unfolding seq_blocks [symmetric]
    by (simp only: Display_UsePrerenderedDebugRTD_def rtd_items_def list.map concat.simps append.simps
        write_item.simps)
  show ?thesis
    unfolding e list.map seq_single
    by (rule stage_post, (rule stage_rules stage_Cons)+)
      (simp_all add: any_sheet_def borders_def typed_def move_opcode_def)
qed

lemma stage_warn: "stage any_sheet Display_Warn any_sheet (screen_marks SCREEN_WARN)"
proof -
  have e: "Display_Warn = seq [Display_ResetState, Display_EnableDrawMode,
      Display_DrawRect 0 0 800 480 COLOR_RED True, vTaskDelay (pdMS_TO_TICKS DEFAULT_DELAY),
      Display_EnableTextModeAndFont DISPLAY_FONT_INTERNAL, Display_InternalFontSize FONT_SIZE_QUADRUPLE,
      on_lcd Display_ForegroundWhite, write_item (Text_Item 290 200 ''WARNING'')]"
    by (simp only: Display_Warn_def write_item.simps)
  show ?thesis
    unfolding e by (rule stage_post, (rule stage_rules)+) (simp_all add: any_sheet_def)
qed

text \<open>The single colour registers, as \<open>Display_PrerenderDebugRTDLabels\<close> writes them.\<close>

definition tint :: "nat \<Rightarrow> u8 \<Rightarrow> u8 \<Rightarrow> u8" where
  "tint k v c = (c AND NOT (push_bit k (if k = 6 then 3 else 7))) OR push_bit k (v AND (if k = 6 then 3 else 7))"

lemma u8_eqI: "(\<And>n. n \<in> {0, 1, 2, 3, 4, 5, 6, 7} \<Longrightarrow> bit a n = bit b n) \<Longrightarrow> a = (b :: u8)"
proof (rule bit_word_eqI)
  fix n
  assume b: "\<And>n. n \<in> {0, 1, 2, 3, 4, 5, 6, 7} \<Longrightarrow> bit a n = bit b n"
  assume "n < LENGTH(8)"
  then have "n \<in> {0, 1, 2, 3, 4, 5, 6, 7}" by auto
  then show "bit a n = bit b n" by (rule b)
qed

lemma foreground_tint:
  "foreground (rs(0x63 := v)) = tint 0 v (foreground rs)" "foreground (rs(0x64 := v)) = tint 3 v (foreground rs)"
  "foreground (rs(0x65 := v)) = tint 6 v (foreground rs)"
proof -
  show "foreground (rs(0x63 := v)) = tint 0 v (foreground rs)"
    by (rule u8_eqI) (elim insertE emptyE; simp add: foreground_def tint_def bit_simps)
  show "foreground (rs(0x64 := v)) = tint 3 v (foreground rs)"
    by (rule u8_eqI) (elim insertE emptyE; simp add: foreground_def tint_def bit_simps)
  show "foreground (rs(0x65 := v)) = tint 6 v (foreground rs)"
    by (rule u8_eqI) (elim insertE emptyE; simp add: foreground_def tint_def bit_simps)
qed

lemma stage_tint:
  assumes "(r, k) \<in> {(0x63, 0), (0x64, 3), (0x65, 6)}"
  shows "stage (typing sz c) (on_lcd (\<lambda>lcd. write_regs lcd [(r, v)])) (typing sz (tint k v c)) []"
proof (rule stageI)
  show "simulates_when (typing sz c) (quiet_paper (pen_update (tint k v))) (on_lcd (\<lambda>lcd. write_regs lcd [(r, v)]))"
    by (rule simulates_whenI, rule simulates_regs)
      (use assms in \<open>auto simp: canvas_of_def reg16_def foreground_tint\<close>)
qed (simp add: quiet_paper_def on_paper_def typing_def)

lemmas stage_tints = stage_tint [of "0x63" 0, simplified] stage_tint [of "0x64" 3, simplified]
  stage_tint [of "0x65" 6, simplified]

text \<open>The hidden screen: the loading notice, the labels, and the copy of both to the other layer.\<close>

definition loading_colour :: u8 where
  "loading_colour = tint 6 3 (tint 3 0 (tint 0 0 COLOR_WHITE))"

definition prerender_marks :: "mark list" where
  "prerender_marks = [Wiped, Box 200 170 600 240 COLOR_RED True, Box 0 415 800 480 COLOR_YELLOW True,
     Chars True 40 430 FONT_SIZE_DOUBLE loading_colour ''<<< PLEASE WAIT >>>     Loading Cumic Sans... ''] @
     map label_mark (rtd_labels_1 @ rtd_labels_2) @
     [Copied 0xC2 (0, layered 0 LAYER_DISPLAY) (0, layered 0 LAYER_OFFSCREEN) 800 400]"

lemma stage_prerender: "stage any_sheet Display_PrerenderDebugRTDLabels any_sheet prerender_marks"
proof -
  have e: "Display_PrerenderDebugRTDLabels = seq (map seq [[Display_ResetState, Display_EnableDrawMode,
      Display_DrawRect 200 170 600 240 COLOR_RED True, Display_DrawRect 0 415 800 480 COLOR_YELLOW True,
      vTaskDelay (pdMS_TO_TICKS DEFAULT_DELAY), Display_EnableTextModeAndFont DISPLAY_FONT_INTERNAL,
      Display_InternalFontSize FONT_SIZE_DOUBLE, on_lcd (\<lambda>lcd. write_regs lcd [(0x63, 0x00)]),
      on_lcd (\<lambda>lcd. write_regs lcd [(0x64, 0x00)]), on_lcd (\<lambda>lcd. write_regs lcd [(0x65, 0x03)]),
      write_item (Text_Item 40 430 ''<<< PLEASE WAIT >>>     Loading Cumic Sans... ''),
      Display_EnableTextModeAndFont DISPLAY_FONT_COMIC_SANS],
      map write_label rtd_labels_1, [vTaskDelay (pdMS_TO_TICKS WATCHDOG_DELAY)], map write_label rtd_labels_2,
      [on_lcd (\<lambda>lcd. RA8875_bte_move lcd 0 0 LAYER_DISPLAY 0 0 LAYER_OFFSCREEN 800 400 0 0xC)]])"
    unfolding seq_blocks [symmetric]
    by (simp only: Display_PrerenderDebugRTDLabels_def rtd_labels_1_def rtd_labels_2_def list.map
        concat.simps append.simps append_Nil2 write_label_def prod.case write_item.simps)
  show ?thesis
    unfolding e list.map seq_single
    by (rule stage_post, (rule stage_rules stage_Cons [OF stage_tints(1)] stage_Cons [OF stage_tints(2)]
        stage_Cons [OF stage_tints(3)] stage_Cons)+)
      (simp_all add: any_sheet_def prerender_marks_def loading_colour_def move_opcode_def)
qed

section \<open>Switching screens\<close>

lemma stage_screen: "stage any_sheet
   (case scr of
      SCREEN_MAIN_NO_LAPS \<Rightarrow> Display_RenderMainScreen False
    | SCREEN_MAIN_LAPS \<Rightarrow> Display_RenderMainScreen True
    | SCREEN_DEBUG_NO_RTD \<Rightarrow> Display_RenderStaticDebugScreen
    | SCREEN_DEBUG_RTD \<Rightarrow> Display_UsePrerenderedDebugRTD
    | SCREEN_WARN \<Rightarrow> Display_Warn) any_sheet (screen_marks scr)"
  by (cases scr) (simp_all only: Screen_t.case stage_main_no_laps stage_main_laps stage_debug stage_rtd stage_warn)

lemma set_screen:
  "display_ready s \<Longrightarrow> display_ready (s\<lparr>CURRENT_SCREEN := scr\<rparr>)"
  "panel_of (s\<lparr>CURRENT_SCREEN := scr\<rparr>) = panel_of s"
  by (simp_all add: display_ready_def port_ready_def bus_ready_def panel_of_def ops_def split: option.splits)

lemma switch_screen_runs:
  fixes s :: "('h, 'a) display_scheme"
  assumes ready: "display_ready s"
  shows "\<exists>s' fs. Display_SwitchScreen scr s = Inr s' \<and> display_ready s' \<and> CURRENT_SCREEN s' = scr \<and>
    figs (panel_of s') = figs (panel_of s) @ fs \<and>
    (if CURRENT_SCREEN s = scr then s' = s \<and> fs = [] else depicts (screen_marks scr) fs) \<and>
    gpio s' = gpio s \<and> environ s' = environ s \<and> display.more s' = display.more s"
proof (cases "CURRENT_SCREEN s = scr")
  case True
  then show ?thesis using ready by (simp add: Display_SwitchScreen_def)
next
  case False
  let ?c = "(case scr of SCREEN_MAIN_NO_LAPS \<Rightarrow> Display_RenderMainScreen False
    | SCREEN_MAIN_LAPS \<Rightarrow> Display_RenderMainScreen True
    | SCREEN_DEBUG_NO_RTD \<Rightarrow> Display_RenderStaticDebugScreen
    | SCREEN_DEBUG_RTD \<Rightarrow> Display_UsePrerenderedDebugRTD
    | SCREEN_WARN \<Rightarrow> Display_Warn) :: ('h, 'a) display_stmt"
  obtain s1 where s1: "?c s = Inr s1" "staged any_sheet (screen_marks scr) s s1"
    using stage_screen [of scr] ready by (auto simp: stage_def any_sheet_def)
  have "Display_SwitchScreen scr s = Inr (s1\<lparr>CURRENT_SCREEN := scr\<rparr>)"
    using False s1(1) by (simp add: Display_SwitchScreen_def)
  then show ?thesis
    using s1(2) False set_screen [where s = s1] by (auto simp: staged_def keeps_def)
qed

text \<open>
  C5: \<open>Display_SwitchScreen\<close> makes the given screen current and asks the panel for
  exactly the layout of that screen, figure by figure; when the screen is already current nothing
  is drawn.
\<close>

theorem switch_screen_shows_layout:
  fixes s :: "('h, 'a) display_scheme"
  assumes ready: "display_ready s"
  shows "\<exists>s' fs. Display_SwitchScreen scr s = Inr s' \<and> display_ready s' \<and> CURRENT_SCREEN s' = scr \<and>
    figs (panel_of s') = figs (panel_of s) @ fs \<and>
    (if CURRENT_SCREEN s = scr then s' = s \<and> fs = [] else depicts (screen_marks scr) fs)"
  using switch_screen_runs [OF ready, of scr] by blast

lemma switch_screen_shows_layout_witness:
  "\<exists>s' fs. Display_SwitchScreen SCREEN_WARN demo_display = Inr s' \<and> CURRENT_SCREEN s' = SCREEN_WARN \<and>
     figs (panel_of s') = figs (panel_of demo_display) @ fs \<and> depicts (screen_marks SCREEN_WARN) fs"
  using switch_screen_shows_layout [OF demo_display_ready(1), of SCREEN_WARN] demo_display_ready(2) by auto

end
