(* ===== verification/Layout.thy ===== *)
theory Layout
  imports Screens
begin

text \<open>
  Where the figures of the screens lie. Every figure covers a region of pixels: a rectangle includes
  both of its corners, a character of the built-in font is 8 by 16 pixels, scaled as its size
  register says, and stands behind the characters sent before it. The regions of the figures are
  compared with the panel and with each other: which rectangles reach beyond the panel, which texts
  overlap, and that the region which \<open>Display_PrerenderDebugRTDLabels\<close> copies to the hidden layer holds
  all of its labels. The layouts of \<open>Screens\<close> are evaluated for this; what the figures are comes from
  the theorems about the code.
\<close>

section \<open>Regions\<close>

text \<open>Left, top, right and bottom, the last two exclusive.\<close>

type_synonym region = "int \<times> int \<times> int \<times> int"

definition inside :: "region \<Rightarrow> region \<Rightarrow> bool" where
  "inside a b = (case (a, b) of ((l, t, r, b), (l', t', r', b')) \<Rightarrow>
     l' \<le> l \<and> l < r \<and> r \<le> r' \<and> t' \<le> t \<and> t < b \<and> b \<le> b')"

definition overlap :: "region \<Rightarrow> region \<Rightarrow> bool" where
  "overlap a b = (case (a, b) of ((l, t, r, b), (l', t', r', b')) \<Rightarrow>
     l < r' \<and> l' < r \<and> t < b' \<and> t' < b)"

lemma inside_trans: "inside a b \<Longrightarrow> inside b c \<Longrightarrow> inside a c"
  by (auto simp: inside_def split: prod.splits)

lemma overlap_inside: "inside a c \<Longrightarrow> inside b d \<Longrightarrow> overlap a b \<Longrightarrow> overlap c d"
  by (auto simp: inside_def overlap_def split: prod.splits)

abbreviation panel_region :: region where "panel_region \<equiv> (0, 0, 800, 480)"

text \<open>A character of the built-in font is scaled by the size register.\<close>

definition h_scale :: "u8 \<Rightarrow> int" where "h_scale sz = uint (drop_bit 2 sz AND 3) + 1"
definition v_scale :: "u8 \<Rightarrow> int" where "v_scale sz = uint (sz AND 3) + 1"

definition cell :: "u16 \<Rightarrow> u16 \<Rightarrow> u8 \<Rightarrow> nat \<Rightarrow> region" where
  "cell x y sz i = (uint x + 8 * h_scale sz * int i, uint y,
     uint x + 8 * h_scale sz * (int i + 1), uint y + 16 * v_scale sz)"

text \<open>
  The region of a figure that is the \<open>i\<close>-th of its text; a byte of pixel data sent by accident lies
  nowhere.
\<close>

fun fig_region :: "nat \<Rightarrow> figure \<Rightarrow> region" where
  "fig_region i (Rect x1 y1 x2 y2 c filled) = (uint x1, uint y1, uint x2 + 1, uint y2 + 1)"
| "fig_region i (Bte_Op op src dst w h c) =
     (uint (fst dst), uint (snd dst AND 0x7FFF), uint (fst dst) + uint w, uint (snd dst AND 0x7FFF) + uint h)"
| "fig_region i (Clear_Layer part) = panel_region"
| "fig_region i (Text_Byte x y sz c ch) = cell x y sz i"
| "fig_region i (Pixel_Byte v) = (0, 0, 0, 0)"

text \<open>
  The regions of the figures that draw a mark. Of a whole number only the first digit is counted,
  since the program does not determine how many there are.
\<close>

fun settled :: "mark \<Rightarrow> figure list \<Rightarrow> figure list" where
  "settled (Number t x y sz c) fs = take 1 fs"
| "settled _ fs = fs"

definition regions :: "mark \<Rightarrow> figure list \<Rightarrow> region list" where
  "regions m fs = map (\<lambda>(i, fig). fig_region i fig) (enumerate 0 (settled m fs))"

section \<open>The layout\<close>

text \<open>The characters of the bitmap font, and the advance of each.\<close>

definition glyph_chars :: string where
  "glyph_chars = '' %.0123456789ABCDEFGHIJKLMNOPQRSTUVWXYZabcdefghijklmnopqrstuvwxyz''"

definition advance :: "char \<Rightarrow> int" where
  "advance c = (if c = CHR '' '' then 12 else if c \<in> set ''li'' then 13 else if c \<in> set ''org'' then 15
     else if c \<in> set ''amN'' then 17 else if c \<in> set ''MG'' then 18 else 16)"

fun label_width :: "string \<Rightarrow> int" where
  "label_width [] = 0"
| "label_width [c] = 16"
| "label_width (c # cs) = advance c + label_width cs"

fun mark_regions :: "mark \<Rightarrow> region list" where
  "mark_regions Wiped = [panel_region]"
| "mark_regions (Box x1 y1 x2 y2 c filled) = [(uint x1, uint y1, uint x2 + 1, uint y2 + 1)]"
| "mark_regions (Copied op src dst w h) =
     [(uint (fst dst), uint (snd dst AND 0x7FFF), uint (fst dst) + uint w, uint (snd dst AND 0x7FFF) + uint h)]"
| "mark_regions (Glyphs x y msg) = [(uint x, uint y, uint x + label_width msg, uint y + 32)]"
| "mark_regions (Chars t x y sz c msg) = map (cell x y sz) [0..<length msg]"
| "mark_regions (Number t x y sz c) = [cell x y sz 0]"

fun label_chars :: "mark \<Rightarrow> string" where
  "label_chars (Glyphs x y msg) = msg"
| "label_chars _ = []"

fun has_label :: "mark \<Rightarrow> bool" where
  "has_label (Glyphs x y msg) = True"
| "has_label _ = False"

fun is_text :: "mark \<Rightarrow> bool" where
  "is_text (Glyphs x y msg) = True"
| "is_text (Chars t x y sz c msg) = True"
| "is_text (Number t x y sz c) = True"
| "is_text _ = False"

fun text_at :: "mark \<Rightarrow> u16 \<times> u16" where
  "text_at (Glyphs x y msg) = (x, y)"
| "text_at (Chars t x y sz c msg) = (x, y)"
| "text_at (Number t x y sz c) = (x, y)"
| "text_at _ = (0, 0)"

text \<open>The pairs of texts that overlap, by where they begin, in the order of drawing.\<close>

definition touching :: "region list \<Rightarrow> region list \<Rightarrow> bool" where
  "touching rs qs = list_ex (\<lambda>a. list_ex (overlap a) qs) rs"

fun clashes :: "(mark \<times> region list) list \<Rightarrow> ((u16 \<times> u16) \<times> (u16 \<times> u16)) list" where
  "clashes [] = []"
| "clashes (g # gs) = map (\<lambda>h. (text_at (fst g), text_at (fst h)))
     (filter (\<lambda>h. is_text (fst g) \<and> is_text (fst h) \<and> touching (snd g) (snd h)) gs) @ clashes gs"

definition with_regions :: "mark list \<Rightarrow> figure list list \<Rightarrow> (mark \<times> region list) list" where
  "with_regions ms fss = map2 (\<lambda>m fs. (m, regions m fs)) ms fss"

text \<open>The rectangles that name column 800 or row 480, the first ones beyond the panel.\<close>

primrec overhanging :: "Screen_t \<Rightarrow> mark list" where
  "overhanging SCREEN_MAIN_NO_LAPS = [Box 0 90 800 180 COLOR_RED True, Box 0 180 800 181 COLOR_WHITE True,
     Box 0 360 800 361 COLOR_WHITE True, Box 266 360 267 480 COLOR_WHITE True,
     Box 533 360 534 480 COLOR_WHITE True]"
| "overhanging SCREEN_MAIN_LAPS = [Box 0 170 800 240 COLOR_RED True, Box 0 120 800 121 COLOR_WHITE True,
     Box 0 240 800 241 COLOR_WHITE True, Box 0 360 800 361 COLOR_WHITE True,
     Box 266 360 267 480 COLOR_WHITE True, Box 533 360 534 480 COLOR_WHITE True]"
| "overhanging SCREEN_DEBUG_NO_RTD = [Box 0 120 800 121 COLOR_WHITE True, Box 0 240 800 241 COLOR_WHITE True,
     Box 0 360 800 361 COLOR_WHITE True, Box 200 0 201 480 COLOR_WHITE True,
     Box 400 0 401 480 COLOR_WHITE True, Box 600 0 601 480 COLOR_WHITE True]"
| "overhanging SCREEN_DEBUG_RTD = [Box 0 120 800 121 COLOR_WHITE True, Box 0 240 800 241 COLOR_WHITE True,
     Box 0 360 800 361 COLOR_WHITE True, Box 200 0 201 480 COLOR_WHITE True,
     Box 400 360 401 480 COLOR_WHITE True, Box 600 0 601 480 COLOR_WHITE True,
     Box 700 360 701 480 COLOR_WHITE True]"
| "overhanging SCREEN_WARN = [Box 0 0 800 480 COLOR_RED True]"

text \<open>
  The texts that overlap: on the debug screens the mark between a value and its index begins before
  the digit ends, and on the first of them it ends after the index begins.
\<close>

primrec collisions :: "Screen_t \<Rightarrow> ((u16 \<times> u16) \<times> (u16 \<times> u16)) list" where
  "collisions SCREEN_MAIN_NO_LAPS = []"
| "collisions SCREEN_MAIN_LAPS = []"
| "collisions SCREEN_DEBUG_NO_RTD = [((30, 415), (50, 415)), ((50, 415), (120, 415)),
     ((230, 415), (250, 415)), ((250, 415), (320, 415))]"
| "collisions SCREEN_DEBUG_RTD = [((20, 415), (40, 415)), ((220, 415), (240, 415))]"
| "collisions SCREEN_WARN = []"

text \<open>What is evaluated of a layout. Labels take part in no overlap.\<close>

fun labels_free :: "(mark \<times> region list) list \<Rightarrow> bool" where
  "labels_free [] = True"
| "labels_free (g # gs) = (list_all (\<lambda>h. (has_label (fst g) \<or> has_label (fst h)) \<and>
     is_text (fst g) \<and> is_text (fst h) \<longrightarrow> \<not> touching (snd g) (snd h)) gs \<and> labels_free gs)"

definition mark_map :: "mark list \<Rightarrow> (mark \<times> region list) list" where
  "mark_map ms = map (\<lambda>m. (m, mark_regions m)) ms"

definition placed :: "region \<Rightarrow> mark \<Rightarrow> bool" where
  "placed r m = list_all (\<lambda>a. inside a r) (mark_regions m)"

definition legible :: "mark list \<Rightarrow> bool" where
  "legible ms = (list_all (placed (0, 0, 801, 481)) ms \<and> labels_free (mark_map ms) \<and>
     list_all (\<lambda>m. list_all (\<lambda>c. c \<in> set glyph_chars) (label_chars m)) ms)"

lemma glyph_chars_defined:
  assumes "c \<in> set glyph_chars"
  shows "glyphs (of_char c) \<noteq> None"
proof -
  have "list_all (\<lambda>c. (of_char c :: nat) \<in> set (map fst (glyphs_digits @ glyphs_upper_1 @ glyphs_upper_2 @
      glyphs_lower_1 @ glyphs_lower_2))) glyph_chars"
    by (simp add: glyph_chars_def glyph_table_defs)
  then have "(of_char c :: nat) \<in> set (map fst (glyphs_digits @ glyphs_upper_1 @ glyphs_upper_2 @
      glyphs_lower_1 @ glyphs_lower_2))"
    using assms unfolding list_all_iff by blast
  then show ?thesis
    unfolding glyphs_def map_of_eq_None_iff set_map by blast
qed

lemma char_code: "(of_char c :: nat) = of_char d \<longleftrightarrow> c = d"
  by simp

lemma advance_char: "int (glyphAdvanceComicSans (of_char c)) = advance c"
  using char_code [of c "CHR '' ''"] char_code [of c "CHR ''l''"] char_code [of c "CHR ''i''"]
    char_code [of c "CHR ''o''"] char_code [of c "CHR ''r''"] char_code [of c "CHR ''g''"]
    char_code [of c "CHR ''a''"] char_code [of c "CHR ''m''"] char_code [of c "CHR ''N''"]
    char_code [of c "CHR ''M''"] char_code [of c "CHR ''G''"]
  by (simp add: glyphAdvanceComicSans_def advance_def del: of_char_eq_iff)

lemmas layout_defs = borders_def typed_def label_mark_def line_def
  mainBordersNoLaps_def mainBordersLaps_def debugBordersRTD_def debugBordersNoRTD_def
  laps_labels_def no_laps_labels_def debug_labels_1_def debug_labels_2_def rtd_labels_1_def rtd_labels_2_def
  laps_items_def no_laps_items_def debug_items_def rtd_items_def

text \<open>The zero that every value starts with, as text.\<close>

lemma zero_items:
  "item_mark t sz c (Float_Item x y False float_zero) = Chars t x y sz c ''0.00''"
  "item_mark t sz c (Float_Item x y True float_zero) = Chars t x y sz c ''0.00000''"
  by (simp_all add: print_zero snprintf_text_def)

lemmas typed_simps = typed_def laps_items_def no_laps_items_def debug_items_def rtd_items_def list.map
  zero_items item_mark.simps(1,3)

lemma legible_main_laps: "legible (screen_marks SCREEN_MAIN_LAPS)"
  unfolding screen_marks.simps typed_simps by code_simp
lemma collisions_main_laps: "clashes (mark_map (screen_marks SCREEN_MAIN_LAPS)) = collisions SCREEN_MAIN_LAPS"
  unfolding screen_marks.simps typed_simps by code_simp
lemma overhang_main_laps: "list_all (\<lambda>m. placed panel_region m = (m \<notin> set (overhanging SCREEN_MAIN_LAPS)))
    (screen_marks SCREEN_MAIN_LAPS) \<and> list_all (\<lambda>m. \<not> has_label m) (overhanging SCREEN_MAIN_LAPS)"
  unfolding screen_marks.simps typed_simps by code_simp
lemma legible_main_no_laps: "legible (screen_marks SCREEN_MAIN_NO_LAPS)"
  unfolding screen_marks.simps typed_simps by code_simp
lemma collisions_main_no_laps: "clashes (mark_map (screen_marks SCREEN_MAIN_NO_LAPS)) = collisions SCREEN_MAIN_NO_LAPS"
  unfolding screen_marks.simps typed_simps by code_simp
lemma overhang_main_no_laps: "list_all (\<lambda>m. placed panel_region m = (m \<notin> set (overhanging SCREEN_MAIN_NO_LAPS)))
    (screen_marks SCREEN_MAIN_NO_LAPS) \<and> list_all (\<lambda>m. \<not> has_label m) (overhanging SCREEN_MAIN_NO_LAPS)"
  unfolding screen_marks.simps typed_simps by code_simp
lemma legible_debug: "legible (screen_marks SCREEN_DEBUG_NO_RTD)"
  unfolding screen_marks.simps typed_simps by code_simp
lemma collisions_debug: "clashes (mark_map (screen_marks SCREEN_DEBUG_NO_RTD)) = collisions SCREEN_DEBUG_NO_RTD"
  unfolding screen_marks.simps typed_simps by code_simp
lemma overhang_debug: "list_all (\<lambda>m. placed panel_region m = (m \<notin> set (overhanging SCREEN_DEBUG_NO_RTD)))
    (screen_marks SCREEN_DEBUG_NO_RTD) \<and> list_all (\<lambda>m. \<not> has_label m) (overhanging SCREEN_DEBUG_NO_RTD)"
  unfolding screen_marks.simps typed_simps by code_simp
lemma legible_rtd: "legible (screen_marks SCREEN_DEBUG_RTD)"
  unfolding screen_marks.simps typed_simps by code_simp
lemma collisions_rtd: "clashes (mark_map (screen_marks SCREEN_DEBUG_RTD)) = collisions SCREEN_DEBUG_RTD"
  unfolding screen_marks.simps typed_simps by code_simp
lemma overhang_rtd: "list_all (\<lambda>m. placed panel_region m = (m \<notin> set (overhanging SCREEN_DEBUG_RTD)))
    (screen_marks SCREEN_DEBUG_RTD) \<and> list_all (\<lambda>m. \<not> has_label m) (overhanging SCREEN_DEBUG_RTD)"
  unfolding screen_marks.simps typed_simps by code_simp
lemma legible_warn: "legible (screen_marks SCREEN_WARN)"
  unfolding screen_marks.simps typed_simps by code_simp
lemma collisions_warn: "clashes (mark_map (screen_marks SCREEN_WARN)) = collisions SCREEN_WARN"
  unfolding screen_marks.simps typed_simps by code_simp
lemma overhang_warn: "list_all (\<lambda>m. placed panel_region m = (m \<notin> set (overhanging SCREEN_WARN)))
    (screen_marks SCREEN_WARN) \<and> list_all (\<lambda>m. \<not> has_label m) (overhanging SCREEN_WARN)"
  unfolding screen_marks.simps typed_simps by code_simp
lemma legible_prerender: "legible prerender_marks"
  by code_simp
lemma clashes_prerender: "clashes (mark_map prerender_marks) = []"
  by code_simp

section \<open>Figures in their regions\<close>

lemma glyph_chars_Cons: "list_all (\<lambda>c. c \<in> set glyph_chars) (c # cs) \<Longrightarrow>
  \<exists>g. glyphs (of_char c) = Some g \<and> list_all (\<lambda>c. c \<in> set glyph_chars) cs"
  using glyph_chars_defined [of c] by auto

text \<open>The rows of a glyph that may be lit: \<open>rows\<close> is one more than the last.\<close>

definition glyph_rows :: "nat \<Rightarrow> u8 list \<Rightarrow> bool" where
  "glyph_rows rows g \<longleftrightarrow> (\<forall>r. rows \<le> r \<longrightarrow> r < 16 \<longrightarrow> g ! r = 0)"

lemma span_rows:
  assumes "glyph_rows rows g" "(a, b) \<in> set (spans (unpack_glyph g) col 0)" "col < 8"
  shows "b \<le> rows"
proof (rule ccontr)
  assume "\<not> b \<le> rows"
  moreover have b: "a < b" "b \<le> 16"
    using spans_bounds [OF assms(2)] by simp_all
  ultimately have "g ! (b - 1) = 0"
    using assms(1) by (simp add: glyph_rows_def)
  moreover have "pixel (unpack_glyph g) (b - 1) col"
    using spans_lit [of "unpack_glyph g" col 0 "b - 1"] assms(2) b by fastforce
  ultimately show False
    using pixel_unpack [of "b - 1" col g, OF _ assms(3)] less_le_trans [OF _ b(2), of "b - 1"] b(1) by simp
qed

lemma uint_add_nat: "uint x + int n < 65536 \<Longrightarrow> uint (x + of_nat n) = uint (x :: u16) + int n"
proof -
  assume x: "uint x + int n < 65536"
  then have "n < 65536"
    using uint_ge_0 [of x] by linarith
  with x show ?thesis
    by (simp add: uint_word_ariths unsigned_of_nat take_bit_eq_mod)
qed

lemma span_inside:
  assumes g: "glyph_rows rows g" and ab: "(a, b) \<in> set (spans (unpack_glyph g) col 0)" and col: "col < 8"
    and w: "uint x + 16 \<le> 60000" and h: "uint y + 2 * int rows \<le> 60000"
  shows "inside (fig_region i (span_rect x y col (a, b) c))
    (uint x, uint y, uint x + 16, uint y + 2 * int rows)"
proof -
  have b: "a < b" "b \<le> 16" "b \<le> rows"
    using spans_bounds [OF ab] span_rows [OF g ab col] by simp_all
  have x1: "uint (x + of_nat (col * 2)) = uint x + int (col * 2)"
    using w col by (intro uint_add_nat) simp
  have "x + of_nat (col * 2) + of_nat 2 - 1 = x + of_nat (col * 2 + 1)"
    by simp
  then have x2: "uint (x + of_nat (col * 2) + of_nat 2 - 1) = uint x + int (col * 2 + 1)"
    using w col by (simp only:) (rule uint_add_nat, simp)
  have y1: "uint (y + of_nat (a * 2)) = uint y + int (a * 2)"
    using h b by (intro uint_add_nat) simp
  have y2: "uint (y + of_nat ((b - 1) * 2 + 2 - 1)) = uint y + int ((b - 1) * 2 + 2 - 1)"
    using h b by (intro uint_add_nat) simp
  show ?thesis
    unfolding inside_def span_rect_def GLYPH_SCALE_def fst_conv snd_conv fig_region.simps x1 x2 y1 y2
    using b col w h by auto
qed

lemma label_width_Cons: "16 \<le> label_width (c # cs)"
proof (induction cs arbitrary: c)
  case (Cons d ds)
  have "0 \<le> advance c" by (simp add: advance_def)
  then show ?case using Cons [of d] by simp
qed simp

lemma glyph_text_inside:
  assumes "list_all (\<lambda>c. c \<in> set glyph_chars) msg" "uint x + label_width msg \<le> 60000"
    "uint y + 2 * int rows \<le> 60000"
    "\<And>c g. c \<in> set msg \<Longrightarrow> glyphs (of_char c) = Some g \<Longrightarrow> glyph_rows rows g"
    "fig \<in> set (glyph_text msg x y)"
  shows "inside (fig_region i fig) (uint x, uint y, uint x + label_width msg, uint y + 2 * int rows)"
  using assms
proof (induction msg arbitrary: x)
  case (Cons c cs)
  then obtain g where g: "glyphs (of_char c) = Some g" "list_all (\<lambda>c. c \<in> set glyph_chars) cs"
    using glyph_chars_Cons by blast
  let ?x = "x + of_nat (glyphAdvanceComicSans (of_char c))"
  have width: "16 \<le> label_width (c # cs)" by (rule label_width_Cons)
  from Cons.prems(5) g(1) consider (first) "fig \<in> set (glyph_figs x y (unpack_glyph g) COLOR_WHITE)"
    | (rest) "fig \<in> set (glyph_text cs ?x y)" by auto
  then show ?case
  proof cases
    case first
    have r: "glyph_rows rows g"
      using Cons.prems(4) [OF _ g(1)] by simp
    have x: "uint x + 16 \<le> 60000"
      using Cons.prems(2) width by linarith
    obtain col a b where ab: "(a, b) \<in> set (spans (unpack_glyph g) col 0)" "col < 8"
        "fig = span_rect x y col (a, b) COLOR_WHITE"
      using first by (auto simp: glyph_figs_def glyph_spans_def)
    have "inside (fig_region i fig) (uint x, uint y, uint x + 16, uint y + 2 * int rows)"
      unfolding ab(3) by (rule span_inside [OF r ab(1,2) x Cons.prems(3)])
    then show ?thesis
      using width by (auto simp: inside_def)
  next
    case rest
    then obtain d ds where ds: "cs = d # ds" by (cases cs) auto
    have adv: "12 \<le> advance c" "advance c \<le> 18"
      by (simp_all add: advance_def)
    have step: "uint ?x = uint x + advance c"
      using Cons.prems(2) adv label_width_Cons [of d ds] ds
      by (subst uint_add_nat) (auto simp: advance_char)
    have "inside (fig_region i fig) (uint ?x, uint y, uint ?x + label_width cs, uint y + 2 * int rows)"
      by (rule Cons.IH) (use Cons.prems g rest step ds in auto)
    then show ?thesis
      using adv step ds by (auto simp: inside_def)
  qed
qed simp

fun texted :: "mark \<Rightarrow> bool" where
  "texted (Chars t x y sz c msg) = t"
| "texted (Number t x y sz c) = t"
| "texted _ = True"

lemma any_rows: "glyph_rows 16 g"
  by (simp add: glyph_rows_def)

lemma regions_Nil [simp]: "regions m [] = []"
  by (cases m) (simp_all add: regions_def)

lemma regions_single: "settled m [fig] = [fig] \<Longrightarrow> regions m [fig] = [fig_region 0 fig]"
  by (simp add: regions_def)

lemma regions_chars: "regions (Chars t x y sz c msg) (panel_chars True x y sz c msg) = map (cell x y sz) [0..<length msg]"
  by (rule nth_equalityI) (simp_all add: regions_def panel_chars_def nth_enumerate_eq)

lemma dec_not_Nil: "dec n \<noteq> []"
  by (simp add: dec.simps [of n])

lemma regions_number:
  "regions (Number t x y sz c) (panel_chars True x y sz c (take 7 (dec_int i))) = [cell x y sz 0]"
proof -
  obtain d ds where "dec_int i = d # ds"
    using dec_not_Nil by (cases "dec_int i") (auto simp: dec_int_def)
  then show ?thesis
    by (simp add: regions_def panel_chars_def take_Cons')
qed

text \<open>What a mark draws covers the regions of the mark, or for a label lies in its one region.\<close>

lemma regions_exact:
  assumes "draws m fs" "texted m" "\<not> has_label m"
  shows "regions m fs = mark_regions m"
  using assms by (cases m) (auto simp: regions_single regions_chars regions_number)

lemma regions_inside:
  assumes "draws m fs" "texted m" "list_all (\<lambda>c. c \<in> set glyph_chars) (label_chars m)"
    "placed (0, 0, 801, 481) m" "a \<in> set (regions m fs)"
  shows "\<exists>b \<in> set (mark_regions m). a = b \<or> inside a b"
proof (cases "has_label m")
  case False
  then show ?thesis using regions_exact [OF assms(1,2)] assms(5) by auto
next
  case True
  then obtain x y msg where m: "m = Glyphs x y msg" by (cases m) auto
  obtain i fig where "a = fig_region i fig" "fig \<in> set (glyph_text msg x y)"
    using assms(1,5) by (auto simp: m regions_def enumerate_eq_zip set_zip)
  moreover have "uint x + label_width msg \<le> 60000" "uint y + 2 * int 16 \<le> 60000"
    using assms(4) by (simp_all add: m placed_def inside_def)
  ultimately have "inside a (uint x, uint y, uint x + label_width msg, uint y + 2 * int 16)"
    using glyph_text_inside [OF _ _ _ any_rows] assms(3) by (simp add: m)
  then show ?thesis by (simp add: m)
qed

lemma texted_typed: "list_all texted (typed its)"
proof -
  have "texted (item_mark True sz c it)" for sz c it
    by (cases it) simp_all
  then show ?thesis by (simp add: typed_def list_all_iff)
qed

lemma texted_borders: "list_all texted (borders ls)"
  by (simp add: borders_def list_all_iff)

lemma texted_labels: "list_all texted (map label_mark ls)"
  by (auto simp: list_all_iff label_mark_def split: prod.splits)

lemma screen_texted: "list_all texted (screen_marks scr)"
  by (cases scr) (simp_all only: screen_marks.simps list.pred_inject list_all_append texted.simps texted_typed
      texted_borders texted_labels simp_thms)

lemma screen_legible: "legible (screen_marks scr)"
  by (cases scr) (simp_all only: legible_main_laps legible_main_no_laps legible_debug legible_rtd legible_warn)

lemma screen_collisions: "clashes (mark_map (screen_marks scr)) = collisions scr"
  by (cases scr) (simp_all only: collisions_main_laps collisions_main_no_laps collisions_debug
      collisions_rtd collisions_warn)

lemma screen_overhang: "list_all (\<lambda>m. placed panel_region m = (m \<notin> set (overhanging scr))) (screen_marks scr) \<and>
    list_all (\<lambda>m. \<not> has_label m) (overhanging scr)"
  by (cases scr) (simp_all only: overhang_main_laps overhang_main_no_laps overhang_debug
      overhang_rtd overhang_warn simp_thms)

lemma depicts_groups: "depicts ms fs \<Longrightarrow> \<exists>fss. fs = concat fss \<and> list_all2 draws ms fss"
proof (induction ms arbitrary: fs)
  case (Cons m ms)
  then obtain as bs where fs: "fs = as @ bs" "draws m as" "depicts ms bs" by auto
  then obtain fss where "bs = concat fss" "list_all2 draws ms fss"
    using Cons.IH by blast
  then have "fs = concat (as # fss) \<and> list_all2 draws (m # ms) (as # fss)"
    using fs by simp
  then show ?case by blast
qed simp

lemma draws_placed:
  assumes "draws m fs" "texted m" "list_all (\<lambda>c. c \<in> set glyph_chars) (label_chars m)"
    "placed (0, 0, 801, 481) m" "placed r m"
  shows "list_all (\<lambda>a. inside a r) (regions m fs)"
  unfolding list_all_iff
proof
  fix a assume "a \<in> set (regions m fs)"
  then obtain b where "b \<in> set (mark_regions m)" "a = b \<or> inside a b"
    using regions_inside [OF assms(1-4)] by blast
  then show "inside a r"
    using assms(5) inside_trans [of a b r] by (auto simp only: list_all_iff placed_def)
qed

lemma legibleD:
  assumes "legible ms" "m \<in> set ms"
  shows "placed (0, 0, 801, 481) m" "list_all (\<lambda>c. c \<in> set glyph_chars) (label_chars m)"
  using assms by (simp_all add: legible_def list_all_iff)

lemma screen_mark_on_panel:
  assumes "m \<in> set (screen_marks scr)" "draws m fs"
  shows "list_all (\<lambda>a. inside a (0, 0, 801, 481)) (regions m fs)"
    "list_all (\<lambda>a. inside a panel_region) (regions m fs) \<longleftrightarrow> m \<notin> set (overhanging scr)"
proof -
  have m: "texted m" "placed panel_region m \<longleftrightarrow> m \<notin> set (overhanging scr)"
      "m \<in> set (overhanging scr) \<Longrightarrow> \<not> has_label m"
    using screen_texted [of scr] screen_overhang [of scr] assms(1) by (simp_all add: list_all_iff)
  note leg = legibleD [OF screen_legible assms(1)]
  show "list_all (\<lambda>a. inside a (0, 0, 801, 481)) (regions m fs)"
    by (rule draws_placed [OF assms(2) m(1) leg(2,1,1)])
  show "list_all (\<lambda>a. inside a panel_region) (regions m fs) \<longleftrightarrow> m \<notin> set (overhanging scr)"
  proof (cases "m \<in> set (overhanging scr)")
    case True
    then have "regions m fs = mark_regions m"
      using m(3) regions_exact [OF assms(2) m(1)] by simp
    then show ?thesis
      using m(2) True by (simp add: placed_def)
  next
    case False
    then show ?thesis
      using draws_placed [OF assms(2) m(1) leg(2,1)] m(2) by simp
  qed
qed

lemma switch_screen_groups:
  fixes s :: "('h, 'a) display_scheme"
  assumes ready: "display_ready s"
  shows "\<exists>s' fss. Display_SwitchScreen scr s = Inr s' \<and> figs (panel_of s') = figs (panel_of s) @ concat fss \<and>
    list_all2 draws (if CURRENT_SCREEN s = scr then [] else screen_marks scr) fss"
proof -
  obtain s' fs where s': "Display_SwitchScreen scr s = Inr s'" "figs (panel_of s') = figs (panel_of s) @ fs"
      "if CURRENT_SCREEN s = scr then s' = s \<and> fs = [] else depicts (screen_marks scr) fs"
    using switch_screen_runs [OF ready, of scr] by blast
  then obtain fss where "fs = concat fss"
      "list_all2 draws (if CURRENT_SCREEN s = scr then [] else screen_marks scr) fss"
    using depicts_groups [of "screen_marks scr" fs] by (cases "CURRENT_SCREEN s = scr") force+
  with s' show ?thesis by blast
qed

text \<open>
  C12: A switch of screens draws the marks of the layout one after the other, and every figure
  lies on the panel of 800 by 480 pixels, each character of a text in its own place, except
  exactly the rectangles listed in \<open>overhanging\<close>: these name column 800 or row 480,
  the first beyond the panel. Of a whole number only the first digit is counted.
\<close>

theorem switch_screen_on_panel:
  fixes s :: "('h, 'a) display_scheme"
  assumes ready: "display_ready s"
  shows "\<exists>s' fss. Display_SwitchScreen scr s = Inr s' \<and> figs (panel_of s') = figs (panel_of s) @ concat fss \<and>
    list_all2 (\<lambda>m fs. draws m fs \<and> list_all (\<lambda>a. inside a (0, 0, 801, 481)) (regions m fs) \<and>
        (list_all (\<lambda>a. inside a (0, 0, 800, 480)) (regions m fs) \<longleftrightarrow> m \<notin> set (overhanging scr)))
      (if CURRENT_SCREEN s = scr then [] else screen_marks scr) fss"
proof -
  obtain s' fss where s': "Display_SwitchScreen scr s = Inr s'"
      "figs (panel_of s') = figs (panel_of s) @ concat fss"
      "list_all2 draws (if CURRENT_SCREEN s = scr then [] else screen_marks scr) fss"
    using switch_screen_groups [OF ready, of scr] by blast
  have "list_all2 (\<lambda>m fs. draws m fs \<and> list_all (\<lambda>a. inside a (0, 0, 801, 481)) (regions m fs) \<and>
        (list_all (\<lambda>a. inside a (0, 0, 800, 480)) (regions m fs) \<longleftrightarrow> m \<notin> set (overhanging scr)))
      (if CURRENT_SCREEN s = scr then [] else screen_marks scr) fss"
    by (rule list.rel_mono_strong [OF s'(3)]) (use screen_mark_on_panel in \<open>auto split: if_splits\<close>)
  then show ?thesis
    using s'(1,2) by blast
qed

section \<open>Overlapping texts\<close>

lemma touching_inside:
  assumes "\<And>a. a \<in> set rs \<Longrightarrow> \<exists>b \<in> set rs'. a = b \<or> inside a b"
    and "\<And>a. a \<in> set qs \<Longrightarrow> \<exists>b \<in> set qs'. a = b \<or> inside a b"
    and "touching rs qs"
  shows "touching rs' qs'"
proof -
  obtain a b where ab: "a \<in> set rs" "b \<in> set qs" "overlap a b"
    using assms(3) by (auto simp: touching_def list_ex_iff)
  obtain a' b' where a': "a' \<in> set rs'" "a = a' \<or> inside a a'" and b': "b' \<in> set qs'" "b = b' \<or> inside b b'"
    using assms(1) [OF ab(1)] assms(2) [OF ab(2)] by blast
  have "overlap a' b'"
    using a'(2) b'(2) ab(3) by (auto simp: overlap_def inside_def split: prod.splits)
  then show ?thesis
    using a'(1) b'(1) by (auto simp: touching_def list_ex_iff)
qed

definition drawn :: "mark \<Rightarrow> figure list \<Rightarrow> bool" where
  "drawn m fs \<longleftrightarrow> draws m fs \<and> texted m \<and> placed (0, 0, 801, 481) m \<and>
     list_all (\<lambda>c. c \<in> set glyph_chars) (label_chars m)"

lemma touching_drawn:
  assumes "drawn m fs" "drawn n gs"
    and free: "has_label m \<or> has_label n \<Longrightarrow> \<not> touching (mark_regions m) (mark_regions n)"
  shows "touching (regions m fs) (regions n gs) = touching (mark_regions m) (mark_regions n)"
proof (cases "has_label m \<or> has_label n")
  case True
  have "\<not> touching (regions m fs) (regions n gs)"
    using touching_inside [of "regions m fs" "mark_regions m" "regions n gs" "mark_regions n"]
      regions_inside assms(1,2) free [OF True] unfolding drawn_def by blast
  then show ?thesis using free [OF True] by simp
next
  case False
  then show ?thesis
    using regions_exact assms(1,2) by (simp add: drawn_def)
qed

lemma clashes_drawn:
  "list_all2 drawn ms fss \<Longrightarrow> labels_free (mark_map ms) \<Longrightarrow> clashes (with_regions ms fss) = clashes (mark_map ms)"
proof (induction ms fss rule: list_all2_induct)
  case (Cons m ms fs fss)
  let ?real = "\<lambda>h. is_text m \<and> is_text (fst h) \<and> touching (regions m fs) (snd h)"
  let ?spec = "\<lambda>h. is_text m \<and> is_text (fst h) \<and> touching (mark_regions m) (snd h)"
  have "map (\<lambda>h. (text_at m, text_at (fst h))) (filter ?real (with_regions ms fss)) =
      map (\<lambda>h. (text_at m, text_at (fst h))) (filter ?spec (mark_map ms))"
    using Cons.hyps(2) Cons.prems
  proof (induction ms fss rule: list_all2_induct)
    case (Cons n ns gs gss)
    have free: "has_label m \<or> has_label n \<Longrightarrow> is_text m \<Longrightarrow> is_text n \<Longrightarrow>
        \<not> touching (mark_regions m) (mark_regions n)"
      using Cons.prems by (simp add: mark_map_def)
    have "is_text m \<Longrightarrow> is_text n \<Longrightarrow>
        touching (regions m fs) (regions n gs) = touching (mark_regions m) (mark_regions n)"
      using touching_drawn [OF \<open>drawn m fs\<close> Cons.hyps(1)] free by blast
    moreover have "map (\<lambda>h. (text_at m, text_at (fst h))) (filter ?real (with_regions ns gss)) =
        map (\<lambda>h. (text_at m, text_at (fst h))) (filter ?spec (mark_map ns))"
      using Cons.IH Cons.prems by (simp add: mark_map_def)
    ultimately show ?case
      by (auto simp: with_regions_def mark_map_def)
  qed (simp add: with_regions_def mark_map_def)
  moreover have "clashes (with_regions ms fss) = clashes (mark_map ms)"
    using Cons.IH Cons.prems by (simp add: mark_map_def)
  ultimately show ?case
    by (simp add: with_regions_def mark_map_def)
qed (simp add: with_regions_def mark_map_def)

lemma legible_drawn:
  assumes "legible ms" "list_all texted ms" "list_all2 draws ms fss"
  shows "list_all2 drawn ms fss" "labels_free (mark_map ms)"
proof -
  show "list_all2 drawn ms fss"
    by (rule list.rel_mono_strong [OF assms(3)])
      (use legibleD [OF assms(1)] assms(2) in \<open>auto simp: drawn_def list_all_iff\<close>)
  show "labels_free (mark_map ms)"
    using assms(1) by (simp add: legible_def)
qed

lemma legible_glyphs:
  assumes "legible ms"
  shows "list_all (\<lambda>m. list_all (\<lambda>c. glyphs (of_char c) \<noteq> None) (label_chars m)) ms"
  using assms glyph_chars_defined by (auto simp: legible_def list_all_iff simp del: not_None_eq)

lemma prerender_texted: "list_all texted prerender_marks"
  by (simp only: prerender_marks_def list.pred_inject list_all_append texted.simps texted_labels simp_thms)


section \<open>The hidden layer\<close>

text \<open>The bottom row of labels starts at row 371: 29 rows above the end of the copied region.\<close>

definition low_chars :: string where "low_chars = ''Min CelVPakTFBrsC''"

lemma low_rows:
  assumes "c \<in> set low_chars" "glyphs (of_char c) = Some g"
  shows "glyph_rows 14 g"
proof -
  have "list_all (\<lambda>c. case glyphs (of_char c) of None \<Rightarrow> False | Some g \<Rightarrow> g ! 14 = 0 \<and> g ! 15 = 0) low_chars"
    by (simp add: low_chars_def glyphs_def glyph_table_defs)
  then have "g ! 14 = 0 \<and> g ! 15 = 0"
    using assms by (auto simp: list_all_iff)
  moreover have "r = 14 \<or> r = 15" if "14 \<le> r" "r < 16" for r :: nat
    using that by arith
  ultimately show ?thesis
    by (auto simp: glyph_rows_def)
qed

definition label_copied :: "u16 \<times> u16 \<times> string \<Rightarrow> bool" where
  "label_copied l = (case l of (x, y, msg) \<Rightarrow>
     list_all (\<lambda>c. c \<in> set glyph_chars) msg \<and> uint x + label_width msg \<le> 800 \<and>
     (uint y + 32 \<le> 399 \<or> uint y + 28 \<le> 399 \<and> list_all (\<lambda>c. c \<in> set low_chars) msg))"

lemma rtd_labels_copied: "list_all label_copied (rtd_labels_1 @ rtd_labels_2)"
  by code_simp

lemma label_copied_figs:
  assumes "label_copied l" "draws (label_mark l) fs" "fig \<in> set fs"
  shows "inside (fig_region i fig) (0, 0, 800, 399)"
proof -
  obtain x y msg where l: "l = (x, y, msg)" by (cases l)
  have fs: "fs = glyph_text msg x y"
    using assms(2) by (simp add: l label_mark_def)
  have a: "list_all (\<lambda>c. c \<in> set glyph_chars) msg" "uint x + label_width msg \<le> 800"
    using assms(1) by (simp_all add: l label_copied_def)
  consider "uint y + 2 * int 16 \<le> 399" | "uint y + 2 * int 14 \<le> 399" "list_all (\<lambda>c. c \<in> set low_chars) msg"
    using assms(1) by (auto simp: l label_copied_def)
  then show ?thesis
  proof cases
    case 1
    then have "inside (fig_region i fig) (uint x, uint y, uint x + label_width msg, uint y + 2 * int 16)"
      using glyph_text_inside [OF a(1) _ _ any_rows] a(2) assms(3) fs by simp
    then show ?thesis
      using a(2) 1 order_trans [OF uint_ge_0] by (auto simp: inside_def)
  next
    case 2
    then have low: "glyph_rows 14 g" if "c \<in> set msg" "glyphs (of_char c) = Some g" for c g
      using that low_rows by (auto simp: list_all_iff)
    have "inside (fig_region i fig) (uint x, uint y, uint x + label_width msg, uint y + 2 * int 14)"
      using glyph_text_inside [OF a(1) _ _ low] a(2) 2(1) assms(3) fs by simp
    then show ?thesis
      using a(2) 2(1) order_trans [OF uint_ge_0] by (auto simp: inside_def)
  qed
qed

lemma labels_copied_figs:
  "list_all label_copied ls \<Longrightarrow> depicts (map label_mark ls) fs \<Longrightarrow>
   list_all (\<lambda>fig. inside (fig_region 0 fig) (0, 0, 800, 399)) fs"
proof (induction ls arbitrary: fs)
  case (Cons l ls)
  then obtain as bs where fs: "fs = as @ bs" "draws (label_mark l) as" "depicts (map label_mark ls) bs" by auto
  then show ?case
    using label_copied_figs [of l as _ 0] Cons.IH [OF _ fs(3)] Cons.prems(1) by (auto simp: list_all_iff)
qed simp

lemma depicts_appendD: "depicts (xs @ ys) fs \<Longrightarrow> \<exists>as bs. fs = as @ bs \<and> depicts xs as \<and> depicts ys bs"
proof (induction xs arbitrary: fs)
  case (Cons x xs)
  then obtain as bs where fs: "fs = as @ bs" "draws x as" "depicts (xs @ ys) bs" by auto
  then obtain cs ds where "bs = cs @ ds" "depicts xs cs" "depicts ys ds"
    using Cons.IH by blast
  then have "fs = (as @ cs) @ ds \<and> depicts (x # xs) (as @ cs) \<and> depicts ys ds"
    using fs by auto
  then show ?case by blast
qed simp

text \<open>
  The hidden copy of the RTD labels is complete: every rectangle drawn for a label lies in
  the region that is copied to the other layer.
\<close>

theorem prerender_copies_labels:
  fixes s :: "('h, 'a) display_scheme"
  assumes ready: "display_ready s"
  shows "\<exists>s' before labels c. Display_PrerenderDebugRTDLabels s = Inr s' \<and> display_ready s' \<and>
    figs (panel_of s') = figs (panel_of s) @ before @ labels @
      [Bte_Op 0xC2 (0, layered 0 LAYER_DISPLAY) (0, layered 0 LAYER_OFFSCREEN) 800 400 c] \<and>
    depicts (map label_mark (rtd_labels_1 @ rtd_labels_2)) labels \<and>
    (\<forall>fig \<in> set labels. inside (fig_region 0 fig) (0, 0, 800, 399))"
proof -
  obtain s' where s': "Display_PrerenderDebugRTDLabels s = Inr s'" "staged any_sheet prerender_marks s s'"
    using stage_prerender ready by (auto simp: stage_def any_sheet_def)
  then obtain fs where fs: "figs (panel_of s') = figs (panel_of s) @ fs" "depicts prerender_marks fs"
    by (auto simp: staged_def)
  obtain as bs where as: "fs = as @ bs" "depicts (map label_mark (rtd_labels_1 @ rtd_labels_2) @
      [Copied 0xC2 (0, layered 0 LAYER_DISPLAY) (0, layered 0 LAYER_OFFSCREEN) 800 400]) bs"
    using depicts_appendD fs(2) unfolding prerender_marks_def by blast
  obtain ls cs where ls: "bs = ls @ cs" "depicts (map label_mark (rtd_labels_1 @ rtd_labels_2)) ls"
      "depicts [Copied 0xC2 (0, layered 0 LAYER_DISPLAY) (0, layered 0 LAYER_OFFSCREEN) 800 400] cs"
    using depicts_appendD [OF as(2)] by blast
  have "list_all (\<lambda>fig. inside (fig_region 0 fig) (0, 0, 800, 399)) ls"
    using rtd_labels_copied ls(2) by (rule labels_copied_figs)
  moreover obtain c where "cs = [Bte_Op 0xC2 (0, layered 0 LAYER_DISPLAY) (0, layered 0 LAYER_OFFSCREEN) 800 400 c]"
    using ls(3) by auto
  ultimately show ?thesis
    using s' fs(1) as(1) ls(1,2)
    by (intro exI [of _ s'] exI [of _ as] exI [of _ ls] exI [of _ c]) (simp add: staged_def list_all_iff)
qed

lemma switch_screen_on_panel_witness:
  "\<exists>s' fss. Display_SwitchScreen SCREEN_MAIN_LAPS demo_display = Inr s' \<and>
     figs (panel_of s') = figs (panel_of demo_display) @ concat fss \<and>
     list_all2 (\<lambda>m fs. list_all (\<lambda>a. inside a (0, 0, 801, 481)) (regions m fs)) (screen_marks SCREEN_MAIN_LAPS) fss"
proof -
  obtain s' fss where "Display_SwitchScreen SCREEN_MAIN_LAPS demo_display = Inr s'"
    "figs (panel_of s') = figs (panel_of demo_display) @ concat fss"
    and r: "list_all2 (\<lambda>m fs. draws m fs \<and> list_all (\<lambda>a. inside a (0, 0, 801, 481)) (regions m fs) \<and>
        (list_all (\<lambda>a. inside a (0, 0, 800, 480)) (regions m fs) \<longleftrightarrow> m \<notin> set (overhanging SCREEN_MAIN_LAPS)))
      (if CURRENT_SCREEN demo_display = SCREEN_MAIN_LAPS then [] else screen_marks SCREEN_MAIN_LAPS) fss"
    using switch_screen_on_panel [OF demo_display_ready(1), of SCREEN_MAIN_LAPS] by blast
  moreover have "list_all2 (\<lambda>m fs. list_all (\<lambda>a. inside a (0, 0, 801, 481)) (regions m fs))
      (screen_marks SCREEN_MAIN_LAPS) fss"
    using list.rel_mono_strong [OF r] by (auto simp: demo_display_ready(2) simp del: screen_marks.simps)
  ultimately show ?thesis by blast
qed


lemma prerender_copies_labels_witness:
  "\<exists>s' labels. Display_PrerenderDebugRTDLabels demo_display = Inr s' \<and>
     depicts (map label_mark (rtd_labels_1 @ rtd_labels_2)) labels \<and> (\<forall>fig \<in> set labels. inside (fig_region 0 fig) (0, 0, 800, 399))"
  using prerender_copies_labels [OF demo_display_ready(1)] by blast

end
