(* ===== verification/Display_Start.thy ===== *)
theory Display_Start
  imports Screens
begin

text \<open>
  \<open>Display_Init\<close> of \<open>main/display.c\<close>: from a board after reset to the first screen.
\<close>

definition LCD_SPI_HOST :: int where "LCD_SPI_HOST = 2"
definition LCD_SPI_SPEED :: int where "LCD_SPI_SPEED = 170000"
definition LCD_PIN_MOSI :: int where "LCD_PIN_MOSI = 13"
definition LCD_PIN_MISO :: int where "LCD_PIN_MISO = 12"
definition LCD_PIN_SCLK :: int where "LCD_PIN_SCLK = 11"
definition LCD_PIN_CS :: int where "LCD_PIN_CS = 6"
definition LCD_PIN_INT :: int where "LCD_PIN_INT = 4"
definition LCD_HSYNC_NONDISP :: u8 where "LCD_HSYNC_NONDISP = 26"
definition LCD_HSYNC_START :: u8 where "LCD_HSYNC_START = 32"
definition LCD_HSYNC_PW :: u8 where "LCD_HSYNC_PW = 96"
definition LCD_HSYNC_FINETUNE :: u8 where "LCD_HSYNC_FINETUNE = 0"
definition LCD_VSYNC_NONDISP :: u16 where "LCD_VSYNC_NONDISP = 32"
definition LCD_VSYNC_START :: u16 where "LCD_VSYNC_START = 23"
definition LCD_VSYNC_PW :: u8 where "LCD_VSYNC_PW = 2"
definition LCD_WIDTH :: u16 where "LCD_WIDTH = 800"
definition LCD_HEIGHT :: u16 where "LCD_HEIGHT = 480"
definition LCD_VOFFSET :: u16 where "LCD_VOFFSET = 0"
definition LCD_BRIGHTNESS_100_PCT :: u8 where "LCD_BRIGHTNESS_100_PCT = 0xFF"

lemmas lcd_pin_defs = LCD_SPI_HOST_def LCD_SPI_SPEED_def LCD_PIN_MOSI_def LCD_PIN_MISO_def LCD_PIN_SCLK_def
  LCD_PIN_CS_def LCD_PIN_INT_def
lemmas lcd_timing_defs = LCD_HSYNC_NONDISP_def LCD_HSYNC_START_def LCD_HSYNC_PW_def LCD_HSYNC_FINETUNE_def
  LCD_VSYNC_NONDISP_def LCD_VSYNC_START_def LCD_VSYNC_PW_def LCD_WIDTH_def LCD_HEIGHT_def LCD_VOFFSET_def
  LCD_BRIGHTNESS_100_PCT_def

text \<open>\<open>Display_PrecomputeGlyphs\<close> on the cache of the module.\<close>

definition Display_PrecomputeGlyphs :: "('h, 'a) display_stmt" where
  "Display_PrecomputeGlyphs = assign (\<lambda>s. s\<lparr>glyph_cache := precompute_glyphs (glyph_cache s)\<rparr>)"

text \<open>The result of \<open>RA8875_init\<close> is not looked at; the context is left as the call has set it.\<close>

definition Display_Init :: "('h, 'a) display_stmt" where
  "Display_Init s =
     bindr (RA8875_init LCD_SPI_HOST LCD_SPI_SPEED LCD_PIN_MOSI LCD_PIN_MISO LCD_PIN_SCLK LCD_PIN_CS LCD_PIN_INT s)
       (\<lambda>(ok, ctx, s1). seq
         [on_lcd (\<lambda>lcd. RA8875_configure lcd LCD_HSYNC_NONDISP LCD_HSYNC_START LCD_HSYNC_PW LCD_HSYNC_FINETUNE
            LCD_VSYNC_NONDISP LCD_VSYNC_START LCD_VSYNC_PW LCD_WIDTH LCD_HEIGHT LCD_VOFFSET),
          on_lcd RA8875_clear,
          on_lcd (\<lambda>lcd. RA8875_set_backlight_brightness lcd LCD_BRIGHTNESS_100_PCT),
          Display_SetTextCursor 0 0,
          Display_PrecomputeGlyphs,
          Display_PrerenderDebugRTDLabels,
          Display_SwitchScreen SCREEN_DEBUG_NO_RTD] (s1\<lparr>lcd := ctx\<rparr>))"

section \<open>A start that succeeds\<close>

text \<open>Before the cache is filled, the calls are register writes.\<close>

definition lcd_asks :: "panel_op list \<Rightarrow> ('h, 'a) display_scheme \<Rightarrow> ('h, 'a) display_scheme \<Rightarrow> bool" where
  "lcd_asks os s s' \<longleftrightarrow> asks (lcd s) os s s'"

lemma lcd_asks_same:
  fixes s :: "('h, 'a) display_scheme"
  assumes "lcd_asks os s s'"
  shows "port_ready (lcd s') s'" "panel_of s' = panel_run os (panel_of s)" "environ s' = environ s"
    "gpio s' = gpio s" "lcd s' = lcd s" "glyph_cache s' = glyph_cache s" "CURRENT_SCREEN s' = CURRENT_SCREEN s"
    "display.more s' = display.more s"
proof -
  have a: "asks (lcd s) os s s'" using assms by (simp add: lcd_asks_def)
  note f = display_fields [OF asks_same(4) [OF a]]
  show "port_ready (lcd s') s'" using port.rel_ready [OF a] f(2) by simp
  show "panel_of s' = panel_run os (panel_of s)" by (rule asks_panel [OF a])
  show "environ s' = environ s" by (rule asks_same(2) [OF a])
  show "gpio s' = gpio s" "lcd s' = lcd s" "glyph_cache s' = glyph_cache s" "CURRENT_SCREEN s' = CURRENT_SCREEN s"
    "display.more s' = display.more s" by (rule f)+
qed

lemma on_lcd_regs:
  fixes s :: "('h, 'a) display_scheme"
  assumes "port_ready (lcd s) s"
  shows "\<exists>s'. on_lcd (\<lambda>lcd. write_regs lcd rvs) s = Inr s' \<and> lcd_asks (set_regs rvs) s s'"
  using write_regs_asks [OF assms, of rvs] by (simp add: on_lcd_def lcd_asks_def)

text \<open>The timing of the panel, as \<open>Display_Init\<close> gives it.\<close>

definition lcd_configure_regs :: "(u8 \<times> u8) list" where
  "lcd_configure_regs = configure_regs LCD_HSYNC_NONDISP LCD_HSYNC_START LCD_HSYNC_PW LCD_HSYNC_FINETUNE
     LCD_VSYNC_NONDISP LCD_VSYNC_START LCD_VSYNC_PW LCD_WIDTH LCD_HEIGHT LCD_VOFFSET"

definition start_regs :: "(u8 \<times> u8) list" where
  "start_regs = lcd_configure_regs @ [(RA8875_MCLR, RA8875_MCLR_START OR RA8875_MCLR_FULL)] @
     [(RA8875_P1DCR, LCD_BRIGHTNESS_100_PCT)] @ [(0x2A, 0), (0x2B, 0), (0x2C, 0), (0x2D, 0)]"

lemma start_writes:
  fixes s :: "('h, 'a) display_scheme"
  assumes "port_ready (lcd s) s"
  shows "\<exists>s'. seq [on_lcd (\<lambda>lcd. RA8875_configure lcd LCD_HSYNC_NONDISP LCD_HSYNC_START LCD_HSYNC_PW
      LCD_HSYNC_FINETUNE LCD_VSYNC_NONDISP LCD_VSYNC_START LCD_VSYNC_PW LCD_WIDTH LCD_HEIGHT LCD_VOFFSET),
      on_lcd RA8875_clear, on_lcd (\<lambda>lcd. RA8875_set_backlight_brightness lcd LCD_BRIGHTNESS_100_PCT),
      Display_SetTextCursor 0 0] s = Inr s' \<and> lcd_asks (set_regs start_regs) s s'"
proof -
  obtain s1 where s1: "on_lcd (\<lambda>lcd. write_regs lcd lcd_configure_regs) s = Inr s1"
      "lcd_asks (set_regs lcd_configure_regs) s s1"
    using on_lcd_regs [OF assms] by blast
  obtain s2 where s2: "on_lcd (\<lambda>lcd. write_regs lcd [(RA8875_MCLR, RA8875_MCLR_START OR RA8875_MCLR_FULL)]) s1 = Inr s2"
      "lcd_asks (set_regs [(RA8875_MCLR, RA8875_MCLR_START OR RA8875_MCLR_FULL)]) s1 s2"
    using on_lcd_regs [OF lcd_asks_same(1) [OF s1(2)]] by blast
  obtain s3 where s3: "on_lcd (\<lambda>lcd. write_regs lcd [(RA8875_P1DCR, LCD_BRIGHTNESS_100_PCT)]) s2 = Inr s3"
      "lcd_asks (set_regs [(RA8875_P1DCR, LCD_BRIGHTNESS_100_PCT)]) s2 s3"
    using on_lcd_regs [OF lcd_asks_same(1) [OF s2(2)]] by blast
  obtain s4 where s4: "on_lcd (\<lambda>lcd. write_regs lcd [(0x2A, 0), (0x2B, 0), (0x2C, 0), (0x2D, 0)]) s3 = Inr s4"
      "lcd_asks (set_regs [(0x2A, 0), (0x2B, 0), (0x2C, 0), (0x2D, 0)]) s3 s4"
    using on_lcd_regs [OF lcd_asks_same(1) [OF s3(2)]] by blast
  note same = lcd_asks_same(5) [OF s1(2)] lcd_asks_same(5) [OF s2(2)] lcd_asks_same(5) [OF s3(2)]
  note asks = s1(2) [unfolded lcd_asks_def] s2(2) [unfolded lcd_asks_def same] s3(2) [unfolded lcd_asks_def same]
    s4(2) [unfolded lcd_asks_def same]
  have "lcd_asks (set_regs start_regs) s s4"
    unfolding lcd_asks_def start_regs_def set_regs_simps(3)
    by (rule port.rel_trans [OF asks(1) port.rel_trans [OF asks(2) port.rel_trans [OF asks(3,4)]]])
  moreover have c: "on_lcd (\<lambda>lcd. RA8875_configure lcd LCD_HSYNC_NONDISP LCD_HSYNC_START LCD_HSYNC_PW
      LCD_HSYNC_FINETUNE LCD_VSYNC_NONDISP LCD_VSYNC_START LCD_VSYNC_PW LCD_WIDTH LCD_HEIGHT LCD_VOFFSET) =
      on_lcd (\<lambda>lcd. write_regs lcd lcd_configure_regs)"
    "on_lcd RA8875_clear = on_lcd (\<lambda>lcd. write_regs lcd [(RA8875_MCLR, RA8875_MCLR_START OR RA8875_MCLR_FULL)])"
    "on_lcd (\<lambda>lcd. RA8875_set_backlight_brightness lcd LCD_BRIGHTNESS_100_PCT) =
      on_lcd (\<lambda>lcd. write_regs lcd [(RA8875_P1DCR, LCD_BRIGHTNESS_100_PCT)])"
    "Display_SetTextCursor 0 0 = on_lcd (\<lambda>lcd. write_regs lcd [(0x2A, 0), (0x2B, 0), (0x2C, 0), (0x2D, 0)])"
    by (simp_all only: RA8875_configure_def lcd_configure_regs_def RA8875_clear_def [abs_def]
        RA8875_set_backlight_brightness_def Display_SetTextCursor_def) simp_all
  ultimately show ?thesis
    unfolding c by (simp only: seq.simps s1(1) s2(1) s3(1) s4(1) sum.case) blast
qed


lemma start_figures: "figs (panel_run (set_regs start_regs) p) = figs p @ [Clear_Layer False]"
  by (simp add: start_regs_def lcd_configure_regs_def configure_regs_def ra8875_defs triggered_def)

text \<open>The context of the panel is stored, and nothing else of the display changes.\<close>

lemma display_board_fields:
  assumes "board.more s' = board.more (s :: ('h, 'a) display_scheme)"
  shows "currentFont s' = currentFont s" "inGraphicMode s' = inGraphicMode s" "glyph_cache s' = glyph_cache s"
    "CURRENT_SCREEN s' = CURRENT_SCREEN s" "display.more s' = display.more s"
  using assms by (cases s, cases s', simp)+

lemma set_lcd:
  "panel_of (s\<lparr>lcd := c\<rparr>) = panel_of s" "port_ready c (s\<lparr>lcd := c'\<rparr>) = port_ready c s"
  by (simp_all add: port_ready_def bus_ready_def panel_of_def ops_def split: option.splits)

lemma set_cache:
  "panel_of (s\<lparr>glyph_cache := c\<rparr>) = panel_of s" "port_ready p (s\<lparr>glyph_cache := c\<rparr>) = port_ready p s"
  by (simp_all add: port_ready_def bus_ready_def panel_of_def ops_def split: option.splits)

lemma Display_Init_blocks:
  assumes "RA8875_init LCD_SPI_HOST LCD_SPI_SPEED LCD_PIN_MOSI LCD_PIN_MISO LCD_PIN_SCLK LCD_PIN_CS LCD_PIN_INT s =
      Inr (ok, ctx, s1)"
    and "seq [on_lcd (\<lambda>lcd. RA8875_configure lcd LCD_HSYNC_NONDISP LCD_HSYNC_START LCD_HSYNC_PW
      LCD_HSYNC_FINETUNE LCD_VSYNC_NONDISP LCD_VSYNC_START LCD_VSYNC_PW LCD_WIDTH LCD_HEIGHT LCD_VOFFSET),
      on_lcd RA8875_clear, on_lcd (\<lambda>lcd. RA8875_set_backlight_brightness lcd LCD_BRIGHTNESS_100_PCT),
      Display_SetTextCursor 0 0] (s1\<lparr>lcd := ctx\<rparr>) = Inr s2"
  shows "Display_Init s = seq [Display_PrecomputeGlyphs, Display_PrerenderDebugRTDLabels,
    Display_SwitchScreen SCREEN_DEBUG_NO_RTD] s2"
proof -
  have "seq ([a, b, c, d] @ es) s0 = seq es s2'" if "seq [a, b, c, d] s0 = Inr s2'"
    for a b c d and es and s0 s2' :: "('a, 'b) display_scheme"
    unfolding seq_append that by simp
  from this [OF assms(2)] show ?thesis
    unfolding Display_Init_def assms(1) by (simp del: seq.simps)
qed

definition start_marks :: "mark list" where
  "start_marks = [Wiped] @ prerender_marks @ screen_marks SCREEN_DEBUG_NO_RTD"

lemma Display_Init_core:
  fixes s :: "('h, 'a) display_scheme"
  assumes steps: "all_steps_ok (environ s)" and start: "pristine s" and log: "log s = []"
    and env: "wire_ok (environ s)" "identifies (environ s)" "frame_ok (frame_base s)"
    and scr: "CURRENT_SCREEN s \<noteq> SCREEN_DEBUG_NO_RTD"
  shows "\<exists>s'. Display_Init s = Inr s' \<and> display_ready s' \<and> CURRENT_SCREEN s' = SCREEN_DEBUG_NO_RTD \<and>
    depicts start_marks (figs (panel_of s')) \<and> environ s' = environ s \<and> display.more s' = display.more s \<and>
    gpio s' = snd (gpio_config app_core (int_pin_config LCD_PIN_INT) (gpio s))"
proof -
  have pins: "(0 :: int) < LCD_SPI_SPEED" "LCD_SPI_SPEED \<le> 80000000" "0 \<le> LCD_PIN_CS"
    "GPIO_IS_VALID_OUTPUT_GPIO LCD_PIN_CS" "GPIO_IS_VALID_GPIO LCD_PIN_INT" "LCD_PIN_INT < 32"
    using cs_pin_ok int_pin_ok by (simp_all add: lcd_pin_defs)
  obtain ctx s1 where s1: "RA8875_init 2 LCD_SPI_SPEED 13 12 11 LCD_PIN_CS LCD_PIN_INT s = Inr (1, ctx, s1)"
    "port_ready ctx s1" "environ s1 = environ s" "figs (panel_of s1) = []"
    "gpio s1 = snd (gpio_config app_core (int_pin_config LCD_PIN_INT) (gpio s))" "board.more s1 = board.more s"
    using RA8875_init_ready_core [OF steps start log env pins] by blast
  note f1 = display_board_fields [OF s1(6)]
  let ?s1 = "s1\<lparr>lcd := ctx\<rparr>"
  have "port_ready (lcd ?s1) ?s1"
    using s1(2) by (simp add: set_lcd)
  from start_writes [OF this] obtain s2 where
    s2: "seq [on_lcd (\<lambda>lcd. RA8875_configure lcd LCD_HSYNC_NONDISP LCD_HSYNC_START LCD_HSYNC_PW
      LCD_HSYNC_FINETUNE LCD_VSYNC_NONDISP LCD_VSYNC_START LCD_VSYNC_PW LCD_WIDTH LCD_HEIGHT LCD_VOFFSET),
      on_lcd RA8875_clear, on_lcd (\<lambda>lcd. RA8875_set_backlight_brightness lcd LCD_BRIGHTNESS_100_PCT),
      Display_SetTextCursor 0 0] ?s1 = Inr s2" "lcd_asks (set_regs start_regs) ?s1 s2"
    by blast
  note f2 = lcd_asks_same [OF s2(2)]
  let ?s3 = "s2\<lparr>glyph_cache := precompute_glyphs (glyph_cache s2)\<rparr>"
  have ready3: "display_ready ?s3"
    using f2(1) by (simp add: display_ready_def set_cache cache_precomputed)
  obtain s4 where s4: "Display_PrerenderDebugRTDLabels ?s3 = Inr s4" "staged any_sheet prerender_marks ?s3 s4"
    using stage_prerender ready3 by (auto simp: stage_def any_sheet_def)
  have scr4: "CURRENT_SCREEN s4 \<noteq> SCREEN_DEBUG_NO_RTD"
    using s4(2) scr f1(4) f2(7) by (simp add: staged_def keeps_def)
  obtain s5 fs where s5: "Display_SwitchScreen SCREEN_DEBUG_NO_RTD s4 = Inr s5" "display_ready s5"
    "CURRENT_SCREEN s5 = SCREEN_DEBUG_NO_RTD" "figs (panel_of s5) = figs (panel_of s4) @ fs"
    "depicts (screen_marks SCREEN_DEBUG_NO_RTD) fs" "gpio s5 = gpio s4" "environ s5 = environ s4"
    "display.more s5 = display.more s4"
    using switch_screen_runs [of s4 SCREEN_DEBUG_NO_RTD] s4(2) scr4 by (auto simp: staged_def)
  obtain ps where ps: "figs (panel_of s4) = figs (panel_of ?s3) @ ps" "depicts prerender_marks ps"
    using s4(2) by (auto simp: staged_def)
  have "figs (panel_of ?s3) = [Clear_Layer False]"
    using f2(2) s1(4) by (simp add: set_cache set_lcd start_figures)
  moreover have "depicts [Wiped] [Clear_Layer False]"
    by simp
  ultimately have "depicts start_marks (figs (panel_of s5))"
    unfolding start_marks_def s5(4) ps(1) append_assoc
    using depicts_append ps(2) s5(5) by metis
  moreover have "Display_Init s = Inr s5"
  proof -
    have "RA8875_init LCD_SPI_HOST LCD_SPI_SPEED LCD_PIN_MOSI LCD_PIN_MISO LCD_PIN_SCLK LCD_PIN_CS LCD_PIN_INT s =
        Inr (1, ctx, s1)"
      using s1(1) by (simp add: lcd_pin_defs)
    from Display_Init_blocks [OF this s2(1)] show ?thesis
      using s4(1) s5(1) by (simp add: Display_PrecomputeGlyphs_def assign_def)
  qed
  ultimately show ?thesis
    using s5 s4(2) f1 f2 s1 by (simp add: staged_def keeps_def)
qed

text \<open>
  C6: Started from reset, with every initialisation step succeeding and the panel answering within
  the poll budget, \<open>Display_Init\<close> returns with the display ready and the static debug
  screen current; the panel has been asked, in this order, to clear its memory, to draw the hidden
  copy of the RTD labels under the loading notice, and to draw the debug screen.
\<close>

theorem Display_Init_shows_debug:
  fixes s :: "('h, 'a) display_scheme"
  assumes "all_steps_ok (environ s)" "pristine s" "log s = []"
    and "wire_ok (environ s)" "identifies (environ s)" "frame_ok (frame_base s)"
    and "CURRENT_SCREEN s \<noteq> SCREEN_DEBUG_NO_RTD"
  shows "\<exists>s'. Display_Init s = Inr s' \<and> display_ready s' \<and> CURRENT_SCREEN s' = SCREEN_DEBUG_NO_RTD \<and>
    depicts ([Wiped] @ prerender_marks @ screen_marks SCREEN_DEBUG_NO_RTD) (figs (panel_of s'))"
  using Display_Init_core [OF assms] unfolding start_marks_def by blast

text \<open>The display before the first statement of \<open>app_main\<close>: every static variable is zero.\<close>

definition fresh_display :: "nat display" where
  "fresh_display = board.extend fresh_board \<lparr>lcd = \<lparr>spi_device = None, pin_int = 0\<rparr>,
     currentFont = DISPLAY_FONT_INTERNAL, inGraphicMode = False, glyph_cache = (\<lambda>_. empty_buffer),
     CURRENT_SCREEN = SCREEN_MAIN_NO_LAPS\<rparr>"

lemma fresh_display_fields [simp]:
  "environ fresh_display = environ fresh" "log fresh_display = []" "frame_base fresh_display = 0x3FC90000"
  "pristine fresh_display" "gpio fresh_display = demo_gpio" "CURRENT_SCREEN fresh_display = SCREEN_MAIN_NO_LAPS"
  by (simp_all add: fresh_display_def board.extend_def fresh_board_def spi_machine.extend_def fresh_def pristine_def)

lemma Display_Init_shows_debug_witness:
  "\<exists>s'. Display_Init fresh_display = Inr s' \<and> CURRENT_SCREEN s' = SCREEN_DEBUG_NO_RTD \<and>
     depicts ([Wiped] @ prerender_marks @ screen_marks SCREEN_DEBUG_NO_RTD) (figs (panel_of s'))"
  using Display_Init_shows_debug [of fresh_display] fresh_ok(1) fresh_env demo_frame_ok by auto

section \<open>A start that fails\<close>

text \<open>Without a device, the first transfer ends in the failed assertion of \<open>write_command\<close>.\<close>

lemma no_device_write:
  "RA8875_write_register \<lparr>spi_device = None, pin_int = p\<rparr> r v s = Inl Assert_Failed"
  by (simp add: RA8875_write_register_def assert_ok_def spi_device_polling_transmit_def
      spi_device_polling_start_def check_trans_valid_def)

lemma no_device_configure:
  "RA8875_configure \<lparr>spi_device = None, pin_int = p\<rparr> a b c d e f g w h v s = Inl Assert_Failed"
  by (simp add: RA8875_configure_def configure_regs_def write_regs_def no_device_write)

text \<open>
  C7: \<open>Display_Init\<close> does not look at the result of \<open>RA8875_init\<close>: when
  the bus cannot be initialised it goes on with a null device handle, and the firmware stops at a
  failed assertion in the first transfer.
\<close>

theorem Display_Init_ignores_bus_error:
  fixes s :: "('h, 'a) display_scheme"
  assumes "spi_bus_initialize 2 lcd_bus_config SPI_DMA_CH_AUTO s = (err, s1)" "err \<noteq> ESP_OK"
  shows "Display_Init s = Inl Assert_Failed"
proof -
  have "RA8875_init LCD_SPI_HOST LCD_SPI_SPEED LCD_PIN_MOSI LCD_PIN_MISO LCD_PIN_SCLK LCD_PIN_CS LCD_PIN_INT s =
      Inr (0, \<lparr>spi_device = None, pin_int = 4\<rparr>, s1)"
    using assms by (simp add: RA8875_init_def lcd_pin_defs lcd_bus_config_def)
  then show ?thesis
    by (simp add: Display_Init_def on_lcd_def no_device_configure)
qed

definition busy_display :: "nat display" where
  "busy_display = fresh_display\<lparr>bus_ctx_set := True\<rparr>"

lemma Display_Init_ignores_bus_error_witness: "Display_Init busy_display = Inl Assert_Failed"
proof -
  have "spi_bus_initialize 2 lcd_bus_config SPI_DMA_CH_AUTO busy_display = (ESP_ERR_INVALID_STATE, busy_display)"
    by (simp add: spi_bus_initialize_def is_valid_host_def spi_setup_consts busy_display_def)
  then show ?thesis
    by (rule Display_Init_ignores_bus_error) simp
qed

end
