(* ===== verification/Controller.thy ===== *)
theory Controller
  imports Display_Start
begin

text \<open>
  The buttons (\<open>main/controller.c\<close>): two interrupt handlers with a debounce time, their flags,
  and the set-up of the pins. The handlers are reached through the interrupt service of the GPIO
  driver; \<open>esp_timer_get_time\<close> is an argument.
\<close>

section \<open>State and handlers\<close>

datatype button_isr = Mode_Isr | Submode_Isr

record firmware = "button_isr display" +
  toggle_mode_pressed :: bool
  toggle_submode_pressed :: bool
  last_mode_press_time_us :: int
  last_submode_press_time_us :: int

definition BTN_GPIO_TOGGLE_MODE_DI :: int where "BTN_GPIO_TOGGLE_MODE_DI = 48"
definition BTN_GPIO_TOGGLE_SUBMODE_DI :: int where "BTN_GPIO_TOGGLE_SUBMODE_DI = 47"
definition DEBOUNCE_TIME_US :: int where "DEBOUNCE_TIME_US = 200 * 1000"

lemmas button_defs = BTN_GPIO_TOGGLE_MODE_DI_def BTN_GPIO_TOGGLE_SUBMODE_DI_def DEBOUNCE_TIME_US_def

definition Controller_ISR_Mode :: "int \<Rightarrow> 'a firmware_scheme \<Rightarrow> 'a firmware_scheme" where
  "Controller_ISR_Mode now s =
     (if now - last_mode_press_time_us s > DEBOUNCE_TIME_US
      then s\<lparr>toggle_mode_pressed := True, last_mode_press_time_us := now\<rparr> else s)"

definition Controller_ISR_Submode :: "int \<Rightarrow> 'a firmware_scheme \<Rightarrow> 'a firmware_scheme" where
  "Controller_ISR_Submode now s =
     (if now - last_submode_press_time_us s > DEBOUNCE_TIME_US
      then s\<lparr>toggle_submode_pressed := True, last_submode_press_time_us := now\<rparr> else s)"

text \<open>A call through the handler table: \<open>clock\<close> is what the timer shows when a handler reads it.\<close>

primrec call_isr :: "(button_isr \<Rightarrow> int) \<Rightarrow> button_isr \<Rightarrow> u32 \<Rightarrow> 'a firmware_scheme \<Rightarrow> 'a firmware_scheme" where
  "call_isr clock Mode_Isr = (\<lambda>arg. Controller_ISR_Mode (clock Mode_Isr))"
| "call_isr clock Submode_Isr = (\<lambda>arg. Controller_ISR_Submode (clock Submode_Isr))"

section \<open>Set-up\<close>

definition button_config :: gpio_config_t where
  "button_config = \<lparr>pin_bit_mask = push_bit (nat BTN_GPIO_TOGGLE_MODE_DI) 1 OR
       push_bit (nat BTN_GPIO_TOGGLE_SUBMODE_DI) 1, mode = GPIO_MODE_INPUT,
     pull_up_en = False, pull_down_en = False, intr_type = GPIO_INTR_NEGEDGE\<rparr>"

text \<open>None of the six results is looked at.\<close>

definition Controller_Init :: "'a firmware_scheme \<Rightarrow> 'a firmware_scheme" where
  "Controller_Init s =
     (let e = environ s;
          g1 = snd (gpio_config app_core button_config (gpio s));
          g2 = snd (gpio_install_isr_service e app_core g1);
          g3 = snd (gpio_isr_handler_add BTN_GPIO_TOGGLE_MODE_DI Mode_Isr 0 g2);
          g4 = snd (gpio_isr_handler_add BTN_GPIO_TOGGLE_SUBMODE_DI Submode_Isr 0 g3);
          g5 = snd (gpio_intr_enable app_core BTN_GPIO_TOGGLE_MODE_DI g4);
          g6 = snd (gpio_intr_enable app_core BTN_GPIO_TOGGLE_SUBMODE_DI g5)
      in s\<lparr>gpio := g6\<rparr>)"

section \<open>Interrupts\<close>

text \<open>
  The pins whose edge is latched are given by the two status words; the hardware latches a pin
  only when its input and its interrupt are enabled. Then the processor runs the service.
\<close>

definition interrupting :: "pad \<Rightarrow> bool" where
  "interrupting p \<longleftrightarrow> ie p \<and> int_ena p \<and> int_type p \<noteq> GPIO_INTR_DISABLE"

definition latchable :: "'h gpio_context \<Rightarrow> u32 \<Rightarrow> u32 \<Rightarrow> bool" where
  "latchable g lo hi \<longleftrightarrow> list_all (\<lambda>n. interrupting (pads g n)) (pending lo @ map ((+) 32) (pending hi))"

definition interrupt :: "u32 \<Rightarrow> u32 \<Rightarrow> (button_isr \<Rightarrow> int) \<Rightarrow> 'a firmware_scheme \<Rightarrow> 'a firmware_scheme" where
  "interrupt lo hi clock s =
     (case gpio_intr_service (call_isr clock) ((gpio s)\<lparr>intr_status := lo, intr_status_high := hi\<rparr>, s) of
        (g, s1) \<Rightarrow> s1\<lparr>gpio := g\<rparr>)"

section \<open>What the set-up leaves\<close>

text \<open>Pad operations do not touch the handler table.\<close>

lemma isr_func_upd [simp]: "gpio_isr_func (upd_pad n f g) = gpio_isr_func g"
  by (simp add: upd_pad_def)

lemma isr_func_upd_ctl [simp]: "gpio_isr_func (upd_ctl f g) = gpio_isr_func g"
  by (simp add: upd_ctl_def)

lemma isr_func_ops:
  "gpio_isr_func (snd (rtc_gpio_deinit n g)) = gpio_isr_func g"
  "gpio_isr_func (snd (gpio_input_enable n g)) = gpio_isr_func g"
  "gpio_isr_func (snd (gpio_input_disable n g)) = gpio_isr_func g"
  "gpio_isr_func (snd (gpio_od_enable n g)) = gpio_isr_func g"
  "gpio_isr_func (snd (gpio_od_disable n g)) = gpio_isr_func g"
  "gpio_isr_func (snd (gpio_output_enable n g)) = gpio_isr_func g"
  "gpio_isr_func (snd (gpio_output_disable n g)) = gpio_isr_func g"
  "gpio_isr_func (snd (gpio_pullup_en n g)) = gpio_isr_func g"
  "gpio_isr_func (snd (gpio_pullup_dis n g)) = gpio_isr_func g"
  "gpio_isr_func (snd (gpio_pulldown_en n g)) = gpio_isr_func g"
  "gpio_isr_func (snd (gpio_pulldown_dis n g)) = gpio_isr_func g"
  "gpio_isr_func (snd (gpio_set_intr_type n ty g)) = gpio_isr_func g"
  "gpio_isr_func (snd (gpio_intr_enable core n g)) = gpio_isr_func g"
  "gpio_isr_func (snd (gpio_intr_enable_on_core n core g)) = gpio_isr_func g"
  "gpio_isr_func (snd (gpio_intr_disable n g)) = gpio_isr_func g"
  "gpio_isr_func (gpio_hal_func_sel n func g) = gpio_isr_func g"
  by (simp_all add: gpio_op_defs gpio_set_intr_type_def gpio_intr_enable_def gpio_intr_enable_on_core_def
      gpio_hal_intr_enable_on_core_def gpio_intr_disable_def gpio_hal_intr_disable_def gpio_hal_func_sel_def Let_def)

lemma isr_func_config_pin: "gpio_isr_func (config_pin core c n g) = gpio_isr_func g"
  by (simp add: config_pin_def Let_def if_distrib [of snd] if_distrib [of gpio_isr_func] isr_func_ops)

lemma isr_func_config_pins:
  "gpio_isr_func (fold (\<lambda>io g. if P io then config_pin core c (int io) g else g) ios g) = gpio_isr_func g"
  by (induction ios arbitrary: g) (simp_all add: isr_func_config_pin)

lemma isr_func_config: "gpio_isr_func (snd (gpio_config core c g)) = gpio_isr_func g"
  by (simp add: gpio_config_def isr_func_config_pins)

definition button_table :: "nat \<Rightarrow> button_isr isr_entry" where
  "button_table = (\<lambda>_. \<lparr>isr_fn = None, isr_args = 0\<rparr>)
     (48 := \<lparr>isr_fn = Some Mode_Isr, isr_args = 0\<rparr>, 47 := \<lparr>isr_fn = Some Submode_Isr, isr_args = 0\<rparr>)"

definition button_pads :: "(nat \<Rightarrow> pad) \<Rightarrow> nat \<Rightarrow> pad" where
  "button_pads ps n = (if n = 47 \<or> n = 48 then configured button_config n (ps n) else ps n)"

lemma button_valid:
  "GPIO_IS_VALID_GPIO 47" "GPIO_IS_VALID_GPIO 48"
  "pin_bit_mask button_config \<noteq> 0" "pin_bit_mask button_config AND NOT SOC_GPIO_VALID_GPIO_MASK = 0"
  "intr_type button_config < GPIO_INTR_MAX"
  by (simp_all add: GPIO_IS_VALID_GPIO_def button_config_def button_defs SOC_GPIO_VALID_GPIO_MASK_def gpio_const_defs)

lemma button_mask: "bit (pin_bit_mask button_config) n \<longleftrightarrow> n = 47 \<or> n = 48"
proof -
  have "pin_bit_mask button_config = push_bit 48 1 OR push_bit 47 1"
    by (simp add: button_config_def button_defs)
  moreover have "possible_bit TYPE(64 word) 47" "possible_bit TYPE(64 word) 48"
    by (simp_all add: possible_bit_word)
  ultimately show ?thesis
    by (auto simp only: bit_or_iff bit_push_bit_iff bit_1_iff)
qed

lemma button_config_pads:
  "pads (snd (gpio_config core button_config g)) = button_pads (pads g)"
proof -
  obtain g' where "gpio_config core button_config g = (ESP_OK, g')"
    "\<forall>n. pads g' n = (if bit (pin_bit_mask button_config) n \<and> n < GPIO_PIN_COUNT
       then configured button_config n (pads g n) else pads g n)"
    using gpio_config_pads_core [OF button_valid(3-5)] by blast
  then show ?thesis
    by (auto simp: button_pads_def button_mask gpio_const_defs fun_eq_iff)
qed


lemma Controller_Init_gpio:
  assumes "gpio_isr_func (gpio s) = None" "all_steps_ok (environ s)"
  shows "gpio_isr_func (gpio (Controller_Init s)) = Some button_table"
    "pads (gpio (Controller_Init s)) = button_pads (pads (gpio s))"
proof -
  define g1 where "g1 = snd (gpio_config app_core button_config (gpio s))"
  define g2 where "g2 = snd (gpio_install_isr_service (environ s) app_core g1)"
  have g1: "gpio_isr_func g1 = None" "pads g1 = button_pads (pads (gpio s))"
    using assms(1) by (simp_all add: g1_def isr_func_config button_config_pads)
  have g2: "gpio_isr_func g2 = Some (\<lambda>_. \<lparr>isr_fn = None, isr_args = 0\<rparr>)" "pads g2 = pads g1"
    using g1(1) assms(2)
    by (simp_all add: g2_def gpio_install_isr_service_def gpio_isr_register_def all_steps_ok_def Let_def)
  note d = Controller_Init_def button_defs gpio_isr_handler_add_def g1_def [symmetric] g2_def [symmetric]
    Let_def isr_func_ops button_valid
  show "gpio_isr_func (gpio (Controller_Init s)) = Some button_table"
    by (simp add: d g2 button_table_def)
  have ena: "int_ena (button_pads ps 47)" "int_ena (button_pads ps 48)" for ps
    by (simp_all add: button_pads_def configured_def button_config_def gpio_const_defs)
  show "pads (gpio (Controller_Init s)) = button_pads (pads (gpio s))"
    by (rule ext) (simp add: d g2 g1 gpio_intr_enable_def gpio_intr_enable_on_core_def ena
        gpio_hal_intr_enable_on_core_def gpio_intr_disable_def gpio_hal_intr_disable_def)
qed

lemma Controller_Init_frame: "Controller_Init s = s\<lparr>gpio := gpio (Controller_Init s)\<rparr>"
  by (simp add: Controller_Init_def Let_def)

section \<open>What an interrupt does\<close>

definition buttons_ready :: "'a firmware_scheme \<Rightarrow> bool" where
  "buttons_ready s \<longleftrightarrow> gpio_isr_func (gpio s) = Some button_table \<and>
     interrupting (pads (gpio s) 47) \<and> interrupting (pads (gpio s) 48)"

lemma Controller_Init_ready:
  assumes "gpio_isr_func (gpio s) = None" "all_steps_ok (environ s)"
  shows "buttons_ready (Controller_Init s)"
  using Controller_Init_gpio [OF assms]
  by (simp add: buttons_ready_def button_pads_def interrupting_def configured_def button_config_def gpio_const_defs)

lemma button_effect:
  "handler_effect (call_isr clock) button_table n =
     (if n = 47 then Controller_ISR_Submode (clock Submode_Isr)
      else if n = 48 then Controller_ISR_Mode (clock Mode_Isr) else id)"
  by (rule ext) (simp add: handler_effect_def button_table_def)

lemma fold_idle: "(\<And>n. n \<in> set ns \<Longrightarrow> f n = id) \<Longrightarrow> fold f ns s = s"
  by (induction ns) simp_all

lemma pending_split:
  "pending w = filter (bit w) [0..<15] @ (if bit w 15 then [15] else []) @ (if bit w 16 then [16] else []) @
     filter (bit w) [17..<32]"
proof -
  have "[0..<32] = [0..<15] @ [15, 16] @ [17..<32]"
    using upt_add_eq_append [of 0 15 17] by (simp add: upt_conv_Cons)
  then show ?thesis
    by (simp add: pending_def del: upt_Suc)
qed

lemma interrupt_effect_core:
  assumes "buttons_ready s"
  shows "interrupt lo hi clock s =
    (let s1 = (if bit hi 15 then Controller_ISR_Submode (clock Submode_Isr) s else s);
         s2 = (if bit hi 16 then Controller_ISR_Mode (clock Mode_Isr) s1 else s1)
     in s2\<lparr>gpio := (gpio s)\<lparr>intr_status := 0, intr_status_high := 0\<rparr>\<rparr>)"
proof -
  let ?f = "handler_effect (call_isr clock) button_table"
  have low: "fold ?f (pending lo) s = s"
    by (rule fold_idle) (auto simp: button_effect pending_def)
  have edges: "fold ?f (map ((+) 32) (filter P [0..<15])) s' = s'" "fold ?f (map ((+) 32) (filter P [17..<32])) s' = s'"
    for P s'
    by (rule fold_idle, auto simp: button_effect)+
  have "fold ?f (map ((+) 32) (pending hi)) s =
      (let s1 = (if bit hi 15 then Controller_ISR_Submode (clock Submode_Isr) s else s)
       in if bit hi 16 then Controller_ISR_Mode (clock Mode_Isr) s1 else s1)"
    unfolding pending_split map_append fold_append comp_def edges
    by (simp add: button_effect)
  then show ?thesis
    using assms low
    by (simp add: interrupt_def buttons_ready_def Let_def gpio_intr_service_dispatch_core)
qed

text \<open>
  C14: After \<open>Controller_Init\<close> an interrupt runs the handler of each button whose
  edge is latched, the submode button (pin 47) before the mode button (pin 48), and clears both
  status words.
\<close>

theorem button_interrupt_sets_flags:
  fixes s :: "'a firmware_scheme"
  assumes "gpio_isr_func (gpio s) = None" "all_steps_ok (environ s)"
  shows "let s0 = Controller_Init s;
      s1 = (if bit hi 15 then Controller_ISR_Submode (clock Submode_Isr) s0 else s0);
      s2 = (if bit hi 16 then Controller_ISR_Mode (clock Mode_Isr) s1 else s1)
    in interrupt lo hi clock s0 = s2\<lparr>gpio := (gpio s0)\<lparr>intr_status := 0, intr_status_high := 0\<rparr>\<rparr>"
  using interrupt_effect_core [OF Controller_Init_ready [OF assms]] by (simp only: Let_def)

text \<open>
  \<open>Controller_Init\<close> makes both button pins inputs without pulls that interrupt
  on the falling edge, with their handlers in the table, and touches no other pin.
\<close>

theorem Controller_Init_pins:
  fixes s :: "'a firmware_scheme"
  assumes "gpio_isr_func (gpio s) = None" "all_steps_ok (environ s)"
  shows "\<exists>table. gpio_isr_func (gpio (Controller_Init s)) = Some table \<and>
    isr_fn (table 48) = Some Mode_Isr \<and> isr_fn (table 47) = Some Submode_Isr \<and>
    (\<forall>n. isr_fn (table n) \<noteq> None \<longleftrightarrow> n = 47 \<or> n = 48) \<and>
    (\<forall>n. pads (gpio (Controller_Init s)) n =
       (if n = 47 \<or> n = 48 then (pads (gpio s) n)\<lparr>ie := True, oe := False, od := False, pu := False, pd := False,
          out_cfg := (out_cfg (pads (gpio s) n))\<lparr>oen_inv_sel := False, oen_sel := True\<rparr>,
          mcu_sel := PIN_FUNC_GPIO, int_type := GPIO_INTR_NEGEDGE, int_ena := True\<rparr>
        else pads (gpio s) n))"
  by (intro exI [of _ button_table] conjI)
    (use Controller_Init_gpio [OF assms] in \<open>auto simp: button_table_def button_pads_def configured_def
       button_config_def gpio_const_defs output_cfg_def\<close>)

section \<open>Debouncing\<close>

text \<open>The times that count as presses: each more than the debounce time after the one before.\<close>

fun accepted :: "int \<Rightarrow> int list \<Rightarrow> int list" where
  "accepted prev [] = []"
| "accepted prev (t # ts) = (if t - prev > DEBOUNCE_TIME_US then t # accepted t ts else accepted prev ts)"

lemma accepted_spaced: "sorted_wrt (\<lambda>a b. DEBOUNCE_TIME_US < b - a) (prev # accepted prev ts)"
  by (induction prev ts rule: accepted.induct) (fastforce simp: button_defs)+

lemma accepted_covers:
  "sorted (prev # ts) \<Longrightarrow> t \<in> set ts \<Longrightarrow>
     \<exists>a \<in> set (prev # accepted prev ts). a \<le> t \<and> t - a \<le> DEBOUNCE_TIME_US"
proof (induction prev ts rule: accepted.induct)
  case (2 prev u us)
  show ?case
  proof (cases "t = u")
    case True
    then show ?thesis
      using "2.prems"(1) by (cases "u - prev > DEBOUNCE_TIME_US") (auto simp: button_defs)
  next
    case False
    then have t: "t \<in> set us" using "2.prems"(2) by simp
    show ?thesis
    proof (cases "u - prev > DEBOUNCE_TIME_US")
      case True
      then show ?thesis using "2.IH"(1) [OF True _ t] "2.prems"(1) by auto
    next
      case False
      then show ?thesis using "2.IH"(2) [OF False _ t] "2.prems"(1) by auto
    qed
  qed
qed simp

text \<open>
  What the two handlers share: on an edge more than the debounce time after the last accepted one, a
  handler sets its flag and keeps the time, and otherwise does nothing.
\<close>

locale debounced_button =
  fixes isr :: "int \<Rightarrow> 's \<Rightarrow> 's"
    and prev :: "'s \<Rightarrow> int"
    and press :: "int \<Rightarrow> 's \<Rightarrow> 's"
  assumes isr: "isr now s = (if now - prev s > DEBOUNCE_TIME_US then press now s else s)"
    and prev_press: "prev (press now s) = now"
    and press_press: "press t (press u s) = press t s"
begin

lemma fold_isr:
  "fold isr ts s = (let as = accepted (prev s) ts in if as = [] then s else press (last as) s)"
  by (induction ts arbitrary: s) (auto simp: isr prev_press press_press Let_def)

lemma prev_fold: "prev (fold isr ts s) = last (prev s # accepted (prev s) ts)"
  by (simp add: fold_isr prev_press Let_def)

text \<open>Edges that come within the debounce time of the last accepted one change nothing.\<close>

lemma bounces_ignored:
  assumes "\<forall>t \<in> set ts. t - prev s \<le> DEBOUNCE_TIME_US"
  shows "fold isr ts s = s"
proof -
  have "accepted (prev s) ts = []"
    using assms by (induction ts) (auto simp: not_less [symmetric])
  then show ?thesis by (simp add: fold_isr)
qed

end

definition press_mode :: "int \<Rightarrow> 'a firmware_scheme \<Rightarrow> 'a firmware_scheme" where
  "press_mode now s = s\<lparr>toggle_mode_pressed := True, last_mode_press_time_us := now\<rparr>"

definition press_submode :: "int \<Rightarrow> 'a firmware_scheme \<Rightarrow> 'a firmware_scheme" where
  "press_submode now s = s\<lparr>toggle_submode_pressed := True, last_submode_press_time_us := now\<rparr>"

interpretation mode_button: debounced_button Controller_ISR_Mode last_mode_press_time_us press_mode
  by unfold_locales (simp_all add: Controller_ISR_Mode_def press_mode_def)

interpretation submode_button: debounced_button Controller_ISR_Submode last_submode_press_time_us press_submode
  by unfold_locales (simp_all add: Controller_ISR_Submode_def press_submode_def)

text \<open>
  C15: For any run of falling edges in the order of time, the mode handler accepts edges more than
  200 ms apart and ignores only edges within 200 ms of an accepted one (or of the start); the flag
  is set exactly when one was accepted and the time of the last accepted one is kept.
\<close>

theorem mode_button_debounced:
  fixes s :: "'a firmware_scheme"
  assumes "sorted (last_mode_press_time_us s # ts)"
  shows "let as = accepted (last_mode_press_time_us s) ts; s' = fold Controller_ISR_Mode ts s
    in s' = s\<lparr>toggle_mode_pressed := (toggle_mode_pressed s \<or> as \<noteq> []),
           last_mode_press_time_us := last (last_mode_press_time_us s # as)\<rparr> \<and>
       sorted_wrt (\<lambda>a b. DEBOUNCE_TIME_US < b - a) (last_mode_press_time_us s # as) \<and>
       (\<forall>t \<in> set ts. \<exists>a \<in> set (last_mode_press_time_us s # as). a \<le> t \<and> t - a \<le> DEBOUNCE_TIME_US)"
  using accepted_spaced accepted_covers [OF assms]
  by (auto simp: Let_def mode_button.fold_isr press_mode_def)

section \<open>A concrete firmware\<close>

text \<open>Before \<open>app_main\<close>: every static variable is zero.\<close>

definition fresh_firmware :: firmware where
  "fresh_firmware = display.extend (board.extend (spi_machine.extend fresh \<lparr>gpio = demo_gpio\<rparr>)
     \<lparr>lcd = \<lparr>spi_device = None, pin_int = 0\<rparr>, currentFont = DISPLAY_FONT_INTERNAL, inGraphicMode = False,
      glyph_cache = (\<lambda>_. empty_buffer), CURRENT_SCREEN = SCREEN_MAIN_NO_LAPS\<rparr>)
     \<lparr>toggle_mode_pressed = False, toggle_submode_pressed = False, last_mode_press_time_us = 0,
      last_submode_press_time_us = 0\<rparr>"

lemma fresh_firmware_fields [simp]:
  "environ fresh_firmware = environ fresh" "log fresh_firmware = []" "frame_base fresh_firmware = 0x3FC90000"
  "pristine fresh_firmware" "gpio fresh_firmware = demo_gpio" "CURRENT_SCREEN fresh_firmware = SCREEN_MAIN_NO_LAPS"
  "toggle_mode_pressed fresh_firmware = False" "toggle_submode_pressed fresh_firmware = False"
  "last_mode_press_time_us fresh_firmware = 0" "last_submode_press_time_us fresh_firmware = 0"
  by (simp_all add: fresh_firmware_def display.extend_def board.extend_def spi_machine.extend_def fresh_def
      pristine_def)

lemma fresh_gpio: "gpio_isr_func (gpio fresh_firmware) = None" "all_steps_ok (environ fresh_firmware)"
  using fresh_ok(1) by (simp_all add: demo_gpio_def)

lemma button_interrupt_sets_flags_witness:
  "toggle_mode_pressed (interrupt 0 0x10000 (\<lambda>_. 300000) (Controller_Init fresh_firmware)) \<and>
   \<not> toggle_submode_pressed (interrupt 0 0x10000 (\<lambda>_. 300000) (Controller_Init fresh_firmware))"
proof -
  have b: "\<not> bit (0x10000 :: u32) 15" "bit (0x10000 :: u32) 16"
    by (simp_all add: bit_simps)
  note f = Controller_Init_frame [of fresh_firmware]
  have "toggle_mode_pressed (Controller_Init fresh_firmware) = False"
    "toggle_submode_pressed (Controller_Init fresh_firmware) = False"
    "last_mode_press_time_us (Controller_Init fresh_firmware) = 0"
    by (subst f, simp)+
  then show ?thesis
    using button_interrupt_sets_flags [OF fresh_gpio, of "0x10000" "\<lambda>_. 300000" 0] b
    by (simp add: Let_def Controller_ISR_Mode_def button_defs)
qed

lemma Controller_Init_pins_witness:
  "int_ena (pads (gpio (Controller_Init fresh_firmware)) 48) \<and> \<not> pu (pads (gpio (Controller_Init fresh_firmware)) 47)"
  using Controller_Init_pins [OF fresh_gpio] by auto

lemma mode_button_debounced_witness:
  "accepted 0 [100000, 250000, 300000, 450000, 451000] = [250000, 451000] \<and>
   last_mode_press_time_us (fold Controller_ISR_Mode [100000, 250000, 300000, 450000, 451000] fresh_firmware) = 451000"
  using mode_button_debounced [of fresh_firmware "[100000, 250000, 300000, 450000, 451000]"]
  by (simp add: button_defs Let_def)

end
