(* ===== verification/Main_Loop.thy ===== *)
theory Main_Loop
  imports Controller
begin

text \<open>
  \<open>app_main\<close> (\<open>main/main.c\<close>): the two toggles and the endless loop, as steps between which the
  interrupts of the buttons can come.
\<close>

section \<open>The toggles\<close>

definition ToggleWhetherDrive :: "('h, 'a) display_stmt" where
  "ToggleWhetherDrive s =
     (if CURRENT_SCREEN s = SCREEN_DEBUG_NO_RTD then Display_SwitchScreen SCREEN_MAIN_NO_LAPS s
      else Display_SwitchScreen SCREEN_DEBUG_NO_RTD s)"

definition ToggleDuringDrive :: "('h, 'a) display_stmt" where
  "ToggleDuringDrive s =
     (case CURRENT_SCREEN s of
        SCREEN_MAIN_NO_LAPS \<Rightarrow> Display_SwitchScreen SCREEN_MAIN_LAPS s
      | SCREEN_MAIN_LAPS \<Rightarrow>
          seq [Display_SwitchScreen SCREEN_WARN, vTaskDelay (pdMS_TO_TICKS 500),
               Display_SwitchScreen SCREEN_DEBUG_RTD] s
      | SCREEN_DEBUG_RTD \<Rightarrow> Display_SwitchScreen SCREEN_MAIN_NO_LAPS s
      | _ \<Rightarrow> Inr s)"

section \<open>The loop\<close>

text \<open>
  Where the loop is: before the test of the mode flag, before it is cleared, before the toggle,
  the same for the submode flag, and before the delay.
\<close>

datatype pc = Test_Mode | Clear_Mode | Toggle_Mode | Test_Submode | Clear_Submode | Toggle_Submode | Sleep

fun loop_step :: "pc \<times> 'a firmware_scheme \<Rightarrow> (pc \<times> 'a firmware_scheme) outcome" where
  "loop_step (Test_Mode, s) = Inr (if toggle_mode_pressed s then Clear_Mode else Test_Submode, s)"
| "loop_step (Clear_Mode, s) = Inr (Toggle_Mode, s\<lparr>toggle_mode_pressed := False\<rparr>)"
| "loop_step (Toggle_Mode, s) = bindr (ToggleWhetherDrive s) (\<lambda>s'. Inr (Sleep, s'))"
| "loop_step (Test_Submode, s) = Inr (if toggle_submode_pressed s then Clear_Submode else Sleep, s)"
| "loop_step (Clear_Submode, s) = Inr (Toggle_Submode, s\<lparr>toggle_submode_pressed := False\<rparr>)"
| "loop_step (Toggle_Submode, s) =
     (if CURRENT_SCREEN s \<noteq> SCREEN_DEBUG_NO_RTD
      then bindr (ToggleDuringDrive s) (\<lambda>s'. Inr (Sleep, s')) else Inr (Sleep, s))"
| "loop_step (Sleep, s) = bindr (vTaskDelay (pdMS_TO_TICKS 100) s) (\<lambda>s'. Inr (Test_Mode, s'))"

definition app_start :: "'a firmware_scheme \<Rightarrow> (pc \<times> 'a firmware_scheme) outcome" where
  "app_start s = bindr (Display_Init s) (\<lambda>s'. Inr (Test_Mode, Controller_Init s'))"

text \<open>What can happen next: a step of the loop, or an interrupt with some latched pins.\<close>

datatype action = Loop | Interrupt u32 u32 "button_isr \<Rightarrow> int"

fun act :: "action \<Rightarrow> pc \<times> 'a firmware_scheme \<Rightarrow> (pc \<times> 'a firmware_scheme) outcome" where
  "act Loop c = loop_step c"
| "act (Interrupt lo hi clock) (p, s) = Inr (p, interrupt lo hi clock s)"

fun run :: "action list \<Rightarrow> pc \<times> 'a firmware_scheme \<Rightarrow> (pc \<times> 'a firmware_scheme) outcome" where
  "run [] c = Inr c"
| "run (a # as) c = bindr (act a c) (run as)"

inductive app_reachable :: "'a firmware_scheme \<Rightarrow> pc \<times> 'a firmware_scheme \<Rightarrow> bool" for s0 where
  started: "app_start s0 = Inr c \<Longrightarrow> app_reachable s0 c"
| looped: "app_reachable s0 c \<Longrightarrow> loop_step c = Inr c' \<Longrightarrow> app_reachable s0 c'"
| interrupted: "app_reachable s0 (p, s) \<Longrightarrow> latchable (gpio s) lo hi \<Longrightarrow>
     app_reachable s0 (p, interrupt lo hi clock s)"

section \<open>The screens, abstractly\<close>

text \<open>The place in the loop, the screen and the two flags are all that the loop decides on.\<close>

record view =
  at_pc :: pc
  screen :: Screen_t
  mode_flag :: bool
  submode_flag :: bool

definition view_of :: "pc \<times> 'a firmware_scheme \<Rightarrow> view" where
  "view_of c = \<lparr>at_pc = fst c, screen = CURRENT_SCREEN (snd c), mode_flag = toggle_mode_pressed (snd c),
     submode_flag = toggle_submode_pressed (snd c)\<rparr>"

fun whether_next :: "Screen_t \<Rightarrow> Screen_t" where
  "whether_next SCREEN_DEBUG_NO_RTD = SCREEN_MAIN_NO_LAPS"
| "whether_next _ = SCREEN_DEBUG_NO_RTD"

fun during_next :: "Screen_t \<Rightarrow> Screen_t" where
  "during_next SCREEN_MAIN_NO_LAPS = SCREEN_MAIN_LAPS"
| "during_next SCREEN_MAIN_LAPS = SCREEN_DEBUG_RTD"
| "during_next SCREEN_DEBUG_RTD = SCREEN_MAIN_NO_LAPS"
| "during_next scr = scr"

definition view_step :: "view \<Rightarrow> view" where
  "view_step v =
     (case at_pc v of
        Test_Mode \<Rightarrow> v\<lparr>at_pc := (if mode_flag v then Clear_Mode else Test_Submode)\<rparr>
      | Clear_Mode \<Rightarrow> v\<lparr>at_pc := Toggle_Mode, mode_flag := False\<rparr>
      | Toggle_Mode \<Rightarrow> v\<lparr>at_pc := Sleep, screen := whether_next (screen v)\<rparr>
      | Test_Submode \<Rightarrow> v\<lparr>at_pc := (if submode_flag v then Clear_Submode else Sleep)\<rparr>
      | Clear_Submode \<Rightarrow> v\<lparr>at_pc := Toggle_Submode, submode_flag := False\<rparr>
      | Toggle_Submode \<Rightarrow> v\<lparr>at_pc := Sleep, screen := during_next (screen v)\<rparr>
      | Sleep \<Rightarrow> v\<lparr>at_pc := Test_Mode\<rparr>)"

section \<open>The toggles show the next screen\<close>

text \<open>A statement of the display in its effect on screen, panel and the rest.\<close>

definition turns_to :: "Screen_t \<Rightarrow> mark list \<Rightarrow> ('h, 'a) display_stmt \<Rightarrow> ('h, 'a) display_scheme \<Rightarrow> bool" where
  "turns_to scr ms c s \<longleftrightarrow> (\<exists>s' fs. c s = Inr s' \<and> display_ready s' \<and> CURRENT_SCREEN s' = scr \<and>
     figs (panel_of s') = figs (panel_of s) @ fs \<and> depicts ms fs \<and>
     gpio s' = gpio s \<and> environ s' = environ s \<and> display.more s' = display.more s)"

lemma turns_toE:
  assumes "turns_to scr ms c s"
  obtains s' fs where "c s = Inr s'" "display_ready s'" "CURRENT_SCREEN s' = scr"
    "figs (panel_of s') = figs (panel_of s) @ fs" "depicts ms fs" "gpio s' = gpio s" "environ s' = environ s"
    "display.more s' = display.more s"
  using assms unfolding turns_to_def by blast

lemma turns_to_switch: "display_ready s \<Longrightarrow> CURRENT_SCREEN s \<noteq> scr \<Longrightarrow> turns_to scr (screen_marks scr) (Display_SwitchScreen scr) s"
  using switch_screen_runs [of s scr] unfolding turns_to_def by auto

lemma turns_to_delay: "display_ready s \<Longrightarrow> turns_to (CURRENT_SCREEN s) [] (vTaskDelay n) s"
  using stage_delay [of any_sheet n] unfolding turns_to_def stage_def staged_def keeps_def any_sheet_def by fastforce

lemma turns_to_Cons:
  assumes "turns_to scr ms c s" "\<And>t. display_ready t \<Longrightarrow> CURRENT_SCREEN t = scr \<Longrightarrow> turns_to scr' ms' (seq cs) t"
  shows "turns_to scr' (ms @ ms') (seq (c # cs)) s"
proof -
  obtain s1 fs where s1: "c s = Inr s1" "display_ready s1" "CURRENT_SCREEN s1 = scr"
    "figs (panel_of s1) = figs (panel_of s) @ fs" "depicts ms fs" "gpio s1 = gpio s" "environ s1 = environ s"
    "display.more s1 = display.more s"
    by (rule turns_toE [OF assms(1)])
  obtain s2 fs' where "seq cs s1 = Inr s2" "display_ready s2" "CURRENT_SCREEN s2 = scr'"
    "figs (panel_of s2) = figs (panel_of s1) @ fs'" "depicts ms' fs'" "gpio s2 = gpio s1" "environ s2 = environ s1"
    "display.more s2 = display.more s1"
    by (rule turns_toE [OF assms(2) [OF s1(2,3)]])
  then show ?thesis
    using s1 unfolding turns_to_def by (intro exI [of _ s2] exI [of _ "fs @ fs'"]) (simp add: depicts_append)
qed

fun during_marks :: "Screen_t \<Rightarrow> mark list" where
  "during_marks SCREEN_MAIN_NO_LAPS = screen_marks SCREEN_MAIN_LAPS"
| "during_marks SCREEN_MAIN_LAPS = screen_marks SCREEN_WARN @ screen_marks SCREEN_DEBUG_RTD"
| "during_marks SCREEN_DEBUG_RTD = screen_marks SCREEN_MAIN_NO_LAPS"
| "during_marks _ = []"

lemma whether_shows:
  "display_ready s \<Longrightarrow> turns_to (whether_next (CURRENT_SCREEN s)) (screen_marks (whether_next (CURRENT_SCREEN s)))
     ToggleWhetherDrive s"
  using turns_to_switch [of s "whether_next (CURRENT_SCREEN s)"]
  by (cases "CURRENT_SCREEN s") (simp_all add: turns_to_def ToggleWhetherDrive_def)

lemma during_shows:
  fixes s :: "('h, 'a) display_scheme"
  assumes "display_ready s"
  shows "turns_to (during_next (CURRENT_SCREEN s)) (during_marks (CURRENT_SCREEN s)) ToggleDuringDrive s"
proof (cases "CURRENT_SCREEN s = SCREEN_MAIN_LAPS")
  case True
  have "turns_to SCREEN_DEBUG_RTD (screen_marks SCREEN_DEBUG_RTD) (seq [Display_SwitchScreen SCREEN_DEBUG_RTD]) t"
    if "display_ready t" "CURRENT_SCREEN t = SCREEN_WARN" for t :: "('h, 'a) display_scheme"
    using turns_to_switch [OF that(1), of SCREEN_DEBUG_RTD] that(2) by (simp only: seq_single) simp
  note last = this
  have rest: "turns_to SCREEN_DEBUG_RTD (screen_marks SCREEN_DEBUG_RTD)
      (seq [vTaskDelay (pdMS_TO_TICKS 500), Display_SwitchScreen SCREEN_DEBUG_RTD]) t"
    if t: "display_ready t" "CURRENT_SCREEN t = SCREEN_WARN" for t :: "('h, 'a) display_scheme"
    using turns_to_Cons [OF turns_to_delay [OF t(1)]] last t(2) by (metis append_Nil)
  have "turns_to SCREEN_DEBUG_RTD (screen_marks SCREEN_WARN @ screen_marks SCREEN_DEBUG_RTD)
      (seq [Display_SwitchScreen SCREEN_WARN, vTaskDelay (pdMS_TO_TICKS 500), Display_SwitchScreen SCREEN_DEBUG_RTD]) s"
    by (rule turns_to_Cons [OF turns_to_switch [OF assms] rest]) (simp_all add: True)
  then show ?thesis
    using True by (simp add: turns_to_def ToggleDuringDrive_def del: seq.simps)
next
  case False
  have idle: "turns_to (CURRENT_SCREEN s) [] Inr s"
    using assms by (simp add: turns_to_def)
  show ?thesis
    using False turns_to_switch [OF assms] idle
    by (cases "CURRENT_SCREEN s") (auto simp: turns_to_def ToggleDuringDrive_def simp del: screen_marks.simps)
qed

section \<open>The invariant of the loop\<close>

definition loop_ok :: "pc \<times> 'a firmware_scheme \<Rightarrow> bool" where
  "loop_ok c \<longleftrightarrow> display_ready (snd c) \<and> buttons_ready (snd c) \<and> CURRENT_SCREEN (snd c) \<noteq> SCREEN_WARN"

lemma firmware_fields:
  assumes "display.more s' = display.more (s :: 'a firmware_scheme)"
  shows "toggle_mode_pressed s' = toggle_mode_pressed s" "toggle_submode_pressed s' = toggle_submode_pressed s"
    "last_mode_press_time_us s' = last_mode_press_time_us s"
    "last_submode_press_time_us s' = last_submode_press_time_us s"
  using assms by (cases s, cases s', simp)+

lemma ready_updates [simp]:
  "display_ready (s\<lparr>toggle_mode_pressed := b\<rparr>) = display_ready s"
  "display_ready (s\<lparr>toggle_submode_pressed := b\<rparr>) = display_ready s"
  "display_ready (s\<lparr>last_mode_press_time_us := t\<rparr>) = display_ready s"
  "display_ready (s\<lparr>last_submode_press_time_us := t\<rparr>) = display_ready s"
  "display_ready (s\<lparr>gpio := g\<rparr>) = display_ready s"
  by (simp_all add: display_ready_def port_ready_def bus_ready_def split: option.split)

lemma turns_to_loop:
  fixes s :: "'a firmware_scheme"
  assumes "turns_to scr ms c s" "loop_ok (p, s)" "scr \<noteq> SCREEN_WARN"
  shows "\<exists>s'. c s = Inr s' \<and> loop_ok (q, s') \<and>
    view_of (q, s') = (view_of (p, s))\<lparr>at_pc := q, screen := scr\<rparr>"
  using assms firmware_fields by (elim turns_toE) (auto simp: loop_ok_def buttons_ready_def view_of_def)

lemma during_steady: "scr \<noteq> SCREEN_WARN \<Longrightarrow> during_next scr \<noteq> SCREEN_WARN \<and> whether_next scr \<noteq> SCREEN_WARN"
  by (cases scr) simp_all

lemma loop_step_view:
  fixes s :: "'a firmware_scheme"
  assumes ok: "loop_ok (p, s)"
  shows "\<exists>c'. loop_step (p, s) = Inr c' \<and> loop_ok c' \<and> view_of c' = view_step (view_of (p, s))"
proof -
  have ready: "display_ready s" and scr: "CURRENT_SCREEN s \<noteq> SCREEN_WARN"
    using ok by (simp_all add: loop_ok_def)
  note steady = during_steady [OF scr]
  note defs = view_step_def loop_ok_def buttons_ready_def
  show ?thesis
  proof (cases p)
    case Toggle_Mode
    then show ?thesis
      using turns_to_loop [OF whether_shows [OF ready] ok, where q = Sleep] steady
      by (auto simp: view_step_def view_of_def)
  next
    case Toggle_Submode
    show ?thesis
    proof (cases "CURRENT_SCREEN s = SCREEN_DEBUG_NO_RTD")
      case True
      then show ?thesis
        using ok Toggle_Submode by (simp add: defs view_of_def)
    next
      case False
      then show ?thesis
        using turns_to_loop [OF during_shows [OF ready] ok, where q = Sleep] steady Toggle_Submode
        by (auto simp: view_step_def view_of_def)
    qed
  next
    case Sleep
    then show ?thesis
      using turns_to_loop [OF turns_to_delay [OF ready, of "pdMS_TO_TICKS 100"] ok, where q = Test_Mode] scr
      by (auto simp: view_step_def view_of_def)
  qed (use ok in \<open>simp_all add: defs view_of_def\<close>)
qed

text \<open>An interrupt leaves the loop where it is and can only set flags.\<close>

lemma interrupt_loop:
  assumes "loop_ok (p, s)"
  shows "loop_ok (p, interrupt lo hi clock s)"
    "CURRENT_SCREEN (interrupt lo hi clock s) = CURRENT_SCREEN s"
    "toggle_mode_pressed s \<Longrightarrow> toggle_mode_pressed (interrupt lo hi clock s)"
    "toggle_submode_pressed s \<Longrightarrow> toggle_submode_pressed (interrupt lo hi clock s)"
    "log (interrupt lo hi clock s) = log s"
  using assms interrupt_effect_core [of s lo hi clock]
  by (auto simp: loop_ok_def Let_def Controller_ISR_Mode_def Controller_ISR_Submode_def buttons_ready_def)

text \<open>
  C2: The main loop refines an abstract machine: on a ready display every step returns, and its
  effect on the place in the loop, the current screen and the two flags is exactly one step of
  \<open>view_step\<close>.
\<close>

theorem loop_refines_view:
  fixes s :: "'a firmware_scheme"
  assumes "display_ready s" "buttons_ready s" "CURRENT_SCREEN s \<noteq> SCREEN_WARN"
  shows "\<exists>c'. loop_step (p, s) = Inr c' \<and> view_of c' = view_step (view_of (p, s))"
  using loop_step_view [of p s] assms by (auto simp: loop_ok_def)

section \<open>The running firmware\<close>

lemma Controller_Init_loop:
  assumes "display_ready s" "CURRENT_SCREEN s \<noteq> SCREEN_WARN" "gpio_isr_func (gpio s) = None" "all_steps_ok (environ s)"
  shows "loop_ok (p, Controller_Init s)" "CURRENT_SCREEN (Controller_Init s) = CURRENT_SCREEN s"
    "toggle_mode_pressed (Controller_Init s) = toggle_mode_pressed s"
    "last_mode_press_time_us (Controller_Init s) = last_mode_press_time_us s"
proof -
  note f = Controller_Init_frame [of s]
  show "toggle_mode_pressed (Controller_Init s) = toggle_mode_pressed s"
    "last_mode_press_time_us (Controller_Init s) = last_mode_press_time_us s"
    by (subst f, simp)+
  show "CURRENT_SCREEN (Controller_Init s) = CURRENT_SCREEN s"
    by (subst f) simp
  moreover have "display_ready (Controller_Init s)"
    by (subst f) (simp add: assms(1))
  ultimately show "loop_ok (p, Controller_Init s)"
    using assms Controller_Init_ready [OF assms(3,4)] by (simp add: loop_ok_def)
qed

definition good_start :: "'a firmware_scheme \<Rightarrow> bool" where
  "good_start s \<longleftrightarrow> all_steps_ok (environ s) \<and> pristine s \<and> log s = [] \<and> wire_ok (environ s) \<and>
     identifies (environ s) \<and> frame_ok (frame_base s) \<and> CURRENT_SCREEN s = SCREEN_MAIN_NO_LAPS \<and>
     gpio_isr_func (gpio s) = None"

lemma app_start_ok:
  fixes s :: "'a firmware_scheme"
  assumes "good_start s"
  shows "\<exists>s'. app_start s = Inr (Test_Mode, s') \<and> loop_ok (Test_Mode, s') \<and>
    CURRENT_SCREEN s' = SCREEN_DEBUG_NO_RTD \<and> toggle_mode_pressed s' = toggle_mode_pressed s \<and>
    last_mode_press_time_us s' = last_mode_press_time_us s"
proof -
  have "CURRENT_SCREEN s \<noteq> SCREEN_DEBUG_NO_RTD"
    using assms by (simp add: good_start_def)
  then obtain s1 where s1: "Display_Init s = Inr s1" "display_ready s1" "CURRENT_SCREEN s1 = SCREEN_DEBUG_NO_RTD"
      "environ s1 = environ s" "gpio s1 = snd (gpio_config app_core (int_pin_config LCD_PIN_INT) (gpio s))"
      "display.more s1 = display.more s"
    using Display_Init_core [of s] assms unfolding good_start_def by blast
  have "gpio_isr_func (gpio s1) = None" "all_steps_ok (environ s1)" "CURRENT_SCREEN s1 \<noteq> SCREEN_WARN"
    using s1 assms by (simp_all add: isr_func_config good_start_def)
  then show ?thesis
    using s1 Controller_Init_loop(1) [of s1 Test_Mode] Controller_Init_loop(2-4) [of s1] firmware_fields [OF s1(6)]
    by (simp add: app_start_def)
qed

lemma app_reachable_ok:
  assumes "app_reachable s0 c" "good_start s0"
  shows "loop_ok c"
  using assms
proof (induction rule: app_reachable.induct)
  case (started c)
  then show ?case using app_start_ok by force
next
  case (looped c c')
  then show ?case using loop_step_view [of "fst c" "snd c"] by (cases c) auto
next
  case (interrupted p s lo hi clock)
  then show ?case by (blast intro: interrupt_loop(1))
qed

text \<open>
  C1: From a start that succeeds the firmware never stops: in every state that the main loop and
  the button interrupts can reach, in any interleaving, the next step of the loop returns, the
  display is ready, and the warning screen is never left on the panel between two steps.
\<close>

theorem firmware_never_stops:
  assumes "good_start s0" "app_reachable s0 c"
  shows "(\<exists>c'. loop_step c = Inr c') \<and> CURRENT_SCREEN (snd c) \<noteq> SCREEN_WARN \<and> display_ready (snd c)"
  using app_reachable_ok [OF assms(2,1)] loop_step_view [of "fst c" "snd c"] by (auto simp: loop_ok_def)

section \<open>Presses are served\<close>

text \<open>How many steps of the loop there are at most until the next toggle of the mode.\<close>

fun steps_to_toggle :: "pc \<Rightarrow> nat" where
  "steps_to_toggle Clear_Mode = 1"
| "steps_to_toggle Test_Mode = 2"
| "steps_to_toggle Sleep = 3"
| "steps_to_toggle Toggle_Mode = 4"
| "steps_to_toggle Toggle_Submode = 4"
| "steps_to_toggle Clear_Submode = 5"
| "steps_to_toggle Test_Submode = 6"

fun loops :: "action list \<Rightarrow> nat" where
  "loops [] = 0"
| "loops (Loop # as) = Suc (loops as)"
| "loops (Interrupt lo hi clock # as) = loops as"

lemma mode_press_runs:
  fixes s :: "'a firmware_scheme"
  assumes "loop_ok (p, s)" "toggle_mode_pressed s" "steps_to_toggle p \<le> loops as"
  shows "\<exists>as1 as2 s'. as = as1 @ as2 \<and> 0 < loops as1 \<and> run as1 (p, s) = Inr (Toggle_Mode, s')"
  using assms
proof (induction as arbitrary: p s)
  case Nil
  then show ?case by (cases p) simp_all
next
  case (Cons a as)
  show ?case
  proof (cases a)
    case (Interrupt lo hi clock)
    with Cons.prems Cons.IH [of p "interrupt lo hi clock s"] interrupt_loop [of p s lo hi clock]
    obtain as1 as2 s' where "as = as1 @ as2" "0 < loops as1"
      "run as1 (p, interrupt lo hi clock s) = Inr (Toggle_Mode, s')"
      by auto
    then show ?thesis
      using Interrupt by (intro exI [of _ "a # as1"] exI [of _ as2] exI [of _ s']) simp
  next
    case Loop
    show ?thesis
    proof (cases "p = Clear_Mode")
      case True
      then show ?thesis
        using Loop by (intro exI [of _ "[Loop]"] exI [of _ as] exI [of _ "s\<lparr>toggle_mode_pressed := False\<rparr>"]) simp
    next
      case False
      obtain p' s1 where c': "loop_step (p, s) = Inr (p', s1)" "loop_ok (p', s1)"
          "view_of (p', s1) = view_step (view_of (p, s))"
        using loop_step_view [OF Cons.prems(1)] by auto
      then have "toggle_mode_pressed s1" "Suc (steps_to_toggle p') \<le> steps_to_toggle p"
        using False Cons.prems(2) by (cases p; auto simp: view_of_def view_step_def)+
      with c'(2) Cons.prems(3) Cons.IH [of p' s1] Loop obtain as1 as2 s' where
        "as = as1 @ as2" "0 < loops as1" "run as1 (p', s1) = Inr (Toggle_Mode, s')"
        by auto
      then show ?thesis
        using Loop c'(1) by (intro exI [of _ "Loop # as1"] exI [of _ as2] exI [of _ s']) simp
    qed
  qed
qed

text \<open>
  C3: A press of the mode button is never lost: from every reachable state with the flag set, the
  loop comes to a new toggle of the mode within six of its steps, whatever interrupts come in
  between.
\<close>

theorem mode_press_served:
  fixes s :: "'a firmware_scheme"
  assumes "good_start s0" "app_reachable s0 (p, s)" "toggle_mode_pressed s" "6 \<le> loops as"
  shows "\<exists>as1 as2 s'. as = as1 @ as2 \<and> 0 < loops as1 \<and> run as1 (p, s) = Inr (Toggle_Mode, s')"
proof (rule mode_press_runs [OF app_reachable_ok [OF assms(2,1)] assms(3)])
  show "steps_to_toggle p \<le> loops as"
    using assms(4) by (cases p) simp_all
qed

text \<open>
  C4: A press of the submode button shows the next drive screen, with the warning before the debug
  screen, and three such presses lead back to where they started; on the static debug screen the
  press is dropped and nothing is drawn.
\<close>

theorem submode_press_shows_next:
  fixes s :: "'a firmware_scheme"
  assumes "display_ready s" "toggle_submode_pressed s" "\<not> toggle_mode_pressed s"
  shows "\<exists>s' fs. run [Loop, Loop, Loop, Loop] (Test_Mode, s) = Inr (Sleep, s') \<and>
    CURRENT_SCREEN s' = during_next (CURRENT_SCREEN s) \<and> \<not> toggle_submode_pressed s' \<and>
    figs (panel_of s') = figs (panel_of s) @ fs \<and> depicts (during_marks (CURRENT_SCREEN s)) fs \<and>
    (CURRENT_SCREEN s \<in> {SCREEN_MAIN_NO_LAPS, SCREEN_MAIN_LAPS, SCREEN_DEBUG_RTD} \<longrightarrow>
       during_next (during_next (CURRENT_SCREEN s')) = CURRENT_SCREEN s) \<and>
    (CURRENT_SCREEN s = SCREEN_DEBUG_NO_RTD \<longrightarrow> fs = [])"
proof -
  let ?s = "s\<lparr>toggle_submode_pressed := False\<rparr>"
  have panel: "panel_of ?s = panel_of s"
    by (simp add: panel_of_def ops_def)
  have "display_ready ?s" using assms(1) by simp
  from during_shows [OF this] obtain s' fs where s': "ToggleDuringDrive ?s = Inr s'"
    "CURRENT_SCREEN s' = during_next (CURRENT_SCREEN s)" "figs (panel_of s') = figs (panel_of s) @ fs"
    "depicts (during_marks (CURRENT_SCREEN s)) fs" "display.more s' = display.more ?s"
    by (auto simp: panel elim: turns_toE)
  show ?thesis
  proof (cases "CURRENT_SCREEN s = SCREEN_DEBUG_NO_RTD")
    case True
    then show ?thesis
      using assms by (intro exI [of _ ?s] exI [of _ "[]"]) (simp add: panel)
  next
    case False
    then show ?thesis
      using assms s' firmware_fields [OF s'(5)]
      by (intro exI [of _ s'] exI [of _ fs]) (cases "CURRENT_SCREEN s"; simp del: during_marks.simps)
  qed
qed

section \<open>A concrete run\<close>

lemma good_fresh: "good_start fresh_firmware"
  using fresh_ok(1) fresh_env demo_frame_ok by (simp add: good_start_def demo_gpio_def)

text \<open>The firmware after its start, and after a first press of the mode button.\<close>

lemma fresh_started:
  obtains s where "app_start fresh_firmware = Inr (Test_Mode, s)" "loop_ok (Test_Mode, s)"
    "CURRENT_SCREEN s = SCREEN_DEBUG_NO_RTD" "\<not> toggle_mode_pressed s" "last_mode_press_time_us s = 0"
  using app_start_ok [OF good_fresh] by auto

lemma press_latchable:
  assumes "loop_ok (p, s)"
  shows "latchable (gpio s) 0 0x10000"
proof -
  have "pending 0x10000 = [16]"
    by (simp add: pending_def upt_rec bit_simps)
  then show ?thesis
    using assms by (simp add: latchable_def loop_ok_def buttons_ready_def)
qed

lemma press_sets:
  assumes "loop_ok (p, s)" "last_mode_press_time_us s = 0"
  shows "toggle_mode_pressed (interrupt 0 0x10000 (\<lambda>_. 300000) s)"
proof -
  have b: "\<not> bit (0x10000 :: u32) 15" "bit (0x10000 :: u32) 16"
    by (simp_all add: bit_simps)
  show ?thesis
    using assms interrupt_effect_core [of s 0 "0x10000" "\<lambda>_. 300000"] b
    by (simp add: loop_ok_def Let_def Controller_ISR_Mode_def button_defs)
qed

lemma loop_refines_view_witness:
  "\<exists>s c'. app_start fresh_firmware = Inr (Test_Mode, s) \<and> loop_step (Toggle_Mode, s) = Inr c' \<and>
     screen (view_of c') = SCREEN_MAIN_NO_LAPS \<and> at_pc (view_of c') = Sleep"
proof -
  obtain s where s: "app_start fresh_firmware = Inr (Test_Mode, s)" "loop_ok (Test_Mode, s)"
    "CURRENT_SCREEN s = SCREEN_DEBUG_NO_RTD"
    using fresh_started by metis
  then have "\<exists>c'. loop_step (Toggle_Mode, s) = Inr c' \<and> view_of c' = view_step (view_of (Toggle_Mode, s))"
    by (intro loop_refines_view) (simp_all add: loop_ok_def)
  then show ?thesis
    using s by (auto simp: view_of_def view_step_def)
qed

lemma firmware_never_stops_witness:
  "\<exists>s c'. app_start fresh_firmware = Inr (Test_Mode, s) \<and>
     loop_step (Test_Mode, interrupt 0 0x10000 (\<lambda>_. 300000) s) = Inr c'"
proof -
  obtain s where s: "app_start fresh_firmware = Inr (Test_Mode, s)" "loop_ok (Test_Mode, s)"
    using fresh_started by metis
  have "app_reachable fresh_firmware (Test_Mode, interrupt 0 0x10000 (\<lambda>_. 300000) s)"
    by (rule app_reachable.interrupted [OF app_reachable.started [OF s(1)] press_latchable [OF s(2)]])
  from firmware_never_stops [OF good_fresh this] s(1) show ?thesis by blast
qed

lemma mode_press_served_witness:
  "\<exists>s as1 s'. app_start fresh_firmware = Inr (Test_Mode, s) \<and>
     run as1 (Test_Mode, interrupt 0 0x10000 (\<lambda>_. 300000) s) = Inr (Toggle_Mode, s')"
proof -
  obtain s where s: "app_start fresh_firmware = Inr (Test_Mode, s)" "loop_ok (Test_Mode, s)"
      "last_mode_press_time_us s = 0"
    using fresh_started by metis
  have "app_reachable fresh_firmware (Test_Mode, interrupt 0 0x10000 (\<lambda>_. 300000) s)"
    by (rule app_reachable.interrupted [OF app_reachable.started [OF s(1)] press_latchable [OF s(2)]])
  from mode_press_served [OF good_fresh this press_sets [OF s(2,3)], of "[Loop, Loop, Loop, Loop, Loop, Loop]"]
    s(1) show ?thesis by auto
qed

lemma submode_press_shows_next_witness:
  "\<exists>s s' fs. run [Loop, Loop, Loop, Loop] (Test_Mode, s) = Inr (Sleep, s') \<and> CURRENT_SCREEN s = SCREEN_DEBUG_NO_RTD \<and>
     figs (panel_of s') = figs (panel_of (s :: firmware)) @ fs \<and> \<not> toggle_submode_pressed s' \<and> fs = []"
proof -
  obtain s :: firmware where s: "loop_ok (Test_Mode, s)" "CURRENT_SCREEN s = SCREEN_DEBUG_NO_RTD" "\<not> toggle_mode_pressed s"
    using fresh_started by metis
  let ?s = "s\<lparr>toggle_submode_pressed := True\<rparr> :: firmware"
  have "display_ready ?s" "toggle_submode_pressed ?s" "\<not> toggle_mode_pressed ?s" "CURRENT_SCREEN ?s = SCREEN_DEBUG_NO_RTD"
    using s by (simp_all add: loop_ok_def)
  from submode_press_shows_next [OF this(1-3)] this(4) show ?thesis by blast
qed

end
