(* ===== verification/Spi_Background.thy ===== *)
theory Spi_Background
  imports Spi_Bus_Lock
begin

text \<open>
  Queued transfers of the SPI driver (\<open>esp_driver_spi/src/gpspi/spi_master.c\<close>): the interrupt handler
  \<open>spi_intr\<close>, the queues, and the tasks of the devices that queue, poll, acquire and release. Each
  call of the bus lock is one step, and the handler is a machine whose steps are those calls. What
  a queue holds is of a type parameter: a transaction that \<open>check_trans_valid\<close> and
  \<open>setup_priv_desc\<close> have let through. Segmented transfers and power management are left out.
\<close>

section \<open>State\<close>

text \<open>
  Where the task of a device is. The flag says whether it waits in \<open>spi_device_acquire_bus\<close>, to keep
  the bus, or in \<open>spi_device_polling_start\<close>, for one transaction. \<open>Dev_Bg_Wait\<close> is the wait of
  \<open>spi_bus_lock_wait_bg_done\<close>. \<open>req_due\<close>: the task has sent to its queue and not yet made the request.
  \<open>keeper\<close> is \<open>device_acquiring_lock\<close>.
\<close>

datatype dev_task = Dev_Idle | Dev_Waiting bool | Dev_Keeping | Dev_Bg_Wait | Dev_Polling

text \<open>
  Where the handler is: not running, at the head of its loop, before \<open>bg_check_dev_acq\<close>,
  \<open>bg_check_dev_req\<close>, the receive from the queue, \<open>bg_clear_req\<close> and \<open>bg_exit\<close>.
\<close>

datatype isr_pc = Isr_Off | Isr_Loop | Isr_Sched | Isr_Serve nat | Isr_Take nat | Isr_Clear nat | Isr_Exit bool

text \<open>
  \<open>cur_cs\<close> is \<open>None\<close> for \<open>DEV_NUM_MAX\<close>. \<open>hw_busy\<close>: the peripheral has not raised its done bit.
  \<open>failed\<close>: an assertion has failed. \<open>sent\<close> lists what the handler has started, for the statements
  only.
\<close>

record 't bg_system =
  blk :: spi_bus_lock
  task :: "nat \<Rightarrow> dev_task"
  req_due :: "nat \<Rightarrow> bool"
  keeper :: "nat option"
  trans_queue :: "nat \<Rightarrow> 't list"
  ret_queue :: "nat \<Rightarrow> 't list"
  queue_size :: "nat \<Rightarrow> nat"
  no_result :: "nat \<Rightarrow> bool"
  cur_cs :: "nat option"
  cur_item :: "'t option"
  hw_busy :: bool
  isr_at :: isr_pc
  failed :: bool
  sent :: "(nat \<times> 't) list"

definition bg_start :: "nat \<Rightarrow> (nat \<Rightarrow> nat) \<Rightarrow> (nat \<Rightarrow> bool) \<Rightarrow> 't bg_system" where
  "bg_start cs depth quiet =
     \<lparr>blk = spi_bus_init_lock cs, task = (\<lambda>_. Dev_Idle), req_due = (\<lambda>_. False), keeper = None, trans_queue = (\<lambda>_. []),
      ret_queue = (\<lambda>_. []), queue_size = depth, no_result = quiet, cur_cs = None, cur_item = None,
      hw_busy = False, isr_at = Isr_Off, failed = False, sent = []\<rparr>"

section \<open>The interrupt handler\<close>

text \<open>The transaction in flight is done: its descriptor goes back to the device, if there is room.\<close>

definition post_queued :: "nat \<Rightarrow> 't bg_system \<Rightarrow> 't bg_system" where
  "post_queued cs s =
     (let s1 = s\<lparr>cur_cs := None\<rparr>
      in case cur_item s of
           Some t \<Rightarrow>
             if \<not> no_result s cs \<and> length (ret_queue s cs) < queue_size s cs
             then s1\<lparr>ret_queue := (ret_queue s)(cs := ret_queue s cs @ [t])\<rparr> else s1
         | None \<Rightarrow> s1)"

definition spi_intr_entry :: "'t bg_system \<Rightarrow> 't bg_system" where
  "spi_intr_entry s =
     (let (fresh, l) = bg_entry_core (blk s); s1 = s\<lparr>blk := l\<rparr>
      in if fresh then
           (if cur_cs s1 = None then s1\<lparr>isr_at := Isr_Loop\<rparr> else s1\<lparr>failed := True\<rparr>)
         else
           (case cur_cs s1 of
              None \<Rightarrow> s1\<lparr>failed := True\<rparr>
            | Some cs \<Rightarrow> (post_queued cs s1)\<lparr>isr_at := Isr_Loop\<rparr>))"

definition spi_intr_step :: "'t bg_system \<Rightarrow> 't bg_system" where
  "spi_intr_step s =
     (case isr_at s of
        Isr_Off \<Rightarrow> spi_intr_entry s
      | Isr_Loop \<Rightarrow>
          (case acquiring_dev (blk s) of
             None \<Rightarrow> s\<lparr>isr_at := Isr_Sched\<rparr>
           | Some d \<Rightarrow> s\<lparr>isr_at := Isr_Serve d\<rparr>)
      | Isr_Sched \<Rightarrow>
          (let (resume_task, desired, l) = spi_bus_lock_bg_check_dev_acq (blk s); s1 = s\<lparr>blk := l\<rparr>
           in if resume_task then s1\<lparr>isr_at := Isr_Exit False\<rparr>
              else case desired of
                     None \<Rightarrow> s1\<lparr>failed := True\<rparr>
                   | Some d \<Rightarrow> s1\<lparr>isr_at := Isr_Serve d\<rparr>)
      | Isr_Serve d \<Rightarrow>
          (let (has_req, l) = spi_bus_lock_bg_check_dev_req d (blk s)
           in s\<lparr>blk := l, isr_at := (if has_req then Isr_Take d else Isr_Exit False)\<rparr>)
      | Isr_Take d \<Rightarrow>
          (case trans_queue s d of
             [] \<Rightarrow> s\<lparr>isr_at := Isr_Clear d\<rparr>
           | t # q \<Rightarrow> s\<lparr>trans_queue := (trans_queue s)(d := q), cur_cs := Some d, cur_item := Some t,
                        hw_busy := True, sent := sent s @ [(d, t)], isr_at := Isr_Exit True\<rparr>)
      | Isr_Clear d \<Rightarrow> s\<lparr>blk := snd (clear_pend_core d (blk s)), isr_at := Isr_Exit False\<rparr>
      | Isr_Exit wip \<Rightarrow>
          (let (ret, l) = bg_exit_core wip (blk s)
           in s\<lparr>blk := l, isr_at := (if ret then Isr_Off else Isr_Loop)\<rparr>))"

section \<open>The tasks\<close>

text \<open>\<open>spi_device_polling_start\<close> after it has the bus: \<open>spi_new_trans\<close>.\<close>

definition polling_begun :: "nat \<Rightarrow> 't bg_system \<Rightarrow> 't bg_system" where
  "polling_begun d s =
     s\<lparr>task := (task s)(d := Dev_Polling), cur_cs := Some d, cur_item := None, hw_busy := True\<rparr>"

definition bus_gained :: "nat \<Rightarrow> bool \<Rightarrow> 't bg_system \<Rightarrow> 't bg_system" where
  "bus_gained d keep s =
     (if keep then s\<lparr>task := (task s)(d := Dev_Keeping), keeper := Some d\<rparr> else polling_begun d s)"

definition bus_left :: "nat \<Rightarrow> 't bg_system \<Rightarrow> 't bg_system" where
  "bus_left d s =
     (case spi_bus_lock_acquire_end d (blk s) of
        (ret, l) \<Rightarrow> if ret = ESP_OK then s\<lparr>blk := l, task := (task s)(d := Dev_Idle)\<rparr> else s\<lparr>failed := True\<rparr>)"

definition bg_pending :: "nat \<Rightarrow> 't bg_system \<Rightarrow> bool" where
  "bg_pending d s \<longleftrightarrow> status (blk s) AND (DEV_MASK d AND BG_MASK) \<noteq> 0"

text \<open>
  What the task of a device does next. \<open>Acquire\<close> is \<open>spi_device_acquire_bus\<close>, or \<open>spi_device_polling_start\<close> of a
  device that does not keep the bus; \<open>Wake\<close> and \<open>Bg_Wake\<close> are the returns of \<open>dev_wait\<close>; \<open>Queue_Trans\<close>
  and \<open>Bg_Request\<close> are the two halves of \<open>spi_device_queue_trans\<close>. The result \<open>None\<close>: the task is not
  there, or is blocked.
\<close>

datatype 't dev_act =
    Acquire bool | Wake | Queue_Trans 't | Bg_Request | Start_Polling | Bg_Wake | End_Polling | Release | Get_Result

definition acquire_step :: "nat \<Rightarrow> bool \<Rightarrow> 't bg_system \<Rightarrow> 't bg_system option" where
  "acquire_step d keep s =
     (if task s d = Dev_Idle \<and> \<not> req_due s d then
        (let (got, l) = acquire_begin d (blk s); s1 = s\<lparr>blk := l\<rparr>
         in Some (if got then bus_gained d keep s1 else s1\<lparr>task := (task s)(d := Dev_Waiting keep)\<rparr>))
      else None)"

definition wake_step :: "nat \<Rightarrow> 't bg_system \<Rightarrow> 't bg_system option" where
  "wake_step d s =
     (case (task s d, acquire_wake d (blk s)) of
        (Dev_Waiting keep, Some l) \<Rightarrow> Some (bus_gained d keep (s\<lparr>blk := l\<rparr>))
      | _ \<Rightarrow> None)"

definition queue_trans_step :: "nat \<Rightarrow> 't \<Rightarrow> 't bg_system \<Rightarrow> 't bg_system option" where
  "queue_trans_step d t s =
     (if task s d \<in> {Dev_Idle, Dev_Keeping} \<and> \<not> req_due s d \<and> length (trans_queue s d) < queue_size s d
      then Some (s\<lparr>trans_queue := (trans_queue s)(d := trans_queue s d @ [t]),
                   req_due := (req_due s)(d := True)\<rparr>)
      else None)"

definition bg_request_step :: "nat \<Rightarrow> 't bg_system \<Rightarrow> 't bg_system option" where
  "bg_request_step d s =
     (if req_due s d then Some (s\<lparr>blk := req_core d (blk s), req_due := (req_due s)(d := False)\<rparr>) else None)"

definition start_polling_step :: "nat \<Rightarrow> 't bg_system \<Rightarrow> 't bg_system option" where
  "start_polling_step d s =
     (if task s d = Dev_Keeping \<and> \<not> req_due s d then
        Some (if bg_pending d s
              then s\<lparr>blk := (blk s)\<lparr>semphr := (semphr (blk s))(d := False)\<rparr>,
                     task := (task s)(d := Dev_Bg_Wait)\<rparr>
              else polling_begun d s)
      else None)"

definition bg_wake_step :: "nat \<Rightarrow> 't bg_system \<Rightarrow> 't bg_system option" where
  "bg_wake_step d s =
     (case (task s d, acquire_wake d (blk s)) of
        (Dev_Bg_Wait, Some l) \<Rightarrow> Some (polling_begun d (s\<lparr>blk := l\<rparr>))
      | _ \<Rightarrow> None)"

definition end_polling_step :: "nat \<Rightarrow> 't bg_system \<Rightarrow> 't bg_system option" where
  "end_polling_step d s =
     (case task s d of
        Dev_Polling \<Rightarrow>
          if cur_cs s \<noteq> Some d \<or> acquiring_dev (blk s) \<noteq> Some d then Some (s\<lparr>failed := True\<rparr>)
          else if hw_busy s then None
          else (let s1 = s\<lparr>cur_cs := None\<rparr>
                in Some (if keeper s = Some d then s1\<lparr>task := (task s)(d := Dev_Keeping)\<rparr>
                         else if keeper s \<noteq> None then s1\<lparr>failed := True\<rparr>
                         else bus_left d s1))
      | _ \<Rightarrow> None)"

definition release_step :: "nat \<Rightarrow> 't bg_system \<Rightarrow> 't bg_system option" where
  "release_step d s =
     (if task s d = Dev_Keeping \<and> \<not> req_due s d then Some (bus_left d (s\<lparr>keeper := None\<rparr>)) else None)"

definition get_result_step :: "nat \<Rightarrow> 't bg_system \<Rightarrow> 't bg_system option" where
  "get_result_step d s =
     (case ret_queue s d of
        t # q \<Rightarrow> if task s d \<in> {Dev_Idle, Dev_Keeping}
                  then Some (s\<lparr>ret_queue := (ret_queue s)(d := q)\<rparr>) else None
      | [] \<Rightarrow> None)"

declare acquire_step_def [simp] wake_step_def [simp] queue_trans_step_def [simp] bg_request_step_def [simp]
  start_polling_step_def [simp] bg_wake_step_def [simp] end_polling_step_def [simp] release_step_def [simp]
  get_result_step_def [simp]

fun dev_step :: "nat \<Rightarrow> 't dev_act \<Rightarrow> 't bg_system \<Rightarrow> 't bg_system option" where
  "dev_step d (Acquire keep) s = acquire_step d keep s"
| "dev_step d Wake s = wake_step d s"
| "dev_step d (Queue_Trans t) s = queue_trans_step d t s"
| "dev_step d Bg_Request s = bg_request_step d s"
| "dev_step d Start_Polling s = start_polling_step d s"
| "dev_step d Bg_Wake s = bg_wake_step d s"
| "dev_step d End_Polling s = end_polling_step d s"
| "dev_step d Release s = release_step d s"
| "dev_step d Get_Result s = get_result_step d s"

section \<open>Interleaving\<close>

text \<open>
  The interrupt comes when it is enabled and the done bit is raised. \<open>smp\<close>: tasks run while the
  handler does, on another core; otherwise the handler runs to its end. \<open>drained\<close>: a device is released
  only when none of its queued transactions is pending.
\<close>

inductive bg_step :: "bool \<Rightarrow> bool \<Rightarrow> 't bg_system \<Rightarrow> 't bg_system \<Rightarrow> bool" for smp drained where
  handler: "\<not> failed s \<Longrightarrow> isr_at s = Isr_Off \<longrightarrow> bg_enabled (blk s) \<and> \<not> hw_busy s \<Longrightarrow>
    bg_step smp drained s (spi_intr_step s)"
| hardware: "hw_busy s \<Longrightarrow> \<not> failed s \<Longrightarrow> bg_step smp drained s (s\<lparr>hw_busy := False\<rparr>)"
| device: "\<not> failed s \<Longrightarrow> d < MAX_DEV_NUM \<Longrightarrow> smp \<or> isr_at s = Isr_Off \<Longrightarrow>
    drained \<and> a = Release \<longrightarrow> \<not> bg_pending d s \<Longrightarrow>
    dev_step d a s = Some t \<Longrightarrow> bg_step smp drained s t"

inductive bg_reachable :: "bool \<Rightarrow> bool \<Rightarrow> 't bg_system \<Rightarrow> 't bg_system \<Rightarrow> bool" for smp drained s0 where
  start: "bg_reachable smp drained s0 s0"
| step: "bg_reachable smp drained s0 s \<Longrightarrow> bg_step smp drained s t \<Longrightarrow> bg_reachable smp drained s0 t"

inductive_cases bg_stepE: "bg_step smp drained s t"

section \<open>Runs\<close>

text \<open>The step relation as a function of what happens next.\<close>

datatype 't move = Handler | Hardware | Device nat "'t dev_act"

fun bg_move :: "bool \<Rightarrow> bool \<Rightarrow> 't move \<Rightarrow> 't bg_system \<Rightarrow> 't bg_system option" where
  "bg_move smp drained Handler s =
     (if \<not> failed s \<and> (isr_at s = Isr_Off \<longrightarrow> bg_enabled (blk s) \<and> \<not> hw_busy s) then Some (spi_intr_step s) else None)"
| "bg_move smp drained Hardware s = (if hw_busy s \<and> \<not> failed s then Some (s\<lparr>hw_busy := False\<rparr>) else None)"
| "bg_move smp drained (Device d a) s =
     (if \<not> failed s \<and> d < MAX_DEV_NUM \<and> (smp \<or> isr_at s = Isr_Off) \<and>
         (drained \<and> (case a of Release \<Rightarrow> True | _ \<Rightarrow> False) \<longrightarrow> \<not> bg_pending d s)
      then dev_step d a s else None)"

fun bg_moves :: "bool \<Rightarrow> bool \<Rightarrow> 't move list \<Rightarrow> 't bg_system \<Rightarrow> 't bg_system option" where
  "bg_moves smp drained [] s = Some s"
| "bg_moves smp drained (m # ms) s =
     (case bg_move smp drained m s of None \<Rightarrow> None | Some t \<Rightarrow> bg_moves smp drained ms t)"

lemma bg_move_step: "bg_move smp drained m s = Some t \<Longrightarrow> bg_step smp drained s t"
  by (cases m) (auto simp del: dev_step.simps split: if_splits dev_act.splits intro: bg_step.intros)

lemma bg_moves_reachable:
  "bg_reachable smp drained s0 s \<Longrightarrow> bg_moves smp drained ms s = Some t \<Longrightarrow> bg_reachable smp drained s0 t"
  by (induction ms arbitrary: s) (auto split: option.splits dest: bg_move_step bg_reachable.step)

lemmas bg_moves_start = bg_moves_reachable [OF bg_reachable.start]

definition demo :: "nat bg_system" where
  "demo = bg_start 3 (\<lambda>_. 4) (\<lambda>_. False)"

section \<open>The status word, bit by bit\<close>

definition bg_bit :: "u32 \<Rightarrow> nat \<Rightarrow> bool" where
  "bg_bit st d \<longleftrightarrow> d < 10 \<and> (bit st d \<or> bit st (10 + d))"

definition pend_bit :: "u32 \<Rightarrow> nat \<Rightarrow> bool" where
  "pend_bit st d \<longleftrightarrow> d < 10 \<and> bit st (10 + d)"

definition lock_bit :: "u32 \<Rightarrow> nat \<Rightarrow> bool" where
  "lock_bit st d \<longleftrightarrow> d < 10 \<and> bit st (20 + d)"

definition layout_ok :: "u32 \<Rightarrow> bool" where
  "layout_ok st \<longleftrightarrow> \<not> bit st 30 \<and> \<not> bit st 31"

lemma bit_set_req: "d < 10 \<Longrightarrow> bit (st OR (DEV_MASK d AND REQ_MASK)) n \<longleftrightarrow> bit st n \<or> n = d"
  by (auto simp: bit_masks)

lemma bit_clear_pend:
  "d < 10 \<Longrightarrow> bit (st AND NOT (DEV_MASK d AND PEND_MASK)) n \<longleftrightarrow> bit st n \<and> n \<noteq> 10 + d"
  using bit_imp_le_length [of st n] by (auto simp: bit_masks)

lemma bit_dev_masks:
  assumes "d < 10"
  shows "bit (DEV_MASK d AND BG_MASK) n \<longleftrightarrow> n = d \<or> n = 10 + d"
    and "bit (DEV_MASK d AND REQ_MASK) n \<longleftrightarrow> n = d"
    and "bit (DEV_MASK d AND PEND_MASK) n \<longleftrightarrow> n = 10 + d"
  using assms by (auto simp: bit_masks)

lemma word_0_iff: "(w :: u32) = 0 \<longleftrightarrow> (\<forall>n. \<not> bit w n)"
  by (auto intro: bit_word_eqI)

lemma and_dev_bg_0_iff: "d < 10 \<Longrightarrow> st AND (DEV_MASK d AND BG_MASK) = 0 \<longleftrightarrow> \<not> bg_bit st d"
  by (auto simp: word_0_iff bit_and_iff [of st] bit_dev_masks bg_bit_def)

lemma and_dev_req_0_iff: "d < 10 \<Longrightarrow> (st AND DEV_MASK d) AND REQ_MASK = 0 \<longleftrightarrow> \<not> bit st d"
  unfolding and.assoc by (auto simp: word_0_iff bit_and_iff [of st] bit_dev_masks)

lemma and_dev_pend_0_iff: "d < 10 \<Longrightarrow> (st AND DEV_MASK d) AND PEND_MASK = 0 \<longleftrightarrow> \<not> bit st (10 + d)"
  unfolding and.assoc by (auto simp: word_0_iff bit_and_iff [of st] bit_dev_masks)

lemma bit_below_20: "n < 20 \<Longrightarrow> bit st n \<Longrightarrow> \<exists>d. bg_bit st d"
  by (cases "n < 10") (auto simp: bg_bit_def intro: exI [of _ n] exI [of _ "n - 10"])

lemma and_bg_0_iff: "st AND BG_MASK = 0 \<longleftrightarrow> (\<forall>d. \<not> bg_bit st d)"
proof
  assume "st AND BG_MASK = 0"
  then show "\<forall>d. \<not> bg_bit st d" by (auto simp: word_0_iff bit_masks bg_bit_def)
next
  assume "\<forall>d. \<not> bg_bit st d"
  then show "st AND BG_MASK = 0" using bit_below_20 [of _ st] by (auto simp: word_0_iff bit_masks)
qed

lemma and_lock_0_iff: "st AND LOCK_MASK = 0 \<longleftrightarrow> (\<forall>d. \<not> lock_bit st d)"
proof
  assume "st AND LOCK_MASK = 0"
  then have "\<not> bit (st AND LOCK_MASK) (20 + d)" for d by simp
  then show "\<forall>d. \<not> lock_bit st d" by (auto simp: bit_masks lock_bit_def)
next
  assume a: "\<forall>d. \<not> lock_bit st d"
  have "\<not> bit st n" if "20 \<le> n" "n < 30" for n
    using a [rule_format, of "n - 20"] that by (simp add: lock_bit_def)
  then show "st AND LOCK_MASK = 0" by (auto simp: word_0_iff bit_masks)
qed

lemma and_bg_lock_0_iff: "st AND (BG_MASK OR LOCK_MASK) = 0 \<longleftrightarrow> (\<forall>d. \<not> bg_bit st d \<and> \<not> lock_bit st d)"
  using and_bg_0_iff [of st] and_lock_0_iff [of st] by (auto simp: bit.conj_disj_distrib or_eq_0_iff)

lemma layout_bit:
  assumes ok: "layout_ok st" and b: "bit st n"
  shows "n < 30"
proof -
  have "n < 32" using bit_imp_le_length [OF b] by simp
  moreover have "n \<noteq> 30 \<and> n \<noteq> 31" using ok b unfolding layout_ok_def by metis
  ultimately show ?thesis by linarith
qed

lemma layout_no_weak: "layout_ok st \<Longrightarrow> st AND WEAK_BG_FLAG = 0"
  using layout_bit [of st] by (fastforce simp: word_0_iff bit_and_iff bit_WEAK_BG_FLAG)

lemma no_bits_iff: "layout_ok st \<Longrightarrow> st = 0 \<longleftrightarrow> (\<forall>d. \<not> bg_bit st d \<and> \<not> lock_bit st d)"
  using and_bg_lock_0_iff [of st] layout_bit [of st]
  by (fastforce simp: word_0_iff bit_and_iff bit_or_iff bit_BG_MASK bit_LOCK_MASK)

text \<open>What the updates of the status word do to these.\<close>

lemma bits_set_lock:
  assumes "d < 10"
  shows "bg_bit (st OR (DEV_MASK d AND LOCK_MASK)) e \<longleftrightarrow> bg_bit st e"
    and "pend_bit (st OR (DEV_MASK d AND LOCK_MASK)) e \<longleftrightarrow> pend_bit st e"
    and "lock_bit (st OR (DEV_MASK d AND LOCK_MASK)) e \<longleftrightarrow> lock_bit st e \<or> e = d"
    and "layout_ok (st OR (DEV_MASK d AND LOCK_MASK)) \<longleftrightarrow> layout_ok st"
  using assms unfolding bg_bit_def pend_bit_def lock_bit_def layout_ok_def bit_set_lock [OF assms] by auto

lemma bits_clear_lock:
  assumes "d < 10"
  shows "bg_bit (st AND NOT (DEV_MASK d AND LOCK_MASK)) e \<longleftrightarrow> bg_bit st e"
    and "pend_bit (st AND NOT (DEV_MASK d AND LOCK_MASK)) e \<longleftrightarrow> pend_bit st e"
    and "lock_bit (st AND NOT (DEV_MASK d AND LOCK_MASK)) e \<longleftrightarrow> lock_bit st e \<and> e \<noteq> d"
    and "layout_ok (st AND NOT (DEV_MASK d AND LOCK_MASK)) \<longleftrightarrow> layout_ok st"
  using assms unfolding bg_bit_def pend_bit_def lock_bit_def layout_ok_def bit_clear_lock [OF assms] by auto

lemma bits_set_req:
  assumes "d < 10"
  shows "bg_bit (st OR (DEV_MASK d AND REQ_MASK)) e \<longleftrightarrow> bg_bit st e \<or> e = d"
    and "pend_bit (st OR (DEV_MASK d AND REQ_MASK)) e \<longleftrightarrow> pend_bit st e"
    and "lock_bit (st OR (DEV_MASK d AND REQ_MASK)) e \<longleftrightarrow> lock_bit st e"
    and "layout_ok (st OR (DEV_MASK d AND REQ_MASK)) \<longleftrightarrow> layout_ok st"
  using assms unfolding bg_bit_def pend_bit_def lock_bit_def layout_ok_def bit_set_req [OF assms] by auto

lemma bits_clear_pend:
  assumes "d < 10"
  shows "bg_bit (st AND NOT (DEV_MASK d AND PEND_MASK)) e \<longleftrightarrow> bg_bit st e \<and> (e = d \<longrightarrow> bit st d)"
    and "pend_bit (st AND NOT (DEV_MASK d AND PEND_MASK)) e \<longleftrightarrow> pend_bit st e \<and> e \<noteq> d"
    and "lock_bit (st AND NOT (DEV_MASK d AND PEND_MASK)) e \<longleftrightarrow> lock_bit st e"
    and "layout_ok (st AND NOT (DEV_MASK d AND PEND_MASK)) \<longleftrightarrow> layout_ok st"
  using assms unfolding bg_bit_def pend_bit_def lock_bit_def layout_ok_def bit_clear_pend [OF assms] by auto

lemma bit_update_pend:
  "bit (status (update_pend_core (status l) l)) n \<longleftrightarrow>
     (if n < 10 then False else bit (status l) n \<or> n < 20 \<and> bit (status l) (n - 10))"
  using bit_imp_le_length [of "status l" n]
  by (auto simp: update_pend_core_def lock_status_fetch_set_def lock_status_fetch_clear_def Let_def
      bit_masks PENDING_SHIFT_def REQ_SHIFT_def)

lemma bits_update_pend:
  shows "bg_bit (status (update_pend_core (status l) l)) e \<longleftrightarrow> bg_bit (status l) e"
    and "pend_bit (status (update_pend_core (status l) l)) e \<longleftrightarrow> bg_bit (status l) e"
    and "lock_bit (status (update_pend_core (status l) l)) e \<longleftrightarrow> lock_bit (status l) e"
    and "layout_ok (status (update_pend_core (status l) l)) \<longleftrightarrow> layout_ok (status l)"
  unfolding bg_bit_def pend_bit_def lock_bit_def layout_ok_def bit_update_pend by auto

lemma update_pend_frame: "update_pend_core st l = l\<lparr>status := status (update_pend_core st l)\<rparr>"
  by (simp add: update_pend_core_def lock_status_fetch_set_def lock_status_fetch_clear_def Let_def)

text \<open>The scheduler, over predicates: the lowest device that has its lock bit, or else its background bits.\<close>

definition lowest :: "(nat \<Rightarrow> bool) \<Rightarrow> nat option" where
  "lowest P = List.find P [0..<10]"

lemma lowest_Some: "lowest P = Some d \<longleftrightarrow> d < 10 \<and> P d \<and> (\<forall>e < d. \<not> P e)"
  by (simp add: lowest_def find_upt_Some_iff)

lemma lowest_None: "lowest P = None \<longleftrightarrow> (\<forall>d < 10. \<not> P d)"
  by (auto simp: lowest_def find_None_iff)

lemma ffs_lowest:
  assumes "\<And>n. bit w n \<longleftrightarrow> n < 10 \<and> P n"
  shows "ffs w = (case lowest P of None \<Rightarrow> 0 | Some d \<Rightarrow> Suc d)"
proof (cases "lowest P")
  case None
  then have "w = 0" by (auto simp: word_0_iff assms lowest_None)
  then show ?thesis using None by (simp add: ffs_0_iff)
next
  case (Some d)
  then have "ffs w = Suc d" by (auto simp: ffs_Suc_iff assms lowest_Some)
  then show ?thesis using Some by simp
qed

lemma schedule_core_lowest:
  "schedule_core st l =
     (case lowest (lock_bit st) of
        Some e \<Rightarrow> (\<not> bg_bit st e, Some e, l\<lparr>acquiring_dev := Some e, acq_dev_bg_active := bg_bit st e\<rparr>)
      | None \<Rightarrow> (lowest (bg_bit st) = None, lowest (bg_bit st), l\<lparr>acq_dev_bg_active := False, acquiring_dev := None\<rparr>))"
proof -
  define lb where "lb = drop_bit LOCK_SHIFT (st AND LOCK_MASK)"
  define bb where "bb = (drop_bit REQ_SHIFT (st AND BG_MASK) OR drop_bit PENDING_SHIFT (st AND BG_MASK)) AND REQ_MASK"
  have lb: "bit lb n \<longleftrightarrow> n < 10 \<and> lock_bit st n" for n
    by (auto simp: lb_def bit_masks LOCK_SHIFT_def lock_bit_def)
  have bb: "bit bb n \<longleftrightarrow> n < 10 \<and> bg_bit st n" for n
    by (auto simp: bb_def bit_masks REQ_SHIFT_def PENDING_SHIFT_def bg_bit_def)
  have dev: "lowest (lock_bit st) = Some e \<Longrightarrow> bb AND DEV_MASK e = 0 \<longleftrightarrow> \<not> bg_bit st e" for e
    using bb lowest_Some [of "lock_bit st" e] by (auto simp: word_0_iff bit_masks dest!: spec [of _ e])
  have zero: "w = 0 \<longleftrightarrow> ffs w = 0" for w by (simp add: ffs_0_iff)
  show ?thesis
    unfolding schedule_core_def Let_def lb_def [symmetric] bb_def [symmetric] zero [of lb] zero [of bb]
      mask_get_id_def ffs_lowest [OF lb] ffs_lowest [OF bb]
    by (cases "lowest (lock_bit st)"; cases "lowest (bg_bit st)") (auto simp: dev)
qed

section \<open>What the lock operations do\<close>

definition bus_free :: "u32 \<Rightarrow> bool" where
  "bus_free st \<longleftrightarrow> (\<forall>e. \<not> bg_bit st e \<and> \<not> lock_bit st e)"

lemma acquire_begin_effect:
  "layout_ok (status l) \<Longrightarrow>
   acquire_begin d l =
     (bus_free (status l),
      l\<lparr>semphr := (semphr l)(d := False), status := status l OR (DEV_MASK d AND LOCK_MASK),
        acquiring_dev := (if bus_free (status l) then Some d else acquiring_dev l)\<rparr>)"
  by (auto simp: acquire_begin_def acquire_core_def lock_status_fetch_set_def and_bg_lock_0_iff bus_free_def layout_no_weak)

lemma acquire_end_effect:
  fixes l :: spi_bus_lock
  assumes ok: "layout_ok (status l)" and d: "d < 10" and own: "acquiring_dev l = Some d"
  defines "st \<equiv> status l AND NOT (DEV_MASK d AND LOCK_MASK)"
  shows "spi_bus_lock_acquire_end d l =
    (ESP_OK,
     case lowest (lock_bit st) of
       Some e \<Rightarrow> l\<lparr>status := st, acquiring_dev := Some e, acq_dev_bg_active := bg_bit st e,
                   bg_enabled := bg_enabled l \<or> bg_bit st e, semphr := (semphr l)(e := semphr l e \<or> \<not> bg_bit st e)\<rparr>
     | None \<Rightarrow> l\<lparr>status := st, acquiring_dev := None, acq_dev_bg_active := False,
                 bg_enabled := bg_enabled l \<or> (\<exists>e. bg_bit st e)\<rparr>)"
proof -
  have weak: "st AND WEAK_BG_FLAG = 0"
    using ok bits_clear_lock(4) [OF d] by (simp add: st_def layout_no_weak)
  have low: "Ex (bg_bit st) \<longleftrightarrow> lowest (bg_bit st) \<noteq> None"
    by (auto simp: lowest_None bg_bit_def)
  show ?thesis
    unfolding spi_bus_lock_acquire_end_def acquire_end_core_def lock_status_clear_def lock_status_fetch_clear_def
      Let_def prod.case st_def [symmetric] schedule_core_lowest
    by (cases l, cases "lowest (lock_bit st)"; cases "lowest (bg_bit st)")
      (use own weak in \<open>auto simp: bg_enable_def resume_dev_def low\<close>)
qed

lemma check_dev_req_effect:
  fixes l :: spi_bus_lock
  assumes "d < 10"
  obtains st where "spi_bus_lock_bg_check_dev_req d l = (bg_bit (status l) d, l\<lparr>status := st\<rparr>)"
    "\<And>e. bg_bit st e = bg_bit (status l) e" "\<And>e. lock_bit st e = lock_bit (status l) e"
    "layout_ok st = layout_ok (status l)" "\<And>e. pend_bit (status l) e \<Longrightarrow> pend_bit st e"
    "bg_bit (status l) d \<Longrightarrow> pend_bit st d" "\<not> bit st d"
proof (cases "bit (status l) d")
  case True
  have "spi_bus_lock_bg_check_dev_req d l =
      (bg_bit (status l) d, l\<lparr>status := status (update_pend_core (status l) l)\<rparr>)"
    using True assms update_pend_frame [of "status l" l]
    by (simp add: spi_bus_lock_bg_check_dev_req_def Let_def and_dev_req_0_iff bg_bit_def)
  then show ?thesis
    by (rule that) (use assms in \<open>simp_all add: bits_update_pend bit_update_pend\<close>, auto simp: bg_bit_def pend_bit_def)
next
  case False
  then have "spi_bus_lock_bg_check_dev_req d l = (bg_bit (status l) d, l\<lparr>status := status l\<rparr>)"
    using assms
    by (simp add: spi_bus_lock_bg_check_dev_req_def Let_def and_dev_req_0_iff and_dev_pend_0_iff bg_bit_def)
  then show ?thesis
    by (rule that) (use False in \<open>auto simp: bg_bit_def pend_bit_def\<close>)
qed

lemma clear_pend_effect:
  obtains b where "snd (clear_pend_core d l) =
    l\<lparr>status := status l AND NOT (DEV_MASK d AND PEND_MASK), acq_dev_bg_active := b\<rparr>"
proof
  show "snd (clear_pend_core d l) = l\<lparr>status := status l AND NOT (DEV_MASK d AND PEND_MASK),
      acq_dev_bg_active := acq_dev_bg_active (snd (clear_pend_core d l))\<rparr>"
    by (cases l) (simp add: clear_pend_core_def lock_status_clear_def lock_status_fetch_clear_def Let_def)
qed

lemma bg_exit_effect:
  assumes "\<And>d. acquiring_dev l = Some d \<Longrightarrow> d < 10"
  shows "bg_exit_core False l =
     (case acquiring_dev l of
        Some d \<Rightarrow> if bg_bit (status l) d then (False, l)
                  else (True, l\<lparr>semphr := (semphr l)(d := True), in_isr := False\<rparr>)
      | None \<Rightarrow> if \<exists>e. bg_bit (status l) e then (False, l) else (True, l\<lparr>in_isr := False\<rparr>))"
  using assms
  by (auto simp: bg_exit_core_def Let_def and_dev_bg_0_iff and_bg_0_iff resume_dev_def split: option.splits)

lemma req_effect:
  fixes l :: spi_bus_lock
  assumes "layout_ok (status l)" and "d < 10"
  obtains b where "req_core d l = l\<lparr>status := status l OR (DEV_MASK d AND REQ_MASK), acq_dev_bg_active := b,
      bg_enabled := bg_enabled l \<or> (if acquiring_dev l = Some d then \<not> bg_bit (status l) d else bus_free (status l))\<rparr>"
proof
  show "req_core d l = l\<lparr>status := status l OR (DEV_MASK d AND REQ_MASK),
      acq_dev_bg_active := acq_dev_bg_active (req_core d l),
      bg_enabled := bg_enabled l \<or> (if acquiring_dev l = Some d then \<not> bg_bit (status l) d else bus_free (status l))\<rparr>"
    by (cases l) (use assms in \<open>auto simp: req_core_def lock_status_fetch_set_def bg_enable_def and_dev_bg_0_iff
        no_bits_iff bus_free_def Let_def\<close>)
qed

end
