(* ===== verification/Spi_Background_Safety.thy ===== *)
theory Spi_Background_Safety
  imports Spi_Background "HOL-Library.Sublist"
begin

text \<open>
  What the queued transfers of \<open>Spi_Background\<close> guarantee. With the handler and the tasks on one core
  and every released device drained, an invariant ties the bits of the status word, the acquiring device, the
  semaphores and the interrupt to the places of the tasks and of the handler; exclusion, the service of requests and the
  end of the handler follow. Without either of the two conditions a run breaks exclusion.
\<close>

section \<open>The invariant on one core\<close>

text \<open>A device claims the bus when its task goes on as its owner.\<close>

definition claims :: "'t bg_system \<Rightarrow> nat \<Rightarrow> bool" where
  "claims s d \<longleftrightarrow> task s d \<in> {Dev_Keeping, Dev_Bg_Wait, Dev_Polling}
     \<or> (\<exists>k. task s d = Dev_Waiting k) \<and> semphr (blk s) d"

definition blocked :: "'t bg_system \<Rightarrow> nat \<Rightarrow> bool" where
  "blocked s d \<longleftrightarrow> (\<exists>k. task s d = Dev_Waiting k) \<or> task s d = Dev_Bg_Wait"

text \<open>The devices that the background may serve: the acquiring one, or all when there is none.\<close>

definition serves :: "'t bg_system \<Rightarrow> nat \<Rightarrow> bool" where
  "serves s d \<longleftrightarrow> acquiring_dev (blk s) = None \<or> acquiring_dev (blk s) = Some d"

definition due :: "'t bg_system \<Rightarrow> bool" where
  "due s \<longleftrightarrow> (\<exists>d. serves s d \<and> bg_bit (status (blk s)) d)"

definition flying :: "'t bg_system \<Rightarrow> nat \<Rightarrow> bool" where
  "flying s d \<longleftrightarrow> cur_cs s = Some d \<and> pend_bit (status (blk s)) d \<and> serves s d"

definition resting :: "'t bg_system \<Rightarrow> bool" where
  "resting s \<longleftrightarrow> in_isr (blk s) \<and> cur_cs s = None \<and> \<not> bg_enabled (blk s)"

definition unlocked :: "'t bg_system \<Rightarrow> bool" where
  "unlocked s \<longleftrightarrow> acquiring_dev (blk s) = None \<longrightarrow> (\<forall>d. task s d = Dev_Idle)"

definition tasks_ok :: "'t bg_system \<Rightarrow> bool" where
  "tasks_ok s \<longleftrightarrow>
     layout_ok (status (blk s)) \<and>
     (\<forall>d. lock_bit (status (blk s)) d \<longleftrightarrow> task s d \<noteq> Dev_Idle) \<and>
     (\<forall>d. claims s d \<longrightarrow> acquiring_dev (blk s) = Some d) \<and>
     (\<forall>d. acquiring_dev (blk s) = Some d \<longrightarrow> task s d \<noteq> Dev_Idle) \<and>
     (\<forall>d. blocked s d \<and> semphr (blk s) d \<longrightarrow> \<not> bg_bit (status (blk s)) d) \<and>
     (\<forall>d. task s d = Dev_Polling \<longrightarrow> \<not> bg_bit (status (blk s)) d \<and> cur_cs s = Some d) \<and>
     (\<forall>d. req_due s d \<longrightarrow> d < 10 \<and> task s d \<in> {Dev_Idle, Dev_Keeping}) \<and>
     (\<forall>d. trans_queue s d \<noteq> [] \<longrightarrow> bg_bit (status (blk s)) d \<or> req_due s d) \<and>
     (\<forall>d. task s d \<in> {Dev_Keeping, Dev_Bg_Wait} \<longrightarrow> keeper s = Some d) \<and>
     (\<forall>d. keeper s = Some d \<longrightarrow> task s d \<in> {Dev_Keeping, Dev_Bg_Wait, Dev_Polling}) \<and>
     \<not> failed s"

definition off_ok :: "'t bg_system \<Rightarrow> bool" where
  "off_ok s \<longleftrightarrow>
     (bg_enabled (blk s) \<longleftrightarrow> due s) \<and>
     (if in_isr (blk s) then \<exists>d. flying s d else \<forall>d. cur_cs s = Some d \<longrightarrow> task s d = Dev_Polling) \<and>
     (\<forall>d. acquiring_dev (blk s) = Some d \<and> blocked s d \<longrightarrow> semphr (blk s) d \<or> bg_bit (status (blk s)) d) \<and>
     (due s \<or> unlocked s)"

fun handler_ok :: "isr_pc \<Rightarrow> 't bg_system \<Rightarrow> bool" where
  "handler_ok Isr_Off s = off_ok s"
| "handler_ok Isr_Loop s = (resting s \<and> due s)"
| "handler_ok Isr_Sched s = (resting s \<and> due s \<and> acquiring_dev (blk s) = None)"
| "handler_ok (Isr_Serve d) s = (resting s \<and> serves s d \<and> bg_bit (status (blk s)) d \<and> unlocked s)"
| "handler_ok (Isr_Take d) s = (resting s \<and> serves s d \<and> pend_bit (status (blk s)) d \<and> \<not> bit (status (blk s)) d \<and> unlocked s)"
| "handler_ok (Isr_Clear d) s =
     (resting s \<and> serves s d \<and> pend_bit (status (blk s)) d \<and> \<not> bit (status (blk s)) d \<and> unlocked s \<and>
      trans_queue s d = [])"
| "handler_ok (Isr_Exit wip) s =
     (if wip then in_isr (blk s) \<and> (\<exists>d. flying s d) else resting s \<and> unlocked s)"

definition bg_inv :: "'t bg_system \<Rightarrow> bool" where
  "bg_inv s \<longleftrightarrow> tasks_ok s \<and> handler_ok (isr_at s) s"

lemmas bg_inv_defs = tasks_ok_def off_ok_def claims_def blocked_def due_def flying_def resting_def unlocked_def serves_def

lemma bg_inv_start: "bg_inv (bg_start cs depth quiet)"
  by (simp add: bg_inv_def bg_inv_defs bg_start_def spi_bus_init_lock_def layout_ok_def lock_bit_def bg_bit_def)

lemma pend_bg: "pend_bit st d \<Longrightarrow> bg_bit st d"
  by (simp add: pend_bit_def bg_bit_def)

lemma tasks_okD:
  assumes "tasks_ok s"
  shows tasks_layout: "layout_ok (status (blk s))"
    and tasks_lock: "lock_bit (status (blk s)) d \<longleftrightarrow> task s d \<noteq> Dev_Idle"
    and tasks_claim: "claims s d \<Longrightarrow> acquiring_dev (blk s) = Some d"
    and tasks_acquiring: "acquiring_dev (blk s) = Some d \<Longrightarrow> task s d \<noteq> Dev_Idle"
    and tasks_sem: "blocked s d \<Longrightarrow> semphr (blk s) d \<Longrightarrow> \<not> bg_bit (status (blk s)) d"
    and tasks_polling: "task s d = Dev_Polling \<Longrightarrow> \<not> bg_bit (status (blk s)) d \<and> cur_cs s = Some d"
    and tasks_req: "req_due s d \<Longrightarrow> d < 10 \<and> task s d \<in> {Dev_Idle, Dev_Keeping}"
    and tasks_queue: "trans_queue s d \<noteq> [] \<Longrightarrow> bg_bit (status (blk s)) d \<or> req_due s d"
    and tasks_keep: "task s d \<in> {Dev_Keeping, Dev_Bg_Wait} \<Longrightarrow> keeper s = Some d"
    and tasks_keeper: "keeper s = Some d \<Longrightarrow> task s d \<in> {Dev_Keeping, Dev_Bg_Wait, Dev_Polling}"
    and tasks_fine: "\<not> failed s"
  using assms unfolding tasks_ok_def by blast+

lemma tasks_okI:
  assumes "layout_ok (status (blk s))"
    and "\<And>d. lock_bit (status (blk s)) d \<longleftrightarrow> task s d \<noteq> Dev_Idle"
    and "\<And>d. claims s d \<Longrightarrow> acquiring_dev (blk s) = Some d"
    and "\<And>d. acquiring_dev (blk s) = Some d \<Longrightarrow> task s d \<noteq> Dev_Idle"
    and "\<And>d. blocked s d \<Longrightarrow> semphr (blk s) d \<Longrightarrow> \<not> bg_bit (status (blk s)) d"
    and "\<And>d. task s d = Dev_Polling \<Longrightarrow> \<not> bg_bit (status (blk s)) d \<and> cur_cs s = Some d"
    and "\<And>d. req_due s d \<Longrightarrow> d < 10 \<and> task s d \<in> {Dev_Idle, Dev_Keeping}"
    and "\<And>d. trans_queue s d \<noteq> [] \<Longrightarrow> bg_bit (status (blk s)) d \<or> req_due s d"
    and "\<And>d. task s d \<in> {Dev_Keeping, Dev_Bg_Wait} \<Longrightarrow> keeper s = Some d"
    and "\<And>d. keeper s = Some d \<Longrightarrow> task s d \<in> {Dev_Keeping, Dev_Bg_Wait, Dev_Polling}"
    and "\<not> failed s"
  shows "tasks_ok s"
  unfolding tasks_ok_def using assms by blast

lemma tasks_ok_acquiring: "tasks_ok s \<Longrightarrow> acquiring_dev (blk s) = Some d \<Longrightarrow> d < 10"
  using tasks_acquiring [of s d] tasks_lock [of s d] by (auto simp: lock_bit_def)

text \<open>A step that leaves the tasks and what they see of the lock alone.\<close>

definition same_tasks :: "'t bg_system \<Rightarrow> 't bg_system \<Rightarrow> bool" where
  "same_tasks s t \<longleftrightarrow>
     layout_ok (status (blk t)) = layout_ok (status (blk s)) \<and>
     bg_bit (status (blk t)) = bg_bit (status (blk s)) \<and>
     lock_bit (status (blk t)) = lock_bit (status (blk s)) \<and>
     acquiring_dev (blk t) = acquiring_dev (blk s) \<and> semphr (blk t) = semphr (blk s) \<and>
     task t = task s \<and> req_due t = req_due s \<and> trans_queue t = trans_queue s \<and> keeper t = keeper s \<and>
     failed t = failed s"

lemma tasks_ok_same:
  assumes "tasks_ok s" and "same_tasks s t" and "\<And>d. task s d = Dev_Polling \<Longrightarrow> cur_cs t = cur_cs s"
  shows "tasks_ok t"
proof -
  have "claims t = claims s" "blocked t = blocked s"
    using assms(2) by (simp_all add: same_tasks_def claims_def blocked_def fun_eq_iff)
  then show ?thesis
    using assms by (simp add: tasks_ok_def same_tasks_def)
qed

lemma due_same: "same_tasks s t \<Longrightarrow> due t = due s"
  by (simp add: due_def serves_def same_tasks_def)

lemma serves_same: "same_tasks s t \<Longrightarrow> serves t = serves s"
  by (simp add: serves_def same_tasks_def fun_eq_iff)

lemma tasks_ok_handler:
  assumes ok: "tasks_ok s" and same: "task t = task s" "req_due t = req_due s" "keeper t = keeper s" "failed t = failed s"
    "layout_ok (status (blk t))" "lock_bit (status (blk t)) = lock_bit (status (blk s))"
    and np: "\<And>d. task s d = Dev_Polling \<Longrightarrow> \<not> bg_bit (status (blk t)) d \<and> cur_cs t = Some d"
    and claim: "\<And>d. claims t d \<Longrightarrow> acquiring_dev (blk t) = Some d"
    and acq: "\<And>d. acquiring_dev (blk t) = Some d \<Longrightarrow> task s d \<noteq> Dev_Idle"
    and sem: "\<And>d. blocked s d \<Longrightarrow> semphr (blk t) d \<Longrightarrow> \<not> bg_bit (status (blk t)) d"
    and queue: "\<And>d. trans_queue t d \<noteq> [] \<Longrightarrow> bg_bit (status (blk t)) d \<or> req_due s d"
  shows "tasks_ok t"
proof (rule tasks_okI)
  show "blocked t d \<Longrightarrow> semphr (blk t) d \<Longrightarrow> \<not> bg_bit (status (blk t)) d" for d
    using sem same(1) by (simp add: blocked_def)
  show "lock_bit (status (blk t)) d = (task t d \<noteq> Dev_Idle)" for d
    using tasks_lock [OF ok] same by simp
qed (use tasks_keeper [OF ok] tasks_keep [OF ok] tasks_req [OF ok] tasks_fine [OF ok] np claim acq queue in \<open>simp_all add: same\<close>)

lemma unlocked_same: "same_tasks s t \<Longrightarrow> unlocked t = unlocked s"
  by (simp add: unlocked_def same_tasks_def)

subsection \<open>Steps of the handler\<close>

text \<open>
  How far the handler is from its end: every round that finds an empty queue takes one device out
  of those with background bits.
\<close>

definition isr_rank :: "'t bg_system \<Rightarrow> nat" where
  "isr_rank s =
     (case isr_at s of Isr_Off \<Rightarrow> 0 | Isr_Loop \<Rightarrow> 6 | Isr_Sched \<Rightarrow> 5 | Isr_Serve d \<Rightarrow> 4 | Isr_Take d \<Rightarrow> 3
      | Isr_Clear d \<Rightarrow> 2 | Isr_Exit wip \<Rightarrow> if \<not> wip \<and> due s then 7 else 1)"

definition isr_left :: "'t bg_system \<Rightarrow> nat" where
  "isr_left s = 8 * card {d. bg_bit (status (blk s)) d} + isr_rank s"

definition progress :: "'t bg_system \<Rightarrow> 't bg_system \<Rightarrow> bool" where
  "progress s t \<longleftrightarrow> bg_inv t \<and> isr_left t < isr_left s \<and> (isr_at t = Isr_Off \<longrightarrow> (due t \<longleftrightarrow> cur_cs t \<noteq> None))"

lemma progressI:
  "bg_inv t \<Longrightarrow> bg_bit (status (blk t)) = bg_bit (status (blk s)) \<Longrightarrow> isr_rank t < isr_rank s \<Longrightarrow>
   (isr_at t = Isr_Off \<Longrightarrow> due t = (cur_cs t \<noteq> None)) \<Longrightarrow> progress s t"
  by (simp add: progress_def isr_left_def)

lemma finite_bg_bits: "finite {d. bg_bit st d}" "card {d. bg_bit st d} \<le> 10"
proof -
  have sub: "{d. bg_bit st d} \<subseteq> {..<10}" by (auto simp: bg_bit_def)
  then show "finite {d. bg_bit st d}" by (rule finite_subset) simp
  show "card {d. bg_bit st d} \<le> 10" using card_mono [OF _ sub] by simp
qed

lemma resting_no_polling: "tasks_ok s \<Longrightarrow> resting s \<Longrightarrow> task s d \<noteq> Dev_Polling"
  using tasks_polling [of s d] by (auto simp: resting_def)

lemma due_polling: "tasks_ok s \<Longrightarrow> due s \<Longrightarrow> task s d \<noteq> Dev_Polling"
  using tasks_polling [of s d] tasks_claim [of s d] by (auto simp: due_def serves_def claims_def)

lemma entry_inv:
  assumes inv: "bg_inv s" and off: "isr_at s = Isr_Off" and on: "bg_enabled (blk s)"
  shows "bg_inv (spi_intr_step s)" and "isr_at (spi_intr_step s) = Isr_Loop"
proof -
  have ok: "tasks_ok s" and o: "off_ok s" using inv off by (simp_all add: bg_inv_def)
  have d: "due s" using o on by (simp add: off_ok_def)
  have "in_isr (blk s) \<Longrightarrow> cur_cs s \<noteq> None" "\<not> in_isr (blk s) \<Longrightarrow> cur_cs s = None"
    using o due_polling [OF ok d] by (auto simp: off_ok_def flying_def split: if_splits)
  then have st: "same_tasks s (spi_intr_step s)" "resting (spi_intr_step s)" "isr_at (spi_intr_step s) = Isr_Loop"
    using off by (auto simp: spi_intr_step_def spi_intr_entry_def bg_entry_core_def bg_disable_def post_queued_def
        same_tasks_def resting_def Let_def split: option.splits)
  then show "bg_inv (spi_intr_step s)"
    using tasks_ok_same [OF ok] due_polling [OF ok d] d by (auto simp: bg_inv_def due_same)
  show "isr_at (spi_intr_step s) = Isr_Loop" by (rule st(3))
qed

lemma loop_inv:
  assumes inv: "bg_inv s" and at: "isr_at s = Isr_Loop"
  shows "progress s (spi_intr_step s)"
proof -
  have ok: "tasks_ok s" and r: "resting s" and d: "due s" using inv at by (simp_all add: bg_inv_def)
  have "same_tasks s (spi_intr_step s)" and "cur_cs (spi_intr_step s) = cur_cs s"
    using at by (auto simp: spi_intr_step_def same_tasks_def split: option.splits)
  from tasks_ok_same [OF ok this(1)] this(2) show ?thesis
    using r d at
    by (intro progressI)
      (auto simp: bg_inv_def spi_intr_step_def resting_def due_def serves_def unlocked_def isr_rank_def split: option.splits)
qed

lemma sched_inv:
  assumes inv: "bg_inv s" and at: "isr_at s = Isr_Sched"
  shows "progress s (spi_intr_step s)"
proof -
  have ok: "tasks_ok s" and r: "resting s" and d: "due s" and a: "acquiring_dev (blk s) = None"
    using inv at by (simp_all add: bg_inv_def)
  have lk: "lock_bit (status (blk s)) = (\<lambda>d. task s d \<noteq> Dev_Idle)" using tasks_lock [OF ok] by blast
  have np: "task s e \<noteq> Dev_Polling" and nc: "\<not> claims s e" for e
    using resting_no_polling [OF ok r] tasks_claim [OF ok, of e] a by auto
  have some: "lowest (bg_bit (status (blk s))) \<noteq> None"
    using d a by (auto simp: lowest_None due_def serves_def bg_bit_def)
  show ?thesis
  proof (cases "lowest (lock_bit (status (blk s)))")
    case None
    then have idle: "task s e = Dev_Idle" for e
      using tasks_lock [OF ok, of e] by (auto simp: lowest_None lock_bit_def)
    obtain e where e: "lowest (bg_bit (status (blk s))) = Some e" using some by blast
    have st: "spi_intr_step s = s\<lparr>blk := (blk s)\<lparr>acq_dev_bg_active := False, acquiring_dev := None\<rparr>, isr_at := Isr_Serve e\<rparr>"
      using at None e by (simp add: spi_intr_step_def spi_bus_lock_bg_check_dev_acq_def schedule_core_lowest)
    have "tasks_ok (spi_intr_step s)"
      by (rule tasks_ok_same [OF ok]) (simp_all add: st same_tasks_def a)
    then show ?thesis
      using r e idle at
      by (intro progressI) (auto simp: bg_inv_def st resting_def serves_def unlocked_def lowest_Some isr_rank_def)
  next
    case (Some e)
    then have e: "task s e \<noteq> Dev_Idle" using lk by (auto simp: lowest_Some)
    have st: "spi_intr_step s = s\<lparr>blk := (blk s)\<lparr>acquiring_dev := Some e, acq_dev_bg_active := bg_bit (status (blk s)) e\<rparr>,
        isr_at := (if bg_bit (status (blk s)) e then Isr_Serve e else Isr_Exit False)\<rparr>"
      using at Some by (simp add: spi_intr_step_def spi_bus_lock_bg_check_dev_acq_def schedule_core_lowest)
    have "claims (spi_intr_step s) = claims s" by (simp add: st claims_def fun_eq_iff)
    then have "tasks_ok (spi_intr_step s)"
      using nc np e tasks_layout [OF ok] tasks_sem [OF ok] tasks_queue [OF ok]
      by (intro tasks_ok_handler [OF ok]) (simp_all add: st)
    then show ?thesis
      using r at
      by (intro progressI) (auto simp: bg_inv_def st resting_def serves_def due_def unlocked_def isr_rank_def)
  qed
qed

lemma serve_inv:
  assumes inv: "bg_inv s" and at: "isr_at s = Isr_Serve d"
  shows "progress s (spi_intr_step s)"
proof -
  have ok: "tasks_ok s" and r: "resting s" and v: "serves s d" and b: "bg_bit (status (blk s)) d" and u: "unlocked s"
    using inv at by (simp_all add: bg_inv_def)
  have d: "d < 10" using b by (simp add: bg_bit_def)
  obtain st where st: "spi_bus_lock_bg_check_dev_req d (blk s) = (bg_bit (status (blk s)) d, (blk s)\<lparr>status := st\<rparr>)"
    "\<And>e. bg_bit st e = bg_bit (status (blk s)) e" "\<And>e. lock_bit st e = lock_bit (status (blk s)) e"
    "layout_ok st = layout_ok (status (blk s))" "\<And>e. pend_bit (status (blk s)) e \<Longrightarrow> pend_bit st e"
    "bg_bit (status (blk s)) d \<Longrightarrow> pend_bit st d" "\<not> bit st d"
    by (rule check_dev_req_effect [OF d, of "blk s"]) blast
  have step: "spi_intr_step s = s\<lparr>blk := (blk s)\<lparr>status := st\<rparr>, isr_at := Isr_Take d\<rparr>"
    using at b by (simp add: spi_intr_step_def st(1))
  have same: "same_tasks s (spi_intr_step s)" by (simp add: step same_tasks_def st fun_eq_iff)
  have "tasks_ok (spi_intr_step s)" by (rule tasks_ok_same [OF ok same]) (simp add: step)
  then show ?thesis
    using r v u st(2) st(6) [OF b] st(7) at
    by (intro progressI) (simp_all add: bg_inv_def step resting_def serves_def unlocked_def isr_rank_def fun_eq_iff)
qed

lemma take_inv:
  assumes inv: "bg_inv s" and at: "isr_at s = Isr_Take d"
  shows "progress s (spi_intr_step s)"
proof -
  have ok: "tasks_ok s" and r: "resting s" and v: "serves s d" and b: "pend_bit (status (blk s)) d" and u: "unlocked s"
    and nb: "\<not> bit (status (blk s)) d"
    using inv at by (simp_all add: bg_inv_def)
  show ?thesis
  proof (cases "trans_queue s d")
    case Nil
    then have step: "spi_intr_step s = s\<lparr>isr_at := Isr_Clear d\<rparr>" using at by (simp add: spi_intr_step_def)
    have "tasks_ok (spi_intr_step s)" by (rule tasks_ok_same [OF ok]) (simp_all add: step same_tasks_def)
    then show ?thesis
      using r v u b nb Nil at
      by (intro progressI) (simp_all add: bg_inv_def step resting_def serves_def unlocked_def isr_rank_def)
  next
    case (Cons t q)
    then have step: "spi_intr_step s = s\<lparr>trans_queue := (trans_queue s)(d := q), cur_cs := Some d, cur_item := Some t,
        hw_busy := True, sent := sent s @ [(d, t)], isr_at := Isr_Exit True\<rparr>"
      using at by (simp add: spi_intr_step_def)
    have "claims (spi_intr_step s) = claims s" by (simp add: step claims_def fun_eq_iff)
    then have "tasks_ok (spi_intr_step s)"
      using tasks_layout [OF ok] tasks_sem [OF ok] tasks_queue [OF ok] tasks_claim [OF ok] tasks_acquiring [OF ok]
        resting_no_polling [OF ok r] pend_bg [OF b]
      by (intro tasks_ok_handler [OF ok]) (simp_all add: step split: if_splits)
    then show ?thesis
      using r v b at
      by (intro progressI) (auto simp: bg_inv_def step resting_def flying_def serves_def isr_rank_def)
  qed
qed

lemma clear_inv:
  assumes inv: "bg_inv s" and at: "isr_at s = Isr_Clear d"
  shows "progress s (spi_intr_step s)"
proof -
  have ok: "tasks_ok s" and r: "resting s" and v: "serves s d" and b: "pend_bit (status (blk s)) d" and u: "unlocked s"
    and nb: "\<not> bit (status (blk s)) d" and q: "trans_queue s d = []"
    using inv at by (simp_all add: bg_inv_def)
  have d: "d < 10" using b by (simp add: pend_bit_def)
  obtain ab where eff: "snd (clear_pend_core d (blk s)) =
      (blk s)\<lparr>status := status (blk s) AND NOT (DEV_MASK d AND PEND_MASK), acq_dev_bg_active := ab\<rparr>"
    by (rule clear_pend_effect)
  define st where "st = status (blk s) AND NOT (DEV_MASK d AND PEND_MASK)"
  note bits = bits_clear_pend [OF d, of "status (blk s)", folded st_def]
  have step: "spi_intr_step s = s\<lparr>blk := (blk s)\<lparr>status := st, acq_dev_bg_active := ab\<rparr>, isr_at := Isr_Exit False\<rparr>"
    using at by (simp add: spi_intr_step_def eff [folded st_def])
  have "claims (spi_intr_step s) = claims s" by (simp add: step claims_def fun_eq_iff)
  then have "tasks_ok (spi_intr_step s)"
    using tasks_layout [OF ok] tasks_sem [OF ok] tasks_queue [OF ok] tasks_claim [OF ok] tasks_acquiring [OF ok]
      resting_no_polling [OF ok r] q
    by (intro tasks_ok_handler [OF ok]) (auto simp: step bits fun_eq_iff)
  then have inv': "bg_inv (spi_intr_step s)"
    using r u by (simp add: bg_inv_def step resting_def unlocked_def)
  have "{e. bg_bit st e} = {e. bg_bit (status (blk s)) e} - {d}" "bg_bit (status (blk s)) d"
    using nb pend_bg [OF b] by (auto simp: bits)
  then have "card {e. bg_bit (status (blk s)) e} = Suc (card {e. bg_bit st e})"
    using card_Suc_Diff1 [OF finite_bg_bits(1) [of "status (blk s)"], of d] by simp
  then have "isr_left (spi_intr_step s) < isr_left s"
    using at by (simp add: isr_left_def isr_rank_def step)
  then show ?thesis using inv' by (simp add: progress_def step)
qed

lemma exit_inv:
  assumes inv: "bg_inv s" and at: "isr_at s = Isr_Exit wip"
  shows "progress s (spi_intr_step s)"
proof -
  have ok: "tasks_ok s" using inv by (simp add: bg_inv_def)
  show ?thesis
  proof (cases wip)
    case True
    then obtain d where i: "in_isr (blk s)" and fl: "flying s d" using inv at by (auto simp: bg_inv_def)
    have step: "spi_intr_step s = s\<lparr>blk := (blk s)\<lparr>bg_enabled := True\<rparr>, isr_at := Isr_Off\<rparr>"
      using at True by (simp add: spi_intr_step_def bg_exit_core_def bg_enable_def)
    have "tasks_ok (spi_intr_step s)" by (rule tasks_ok_same [OF ok]) (simp_all add: step same_tasks_def)
    moreover have "due (spi_intr_step s)"
      using fl by (auto simp: step due_def flying_def serves_def dest: pend_bg)
    ultimately show ?thesis
      using i fl at True
      by (intro progressI)
        (auto simp: bg_inv_def off_ok_def step flying_def serves_def due_def blocked_def isr_rank_def dest: pend_bg)
  next
    case False
    then have r: "resting s" and u: "unlocked s" using inv at by (auto simp: bg_inv_def)
    note eff = bg_exit_effect [of "blk s", OF tasks_ok_acquiring [OF ok]]
    show ?thesis
    proof (cases "due s")
      case True
      then have step: "spi_intr_step s = s\<lparr>isr_at := Isr_Loop\<rparr>"
        using at False by (auto simp: spi_intr_step_def eff due_def serves_def split: option.splits)
      have "tasks_ok (spi_intr_step s)" by (rule tasks_ok_same [OF ok]) (simp_all add: step same_tasks_def)
      then show ?thesis
        using True False r at by (intro progressI) (simp_all add: bg_inv_def step resting_def due_def serves_def isr_rank_def)
    next
      case nd: False
      define sm where "sm = (case acquiring_dev (blk s) of None \<Rightarrow> semphr (blk s) | Some d \<Rightarrow> (semphr (blk s))(d := True))"
      have step: "spi_intr_step s = s\<lparr>blk := (blk s)\<lparr>semphr := sm, in_isr := False\<rparr>, isr_at := Isr_Off\<rparr>"
        using at False nd by (auto simp: spi_intr_step_def eff due_def serves_def sm_def split: option.splits)
      have sm: "sm d \<longleftrightarrow> semphr (blk s) d \<or> acquiring_dev (blk s) = Some d" for d
        by (simp add: sm_def split: option.split)
      have "claims (spi_intr_step s) d \<Longrightarrow> acquiring_dev (blk s) = Some d" for d
        using tasks_claim [OF ok, of d] by (auto simp: step claims_def sm)
      moreover have "acquiring_dev (blk s) = Some d \<Longrightarrow> \<not> bg_bit (status (blk s)) d" for d
        using nd by (auto simp: due_def serves_def)
      ultimately have "tasks_ok (spi_intr_step s)"
        using tasks_layout [OF ok] tasks_sem [OF ok] tasks_queue [OF ok] tasks_acquiring [OF ok] tasks_polling [OF ok]
        by (intro tasks_ok_handler [OF ok]) (auto simp: step sm)
      then show ?thesis
        using nd r u at False
        by (intro progressI) (simp_all add: bg_inv_def step off_ok_def due_def serves_def resting_def unlocked_def sm isr_rank_def)
    qed
  qed
qed

lemma handler_progress: "bg_inv s \<Longrightarrow> isr_at s \<noteq> Isr_Off \<Longrightarrow> progress s (spi_intr_step s)"
  by (cases "isr_at s") (auto intro: loop_inv sched_inv serve_inv take_inv clear_inv exit_inv)

lemma handler_inv:
  "bg_inv s \<Longrightarrow> isr_at s = Isr_Off \<longrightarrow> bg_enabled (blk s) \<Longrightarrow> bg_inv (spi_intr_step s)"
  using handler_progress [of s] entry_inv [of s] by (cases "isr_at s = Isr_Off") (auto simp: progress_def)

lemma handler_ends:
  "bg_inv s \<Longrightarrow> isr_at s \<noteq> Isr_Off \<Longrightarrow>
   \<exists>n t. n \<le> isr_left s \<and> (spi_intr_step ^^ n) s = t \<and> isr_at t = Isr_Off \<and> bg_inv t \<and> (due t \<longleftrightarrow> cur_cs t \<noteq> None)"
proof (induction "isr_left s" arbitrary: s rule: less_induct)
  case less
  let ?t = "spi_intr_step s"
  have p: "progress s ?t" by (rule handler_progress [OF less.prems])
  show ?case
  proof (cases "isr_at ?t = Isr_Off")
    case True
    have "1 \<le> isr_left s" using p by (simp add: progress_def)
    then show ?thesis using p True by (intro exI [of _ 1] exI [of _ ?t]) (simp add: progress_def)
  next
    case False
    from less.hyps [of ?t] p False obtain n u where u: "n \<le> isr_left ?t" "(spi_intr_step ^^ n) ?t = u" "isr_at u = Isr_Off"
      "bg_inv u" "due u \<longleftrightarrow> cur_cs u \<noteq> None"
      by (auto simp: progress_def)
    have "Suc n \<le> isr_left s" using u(1) p by (simp add: progress_def)
    then show ?thesis
      using u by (intro exI [of _ "Suc n"] exI [of _ u]) (simp add: funpow_swap1)
  qed
qed

subsection \<open>Steps of the tasks\<close>

text \<open>
  A task steps while the handler is off. What it changes is its own entry, its own semaphore and
  bits, and on release the owner of the bus.
\<close>

lemma bg_inv_off: "bg_inv s \<Longrightarrow> isr_at s = Isr_Off \<Longrightarrow> tasks_ok s \<and> off_ok s"
  by (simp add: bg_inv_def)

lemma off_okD:
  assumes "off_ok s"
  shows off_enabled: "bg_enabled (blk s) \<longleftrightarrow> due s"
    and off_flying: "in_isr (blk s) \<Longrightarrow> \<exists>d. flying s d"
    and off_quiet: "\<not> in_isr (blk s) \<Longrightarrow> cur_cs s = Some d \<Longrightarrow> task s d = Dev_Polling"
    and off_wakes: "acquiring_dev (blk s) = Some d \<Longrightarrow> blocked s d \<Longrightarrow> semphr (blk s) d \<or> bg_bit (status (blk s)) d"
    and off_free: "due s \<or> unlocked s"
  using assms by (auto simp: off_ok_def split: if_splits)

lemma off_okI:
  assumes "bg_enabled (blk s) \<longleftrightarrow> due s"
    and "in_isr (blk s) \<Longrightarrow> \<exists>d. flying s d"
    and "\<And>d. \<not> in_isr (blk s) \<Longrightarrow> cur_cs s = Some d \<Longrightarrow> task s d = Dev_Polling"
    and "\<And>d. acquiring_dev (blk s) = Some d \<Longrightarrow> blocked s d \<Longrightarrow> semphr (blk s) d \<or> bg_bit (status (blk s)) d"
    and "due s \<or> unlocked s"
  shows "off_ok s"
  using assms by (simp add: off_ok_def)

text \<open>A task that has come to own the bus, with none of its requests pending, can be at any place of an owner.\<close>

lemma owner_no_flight:
  assumes "tasks_ok s" "off_ok s" "acquiring_dev (blk s) = Some d" "\<not> bg_bit (status (blk s)) d"
  shows "\<not> in_isr (blk s)" "\<not> due s" "\<not> bg_enabled (blk s)"
  using assms off_flying [OF assms(2)] off_enabled [OF assms(2)]
  by (auto simp: flying_def serves_def due_def dest: pend_bg)

lemma polling_begun_simps [simp]:
  "blk (polling_begun d s) = blk s" "req_due (polling_begun d s) = req_due s"
  "trans_queue (polling_begun d s) = trans_queue s" "failed (polling_begun d s) = failed s"
  "isr_at (polling_begun d s) = isr_at s" "keeper (polling_begun d s) = keeper s"
  "task (polling_begun d s) = (task s)(d := Dev_Polling)" "cur_cs (polling_begun d s) = Some d"
  by (simp_all add: polling_begun_def)

lemma bus_gained_simps [simp]:
  "blk (bus_gained d keep s) = blk s" "req_due (bus_gained d keep s) = req_due s"
  "trans_queue (bus_gained d keep s) = trans_queue s" "failed (bus_gained d keep s) = failed s"
  "isr_at (bus_gained d keep s) = isr_at s"
  "task (bus_gained d keep s) = (task s)(d := if keep then Dev_Keeping else Dev_Polling)"
  "keeper (bus_gained d keep s) = (if keep then Some d else keeper s)"
  "cur_cs (bus_gained d keep s) = (if keep then cur_cs s else Some d)"
  by (simp_all add: bus_gained_def)

lemma wake_inv:
  assumes inv: "bg_inv s" and off: "isr_at s = Isr_Off" and w: "task s d = Dev_Waiting keep" and sem: "semphr (blk s) d"
  shows "bg_inv (bus_gained d keep (s\<lparr>blk := (blk s)\<lparr>semphr := (semphr (blk s))(d := False)\<rparr>\<rparr>))"
    (is "bg_inv ?t")
proof -
  have ok: "tasks_ok s" and o: "off_ok s" using bg_inv_off [OF inv off] by simp_all
  have acq: "acquiring_dev (blk s) = Some d"
    using tasks_claim [OF ok, of d] w sem by (simp add: claims_def)
  have nb: "\<not> bg_bit (status (blk s)) d" using tasks_sem [OF ok, of d] w sem by (simp add: blocked_def)
  note nf = owner_no_flight [OF ok o acq nb]
  have others: "task s e \<in> {Dev_Keeping, Dev_Bg_Wait, Dev_Polling} \<Longrightarrow> False" for e
    using tasks_claim [OF ok, of e] acq w by (auto simp: claims_def)
  have nr: "\<not> req_due s d" using tasks_req [OF ok, of d] w by auto
  have nk: "keeper s = None"
    using tasks_keeper [OF ok] others by (cases "keeper s") auto
  have cs: "cur_cs s = None" using off_quiet [OF o nf(1)] others by (cases "cur_cs s") auto
  have ok': "tasks_ok ?t"
  proof (rule tasks_okI)
    show "claims ?t e \<Longrightarrow> acquiring_dev (blk ?t) = Some e" for e
      using tasks_claim [OF ok, of e] acq by (cases "e = d") (auto simp: claims_def)
    show "blocked ?t e \<Longrightarrow> semphr (blk ?t) e \<Longrightarrow> \<not> bg_bit (status (blk ?t)) e" for e
      using tasks_sem [OF ok, of e] by (cases "e = d") (auto simp: blocked_def split: if_splits)
  qed (use tasks_layout [OF ok] tasks_queue [OF ok] tasks_fine [OF ok] tasks_lock [OF ok] tasks_req [OF ok] w nr acq nb nk others
      in \<open>auto split: if_splits\<close>)
  have "off_ok ?t"
    by (rule off_okI) (use nf nb cs acq in \<open>auto simp: due_def serves_def blocked_def unlocked_def split: if_splits\<close>)
  then show ?thesis using ok' off by (simp add: bg_inv_def)
qed

text \<open>A free bus taken at once is a wait that ends at once.\<close>

lemma acquire_inv:
  assumes inv: "bg_inv s" and off: "isr_at s = Isr_Off" and d: "d < 10" and i: "task s d = Dev_Idle" and rd: "\<not> req_due s d"
    and step: "dev_step d (Acquire keep) s = Some t"
  shows "bg_inv t"
proof -
  have ok: "tasks_ok s" and o: "off_ok s" using bg_inv_off [OF inv off] by simp_all
  note lay = tasks_layout [OF ok]
  note bits = bits_set_lock [OF d, of "status (blk s)"]
  define free where "free = bus_free (status (blk s))"
  define l where "l = (blk s)\<lparr>semphr := (semphr (blk s))(d := free), status := status (blk s) OR (DEV_MASK d AND LOCK_MASK),
      acquiring_dev := (if free then Some d else acquiring_dev (blk s))\<rparr>"
  define u where "u = s\<lparr>blk := l, task := (task s)(d := Dev_Waiting keep)\<rparr>"
  have nfree: "free \<Longrightarrow> \<not> due s" "free \<Longrightarrow> task s e = Dev_Idle" "free \<Longrightarrow> acquiring_dev (blk s) = None" for e
    using tasks_lock [OF ok] tasks_acquiring [OF ok] by (auto simp: free_def bus_free_def due_def) (cases "acquiring_dev (blk s)"; auto)
  have busy: "\<not> free \<Longrightarrow> acquiring_dev (blk s) = None \<Longrightarrow> due s"
    using off_free [OF o] tasks_lock [OF ok] by (auto simp: free_def bus_free_def due_def serves_def unlocked_def)
  have nd: "acquiring_dev (blk s) \<noteq> Some d" using tasks_acquiring [OF ok] i by blast
  have "tasks_ok u"
  proof (rule tasks_okI)
    show "claims u e \<Longrightarrow> acquiring_dev (blk u) = Some e" for e
      using tasks_claim [OF ok, of e] nfree(2) [of e] by (cases "e = d") (auto simp: claims_def u_def l_def)
    show "blocked u e \<Longrightarrow> semphr (blk u) e \<Longrightarrow> \<not> bg_bit (status (blk u)) e" for e
      using tasks_sem [OF ok, of e] by (cases "e = d") (auto simp: blocked_def u_def l_def bits free_def bus_free_def)
  qed (use lay tasks_queue [OF ok] tasks_fine [OF ok] tasks_lock [OF ok] tasks_req [OF ok] tasks_acquiring [OF ok]
      tasks_polling [OF ok] tasks_keep [OF ok] tasks_keeper [OF ok] i rd
      in \<open>auto simp: u_def l_def bits split: if_splits\<close>)
  moreover have "off_ok u"
  proof (rule off_okI)
    have "due u = due s"
      using nfree(1) by (auto simp: due_def serves_def u_def l_def bits free_def bus_free_def)
    then show "bg_enabled (blk u) = due u" "due u \<or> unlocked u"
      using off_enabled [OF o] busy by (auto simp: u_def l_def unlocked_def)
    show "in_isr (blk u) \<Longrightarrow> \<exists>e. flying u e"
      using off_flying [OF o] by (auto simp: u_def l_def flying_def serves_def bits free_def bus_free_def dest: pend_bg)
    show "acquiring_dev (blk u) = Some e \<Longrightarrow> blocked u e \<Longrightarrow> semphr (blk u) e \<or> bg_bit (status (blk u)) e" for e
      using off_wakes [OF o, of e] nd by (cases "e = d") (auto simp: u_def l_def blocked_def bits split: if_splits)
  qed (use off_quiet [OF o] i in \<open>auto simp: u_def l_def\<close>)
  ultimately have iu: "bg_inv u" using off by (simp add: bg_inv_def u_def)
  show ?thesis
  proof (cases free)
    case True
    then have "t = bus_gained d keep (u\<lparr>blk := (blk u)\<lparr>semphr := (semphr (blk u))(d := False)\<rparr>\<rparr>)"
      using step i rd
      by (auto simp: acquire_begin_effect [OF lay] free_def [symmetric] u_def l_def bus_gained_def polling_begun_def Let_def
          split: if_splits)
    then show ?thesis
      using wake_inv [OF iu _ _, of d keep] off True by (simp add: u_def l_def)
  next
    case False
    then have "t = u"
      using step i rd by (simp add: acquire_begin_effect [OF lay] free_def [symmetric] u_def l_def Let_def)
    then show ?thesis using iu by simp
  qed
qed

lemma request_inv:
  assumes inv: "bg_inv s" and off: "isr_at s = Isr_Off" and due: "req_due s d"
  shows "bg_inv (s\<lparr>blk := req_core d (blk s), req_due := (req_due s)(d := False)\<rparr>)" (is "bg_inv ?t")
proof -
  have ok: "tasks_ok s" and o: "off_ok s" using bg_inv_off [OF inv off] by simp_all
  have d: "d < 10" and pl: "task s d \<in> {Dev_Idle, Dev_Keeping}" using tasks_req [OF ok due] by auto
  note bits = bits_set_req [OF d, of "status (blk s)"]
  define st where "st = status (blk s) OR (DEV_MASK d AND REQ_MASK)"
  note bits = bits_set_req [OF d, of "status (blk s)", folded st_def]
  define en where "en = (bg_enabled (blk s) \<or>
    (if acquiring_dev (blk s) = Some d then \<not> bg_bit (status (blk s)) d else bus_free (status (blk s))))"
  obtain b where eff: "req_core d (blk s) = (blk s)\<lparr>status := st, acq_dev_bg_active := b, bg_enabled := en\<rparr>"
    unfolding st_def en_def by (rule req_effect [OF tasks_layout [OF ok] d])
  have "tasks_ok ?t"
  proof (rule tasks_okI)
    show "claims ?t e \<Longrightarrow> acquiring_dev (blk ?t) = Some e" for e
      using tasks_claim [OF ok, of e] by (simp add: claims_def eff)
    show "blocked ?t e \<Longrightarrow> semphr (blk ?t) e \<Longrightarrow> \<not> bg_bit (status (blk ?t)) e" for e
      using tasks_sem [OF ok, of e] pl by (auto simp: blocked_def eff bits)
  qed (use tasks_layout [OF ok] tasks_queue [OF ok] tasks_fine [OF ok] tasks_lock [OF ok] tasks_req [OF ok] tasks_acquiring [OF ok]
      tasks_polling [OF ok] tasks_keep [OF ok] tasks_keeper [OF ok] pl
      in \<open>auto simp: eff bits split: if_splits\<close>)
  moreover have "off_ok ?t"
  proof (rule off_okI)
    have free: "bus_free (status (blk s)) \<Longrightarrow> acquiring_dev (blk s) = None"
      using tasks_lock [OF ok] tasks_acquiring [OF ok] by (cases "acquiring_dev (blk s)") (auto simp: bus_free_def)
    have "due ?t \<longleftrightarrow> due s \<or> serves s d"
      by (auto simp: due_def serves_def eff bits)
    moreover have "serves s d \<Longrightarrow> due s \<or> en"
      using off_free [OF o] tasks_lock [OF ok] by (auto simp: serves_def en_def due_def unlocked_def bus_free_def)
    moreover have "en \<Longrightarrow> due s \<or> serves s d"
      using off_enabled [OF o] free by (auto simp: en_def serves_def split: if_splits)
    ultimately show "bg_enabled (blk ?t) = due ?t" "due ?t \<or> unlocked ?t"
      using off_enabled [OF o] off_free [OF o] by (auto simp: eff en_def unlocked_def)
    show "in_isr (blk ?t) \<Longrightarrow> \<exists>e. flying ?t e"
      using off_flying [OF o] by (auto simp: eff flying_def serves_def bits)
    show "acquiring_dev (blk ?t) = Some e \<Longrightarrow> blocked ?t e \<Longrightarrow> semphr (blk ?t) e \<or> bg_bit (status (blk ?t)) e" for e
      using off_wakes [OF o, of e] by (auto simp: eff blocked_def bits)
  qed (use off_quiet [OF o] in \<open>auto simp: eff\<close>)
  ultimately show ?thesis using off by (simp add: bg_inv_def)
qed

text \<open>An owner with no request pending starts a polling transaction.\<close>

lemma poll_inv:
  assumes inv: "bg_inv s" and off: "isr_at s = Isr_Off" and w: "task s d \<in> {Dev_Keeping, Dev_Bg_Wait}"
    and nr: "\<not> req_due s d" and nb: "\<not> bg_bit (status (blk s)) d"
  shows "bg_inv (polling_begun d (s\<lparr>blk := (blk s)\<lparr>semphr := (semphr (blk s))(d := b)\<rparr>\<rparr>))" (is "bg_inv ?t")
proof -
  have ok: "tasks_ok s" and o: "off_ok s" using bg_inv_off [OF inv off] by simp_all
  have acq: "acquiring_dev (blk s) = Some d"
    using tasks_claim [OF ok, of d] w by (auto simp: claims_def)
  note nf = owner_no_flight [OF ok o acq nb]
  have others: "task s e \<in> {Dev_Keeping, Dev_Bg_Wait, Dev_Polling} \<Longrightarrow> e = d" for e
    using tasks_claim [OF ok, of e] acq by (auto simp: claims_def)
  have "tasks_ok ?t"
  proof (rule tasks_okI)
    show "claims ?t e \<Longrightarrow> acquiring_dev (blk ?t) = Some e" for e
      using tasks_claim [OF ok, of e] acq by (cases "e = d") (auto simp: claims_def)
    show "blocked ?t e \<Longrightarrow> semphr (blk ?t) e \<Longrightarrow> \<not> bg_bit (status (blk ?t)) e" for e
      using tasks_sem [OF ok, of e] by (cases "e = d") (auto simp: blocked_def split: if_splits)
    show "keeper ?t = Some e \<Longrightarrow> task ?t e \<in> {Dev_Keeping, Dev_Bg_Wait, Dev_Polling}" for e
      using tasks_keeper [OF ok, of e] by auto
    show "task ?t e \<in> {Dev_Keeping, Dev_Bg_Wait} \<Longrightarrow> keeper ?t = Some e" for e
      using tasks_keep [OF ok, of e] by (auto split: if_splits)
    show "task ?t e = Dev_Polling \<Longrightarrow> \<not> bg_bit (status (blk ?t)) e \<and> cur_cs ?t = Some e" for e
      using others [of e] nb by (auto split: if_splits)
  qed (use tasks_layout [OF ok] tasks_queue [OF ok] tasks_fine [OF ok] tasks_lock [OF ok] tasks_req [OF ok] w nr acq
      in \<open>auto split: if_splits\<close>)
  moreover have "off_ok ?t"
    by (rule off_okI) (use nf nb acq in \<open>auto simp: due_def serves_def blocked_def unlocked_def\<close>)
  ultimately show ?thesis using off by (simp add: bg_inv_def)
qed

lemma bg_wait_inv:
  assumes inv: "bg_inv s" and off: "isr_at s = Isr_Off" and w: "task s d = Dev_Keeping"
    and nr: "\<not> req_due s d" and pb: "bg_bit (status (blk s)) d"
  shows "bg_inv (s\<lparr>blk := (blk s)\<lparr>semphr := (semphr (blk s))(d := False)\<rparr>, task := (task s)(d := Dev_Bg_Wait)\<rparr>)"
    (is "bg_inv ?t")
proof -
  have ok: "tasks_ok s" and o: "off_ok s" using bg_inv_off [OF inv off] by simp_all
  have acq: "acquiring_dev (blk s) = Some d"
    using tasks_claim [OF ok, of d] w by (auto simp: claims_def)
  have "tasks_ok ?t"
  proof (rule tasks_okI)
    show "claims ?t e \<Longrightarrow> acquiring_dev (blk ?t) = Some e" for e
      using tasks_claim [OF ok, of e] acq by (cases "e = d") (auto simp: claims_def)
    show "blocked ?t e \<Longrightarrow> semphr (blk ?t) e \<Longrightarrow> \<not> bg_bit (status (blk ?t)) e" for e
      using tasks_sem [OF ok, of e] by (cases "e = d") (auto simp: blocked_def split: if_splits)
    show "keeper ?t = Some e \<Longrightarrow> task ?t e \<in> {Dev_Keeping, Dev_Bg_Wait, Dev_Polling}" for e
      using tasks_keeper [OF ok, of e] by auto
    show "task ?t e \<in> {Dev_Keeping, Dev_Bg_Wait} \<Longrightarrow> keeper ?t = Some e" for e
      using tasks_keep [OF ok, of e] w by (auto split: if_splits)
  qed (use tasks_layout [OF ok] tasks_queue [OF ok] tasks_fine [OF ok] tasks_lock [OF ok] tasks_req [OF ok] tasks_polling [OF ok] w nr acq
      in \<open>auto split: if_splits\<close>)
  moreover have "off_ok ?t"
  proof (rule off_okI)
    show "bg_enabled (blk ?t) = due ?t" "due ?t \<or> unlocked ?t"
      using off_enabled [OF o] pb acq by (auto simp: due_def serves_def)
    show "in_isr (blk ?t) \<Longrightarrow> \<exists>e. flying ?t e"
      using off_flying [OF o] by (auto simp: flying_def serves_def)
    show "\<not> in_isr (blk ?t) \<Longrightarrow> cur_cs ?t = Some e \<Longrightarrow> task ?t e = Dev_Polling" for e
      using off_quiet [OF o, of e] w by auto
  qed (use pb acq in \<open>auto simp: blocked_def\<close>)
  ultimately show ?thesis using off by (simp add: bg_inv_def)
qed

text \<open>An owner with no request pending leaves the bus to the lowest device that waits.\<close>

lemma leave_inv:
  assumes inv: "bg_inv s" and off: "isr_at s = Isr_Off"
    and w: "task s d = Dev_Keeping \<and> keeper s = Some d \<or> task s d = Dev_Polling \<and> keeper s = None"
    and nr: "\<not> req_due s d" and nb: "\<not> bg_bit (status (blk s)) d"
  shows "bg_inv (bus_left d (s\<lparr>keeper := None, cur_cs := None\<rparr>))" (is "bg_inv ?t")
proof -
  have ok: "tasks_ok s" and o: "off_ok s" using bg_inv_off [OF inv off] by simp_all
  have acq: "acquiring_dev (blk s) = Some d" using tasks_claim [OF ok, of d] w by (auto simp: claims_def)
  have d: "d < 10" by (rule tasks_ok_acquiring [OF ok acq])
  note nf = owner_no_flight [OF ok o acq nb]
  have others: "claims s e \<Longrightarrow> e = d" for e using tasks_claim [OF ok, of e] acq by simp
  define st where "st = status (blk s) AND NOT (DEV_MASK d AND LOCK_MASK)"
  note bits = bits_clear_lock [OF d, of "status (blk s)", folded st_def]
  define nxt where "nxt = lowest (lock_bit st)"
  have nxt: "nxt = Some e \<Longrightarrow> e \<noteq> d \<and> (\<exists>k. task s e = Dev_Waiting k)" for e
    using tasks_lock [OF ok, of e] others [of e]
    by (cases "task s e") (auto simp: nxt_def lowest_Some bits claims_def)
  have none: "nxt = None \<Longrightarrow> e \<noteq> d \<Longrightarrow> task s e = Dev_Idle" for e
    using tasks_lock [OF ok, of e] lowest_None [of "lock_bit st"] bits(3) [of e]
    by (auto simp: nxt_def lock_bit_def [of _ e])
  define l where "l = (case nxt of
       Some e \<Rightarrow> (blk s)\<lparr>status := st, acquiring_dev := Some e, acq_dev_bg_active := bg_bit st e,
                   bg_enabled := bg_enabled (blk s) \<or> bg_bit st e,
                   semphr := (semphr (blk s))(e := semphr (blk s) e \<or> \<not> bg_bit st e)\<rparr>
     | None \<Rightarrow> (blk s)\<lparr>status := st, acquiring_dev := None, acq_dev_bg_active := False,
                 bg_enabled := bg_enabled (blk s) \<or> (\<exists>e. bg_bit st e)\<rparr>)"
  have step: "?t = s\<lparr>keeper := None, cur_cs := None, blk := l, task := (task s)(d := Dev_Idle)\<rparr>"
    using acquire_end_effect [OF tasks_layout [OF ok] d acq, folded st_def, folded nxt_def, folded l_def]
    by (simp add: bus_left_def)
  have l: "status l = st" "acquiring_dev l = nxt" "in_isr l = in_isr (blk s)"
    "bg_enabled l \<longleftrightarrow> (case nxt of None \<Rightarrow> \<exists>e. bg_bit st e | Some e \<Rightarrow> bg_bit st e)"
    "semphr l e \<longleftrightarrow> semphr (blk s) e \<or> nxt = Some e \<and> \<not> bg_bit st e" for e
    using nf(3) by (auto simp: l_def split: option.split)
  have "tasks_ok ?t"
  proof (rule tasks_okI)
    show "claims ?t e \<Longrightarrow> acquiring_dev (blk ?t) = Some e" for e
      using others [of e] by (auto simp: step claims_def l split: if_splits)
    show "blocked ?t e \<Longrightarrow> semphr (blk ?t) e \<Longrightarrow> \<not> bg_bit (status (blk ?t)) e" for e
      using tasks_sem [OF ok, of e] by (auto simp: blocked_def step l bits split: if_splits)
    show "task ?t e \<in> {Dev_Keeping, Dev_Bg_Wait} \<Longrightarrow> keeper ?t = Some e" for e
      using others [of e] by (auto simp: step claims_def split: if_splits)
    show "task ?t e = Dev_Polling \<Longrightarrow> \<not> bg_bit (status (blk ?t)) e \<and> cur_cs ?t = Some e" for e
      using others [of e] by (auto simp: step claims_def split: if_splits)
  qed (use tasks_layout [OF ok] tasks_queue [OF ok] tasks_fine [OF ok] tasks_lock [OF ok] tasks_req [OF ok] nr nxt
      in \<open>auto simp: step l bits split: if_splits\<close>)
  moreover have "off_ok ?t"
    by (rule off_okI)
      (use nf(1) none nxt in \<open>auto simp: step l due_def serves_def blocked_def unlocked_def split: option.split\<close>)
  ultimately show ?thesis using off by (simp add: bg_inv_def step)
qed

lemma queue_inv:
  assumes inv: "bg_inv s" and off: "isr_at s = Isr_Off" and d: "d < 10" and w: "task s d \<in> {Dev_Idle, Dev_Keeping}"
  shows "bg_inv (s\<lparr>trans_queue := (trans_queue s)(d := q), req_due := (req_due s)(d := True)\<rparr>)" (is "bg_inv ?t")
proof -
  have ok: "tasks_ok s" and o: "off_ok s" using bg_inv_off [OF inv off] by simp_all
  have same: "claims ?t = claims s" "blocked ?t = blocked s" "due ?t = due s" "flying ?t = flying s" "unlocked ?t = unlocked s"
    by (simp_all add: claims_def blocked_def due_def serves_def flying_def unlocked_def fun_eq_iff)
  have "tasks_ok ?t"
    by (rule tasks_okI) (use tasks_layout [OF ok] tasks_queue [OF ok] tasks_fine [OF ok] tasks_lock [OF ok] tasks_req [OF ok]
        tasks_acquiring [OF ok] tasks_polling [OF ok] tasks_keep [OF ok] tasks_keeper [OF ok] tasks_claim [OF ok]
        tasks_sem [OF ok] d w in \<open>auto simp: same split: if_splits\<close>)
  then show ?thesis using o off same by (simp add: bg_inv_def off_ok_def)
qed

lemma inv_irrelevant:
  "bg_inv (s\<lparr>ret_queue := rq\<rparr>) = bg_inv s" "bg_inv (s\<lparr>hw_busy := b\<rparr>) = bg_inv s"
proof -
  let ?t = "s\<lparr>ret_queue := rq\<rparr>" and ?u = "s\<lparr>hw_busy := b\<rparr>"
  have same: "claims ?t = claims s" "blocked ?t = blocked s" "serves ?t = serves s"
    "claims ?u = claims s" "blocked ?u = blocked s" "serves ?u = serves s"
    by (simp_all add: claims_def blocked_def serves_def fun_eq_iff)
  then have "due ?t = due s" "flying ?t = flying s" "unlocked ?t = unlocked s" "resting ?t = resting s"
    "due ?u = due s" "flying ?u = flying s" "unlocked ?u = unlocked s" "resting ?u = resting s"
    by (simp_all add: due_def flying_def unlocked_def resting_def fun_eq_iff)
  then have "off_ok ?t = off_ok s" "off_ok ?u = off_ok s" "handler_ok p ?t = handler_ok p s \<or> p = Isr_Off"
    "handler_ok p ?u = handler_ok p s \<or> p = Isr_Off" for p
    using same by (simp_all add: off_ok_def) (cases p; simp)+
  moreover have "tasks_ok ?t = tasks_ok s" "tasks_ok ?u = tasks_ok s"
    unfolding tasks_ok_def same by simp_all
  ultimately show "bg_inv ?t = bg_inv s" "bg_inv ?u = bg_inv s"
    by (cases "isr_at s = Isr_Off"; simp add: bg_inv_def; metis)+
qed

lemma reset_same:
  "keeper s = None \<Longrightarrow> s\<lparr>keeper := None, cur_cs := None\<rparr> = s\<lparr>cur_cs := None\<rparr>"
  "cur_cs s = None \<Longrightarrow> s\<lparr>keeper := None, cur_cs := None\<rparr> = s\<lparr>keeper := None\<rparr>"
  by (cases s; simp)+

lemma end_polling_inv:
  assumes inv: "bg_inv s" and off: "isr_at s = Isr_Off" and w: "task s d = Dev_Polling"
    and step: "dev_step d End_Polling s = Some t"
  shows "bg_inv t"
proof -
  have ok: "tasks_ok s" and o: "off_ok s" using bg_inv_off [OF inv off] by simp_all
  have acq: "acquiring_dev (blk s) = Some d" and nr: "\<not> req_due s d"
    using tasks_claim [OF ok, of d] tasks_req [OF ok, of d] w by (auto simp: claims_def)
  have nb: "\<not> bg_bit (status (blk s)) d" and cs: "cur_cs s = Some d" using tasks_polling [OF ok w] by auto
  note nf = owner_no_flight [OF ok o acq nb]
  have others: "claims s e \<Longrightarrow> e = d" for e using tasks_claim [OF ok, of e] acq by simp
  have kp: "keeper s = None \<or> keeper s = Some d"
    using tasks_keeper [OF ok] others by (cases "keeper s") (auto simp: claims_def)
  show ?thesis
  proof (cases "keeper s")
    case None
    then have "t = bus_left d (s\<lparr>keeper := None, cur_cs := None\<rparr>)"
      using step w acq cs by (auto simp: Let_def reset_same split: if_splits)
    then show ?thesis using leave_inv [OF inv off, of d] w None nr nb by simp
  next
    case (Some e)
    with kp have kd: "keeper s = Some d" by simp
    then have t: "t = s\<lparr>cur_cs := None, task := (task s)(d := Dev_Keeping)\<rparr>"
      using step w acq cs by (auto simp: Let_def split: if_splits)
    have "tasks_ok t"
    proof (rule tasks_okI)
      show "claims t x \<Longrightarrow> acquiring_dev (blk t) = Some x" for x
        using others [of x] acq by (auto simp: t claims_def split: if_splits)
      show "blocked t x \<Longrightarrow> semphr (blk t) x \<Longrightarrow> \<not> bg_bit (status (blk t)) x" for x
        using tasks_sem [OF ok, of x] by (auto simp: blocked_def t split: if_splits)
      show "task t x = Dev_Polling \<Longrightarrow> \<not> bg_bit (status (blk t)) x \<and> cur_cs t = Some x" for x
        using others [of x] by (auto simp: t claims_def split: if_splits)
      show "task t x \<in> {Dev_Keeping, Dev_Bg_Wait} \<Longrightarrow> keeper t = Some x" for x
        using tasks_keep [OF ok, of x] kd by (auto simp: t split: if_splits)
    qed (use tasks_layout [OF ok] tasks_queue [OF ok] tasks_fine [OF ok] tasks_lock [OF ok] tasks_req [OF ok] w nr kd acq
        in \<open>auto simp: t split: if_splits\<close>)
    moreover have "off_ok t"
      by (rule off_okI) (use nf acq nb in \<open>auto simp: t due_def serves_def blocked_def unlocked_def\<close>)
    ultimately show ?thesis using off by (simp add: bg_inv_def t)
  qed
qed

lemma dev_step_inv:
  assumes inv: "bg_inv s" and off: "isr_at s = Isr_Off" and d: "d < MAX_DEV_NUM"
    and drained: "a = Release \<Longrightarrow> \<not> bg_pending d s" and step: "dev_step d a s = Some t"
  shows "bg_inv t"
proof -
  have d10: "d < 10" using d by (simp add: MAX_DEV_NUM_def)
  have ok: "tasks_ok s" and o: "off_ok s" using bg_inv_off [OF inv off] by simp_all
  have pending: "bg_pending d s = bg_bit (status (blk s)) d" by (simp add: bg_pending_def and_dev_bg_0_iff [OF d10])
  show ?thesis
  proof (cases a)
    case (Acquire keep)
    then show ?thesis using acquire_inv [OF inv off d10] step by (auto split: if_splits)
  next
    case Wake
    then show ?thesis using wake_inv [OF inv off] step
      by (auto simp: acquire_wake_def split: dev_task.splits option.splits if_splits)
  next
    case (Queue_Trans x)
    then show ?thesis using queue_inv [OF inv off d10] step by (auto split: if_splits)
  next
    case Bg_Request
    then show ?thesis using request_inv [OF inv off] step by (auto split: if_splits)
  next
    case Start_Polling
    have "(blk s)\<lparr>semphr := (semphr (blk s))(d := semphr (blk s) d)\<rparr> = blk s" by simp
    then show ?thesis
      using Start_Polling poll_inv [OF inv off, of d "semphr (blk s) d"] bg_wait_inv [OF inv off, of d] step pending
      by (auto split: if_splits)
  next
    case Bg_Wake
    then show ?thesis
      using poll_inv [OF inv off, of d False] tasks_req [OF ok, of d] tasks_sem [OF ok, of d] step
      by (auto simp: acquire_wake_def blocked_def split: dev_task.splits option.splits if_splits)
  next
    case End_Polling
    then have "task s d = Dev_Polling" using step by (auto split: dev_task.splits)
    then show ?thesis using end_polling_inv [OF inv off] step End_Polling by blast
  next
    case Release
    then have w: "task s d = Dev_Keeping" "\<not> req_due s d" and t: "t = bus_left d (s\<lparr>keeper := None\<rparr>)"
      using step by (auto split: if_splits)
    have acq: "acquiring_dev (blk s) = Some d" using tasks_claim [OF ok, of d] w by (simp add: claims_def)
    have nb: "\<not> bg_bit (status (blk s)) d" using drained [OF Release] pending by simp
    have "task s e = Dev_Polling \<Longrightarrow> e = d" for e using tasks_claim [OF ok, of e] acq by (simp add: claims_def)
    then have "cur_cs s = None"
      using off_quiet [OF o owner_no_flight(1) [OF ok o acq nb]] w by (cases "cur_cs s") auto
    note reset_same(2) [OF this]
    then show ?thesis
      using leave_inv [OF inv off, of d] w nb tasks_keep [OF ok, of d] t by simp
  next
    case Get_Result
    then show ?thesis using inv step by (auto simp: inv_irrelevant split: list.splits if_splits)
  qed
qed

lemma bg_step_inv: "bg_step False True s t \<Longrightarrow> bg_inv s \<Longrightarrow> bg_inv t"
  by (erule bg_stepE) (auto simp: inv_irrelevant intro: handler_inv dev_step_inv)

lemma bg_reachable_inv: "bg_reachable False True (bg_start cs depth quiet) s \<Longrightarrow> bg_inv s"
  by (induction rule: bg_reachable.induct) (auto intro: bg_inv_start bg_step_inv)

section \<open>Properties\<close>

text \<open>
  C22: Queued and polling transfers exclude each other, with the handler and the tasks on one core
  and devices released only when their queued transactions are done: while a device polls it is
  the only owner of the bus, the handler is off, no queued transaction is in flight or pending for
  it, and no assertion has failed.
\<close>

theorem background_exclusion:
  assumes reach: "bg_reachable False True (bg_start cs depth quiet) s" and poll: "task s d = Dev_Polling"
  shows "\<not> failed s \<and> isr_at s = Isr_Off \<and> \<not> in_isr (blk s) \<and> cur_cs s = Some d \<and> \<not> bg_pending d s
    \<and> {e. task s e \<in> {Dev_Keeping, Dev_Bg_Wait, Dev_Polling}} = {d}"
proof -
  have inv: "bg_inv s" by (rule bg_reachable_inv [OF reach])
  then have ok: "tasks_ok s" and h: "handler_ok (isr_at s) s" by (simp_all add: bg_inv_def)
  have acq: "acquiring_dev (blk s) = Some d" using tasks_claim [OF ok, of d] poll by (simp add: claims_def)
  have nb: "\<not> bg_bit (status (blk s)) d" and cs: "cur_cs s = Some d" using tasks_polling [OF ok poll] by auto
  have "\<not> flying s e" for e using acq nb by (auto simp: flying_def serves_def dest: pend_bg)
  then have off: "isr_at s = Isr_Off"
    using h resting_no_polling [OF ok, of d] poll by (cases "isr_at s") (auto split: if_splits)
  have "off_ok s" using bg_inv_off [OF inv off] by simp
  then have "\<not> in_isr (blk s)" using owner_no_flight [OF ok _ acq nb] by blast
  moreover have "task s e \<in> {Dev_Keeping, Dev_Bg_Wait, Dev_Polling} \<Longrightarrow> e = d" for e
    using tasks_claim [OF ok, of e] acq by (auto simp: claims_def)
  ultimately show ?thesis
    using off cs poll nb tasks_fine [OF ok] and_dev_bg_0_iff [OF tasks_ok_acquiring [OF ok acq]]
    by (auto simp: bg_pending_def)
qed

theorem background_exclusion_witness:
  "\<exists>s. bg_moves False True [Device 1 (Queue_Trans 7), Device 0 (Acquire False)] demo = Some s \<and> \<not> failed s
     \<and> {e. task s e \<in> {Dev_Keeping, Dev_Bg_Wait, Dev_Polling}} = {0}"
proof -
  let ?run = "bg_moves False True [Device 1 (Queue_Trans 7), Device 0 (Acquire False)] demo"
  have "map_option (\<lambda>s. task s 0) ?run = Some Dev_Polling" by code_simp
  then obtain s where s: "?run = Some s" "task s 0 = Dev_Polling" by auto
  show ?thesis
    using background_exclusion [OF bg_moves_start [OF s(1) [unfolded demo_def]] s(2)] s(1) by (auto simp: demo_def)
qed

text \<open>
  C23: No request is forgotten, with the handler and the tasks on one core and devices released
  only when their queued transactions are done: in every state reached from the start in which the
  handler is off, a transaction has been queued and requested and no other device owns the bus,
  the interrupt of the handler is enabled, so that it runs as soon as the peripheral is done.
\<close>

theorem background_no_lost_request:
  assumes reach: "bg_reachable False True (bg_start cs depth quiet) s" and off: "isr_at s = Isr_Off"
    and queued: "trans_queue s d \<noteq> []" "\<not> req_due s d" and mine: "acquiring_dev (blk s) \<in> {None, Some d}"
  shows "bg_enabled (blk s)"
proof -
  have ok: "tasks_ok s" and o: "off_ok s" using bg_inv_off [OF bg_reachable_inv [OF reach] off] by simp_all
  have "due s" using tasks_queue [OF ok queued(1)] queued(2) mine by (auto simp: due_def serves_def)
  then show ?thesis using off_enabled [OF o] by simp
qed

theorem background_no_lost_request_witness:
  "map_option (\<lambda>s. bg_enabled (blk s)) (bg_moves False True
     [Device 0 (Acquire True), Device 1 (Queue_Trans 7), Device 1 Bg_Request, Device 0 Release] demo) = Some True"
proof -
  let ?run = "bg_moves False True
     [Device 0 (Acquire True), Device 1 (Queue_Trans 7), Device 1 Bg_Request, Device 0 Release] demo"
  have "map_option (\<lambda>s. (isr_at s, trans_queue s 1, req_due s 1, acquiring_dev (blk s))) ?run = Some (Isr_Off, [7], False, None)"
    by code_simp
  then obtain s where s: "?run = Some s" "isr_at s = Isr_Off" "trans_queue s 1 \<noteq> []" "\<not> req_due s 1"
    "acquiring_dev (blk s) \<in> {None, Some 1}" by auto
  show ?thesis
    using background_no_lost_request [OF bg_moves_start [OF s(1) [unfolded demo_def]] s(2-5)] s(1) by simp
qed

text \<open>
  C24: The interrupt handler ends, with the handler and the tasks on one core and devices released
  only when their queued transactions are done: in every state reached from the start in which it
  is off and its interrupt is enabled, it is off again within 87 of its steps, no assertion has
  failed, and either a transaction is in flight or nothing is left to do.
\<close>

theorem spi_intr_ends:
  assumes reach: "bg_reachable False True (bg_start cs depth quiet) s" and off: "isr_at s = Isr_Off"
    and on: "bg_enabled (blk s)"
  shows "\<exists>n t. 0 < n \<and> n \<le> 87 \<and> (spi_intr_step ^^ n) s = t \<and> isr_at t = Isr_Off \<and> \<not> failed t \<and> (due t \<longleftrightarrow> cur_cs t \<noteq> None)"
proof -
  let ?s = "spi_intr_step s"
  have inv: "bg_inv ?s" "isr_at ?s = Isr_Loop" using entry_inv [OF bg_reachable_inv [OF reach] off on] by simp_all
  then obtain n t where t: "n \<le> isr_left ?s" "(spi_intr_step ^^ n) ?s = t" "isr_at t = Isr_Off" "bg_inv t"
    "due t \<longleftrightarrow> cur_cs t \<noteq> None"
    using handler_ends [OF inv(1)] by auto
  have "isr_left ?s \<le> 86" using finite_bg_bits(2) [of "status (blk ?s)"] inv(2) by (simp add: isr_left_def isr_rank_def)
  then show ?thesis
    using t tasks_fine [of t] by (intro exI [of _ "Suc n"] exI [of _ t]) (auto simp: funpow_swap1 bg_inv_def)
qed

theorem spi_intr_ends_witness:
  "\<exists>s n t. bg_moves False True [Device 1 (Queue_Trans 7), Device 1 Bg_Request] demo = Some s \<and> 0 < n \<and>
     (spi_intr_step ^^ n) s = t \<and> isr_at t = Isr_Off \<and> \<not> failed t"
proof -
  let ?run = "bg_moves False True [Device 1 (Queue_Trans 7), Device 1 Bg_Request] demo"
  have "map_option (\<lambda>s. (isr_at s, bg_enabled (blk s))) ?run = Some (Isr_Off, True)" by code_simp
  then obtain s where s: "?run = Some s" "isr_at s = Isr_Off" "bg_enabled (blk s)" by auto
  show ?thesis
    using spi_intr_ends [OF bg_moves_start [OF s(1) [unfolded demo_def]] s(2-3)] s(1) by blast
qed

text \<open>What has been queued for a device, in order: what the handler has sent and what is still waiting.\<close>

definition pipeline :: "nat \<Rightarrow> 't bg_system \<Rightarrow> 't list" where
  "pipeline d s = map snd (filter (\<lambda>x. fst x = d) (sent s)) @ trans_queue s d"

lemma pipeline_handler: "pipeline d (spi_intr_step s) = pipeline d s" "prefix (sent s) (sent (spi_intr_step s))"
proof -
  have "pipeline d (spi_intr_step s) = pipeline d s \<and> prefix (sent s) (sent (spi_intr_step s))"
  proof (cases "isr_at s")
    case (Isr_Take e)
    then show ?thesis by (cases "trans_queue s e") (auto simp: spi_intr_step_def pipeline_def)
  next
    case Isr_Off
    then show ?thesis
      by (simp add: spi_intr_step_def spi_intr_entry_def pipeline_def post_queued_def Let_def split: prod.split option.split)
  qed (simp_all add: spi_intr_step_def pipeline_def Let_def split: prod.split option.split)
  then show "pipeline d (spi_intr_step s) = pipeline d s" "prefix (sent s) (sent (spi_intr_step s))" by simp_all
qed

lemma pipeline_bus_left: "sent (bus_left d s) = sent s" "trans_queue (bus_left d s) = trans_queue s"
  by (auto simp: bus_left_def split: prod.split)

lemma pipeline_gained: "sent (polling_begun d s) = sent s" "sent (bus_gained d k s) = sent s"
  by (auto simp: polling_begun_def bus_gained_def)

text \<open>What the moves of a run have put in the queue of a device.\<close>

definition queued_move :: "nat \<Rightarrow> 't move \<Rightarrow> 't list" where
  "queued_move d m = (case m of Device e (Queue_Trans x) \<Rightarrow> if e = d then [x] else [] | _ \<Rightarrow> [])"

definition queued_by :: "nat \<Rightarrow> 't move list \<Rightarrow> 't list" where
  "queued_by d ms = concat (map (queued_move d) ms)"

lemma pipeline_device:
  "dev_step e a s = Some t \<Longrightarrow> sent t = sent s \<and> pipeline d t = pipeline d s @ queued_move d (Device e a)"
  by (cases a) (auto simp: pipeline_def queued_move_def pipeline_bus_left pipeline_gained Let_def
      split: if_splits dev_task.splits option.splits prod.splits list.splits)

lemma pipeline_move:
  assumes "bg_move smp drained m s = Some t"
  shows "prefix (sent s) (sent t)" "pipeline d t = pipeline d s @ queued_move d m"
proof -
  have "prefix (sent s) (sent t) \<and> pipeline d t = pipeline d s @ queued_move d m"
  proof (cases m)
    case (Device e a)
    then have "dev_step e a s = Some t"
      using assms by (simp only: bg_move.simps split: if_splits) simp_all
    then show ?thesis
      using pipeline_device [of e a s t d] Device by simp
  next
    case Handler
    then have "t = spi_intr_step s" using assms by (simp split: if_splits)
    then show ?thesis
      using pipeline_handler [where s = s] Handler by (simp add: queued_move_def)
  next
    case Hardware
    then have "t = s\<lparr>hw_busy := False\<rparr>" using assms by (simp split: if_splits)
    then show ?thesis
      using Hardware by (simp add: queued_move_def pipeline_def)
  qed
  then show "prefix (sent s) (sent t)" "pipeline d t = pipeline d s @ queued_move d m" by simp_all
qed

text \<open>Every interleaving is a run.\<close>

lemma bg_step_move: "bg_step smp drained s t \<Longrightarrow> \<exists>m. bg_move smp drained m s = Some t"
proof (erule bg_stepE)
  assume "t = spi_intr_step s" "\<not> failed s" "isr_at s = Isr_Off \<longrightarrow> bg_enabled (blk s) \<and> \<not> hw_busy s"
  then show ?thesis by (intro exI [of _ Handler]) simp
next
  assume "t = s\<lparr>hw_busy := False\<rparr>" "hw_busy s" "\<not> failed s"
  then show ?thesis by (intro exI [of _ Hardware]) simp
next
  fix e a
  assume "\<not> failed s" "e < MAX_DEV_NUM" "smp \<or> isr_at s = Isr_Off" "drained \<and> a = Release \<longrightarrow> \<not> bg_pending e s"
    "dev_step e a s = Some t"
  then show ?thesis
    by (intro exI [of _ "Device e a"]) (auto simp del: dev_step.simps split: dev_act.split)
qed

lemma bg_moves_append:
  "bg_moves smp drained (xs @ ys) s = Option.bind (bg_moves smp drained xs s) (bg_moves smp drained ys)"
  by (induction xs arbitrary: s) (simp_all split: option.split)

lemma bg_reachable_moves: "bg_reachable smp drained s t \<Longrightarrow> \<exists>ms. bg_moves smp drained ms s = Some t"
proof (induction rule: bg_reachable.induct)
  case start
  show ?case by (intro exI [of _ "[]"]) simp
next
  case (step s1 t1)
  then obtain ms m where "bg_moves smp drained ms s = Some s1" "bg_move smp drained m s1 = Some t1"
    using bg_step_move by blast
  then show ?case by (intro exI [of _ "ms @ [m]"]) (simp add: bg_moves_append)
qed

text \<open>
  C25: Whatever the interleaving, on one core or two, the transactions of a device are sent in the
  order in which they were queued, none twice and none left out: after any run the transactions
  that have been sent for a device, followed by those still in its queue, are those of before,
  followed by just the ones that the run has queued; and what has been sent stays sent.
\<close>

theorem queue_order_kept:
  assumes "bg_moves smp drained ms s = Some t"
  shows "prefix (sent s) (sent t) \<and> pipeline d t = pipeline d s @ queued_by d ms"
  using assms
proof (induction ms arbitrary: s)
  case (Cons m ms)
  then obtain u where u: "bg_move smp drained m s = Some u" "bg_moves smp drained ms u = Some t"
    by (auto split: option.splits)
  then show ?case
    using Cons.IH [OF u(2)] pipeline_move [OF u(1)] prefix_order.trans [of "sent s" "sent u" "sent t"]
    by (simp add: queued_by_def)
qed (simp add: queued_by_def)

theorem queue_order_kept_witness:
  "\<exists>t. bg_moves True True [Device 1 (Queue_Trans 7), Device 1 Bg_Request, Handler, Device 1 (Queue_Trans 8)] demo = Some t
     \<and> pipeline 1 t = [7, 8]"
proof -
  let ?run = "bg_moves True True [Device 1 (Queue_Trans 7), Device 1 Bg_Request, Handler, Device 1 (Queue_Trans 8)] demo"
  have "map_option (\<lambda>s. trans_queue s 1) ?run = Some [7, 8]" by code_simp
  then obtain t where t: "?run = Some t" by auto
  have "pipeline 1 demo = []" by (simp add: pipeline_def demo_def bg_start_def)
  then show ?thesis
    using queue_order_kept [OF t, of 1] t by (simp add: queued_by_def queued_move_def)
qed

text \<open>
  Releasing the bus while a queued transaction of the device is in flight is not refused: the
  bus goes to a device that waits, which starts a polling transaction while the other is still on
  the wires.
\<close>

lemma release_undrained_overlaps:
  "\<exists>s t. bg_reachable False False demo s \<and> hw_busy s \<and> cur_cs s = Some 0 \<and> in_isr (blk s)
     \<and> dev_step 1 Wake s = Some t \<and> task t 1 = Dev_Polling \<and> in_isr (blk t) \<and> cur_cs t = Some 1"
proof -
  let ?ms = "[Device 0 (Acquire True), Device 0 (Queue_Trans 7), Device 0 Bg_Request] @ replicate 5 Handler
     @ [Device 1 (Acquire False), Device 0 Release]"
  have "map_option (\<lambda>s. (hw_busy s, cur_cs s, in_isr (blk s),
      map_option (\<lambda>t. (task t 1, in_isr (blk t), cur_cs t)) (dev_step 1 Wake s))) (bg_moves False False ?ms demo)
    = Some (True, Some 0, True, Some (Dev_Polling, True, Some 1))"
    by code_simp
  then obtain s where "bg_moves False False ?ms demo = Some s" "hw_busy s" "cur_cs s = Some 0" "in_isr (blk s)"
    "map_option (\<lambda>t. (task t 1, in_isr (blk t), cur_cs t)) (dev_step 1 Wake s) = Some (Dev_Polling, True, Some 1)"
    by auto
  then show ?thesis using bg_moves_start [of False False ?ms demo s] by blast
qed

text \<open>
  C27: With the handler on one core and the tasks on another, a request made after the handler has
  cleared the last pending bit leaves the interrupt enabled behind it; when another device then
  polls, the handler runs at the end of its transaction and fails an assertion.
\<close>

theorem late_request_fails_assertion:
  "\<exists>s. bg_reachable True True demo s \<and> failed s \<and> task s 1 = Dev_Polling"
proof -
  let ?ms = "[Device 0 (Queue_Trans 7), Device 0 Bg_Request] @ replicate 6 Handler @ [Device 0 (Queue_Trans 8), Hardware]
     @ replicate 6 Handler @ [Hardware] @ replicate 6 Handler @ [Device 0 Bg_Request] @ replicate 7 Handler
     @ [Device 1 (Acquire False), Hardware, Handler]"
  have "map_option (\<lambda>s. (failed s, task s 1)) (bg_moves True True ?ms demo) = Some (True, Dev_Polling)"
    by code_simp
  then obtain s where "bg_moves True True ?ms demo = Some s" "failed s" "task s 1 = Dev_Polling" by auto
  then show ?thesis using bg_moves_start [of True True ?ms demo s] by blast
qed

end
