(* ===== verification/Spi_Background_Types.thy ===== *)
theory Spi_Background_Types
  imports Spi_Background
begin

text \<open>
  The typing of the state of the queued transfers: every device number in it is one of a device, the
  LOCK bits of the status word are the tasks that are not idle, the words above them stay clear, and no
  queue holds more than it was created for. It holds with the handler on any core and with devices
  released at any time, so also in the runs that break the exclusion of \<open>Spi_Background_Safety\<close>.
\<close>

fun isr_dev :: "isr_pc \<Rightarrow> nat option" where
  "isr_dev (Isr_Serve d) = Some d"
| "isr_dev (Isr_Take d) = Some d"
| "isr_dev (Isr_Clear d) = Some d"
| "isr_dev _ = None"

definition lock_typed :: "(nat \<Rightarrow> bool) \<Rightarrow> spi_bus_lock \<Rightarrow> bool" where
  "lock_typed busy l \<longleftrightarrow>
     layout_ok (status l) \<and> lock_bit (status l) = busy \<and> (\<forall>d. acquiring_dev l = Some d \<longrightarrow> d < MAX_DEV_NUM)"

definition tasks_typed :: "(nat \<Rightarrow> dev_task) \<Rightarrow> nat option \<Rightarrow> bool" where
  "tasks_typed tk k \<longleftrightarrow> (\<forall>d. k = Some d \<longrightarrow> tk d \<in> {Dev_Keeping, Dev_Bg_Wait, Dev_Polling})"

definition bg_typed :: "'t bg_system \<Rightarrow> bool" where
  "bg_typed s \<longleftrightarrow>
     lock_typed (\<lambda>d. task s d \<noteq> Dev_Idle) (blk s) \<and> tasks_typed (task s) (keeper s) \<and>
     (\<forall>d. cur_cs s = Some d \<or> isr_dev (isr_at s) = Some d \<or> req_due s d \<longrightarrow> d < MAX_DEV_NUM) \<and>
     (\<forall>d. length (trans_queue s d) \<le> queue_size s d \<and> length (ret_queue s d) \<le> queue_size s d)"

lemma bg_typed_start: "bg_typed (bg_start cs depth quiet)"
  by (simp add: bg_typed_def bg_start_def spi_bus_init_lock_def lock_typed_def tasks_typed_def layout_ok_def lock_bit_def
      fun_eq_iff)

lemma layout_small: "layout_ok st \<Longrightarrow> st < 2 ^ 30" for st :: u32
proof -
  assume ok: "layout_ok st"
  have "take_bit 30 st = st"
    by (rule bit_word_eqI) (use layout_bit [OF ok] in \<open>auto simp: bit_take_bit_iff\<close>)
  then have "take_bit 30 (unat st) = unat st" by (metis unsigned_take_bit_eq)
  then have "unat st < 2 ^ 30" by (metis take_bit_nat_less_exp)
  then show ?thesis by (simp add: word_less_nat_alt)
qed

section \<open>The operations of the lock keep its type\<close>

lemma lock_typedD:
  assumes "lock_typed busy l"
  shows "layout_ok (status l)" "lock_bit (status l) = busy" "acquiring_dev l = Some d \<Longrightarrow> d < 10"
  using assms by (simp_all add: lock_typed_def MAX_DEV_NUM_def)

lemma lock_typed_busy: "lock_typed busy l \<Longrightarrow> busy d \<Longrightarrow> d < 10"
  by (auto simp: lock_typed_def lock_bit_def)

lemma lock_typed_same:
  "lock_typed busy l \<Longrightarrow> status l' = status l \<Longrightarrow> acquiring_dev l' = acquiring_dev l \<Longrightarrow> lock_typed busy l'"
  by (simp add: lock_typed_def)

lemma schedule_typed:
  "lock_typed busy l \<Longrightarrow> schedule_core (status l) l = (y, e, l') \<Longrightarrow>
   lock_typed busy l' \<and> (\<forall>d. e = Some d \<longrightarrow> d < MAX_DEV_NUM)"
  by (auto simp: schedule_core_lowest lock_typed_def MAX_DEV_NUM_def lowest_Some split: option.splits)

lemma acquire_begin_typed:
  "lock_typed busy l \<Longrightarrow> d < 10 \<Longrightarrow> lock_typed (busy(d := True)) (snd (acquire_begin d l))"
  by (auto simp: acquire_begin_effect lock_typedD(1) bits_set_lock lock_typed_def MAX_DEV_NUM_def fun_eq_iff)

lemma acquire_wake_typed: "lock_typed busy l \<Longrightarrow> acquire_wake d l = Some l' \<Longrightarrow> lock_typed busy l'"
  by (auto simp: acquire_wake_def lock_typed_def split: if_splits)

lemma acquire_end_typed:
  assumes "lock_typed busy l" "spi_bus_lock_acquire_end d l = (ESP_OK, l')"
  shows "lock_typed (busy(d := False)) l'"
proof -
  have own: "acquiring_dev l = Some d"
    using assms(2) by (auto simp: spi_bus_lock_acquire_end_def split: if_splits)
  note d = lock_typedD(3) [OF assms(1) own]
  define st where "st = status l AND NOT (DEV_MASK d AND LOCK_MASK)"
  note bits = bits_clear_lock [OF d, of "status l", folded st_def]
  show ?thesis
    using assms acquire_end_effect [OF lock_typedD(1) [OF assms(1)] d own, folded st_def]
    by (auto simp: lock_typed_def bits MAX_DEV_NUM_def lowest_Some fun_eq_iff split: option.splits)
qed

lemma req_typed:
  assumes "lock_typed busy l" "d < 10"
  shows "lock_typed busy (req_core d l)"
proof -
  obtain b where e: "status (req_core d l) = status l OR (DEV_MASK d AND REQ_MASK)" "acquiring_dev (req_core d l) = acquiring_dev l"
    by (rule req_effect [OF lock_typedD(1) [OF assms(1)] assms(2)]) simp
  show ?thesis using assms by (simp add: lock_typed_def e bits_set_req fun_eq_iff)
qed

lemma check_dev_req_typed: "lock_typed busy l \<Longrightarrow> d < 10 \<Longrightarrow> lock_typed busy (snd (spi_bus_lock_bg_check_dev_req d l))"
  by (erule check_dev_req_effect [of d l]) (auto simp: lock_typed_def fun_eq_iff)

lemma clear_pend_typed:
  assumes "lock_typed busy l" "d < 10"
  shows "lock_typed busy (snd (clear_pend_core d l))"
proof -
  have e: "status (snd (clear_pend_core d l)) = status l AND NOT (DEV_MASK d AND PEND_MASK)"
      "acquiring_dev (snd (clear_pend_core d l)) = acquiring_dev l"
    by (rule clear_pend_effect [of d l]; simp)+
  show ?thesis using assms bits_clear_pend(3,4) [OF assms(2), of "status l"] by (simp only: lock_typed_def e) (simp add: fun_eq_iff)
qed

lemma bg_exit_typed: "lock_typed busy l \<Longrightarrow> lock_typed busy (snd (bg_exit_core wip l))"
  by (auto simp: bg_exit_core_def bg_enable_def resume_dev_def lock_typed_def Let_def split: option.splits)

lemma bg_entry_typed: "lock_typed busy l \<Longrightarrow> lock_typed busy (snd (bg_entry_core l))"
  by (simp add: bg_entry_core_def bg_disable_def lock_typed_def Let_def)

section \<open>The steps keep the type\<close>

lemma bg_typedD:
  assumes "bg_typed s"
  shows typed_lock: "lock_typed (\<lambda>d. task s d \<noteq> Dev_Idle) (blk s)"
    and typed_keeper: "tasks_typed (task s) (keeper s)"
    and typed_dev: "cur_cs s = Some d \<or> isr_dev (isr_at s) = Some d \<or> req_due s d \<Longrightarrow> d < 10"
    and typed_queues: "length (trans_queue s d) \<le> queue_size s d" "length (ret_queue s d) \<le> queue_size s d"
  using assms by (auto simp: bg_typed_def MAX_DEV_NUM_def)

lemma bg_typedI:
  assumes "lock_typed (\<lambda>d. task s d \<noteq> Dev_Idle) (blk s)" "tasks_typed (task s) (keeper s)"
    and "\<And>d. cur_cs s = Some d \<or> isr_dev (isr_at s) = Some d \<or> req_due s d \<Longrightarrow> d < 10"
    and "\<And>d. length (trans_queue s d) \<le> queue_size s d \<and> length (ret_queue s d) \<le> queue_size s d"
  shows "bg_typed s"
  using assms by (simp add: bg_typed_def MAX_DEV_NUM_def)

lemma handler_typed:
  assumes t: "bg_typed s"
  shows "bg_typed (spi_intr_step s)"
proof (cases "isr_at s")
  case Isr_Off
  then show ?thesis
    using t bg_entry_typed [OF typed_lock [OF t]]
    by (cases "bg_entry_core (blk s)")
      (auto simp: bg_typed_def spi_intr_step_def spi_intr_entry_def post_queued_def Let_def split: option.splits)
next
  case Isr_Sched
  obtain y e l where sc: "schedule_core (status (blk s)) (blk s) = (y, e, l)" by (cases "schedule_core (status (blk s)) (blk s)")
  show ?thesis
    using t Isr_Sched sc schedule_typed [OF typed_lock [OF t] sc]
    by (auto simp: bg_typed_def spi_intr_step_def spi_bus_lock_bg_check_dev_acq_def Let_def split: option.splits)
next
  case (Isr_Serve d)
  then have "d < 10" using typed_dev [OF t, of d] by simp
  then show ?thesis
    using t Isr_Serve check_dev_req_typed [OF typed_lock [OF t], of d]
    by (cases "spi_bus_lock_bg_check_dev_req d (blk s)") (auto simp: bg_typed_def spi_intr_step_def MAX_DEV_NUM_def)
next
  case (Isr_Clear d)
  then have "d < 10" using typed_dev [OF t, of d] by simp
  then show ?thesis
    using t Isr_Clear clear_pend_typed [OF typed_lock [OF t], of d] by (auto simp: bg_typed_def spi_intr_step_def)
next
  case (Isr_Exit wip)
  then show ?thesis
    using t bg_exit_typed [OF typed_lock [OF t], of wip]
    by (cases "bg_exit_core wip (blk s)") (auto simp: bg_typed_def spi_intr_step_def)
next
  case (Isr_Take d)
  then show ?thesis
    using t typed_queues(1) [OF t, of d] by (cases "trans_queue s d") (auto simp: bg_typed_def spi_intr_step_def)
next
  case Isr_Loop
  then show ?thesis
    using t lock_typedD(3) [OF typed_lock [OF t]] by (auto simp: bg_typed_def spi_intr_step_def MAX_DEV_NUM_def split: option.split)
qed

text \<open>What a task does to the bus: it takes it, waits for it, or gives it back.\<close>

lemma task_update_typed:
  assumes t: "bg_typed s" and d: "d < 10" and u: "task u = (task s)(d := p)"
    and l: "lock_typed ((\<lambda>e. task s e \<noteq> Dev_Idle)(d := p \<noteq> Dev_Idle)) (blk u)"
    and k: "tasks_typed (task u) (keeper u)" and c: "cur_cs u \<in> {cur_cs s, Some d, None}"
    and same: "isr_at u = isr_at s" "req_due u = req_due s" "trans_queue u = trans_queue s" "ret_queue u = ret_queue s"
      "queue_size u = queue_size s"
  shows "bg_typed u"
proof (rule bg_typedI)
  have "(\<lambda>e. task s e \<noteq> Dev_Idle)(d := p \<noteq> Dev_Idle) = (\<lambda>e. task u e \<noteq> Dev_Idle)" by (auto simp: u)
  then show "lock_typed (\<lambda>e. task u e \<noteq> Dev_Idle) (blk u)" using l by simp
qed (use typed_dev [OF t] typed_queues [OF t] d k c in \<open>auto simp: same\<close>)

lemma tasks_typed_owner:
  "p \<in> {Dev_Keeping, Dev_Bg_Wait, Dev_Polling} \<Longrightarrow> tasks_typed tk k \<Longrightarrow> tasks_typed (tk(d := p)) k"
  "tasks_typed (tk(d := Dev_Keeping)) (Some d)" "tasks_typed tk None"
  "tk d \<notin> {Dev_Keeping, Dev_Bg_Wait, Dev_Polling} \<or> k = None \<Longrightarrow> tasks_typed tk k \<Longrightarrow> tasks_typed (tk(d := p)) k"
  by (auto simp: tasks_typed_def)

lemma typed_frame [simp]:
  "bg_typed (s\<lparr>cur_item := x\<rparr>) = bg_typed s" "bg_typed (s\<lparr>hw_busy := b\<rparr>) = bg_typed s"
  "bg_typed (s\<lparr>failed := f\<rparr>) = bg_typed s"
  by (simp_all add: bg_typed_def)

lemma polling_begun_typed:
  assumes "bg_typed s" "d < 10" "lock_typed ((\<lambda>e. task s e \<noteq> Dev_Idle)(d := True)) l"
  shows "bg_typed (polling_begun d (s\<lparr>blk := l\<rparr>))"
  by (rule task_update_typed [OF assms(1,2), of _ Dev_Polling])
    (use assms(3) typed_keeper [OF assms(1)] in \<open>simp_all add: polling_begun_def tasks_typed_owner\<close>)

lemma bus_gained_typed:
  assumes "bg_typed s" "d < 10" "lock_typed ((\<lambda>e. task s e \<noteq> Dev_Idle)(d := True)) l"
  shows "bg_typed (bus_gained d keep (s\<lparr>blk := l\<rparr>))"
proof (cases keep)
  case True
  show ?thesis
    by (rule task_update_typed [OF assms(1,2), of _ Dev_Keeping])
      (use assms(3) True in \<open>simp_all add: bus_gained_def tasks_typed_owner\<close>)
qed (use polling_begun_typed [OF assms] in \<open>simp add: bus_gained_def\<close>)

lemma bus_left_typed:
  assumes t: "bg_typed s" and d: "d < 10" and k: "keeper s = None"
  shows "bg_typed (bus_left d s)"
proof -
  obtain ret l where e: "spi_bus_lock_acquire_end d (blk s) = (ret, l)" by fastforce
  show ?thesis
  proof (cases "ret = ESP_OK")
    case True
    then have "lock_typed ((\<lambda>e. task s e \<noteq> Dev_Idle)(d := False)) l"
      using acquire_end_typed [OF typed_lock [OF t]] e by simp
    then show ?thesis
      by (intro task_update_typed [OF t d, of _ Dev_Idle])
        (use e True k in \<open>simp_all add: bus_left_def tasks_typed_owner\<close>)
  qed (use t e in \<open>simp add: bus_left_def\<close>)
qed

lemma lock_typed_owner:
  "bg_typed s \<Longrightarrow> task s d \<noteq> Dev_Idle \<Longrightarrow> lock_typed ((\<lambda>e. task s e \<noteq> Dev_Idle)(d := True)) (blk s)"
  using typed_lock [of s] by (simp add: fun_upd_idem)

lemma lock_typed_woken:
  "bg_typed s \<Longrightarrow> task s d \<noteq> Dev_Idle \<Longrightarrow> acquire_wake e (blk s) = Some l \<Longrightarrow>
   lock_typed ((\<lambda>e. task s e \<noteq> Dev_Idle)(d := True)) l"
  using acquire_wake_typed lock_typed_owner by blast

lemma device_typed:
  assumes t: "bg_typed s" and d: "d < 10" and step: "dev_step d a s = Some u"
  shows "bg_typed u"
proof (cases a)
  case (Acquire keep)
  obtain got l where b: "acquire_begin d (blk s) = (got, l)" by fastforce
  then have l: "lock_typed ((\<lambda>e. task s e \<noteq> Dev_Idle)(d := True)) l"
    using acquire_begin_typed [OF typed_lock [OF t] d] by simp
  have i: "task s d = Dev_Idle" using step Acquire by (auto split: if_splits)
  have "bg_typed (s\<lparr>blk := l, task := (task s)(d := Dev_Waiting keep)\<rparr>)"
    by (rule task_update_typed [OF t d, of _ "Dev_Waiting keep"])
      (use l i typed_keeper [OF t] in \<open>simp_all add: tasks_typed_owner\<close>)
  then show ?thesis using step Acquire b bus_gained_typed [OF t d l] by (auto simp: Let_def split: if_splits)
next
  case Wake
  then show ?thesis
    using step bus_gained_typed [OF t d] lock_typed_woken [OF t, of d d]
    by (auto split: dev_task.splits option.splits)
next
  case (Queue_Trans x)
  then show ?thesis
    using step t d typed_queues(1) [OF t, of d] by (auto simp: bg_typed_def MAX_DEV_NUM_def split: if_splits)
next
  case Bg_Request
  then show ?thesis
    using step t req_typed [OF typed_lock [OF t] d] by (auto simp: bg_typed_def split: if_splits)
next
  case Start_Polling
  then have k: "task s d = Dev_Keeping" using step by (auto split: if_splits)
  have "bg_typed (s\<lparr>blk := (blk s)\<lparr>semphr := sm\<rparr>, task := (task s)(d := Dev_Bg_Wait)\<rparr>)" for sm
    by (rule task_update_typed [OF t d, of _ Dev_Bg_Wait])
      (use lock_typed_owner [OF t, of d] typed_keeper [OF t] k in \<open>simp_all add: tasks_typed_owner lock_typed_def\<close>)
  then show ?thesis
    using step Start_Polling k polling_begun_typed [OF t d lock_typed_owner [OF t]] by (auto split: if_splits)
next
  case Bg_Wake
  then show ?thesis
    using step polling_begun_typed [OF t d] lock_typed_woken [OF t, of d d]
    by (auto split: dev_task.splits option.splits)
next
  case End_Polling
  then have k: "task s d = Dev_Polling" using step by (auto split: dev_task.splits)
  have "bg_typed (s\<lparr>cur_cs := None, task := (task s)(d := Dev_Keeping)\<rparr>)"
    by (rule task_update_typed [OF t d, of _ Dev_Keeping])
      (use lock_typed_owner [OF t, of d] typed_keeper [OF t] k in \<open>simp_all add: tasks_typed_owner\<close>)
  moreover have "bg_typed (s\<lparr>cur_cs := None\<rparr>)" using t by (simp add: bg_typed_def)
  ultimately show ?thesis
    using step End_Polling k t bus_left_typed [of "s\<lparr>cur_cs := None\<rparr>", OF _ d] by (auto simp: Let_def split: if_splits)
next
  case Release
  have "bg_typed (s\<lparr>keeper := None\<rparr>)" using t by (simp add: bg_typed_def tasks_typed_owner)
  from bus_left_typed [OF this d] show ?thesis
    using step Release by (auto split: if_splits)
next
  case Get_Result
  then show ?thesis
    using step t typed_queues(2) [OF t, of d] by (cases "ret_queue s d") (auto simp: bg_typed_def split: if_splits)
qed

lemma step_typed: "bg_step smp drained s t \<Longrightarrow> bg_typed s \<Longrightarrow> bg_typed t"
  by (erule bg_stepE) (auto simp del: dev_step.simps simp: MAX_DEV_NUM_def intro: handler_typed device_typed)

lemma reachable_typed: "bg_reachable smp drained (bg_start cs depth quiet) s \<Longrightarrow> bg_typed s"
  by (induction rule: bg_reachable.induct) (auto intro: bg_typed_start step_typed)

text \<open>
  C26: The states of queued and polling transfers are well typed, whatever the interleaving: the
  tasks that are not idle are those whose LOCK bit is set, and there are no bits above these; the
  owner of the bus, the device of the transaction in flight and the device that the handler serves
  are slots of the lock; the task that keeps the bus is keeping, waiting for the background or
  polling; and no queue holds more than it was created for.
\<close>

theorem bg_state_typed:
  assumes "bg_reachable smp drained (bg_start cs depth quiet) s"
  shows "(\<forall>d. task s d \<noteq> Dev_Idle \<longleftrightarrow> d < MAX_DEV_NUM \<and> bit (status (blk s)) (20 + d)) \<and> status (blk s) < 2 ^ 30 \<and>
    set_option (acquiring_dev (blk s)) \<union> set_option (cur_cs s) \<union> set_option (isr_dev (isr_at s)) \<subseteq> {..<MAX_DEV_NUM} \<and>
    task s ` set_option (keeper s) \<subseteq> {Dev_Keeping, Dev_Bg_Wait, Dev_Polling} \<and>
    (\<forall>d. length (trans_queue s d) \<le> queue_size s d \<and> length (ret_queue s d) \<le> queue_size s d)"
proof -
  note t = reachable_typed [OF assms]
  note l = lock_typedD [OF typed_lock [OF t]]
  have "task s d \<noteq> Dev_Idle \<longleftrightarrow> d < MAX_DEV_NUM \<and> bit (status (blk s)) (20 + d)" for d
    using fun_cong [OF l(2), of d] by (auto simp: lock_bit_def MAX_DEV_NUM_def)
  moreover have "status (blk s) < 2 ^ 30"
    using l(1) by (intro layout_small)
  ultimately show ?thesis
    using l(3) typed_keeper [OF t] typed_dev [OF t] typed_queues [OF t] by (auto simp: tasks_typed_def MAX_DEV_NUM_def)
qed

text \<open>Two devices, the handler on another core: one keeps the bus, one waits for it, one transaction is in flight.\<close>

lemma bg_state_typed_witness:
  "\<exists>s :: nat bg_system. task s 0 = Dev_Keeping \<and> task s 1 = Dev_Waiting False \<and> bit (status (blk s)) 20 \<and> bit (status (blk s)) 21 \<and>
     cur_cs s = Some 0 \<and> status (blk s) < 2 ^ 30"
proof -
  let ?run = "[Device 0 (Acquire True), Device 1 (Acquire False), Device 0 (Queue_Trans 7), Device 0 Bg_Request, Handler, Handler,
    Handler, Handler] :: nat move list"
  have "case bg_moves True False ?run demo of None \<Rightarrow> False
    | Some s \<Rightarrow> task s 0 = Dev_Keeping \<and> task s 1 = Dev_Waiting False \<and> cur_cs s = Some 0"
    by code_simp
  then obtain s where run: "bg_moves True False ?run demo = Some s"
      and s: "task s 0 = Dev_Keeping" "task s 1 = Dev_Waiting False" "cur_cs s = Some 0"
    by (auto split: option.splits)
  note t = bg_state_typed [OF bg_moves_start [OF run [unfolded demo_def]]]
  show ?thesis
    using s t [THEN conjunct1, THEN spec, of 0] t [THEN conjunct1, THEN spec, of 1] t [THEN conjunct2, THEN conjunct1]
    by (intro exI [of _ s]) simp
qed

end
