(* ===== verification/Spi_Ring.thy ===== *)
theory Spi_Ring
  imports Spi_Timing
begin

text \<open>
  The rings of DMA descriptors of segmented transfers (\<open>spi_sct_desc_ctx_t\<close> and the functions on it
  in \<open>spi_master.c\<close>). The descriptors of a host are used in turn: each segment takes the next free ones,
  links them into a chain, and the count of the free ones goes down; when a transfer is done its count is
  given back. A pointer to a descriptor is its index. The fields of the structure for sending and for receiving are alike,
  so each side is one \<open>sct_ring\<close>.
\<close>

section \<open>The ring and its operations\<close>

definition LLDESC_MAX_NUM_PER_DESC :: nat where "LLDESC_MAX_NUM_PER_DESC = 4092"

record sct_desc =
  d_size :: nat
  d_length :: nat
  d_buffer :: u32
  d_eof :: bool
  d_owner_dma :: bool
  d_next :: "nat option"

record sct_ring =
  descs :: "sct_desc list"
  free_num :: u32
  cur_link :: nat
  link_tail :: "nat option"

definition s_spi_sct_reset_ring :: "sct_ring \<Rightarrow> sct_ring" where
  "s_spi_sct_reset_ring r = r\<lparr>free_num := of_nat (length (descs r)), cur_link := 0, link_tail := None\<rparr>"

definition fill_desc :: "bool \<Rightarrow> u32 \<Rightarrow> nat \<Rightarrow> sct_desc \<Rightarrow> sct_desc" where
  "fill_desc is_rx data chunk d =
     (if is_rx then d\<lparr>d_size := (chunk + 3) div 4 * 4\<rparr> else d\<lparr>d_size := chunk, d_length := chunk\<rparr>)
     \<lparr>d_buffer := data, d_eof := False, d_owner_dma := True\<rparr>"

function fill_chain :: "sct_desc list \<Rightarrow> nat \<Rightarrow> u32 \<Rightarrow> nat \<Rightarrow> bool \<Rightarrow> nat \<times> sct_desc list" where
  "fill_chain ds at data len is_rx =
     (if len = 0 then (at, ds)
      else
        let dmachunklen = (if len > LLDESC_MAX_NUM_PER_DESC then LLDESC_MAX_NUM_PER_DESC else len);
            d = fill_desc is_rx data dmachunklen (ds ! at);
            len' = len - dmachunklen
        in if len' \<noteq> 0 then
             let nxt = (if at = length ds - 1 then 0 else at + 1)
             in fill_chain (ds[at := d\<lparr>d_next := Some nxt\<rparr>]) nxt (data + of_nat dmachunklen) len' is_rx
           else (at, ds[at := d]))"
  by pat_completeness auto
termination
  by (relation "measure (\<lambda>(ds, at, data, len, is_rx). len)") (auto simp: LLDESC_MAX_NUM_PER_DESC_def split: if_splits)

declare fill_chain.simps [simp del]

definition s_sct_setup_desc_anywhere ::
  "sct_desc list \<Rightarrow> nat \<Rightarrow> u32 \<Rightarrow> nat \<Rightarrow> bool \<Rightarrow> nat \<times> sct_desc list" where
  "s_sct_setup_desc_anywhere ds start data len is_rx =
     (case fill_chain ds start data len is_rx of
        (tail, ds') \<Rightarrow> (tail, ds'[tail := (ds' ! tail)\<lparr>d_eof := True, d_next := None\<rparr>]))"

definition s_sct_desc_get_required_num :: "u32 \<Rightarrow> u32" where
  "s_sct_desc_get_required_num bytes_len =
     (bytes_len + of_nat LLDESC_MAX_NUM_PER_DESC - 1) div of_nat LLDESC_MAX_NUM_PER_DESC"

definition desc_recycle :: "u32 \<Rightarrow> sct_ring \<Rightarrow> sct_ring" where
  "desc_recycle n r = r\<lparr>free_num := free_num r + n\<rparr>"

text \<open>The descriptor after one: the pool head after the last.\<close>

definition after :: "sct_ring \<Rightarrow> nat \<Rightarrow> nat" where
  "after r at = (if at + 1 = length (descs r) then 0 else at + 1)"

definition put_chain :: "u32 \<Rightarrow> u32 \<Rightarrow> bool \<Rightarrow> sct_ring \<Rightarrow> sct_ring" where
  "put_chain buf len is_rx r =
     (case s_sct_setup_desc_anywhere (descs r) (cur_link r) buf (unat len) is_rx of
        (tail, ds) \<Rightarrow> r\<lparr>descs := ds, link_tail := Some tail, cur_link := after r tail\<rparr>)"

definition s_sct_prepare_tx_seg :: "u32 \<Rightarrow> u32 \<Rightarrow> u32 \<Rightarrow> u32 \<Rightarrow> sct_ring \<Rightarrow> nat \<times> sct_ring" where
  "s_sct_prepare_tx_seg conf_buffer conf_len send_buffer buf_len r =
     (let head = cur_link r;
          ds1 = snd (s_sct_setup_desc_anywhere (descs r) head conf_buffer (unat conf_len) False);
          r1 = r\<lparr>descs := ds1, free_num := free_num r - 1, link_tail := Some head, cur_link := after r head\<rparr>
      in (head,
          if send_buffer \<noteq> 0 \<and> buf_len \<noteq> 0 then
            let cur = cur_link r1; r2 = put_chain send_buffer buf_len False r1
            in r2\<lparr>descs := (descs r2)[head := (descs r2 ! head)\<lparr>d_next := Some cur\<rparr>],
                  free_num := free_num r2 - s_sct_desc_get_required_num buf_len\<rparr>
          else r1))"

definition s_sct_prepare_rx_seg :: "u32 \<Rightarrow> u32 \<Rightarrow> sct_ring \<Rightarrow> nat \<times> sct_ring" where
  "s_sct_prepare_rx_seg recv_buffer buf_len r =
     (let r1 = put_chain recv_buffer buf_len True r
      in (cur_link r, r1\<lparr>free_num := free_num r1 - s_sct_desc_get_required_num buf_len\<rparr>))"

text \<open>
  \<open>spi_hal_sct_new_tx_dma_desc_head\<close> and \<open>spi_hal_sct_link_tx_seg_dma_desc\<close>, and the same for receiving: \<open>None\<close>
  is \<open>ESP_ERR_NO_MEM\<close>; otherwise the head, the number of descriptors taken, and the ring.
\<close>

definition link_last :: "sct_ring \<Rightarrow> sct_ring" where
  "link_last r =
     (case link_tail r of None \<Rightarrow> r
      | Some t \<Rightarrow> r\<lparr>descs := (descs r)[t := (descs r ! t)\<lparr>d_next := Some (cur_link r)\<rparr>]\<rparr>)"

definition spi_hal_sct_new_tx_dma_desc_head ::
  "u32 \<Rightarrow> u32 \<Rightarrow> u32 \<Rightarrow> u32 \<Rightarrow> sct_ring \<Rightarrow> (nat \<times> u32 \<times> sct_ring) option" where
  "spi_hal_sct_new_tx_dma_desc_head conf_buffer conf_len send_buffer buf_len r =
     (let desc_need = 1 + s_sct_desc_get_required_num buf_len
      in if free_num r < desc_need then None
         else case s_sct_prepare_tx_seg conf_buffer conf_len send_buffer buf_len r of
                (head, r') \<Rightarrow> Some (head, desc_need, r'))"

definition spi_hal_sct_link_tx_seg_dma_desc ::
  "u32 \<Rightarrow> u32 \<Rightarrow> u32 \<Rightarrow> u32 \<Rightarrow> sct_ring \<Rightarrow> (u32 \<times> sct_ring) option" where
  "spi_hal_sct_link_tx_seg_dma_desc conf_buffer conf_len send_buffer buf_len r =
     (let desc_need = 1 + s_sct_desc_get_required_num buf_len
      in if free_num r < desc_need then None
         else Some (desc_need, snd (s_sct_prepare_tx_seg conf_buffer conf_len send_buffer buf_len (link_last r))))"

definition spi_hal_sct_new_rx_dma_desc_head :: "u32 \<Rightarrow> u32 \<Rightarrow> sct_ring \<Rightarrow> (nat \<times> u32 \<times> sct_ring) option" where
  "spi_hal_sct_new_rx_dma_desc_head recv_buffer buf_len r =
     (let desc_need = s_sct_desc_get_required_num buf_len
      in if free_num r < desc_need then None
         else case s_sct_prepare_rx_seg recv_buffer buf_len r of (head, r') \<Rightarrow> Some (head, desc_need, r'))"

definition spi_hal_sct_link_rx_seg_dma_desc :: "u32 \<Rightarrow> u32 \<Rightarrow> sct_ring \<Rightarrow> (u32 \<times> sct_ring) option" where
  "spi_hal_sct_link_rx_seg_dma_desc recv_buffer buf_len r =
     (let desc_need = s_sct_desc_get_required_num buf_len
      in if free_num r < desc_need then None
         else Some (desc_need, snd (s_sct_prepare_rx_seg recv_buffer buf_len (link_last r))))"

text \<open>What the DMA engine meets when it follows the links from a descriptor: addresses and lengths.\<close>

definition seen :: "bool \<Rightarrow> sct_desc \<Rightarrow> u32 \<times> nat" where
  "seen is_rx d = (d_buffer d, if is_rx then d_size d else d_length d)"

primrec follow :: "bool \<Rightarrow> nat \<Rightarrow> sct_desc list \<Rightarrow> nat \<Rightarrow> (u32 \<times> nat) list" where
  "follow is_rx 0 ds at = []"
| "follow is_rx (Suc k) ds at = seen is_rx (ds ! at) #
     (case d_next (ds ! at) of None \<Rightarrow> [] | Some j \<Rightarrow> follow is_rx k ds j)"

section \<open>Positions\<close>

text \<open>
  A position counts the descriptors taken since the start and is not reduced; its descriptor is the
  remainder. \<open>walk ds a cs e\<close>: from position \<open>a\<close> on the descriptors hold the chunks \<open>cs\<close>, each linked to the next,
  and the last to \<open>e\<close>.
\<close>

fun walk :: "bool \<Rightarrow> sct_desc list \<Rightarrow> nat \<Rightarrow> (u32 \<times> nat) list \<Rightarrow> nat option \<Rightarrow> bool" where
  "walk is_rx ds a [] e = True"
| "walk is_rx ds a (c # cs) e \<longleftrightarrow>
     seen is_rx (ds ! (a mod length ds)) = c \<and>
     d_next (ds ! (a mod length ds)) = (if cs = [] then e else Some (Suc a mod length ds)) \<and> walk is_rx ds (Suc a) cs e"

text \<open>The pieces of a buffer; the size of a piece for receiving is rounded up to whole words.\<close>

function pieces :: "u32 \<Rightarrow> nat \<Rightarrow> bool \<Rightarrow> (u32 \<times> nat) list" where
  "pieces data len is_rx =
     (if len = 0 then []
      else if len \<le> LLDESC_MAX_NUM_PER_DESC then [(data, if is_rx then (len + 3) div 4 * 4 else len)]
      else (data, LLDESC_MAX_NUM_PER_DESC) #
        pieces (data + of_nat LLDESC_MAX_NUM_PER_DESC) (len - LLDESC_MAX_NUM_PER_DESC) is_rx)"
  by pat_completeness auto
termination
  by (relation "measure (\<lambda>(data, len, is_rx). len)") (auto simp: LLDESC_MAX_NUM_PER_DESC_def)

declare pieces.simps [simp del]

definition cells :: "nat \<Rightarrow> nat \<Rightarrow> nat \<Rightarrow> nat set" where
  "cells n a m = (\<lambda>j. (a + j) mod n) ` {..<m}"

lemma seen_next [simp]: "seen rx (d\<lparr>d_next := e\<rparr>) = seen rx d"
  by (simp add: seen_def)

lemma pos_inj:
  fixes a i j n :: nat
  assumes "i < n" "j < n" "(a + i) mod n = (a + j) mod n"
  shows "i = j"
proof -
  have aux: "i = j" if "i \<le> j" "i < n" "j < n" "(a + j) mod n = (a + i) mod n" for i j :: nat
  proof (rule ccontr)
    assume "i \<noteq> j"
    then have "0 < j - i" "j - i < n" using that by auto
    moreover have "n dvd j - i" using that mod_eq_dvd_iff_nat [of "a + i" "a + j" n] by simp
    ultimately show False using nat_dvd_not_less by blast
  qed
  show ?thesis using aux [of i j] aux [of j i] assms by (cases "i \<le> j") auto
qed

lemma cells_Suc: "cells n a (Suc m) = insert (a mod n) (cells n (Suc a) m)"
  unfolding cells_def lessThan_Suc_eq_insert_0 image_insert image_image by simp

lemma cells_0 [simp]: "cells n a 0 = {}"
  by (simp add: cells_def)

lemma cells_last: "0 < m \<Longrightarrow> (a + m - 1) mod n \<in> cells n a m"
  by (auto simp: cells_def intro!: image_eqI [of _ _ "m - 1"])

lemma cells_head: "m < n \<Longrightarrow> a mod n \<notin> cells n (Suc a) m"
proof
  assume m: "m < n" and "a mod n \<in> cells n (Suc a) m"
  then obtain j where j: "j < m" "(a + 0) mod n = (a + Suc j) mod n" by (auto simp: cells_def)
  then have "0 = Suc j" using m by (intro pos_inj [OF _ _ j(2)]) auto
  then show False by simp
qed

lemma walk_cong:
  "length ds' = length ds \<Longrightarrow> (\<And>k. k \<in> cells (length ds) a (length cs) \<Longrightarrow> ds' ! k = ds ! k) \<Longrightarrow>
   walk rx ds' a cs e = walk rx ds a cs e"
proof (induction cs arbitrary: a)
  case (Cons c cs)
  have "walk rx ds' (Suc a) cs e = walk rx ds (Suc a) cs e"
    using Cons.prems by (intro Cons.IH) (simp_all add: cells_Suc)
  then show ?case using Cons.prems by (simp add: cells_Suc)
qed simp

lemma walk_append:
  "walk rx ds a cs (Some ((a + length cs) mod length ds)) \<Longrightarrow> cs' \<noteq> [] \<Longrightarrow> walk rx ds (a + length cs) cs' e \<Longrightarrow>
   walk rx ds a (cs @ cs') e"
  by (induction cs arbitrary: a) (auto simp: mod_simps split: if_splits)

lemma walk_relink:
  "walk rx ds a cs e \<Longrightarrow> cs \<noteq> [] \<Longrightarrow> length cs \<le> length ds \<Longrightarrow> t = (a + length cs - 1) mod length ds \<Longrightarrow>
   seen rx d = seen rx (ds ! t) \<Longrightarrow> d_next d = e' \<Longrightarrow> walk rx (ds[t := d]) a cs e'"
proof (induction cs arbitrary: a)
  case (Cons c cs)
  show ?case
  proof (cases cs)
    case Nil
    have "a mod length ds < length ds" using Cons.prems(3) by (intro mod_less_divisor) auto
    then show ?thesis using Cons.prems Nil by simp
  next
    case (Cons c' cs')
    have "t \<noteq> a mod length ds"
    proof
      assume "t = a mod length ds"
      then have "(a + length cs) mod length ds = (a + 0) mod length ds" using Cons.prems(4) by simp
      then have "length cs = 0" using Cons.prems(3) by (intro pos_inj [of "length cs" "length ds" 0 a]) auto
      then show False using Cons by simp
    qed
    then show ?thesis using Cons.prems Cons Cons.IH [of "Suc a"] by simp
  qed
qed simp

lemma fill_chain_walk:
  assumes "fill_chain ds at data len rx = (t, ds')" "0 < len" "length (pieces data len rx) \<le> length ds" "at = a mod length ds"
  shows "length ds' = length ds \<and> t = (a + length (pieces data len rx) - 1) mod length ds \<and>
    walk rx ds' a (pieces data len rx) (d_next (ds' ! t)) \<and>
    (\<forall>k. k \<notin> cells (length ds) a (length (pieces data len rx)) \<longrightarrow> ds' ! k = ds ! k)"
  using assms
proof (induction ds at data len rx arbitrary: a t ds' rule: fill_chain.induct)
  case (1 ds at data len rx)
  show ?case
  proof (cases "len \<le> LLDESC_MAX_NUM_PER_DESC")
    case True
    have ps: "pieces data len rx = [(data, if rx then (len + 3) div 4 * 4 else len)]"
      using True 1(3) by (simp add: pieces.simps [of data len])
    have "at < length ds" using 1(4,5) ps by (simp add: Suc_le_eq)
    moreover have "t = at" "ds' = ds[at := fill_desc rx data len (ds ! at)]"
      using 1(2,3) True by (auto simp: fill_chain.simps [of ds at] Let_def)
    ultimately show ?thesis
      using 1(5) ps by (auto simp: cells_Suc fill_desc_def seen_def)
  next
    case False
    let ?n = "length ds" and ?M = LLDESC_MAX_NUM_PER_DESC
    let ?ps = "pieces (data + of_nat ?M) (len - ?M) rx"
    have ps: "pieces data len rx = (data, ?M) # ?ps"
      using False by (simp add: pieces.simps [of data len])
    define d where "d = fill_desc rx data ?M (ds ! at)"
    define nxt where "nxt = (if at = ?n - 1 then 0 else at + 1)"
    define ds1 where "ds1 = ds[at := d\<lparr>d_next := Some nxt\<rparr>]"
    have "0 < ?n" using 1(4) ps by (cases ds) simp_all
    then have at: "at < ?n" using 1(5) by simp
    have nxt: "nxt = Suc a mod length ds1" using at 1(5) by (auto simp: nxt_def ds1_def mod_Suc)
    have len1: "length ds1 = ?n" by (simp add: ds1_def)
    have call: "fill_chain ds1 nxt (data + of_nat ?M) (len - ?M) rx = (t, ds')"
      using 1(2) False by (simp add: fill_chain.simps [of ds at] ds1_def nxt_def d_def Let_def)
    have IH: "length ds' = length ds1 \<and> t = (Suc a + length ?ps - 1) mod length ds1 \<and> walk rx ds' (Suc a) ?ps (d_next (ds' ! t)) \<and>
        (\<forall>k. k \<notin> cells (length ds1) (Suc a) (length ?ps) \<longrightarrow> ds' ! k = ds1 ! k)"
      using 1(4) ps False call [unfolded nxt_def] nxt [unfolded nxt_def] len1
      by (intro 1(1) [of ?M d "len - ?M" nxt t ds' "Suc a", folded ds1_def]) (simp_all add: d_def nxt_def)
    have "a mod ?n \<notin> cells ?n (Suc a) (length ?ps)"
      using 1(4) ps by (intro cells_head) simp
    then have "ds' ! at = d\<lparr>d_next := Some nxt\<rparr>"
      using IH at 1(5) by (simp add: ds1_def)
    then have "seen rx (ds' ! (a mod ?n)) = (data, ?M)" "d_next (ds' ! (a mod ?n)) = Some (Suc a mod ?n)"
      using 1(5) nxt len1 by (simp_all add: d_def fill_desc_def seen_def LLDESC_MAX_NUM_PER_DESC_def)
    moreover have "?ps \<noteq> []" using False by (subst pieces.simps) simp
    ultimately have "walk rx ds' a (pieces data len rx) (d_next (ds' ! t))"
      using IH [THEN conjunct1] IH [THEN conjunct2, THEN conjunct2, THEN conjunct1] len1 by (simp add: ps)
    moreover have "ds' ! k = ds ! k" if "k \<notin> cells ?n a (length (pieces data len rx))" for k
    proof -
      have "k \<noteq> at" "k \<notin> cells (length ds1) (Suc a) (length ?ps)" using that 1(5) len1 by (auto simp: ps cells_Suc)
      then show ?thesis using IH by (simp add: ds1_def)
    qed
    ultimately show ?thesis using IH len1 by (simp add: ps)
  qed
qed

lemma setup_desc_walk:
  assumes "s_sct_setup_desc_anywhere ds (a mod length ds) data len rx = (t, ds')"
    and "0 < len" "length (pieces data len rx) \<le> length ds"
  shows "length ds' = length ds" "t = (a + length (pieces data len rx) - 1) mod length ds" "walk rx ds' a (pieces data len rx) None"
    and "\<And>k. k \<notin> cells (length ds) a (length (pieces data len rx)) \<Longrightarrow> ds' ! k = ds ! k"
proof -
  let ?ps = "pieces data len rx"
  obtain ds1 where f: "fill_chain ds (a mod length ds) data len rx = (t, ds1)"
    and ds': "ds' = ds1[t := (ds1 ! t)\<lparr>d_eof := True, d_next := None\<rparr>]"
    using assms(1) by (auto simp: s_sct_setup_desc_anywhere_def split: prod.splits)
  note w = fill_chain_walk [OF f assms(2,3) refl]
  have ne: "?ps \<noteq> []" using assms(2) by (subst pieces.simps) simp
  then have t: "t \<in> cells (length ds) a (length ?ps)"
    using w cells_last [of "length ?ps" a "length ds"] by simp
  show "length ds' = length ds" "t = (a + length ?ps - 1) mod length ds" using w ds' by simp_all
  show "k \<notin> cells (length ds) a (length ?ps) \<Longrightarrow> ds' ! k = ds ! k" for k
    using w t ds' by (cases "k = t") auto
  show "walk rx ds' a ?ps None"
    unfolding ds' using w ne assms(3) by (intro walk_relink [of _ _ _ _ "d_next (ds1 ! t)"]) (auto simp: seen_def)
qed

section \<open>Reading a chain\<close>

lemma follow_walk: "walk rx ds a cs None \<Longrightarrow> length cs \<le> k \<Longrightarrow> cs \<noteq> [] \<Longrightarrow> follow rx k ds (a mod length ds) = cs"
proof (induction cs arbitrary: a k)
  case (Cons c cs)
  then obtain j where k: "k = Suc j" "length cs \<le> j" by (cases k) auto
  show ?case
    using Cons.prems(1) Cons.IH [of "Suc a" j] k by (cases "cs = []") auto
qed simp

lemma pieces_nil [simp]: "pieces data len rx = [] \<longleftrightarrow> len = 0"
  by (subst pieces.simps) simp

lemma pieces_bytes: "concat (map (\<lambda>(b, n). load m b n) (pieces data len False)) = load m data len"
proof (induction data len False rule: pieces.induct)
  case (1 data len)
  let ?M = LLDESC_MAX_NUM_PER_DESC
  show ?case
  proof (cases "len \<le> ?M")
    case True
    then show ?thesis by (subst pieces.simps) (simp add: load_def)
  next
    case False
    then have "load m data len = load m data ?M @ load m (data + of_nat ?M) (len - ?M)"
      using load_append [of m data ?M "len - ?M"] by simp
    then show ?thesis using 1 False by (subst pieces.simps) simp
  qed
qed

lemma pieces_length: "length (pieces data len rx) = (len + LLDESC_MAX_NUM_PER_DESC - 1) div LLDESC_MAX_NUM_PER_DESC"
proof (induction data len rx rule: pieces.induct)
  case (1 data len rx)
  consider "len = 0" | "0 < len" "len \<le> 4092" | "4092 < len" by linarith
  then show ?case
  proof cases
    case 3
    then have "(len + 4092 - 1) div 4092 = Suc ((len - 4092 + 4092 - 1) div 4092)"
      using div_add_self2 [of 4092 "len - 1"] by simp
    then show ?thesis
      using 1 3 by (simp add: pieces.simps [of data len] LLDESC_MAX_NUM_PER_DESC_def)
  qed (subst pieces.simps, simp add: LLDESC_MAX_NUM_PER_DESC_def)+
qed

definition short :: "u32 \<Rightarrow> bool" where "short len \<longleftrightarrow> unat len \<le> 2 ^ 20"

lemma required_num: "short len \<Longrightarrow> unat (s_sct_desc_get_required_num len) = length (pieces data (unat len) rx)"
proof -
  assume "short len"
  then have "unat (len + 4092 - 1) = unat len + 4091"
    unfolding short_def by (simp add: unat_plus_simple [THEN iffD1] word_le_nat_alt unat_word_ariths)
  then show ?thesis
    by (simp add: s_sct_desc_get_required_num_def pieces_length LLDESC_MAX_NUM_PER_DESC_def unat_div)
qed

section \<open>Segments in a ring\<close>

text \<open>
  A segment put in a ring: its pieces are a chain from the current descriptor on, nothing else is
  written, and as many descriptors are no longer free.
\<close>

definition placed :: "bool \<Rightarrow> sct_ring \<Rightarrow> nat \<Rightarrow> (u32 \<times> nat) list \<Rightarrow> sct_ring \<Rightarrow> bool" where
  "placed rx r a cs r' \<longleftrightarrow>
     length (descs r') = length (descs r) \<and> walk rx (descs r') a cs None \<and>
     (\<forall>k. k \<notin> cells (length (descs r)) a (length cs) \<longrightarrow> descs r' ! k = descs r ! k) \<and>
     link_tail r' = Some ((a + length cs - 1) mod length (descs r)) \<and>
     cur_link r' = (a + length cs) mod length (descs r) \<and> unat (free_num r') = unat (free_num r) - length cs"

lemma after_mod: "0 < length (descs r) \<Longrightarrow> after r (k mod length (descs r)) = Suc k mod length (descs r)"
  by (auto simp: after_def mod_Suc)

lemma put_chain_walk:
  fixes r len buf rx
  defines "ps \<equiv> pieces buf (unat len) rx" and "r' \<equiv> put_chain buf len rx r"
  assumes "cur_link r = a mod length (descs r)" "len \<noteq> 0" "length ps \<le> length (descs r)"
  shows "length (descs r') = length (descs r)" "walk rx (descs r') a ps None"
    "link_tail r' = Some ((a + length ps - 1) mod length (descs r))" "cur_link r' = (a + length ps) mod length (descs r)"
    "free_num r' = free_num r" "\<And>k. k \<notin> cells (length (descs r)) a (length ps) \<Longrightarrow> descs r' ! k = descs r ! k"
proof -
  obtain t ds where s: "s_sct_setup_desc_anywhere (descs r) (a mod length (descs r)) buf (unat len) rx = (t, ds)" by fastforce
  have len: "0 < unat len" using assms(4) by (simp add: unat_gt_0)
  note w = setup_desc_walk [OF s len assms(5) [unfolded ps_def], folded ps_def]
  have r': "r' = r\<lparr>descs := ds, link_tail := Some t, cur_link := after r t\<rparr>"
    using assms(3) s by (simp add: r'_def put_chain_def)
  have "0 < length ps" using len by (simp add: ps_def)
  then have "0 < length (descs r)" "Suc (a + length ps - 1) = a + length ps" using assms(5) by linarith+
  then have "after r t = (a + length ps) mod length (descs r)"
    using w(2) after_mod [of r "a + length ps - 1"] by simp
  then show "length (descs r') = length (descs r)" "walk rx (descs r') a ps None"
    "link_tail r' = Some ((a + length ps - 1) mod length (descs r))" "cur_link r' = (a + length ps) mod length (descs r)"
    "free_num r' = free_num r" "\<And>k. k \<notin> cells (length (descs r)) a (length ps) \<Longrightarrow> descs r' ! k = descs r ! k"
    using w r' by simp_all
qed

lemma placed_rx:
  assumes "cur_link r = a mod length (descs r)" "len \<noteq> 0" "short len"
    and "length (pieces buf (unat len) True) \<le> unat (free_num r)" "unat (free_num r) \<le> length (descs r)"
  shows "placed True r a (pieces buf (unat len) True) (snd (s_sct_prepare_rx_seg buf len r))"
proof -
  have "s_sct_desc_get_required_num len \<le> free_num r"
    using assms(4) required_num [OF assms(3)] by (simp add: word_le_nat_alt)
  then show ?thesis
    using put_chain_walk [where r = r and buf = buf and len = len and rx = True, OF assms(1,2)] assms(4,5) required_num [OF assms(3)]
    by (simp add: placed_def s_sct_prepare_rx_seg_def Let_def unat_sub)
qed

definition tx_chunks :: "u32 \<Rightarrow> u32 \<Rightarrow> u32 \<Rightarrow> u32 \<Rightarrow> (u32 \<times> nat) list" where
  "tx_chunks conf conf_len send len =
     (conf, unat conf_len) # (if send \<noteq> 0 \<and> len \<noteq> 0 then pieces send (unat len) False else [])"

lemma placed_tx:
  assumes cur: "cur_link r = a mod length (descs r)" and len: "short len"
    and conf: "0 < unat conf_len" "unat conf_len \<le> LLDESC_MAX_NUM_PER_DESC"
    and room: "length (tx_chunks conf conf_len send len) \<le> unat (free_num r)" "unat (free_num r) \<le> length (descs r)"
  shows "placed False r a (tx_chunks conf conf_len send len) (snd (s_sct_prepare_tx_seg conf conf_len send len r))"
proof -
  let ?n = "length (descs r)" and ?h = "a mod length (descs r)" and ?ps = "pieces send (unat len) False"
  obtain t ds1 where s: "s_sct_setup_desc_anywhere (descs r) ?h conf (unat conf_len) False = (t, ds1)" by fastforce
  have one: "pieces conf (unat conf_len) False = [(conf, unat conf_len)]"
    using conf by (simp add: pieces.simps [of conf])
  have n: "0 < ?n" using room by (cases "descs r") (simp_all add: tx_chunks_def)
  have w1: "length ds1 = ?n" "walk False ds1 a [(conf, unat conf_len)] None" "\<And>k. k \<noteq> ?h \<Longrightarrow> ds1 ! k = descs r ! k"
    using setup_desc_walk [OF s conf(1)] n by (simp_all add: one cells_Suc Suc_le_eq)
  define r1 where "r1 = r\<lparr>descs := ds1, free_num := free_num r - 1, link_tail := Some ?h, cur_link := Suc a mod ?n\<rparr>"
  have "1 \<le> free_num r" using room by (simp add: word_le_nat_alt tx_chunks_def)
  then have f1: "unat (free_num r1) = unat (free_num r) - 1" by (simp add: r1_def unat_sub)
  have prep: "snd (s_sct_prepare_tx_seg conf conf_len send len r) =
      (if send \<noteq> 0 \<and> len \<noteq> 0 then
         let r2 = put_chain send len False r1
         in r2\<lparr>descs := (descs r2)[?h := (descs r2 ! ?h)\<lparr>d_next := Some (Suc a mod ?n)\<rparr>],
               free_num := free_num r2 - s_sct_desc_get_required_num len\<rparr>
       else r1)"
    using after_mod [of r a] n by (simp add: s_sct_prepare_tx_seg_def cur s r1_def Let_def)
  show ?thesis
  proof (cases "send \<noteq> 0 \<and> len \<noteq> 0")
    case False
    then have "tx_chunks conf conf_len send len = [(conf, unat conf_len)]"
        "snd (s_sct_prepare_tx_seg conf conf_len send len r) = r1"
      by (auto simp: tx_chunks_def prep)
    then show ?thesis
      using w1 f1 n by (simp add: placed_def cells_Suc) (simp add: r1_def)
  next
    case True
    define r2 where "r2 = put_chain send len False r1"
    have r1: "length (descs r1) = ?n" "cur_link r1 = Suc a mod length (descs r1)" "descs r1 = ds1"
      using w1(1) by (simp_all add: r1_def)
    have ps: "?ps \<noteq> []" using True by (simp add: unat_eq_0)
    have le: "Suc (length ?ps) \<le> ?n" "Suc (length ?ps) \<le> unat (free_num r)" using room True by (simp_all add: tx_chunks_def)
    have "length ?ps \<le> length (descs r1)" "len \<noteq> 0" using le True r1(1) by simp_all
    note w2 = put_chain_walk [where r = r1 and a = "Suc a" and buf = send and len = len and rx = False, OF r1(2) this(2,1),
        folded r2_def, unfolded r1(3) w1(1)]
    have h: "?h \<notin> cells ?n (Suc a) (length ?ps)" using le by (intro cells_head) simp
    define ds where "ds = (descs r2)[?h := (descs r2 ! ?h)\<lparr>d_next := Some (Suc a mod ?n)\<rparr>]"
    have "walk False ds (Suc a) ?ps None = walk False (descs r2) (Suc a) ?ps None"
    proof (rule walk_cong)
      show "k \<in> cells (length (descs r2)) (Suc a) (length ?ps) \<Longrightarrow> ds ! k = descs r2 ! k" for k
        using h w2(1) w1(1) by (cases "k = ?h") (simp_all add: ds_def)
    qed (simp add: ds_def)
    then have walk: "walk False ds a ((conf, unat conf_len) # ?ps) None"
      using w2(1,2) w2(6) [OF h] w1(1,2) n ps by (simp add: ds_def)
    have same: "ds ! k = descs r ! k" if "k \<notin> cells ?n a (Suc (length ?ps))" for k
      using that w2(6) [of k] w1(3) [of k] by (simp add: cells_Suc ds_def)
    have "s_sct_desc_get_required_num len \<le> free_num r1"
      using le(2) required_num [OF len, of send False] f1 by (simp add: word_le_nat_alt)
    then have "unat (free_num r1 - s_sct_desc_get_required_num len) = unat (free_num r) - Suc (length ?ps)"
      using required_num [OF len, of send False] f1 by (simp add: unat_sub)
    then show ?thesis
      using True w2 walk same by (simp add: placed_def tx_chunks_def prep r2_def [symmetric] Let_def ds_def [symmetric])
        (simp add: ds_def)
  qed
qed

section \<open>Transactions of several segments\<close>

lemma cells_add: "cells n a (i + j) = cells n a i \<union> cells n (a + i) j"
proof -
  have "{..<i + j} = {..<i} \<union> (\<lambda>k. i + k) ` {..<j}"
  proof (rule set_eqI)
    show "x \<in> {..<i + j} \<longleftrightarrow> x \<in> {..<i} \<union> (\<lambda>k. i + k) ` {..<j}" for x
      by (cases "x < i") (auto simp: image_iff intro!: bexI [of _ "x - i"])
  qed
  then show ?thesis by (simp add: cells_def image_Un image_image add.assoc)
qed

lemma cells_disjoint:
  assumes "a + i \<le> b" "b + j \<le> a + n"
  shows "cells n a i \<inter> cells n b j = {}"
proof (rule ccontr)
  assume "cells n a i \<inter> cells n b j \<noteq> {}"
  then obtain x y where x: "x < i" "y < j" "(a + x) mod n = (b + y) mod n" by (auto simp: cells_def)
  then have "x = b + y - a" using assms by (intro pos_inj [of x n "b + y - a" a]) auto
  then show False using assms x by simp
qed

text \<open>The first segment is put, and each further one is linked to the one before.\<close>

primrec link_all :: "('g \<Rightarrow> sct_ring \<Rightarrow> sct_ring) \<Rightarrow> 'g list \<Rightarrow> sct_ring \<Rightarrow> sct_ring" where
  "link_all put [] r = r"
| "link_all put (g # gs) r = link_all put gs (put g (link_last r))"

definition build :: "('g \<Rightarrow> sct_ring \<Rightarrow> sct_ring) \<Rightarrow> 'g list \<Rightarrow> sct_ring \<Rightarrow> sct_ring" where
  "build put gs r = (case gs of [] \<Rightarrow> r | g # gs' \<Rightarrow> link_all put gs' (put g r))"

text \<open>
  What both sides of the driver rely on, sending and receiving: putting a segment places its pieces.
\<close>

locale ring_segments =
  fixes is_rx :: bool and put :: "'g \<Rightarrow> sct_ring \<Rightarrow> sct_ring" and chunks :: "'g \<Rightarrow> (u32 \<times> nat) list" and good :: "'g \<Rightarrow> bool"
  assumes chunks_ne: "good g \<Longrightarrow> chunks g \<noteq> []"
    and placing: "good g \<Longrightarrow> cur_link r = a mod length (descs r) \<Longrightarrow> length (chunks g) \<le> unat (free_num r) \<Longrightarrow>
      unat (free_num r) \<le> length (descs r) \<Longrightarrow> placed is_rx r a (chunks g) (put g r)"
begin

lemma placed_link:
  assumes p: "placed is_rx r0 a cs r" and ne: "cs \<noteq> []" and g: "good g"
    and room: "length cs + length (chunks g) \<le> unat (free_num r0)" "unat (free_num r0) \<le> length (descs r0)"
  shows "placed is_rx r0 a (cs @ chunks g) (put g (link_last r))"
proof -
  let ?n = "length (descs r0)" and ?b = "a + length cs" and ?t = "(a + length cs - 1) mod length (descs r0)"
  define r1 where "r1 = link_last r"
  have r1: "r1 = r\<lparr>descs := (descs r)[?t := (descs r ! ?t)\<lparr>d_next := Some (?b mod ?n)\<rparr>]\<rparr>" and n: "length (descs r1) = ?n"
    using p by (simp_all add: r1_def link_last_def placed_def)
  have w1: "walk is_rx (descs r1) a cs (Some (?b mod ?n))"
    using p ne room by (simp add: r1) (intro walk_relink [of _ _ _ _ None], auto simp: placed_def)
  have "placed is_rx r1 ?b (chunks g) (put g r1)"
    using p room by (intro placing g) (auto simp: r1 placed_def)
  then have p2: "length (descs (put g r1)) = ?n" "walk is_rx (descs (put g r1)) ?b (chunks g) None"
      "\<And>k. k \<notin> cells ?n ?b (length (chunks g)) \<Longrightarrow> descs (put g r1) ! k = descs r1 ! k"
      "link_tail (put g r1) = Some ((?b + length (chunks g) - 1) mod ?n)"
      "cur_link (put g r1) = (?b + length (chunks g)) mod ?n"
      "unat (free_num (put g r1)) = unat (free_num r1) - length (chunks g)"
    by (simp_all add: placed_def n)
  have dis: "cells ?n a (length cs) \<inter> cells ?n ?b (length (chunks g)) = {}"
    using room by (intro cells_disjoint) auto
  have "walk is_rx (descs (put g r1)) a cs (Some (?b mod ?n)) = walk is_rx (descs r1) a cs (Some (?b mod ?n))"
    using dis p2(1,3) n by (intro walk_cong) auto
  then have "walk is_rx (descs (put g r1)) a (cs @ chunks g) None"
    using w1 p2(1,2) chunks_ne [OF g] by (intro walk_append) simp_all
  moreover have "descs (put g r1) ! k = descs r0 ! k" if "k \<notin> cells ?n a (length (cs @ chunks g))" for k
  proof -
    have "k \<notin> cells ?n a (length cs)" "k \<notin> cells ?n ?b (length (chunks g))" using that by (simp_all add: cells_add)
    moreover from this have "k \<noteq> ?t" using cells_last [of "length cs" a ?n] ne by auto
    ultimately show ?thesis using p p2(3) [of k] by (simp add: r1 placed_def)
  qed
  moreover have "unat (free_num r1) = unat (free_num r0) - length cs" using p by (simp add: r1 placed_def)
  ultimately show ?thesis
    using p2(1,4,5,6) unfolding r1_def [symmetric] placed_def by (simp add: add.assoc)
qed

lemma placed_link_all:
  "placed is_rx r0 a cs r \<Longrightarrow> cs \<noteq> [] \<Longrightarrow> \<forall>g \<in> set gs. good g \<Longrightarrow>
   length cs + length (concat (map chunks gs)) \<le> unat (free_num r0) \<Longrightarrow> unat (free_num r0) \<le> length (descs r0) \<Longrightarrow>
   placed is_rx r0 a (cs @ concat (map chunks gs)) (link_all put gs r)"
proof (induction gs arbitrary: cs r)
  case (Cons g gs)
  have "placed is_rx r0 a (cs @ chunks g) (put g (link_last r))"
    using Cons.prems by (intro placed_link) simp_all
  then show ?case
    using Cons.IH [of "cs @ chunks g" "put g (link_last r)"] Cons.prems by simp
qed simp

theorem placed_build:
  assumes "cur_link r = a mod length (descs r)" "gs \<noteq> []" "\<forall>g \<in> set gs. good g"
    and "length (concat (map chunks gs)) \<le> unat (free_num r)" "unat (free_num r) \<le> length (descs r)"
  shows "placed is_rx r a (concat (map chunks gs)) (build put gs r)"
proof -
  obtain g gs' where gs: "gs = g # gs'" using assms(2) by (cases gs) auto
  have "placed is_rx r a (chunks g) (put g r)"
    using assms by (intro placing) (simp_all add: gs)
  then show ?thesis
    using assms placed_link_all [of r a "chunks g" "put g r" gs'] chunks_ne [of g] by (simp add: gs build_def)
qed

end

text \<open>The segments for sending are a register image and a buffer, those for receiving a buffer.\<close>

type_synonym tx_seg = "u32 \<times> u32 \<times> u32 \<times> u32"
type_synonym rx_seg = "u32 \<times> u32"

definition put_tx :: "tx_seg \<Rightarrow> sct_ring \<Rightarrow> sct_ring" where
  "put_tx g r = (case g of (conf, conf_len, buf, len) \<Rightarrow> snd (s_sct_prepare_tx_seg conf conf_len buf len r))"

definition tx_pieces :: "tx_seg \<Rightarrow> (u32 \<times> nat) list" where
  "tx_pieces g = (case g of (conf, conf_len, buf, len) \<Rightarrow> tx_chunks conf conf_len buf len)"

definition tx_good :: "tx_seg \<Rightarrow> bool" where
  "tx_good g \<longleftrightarrow> (case g of (conf, conf_len, buf, len) \<Rightarrow>
     short len \<and> 0 < unat conf_len \<and> unat conf_len \<le> LLDESC_MAX_NUM_PER_DESC \<and> (buf = 0 \<longrightarrow> len = 0))"

definition put_rx :: "rx_seg \<Rightarrow> sct_ring \<Rightarrow> sct_ring" where
  "put_rx g r = (case g of (buf, len) \<Rightarrow> snd (s_sct_prepare_rx_seg buf len r))"

definition rx_pieces :: "rx_seg \<Rightarrow> (u32 \<times> nat) list" where
  "rx_pieces g = (case g of (buf, len) \<Rightarrow> pieces buf (unat len) True)"

definition rx_good :: "rx_seg \<Rightarrow> bool" where
  "rx_good g \<longleftrightarrow> (case g of (buf, len) \<Rightarrow> short len \<and> len \<noteq> 0)"

interpretation tx_side: ring_segments False put_tx tx_pieces tx_good
proof
  show "tx_pieces g \<noteq> []" if "tx_good g" for g
    by (cases g) (simp add: tx_pieces_def tx_chunks_def)
  show "placed False r a (tx_pieces g) (put_tx g r)" if "tx_good g" "cur_link r = a mod length (descs r)"
      "length (tx_pieces g) \<le> unat (free_num r)" "unat (free_num r) \<le> length (descs r)" for g r a
    using that by (cases g) (simp add: tx_pieces_def put_tx_def tx_good_def placed_tx)
qed

interpretation rx_side: ring_segments True put_rx rx_pieces rx_good
proof
  show "rx_pieces g \<noteq> []" if "rx_good g" for g
    using that by (cases g) (simp add: rx_pieces_def rx_good_def unat_eq_0)
  show "placed True r a (rx_pieces g) (put_rx g r)" if "rx_good g" "cur_link r = a mod length (descs r)"
      "length (rx_pieces g) \<le> unat (free_num r)" "unat (free_num r) \<le> length (descs r)" for g r a
    using that by (cases g) (simp add: rx_pieces_def put_rx_def rx_good_def placed_rx)
qed

section \<open>Transactions that end in the order in which they were queued\<close>

text \<open>
  The transactions that still need their descriptors, each as the position of its head and its pieces.
  They lie in order between a base and the position of the next free descriptor, no further apart than
  the number of descriptors in use; descriptors taken by a transaction that was given up may lie in between.
\<close>

fun laid :: "nat \<Rightarrow> (nat \<times> (u32 \<times> nat) list) list \<Rightarrow> nat \<Rightarrow> bool" where
  "laid lo [] hi = (lo \<le> hi)"
| "laid lo ((a, cs) # L) hi \<longleftrightarrow> cs \<noteq> [] \<and> lo \<le> a \<and> laid (a + length cs) L hi"

definition ring_live :: "bool \<Rightarrow> (nat \<times> (u32 \<times> nat) list) list \<Rightarrow> sct_ring \<Rightarrow> bool" where
  "ring_live rx L r \<longleftrightarrow>
     (\<exists>lo used. 0 < length (descs r) \<and> length (descs r) < 2 ^ 32 \<and> cur_link r = (lo + used) mod length (descs r) \<and>
        unat (free_num r) + used = length (descs r) \<and> laid lo L (lo + used)) \<and>
     (\<forall>(a, cs) \<in> set L. walk rx (descs r) a cs None)"

lemma ring_liveI:
  "0 < length (descs r) \<Longrightarrow> length (descs r) < 2 ^ 32 \<Longrightarrow> cur_link r = (lo + used) mod length (descs r) \<Longrightarrow>
   unat (free_num r) + used = length (descs r) \<Longrightarrow> laid lo L (lo + used) \<Longrightarrow>
   (\<And>a cs. (a, cs) \<in> set L \<Longrightarrow> walk rx (descs r) a cs None) \<Longrightarrow> ring_live rx L r"
  unfolding ring_live_def by blast

lemma laid_mono: "laid lo L hi \<Longrightarrow> lo' \<le> lo \<Longrightarrow> hi \<le> hi' \<Longrightarrow> laid lo' L hi'"
  by (induction lo L hi arbitrary: lo' rule: laid.induct) auto

lemma laid_snoc: "laid lo L hi \<Longrightarrow> cs \<noteq> [] \<Longrightarrow> laid lo (L @ [(hi, cs)]) (hi + length cs)"
  by (induction lo L hi rule: laid.induct) auto

lemma laid_range: "laid lo L hi \<Longrightarrow> (a, cs) \<in> set L \<Longrightarrow> lo \<le> a \<and> a + length cs \<le> hi \<and> cs \<noteq> []"
proof (induction lo L hi rule: laid.induct)
  case (2 lo b bs L hi)
  have "b + length bs \<le> hi" if "laid (b + length bs) L hi"
    using that by (induction "b + length bs" L hi arbitrary: b bs rule: laid.induct) fastforce+
  then show ?case using 2 by auto
qed simp

lemma ring_live_reset:
  "0 < length (descs r) \<Longrightarrow> length (descs r) < 2 ^ 32 \<Longrightarrow> ring_live rx [] (s_spi_sct_reset_ring r)"
  by (auto simp: ring_live_def s_spi_sct_reset_ring_def unat_of_nat take_bit_nat_eq_self intro!: exI [of _ 0])

text \<open>The oldest transaction is done: its descriptors are given back.\<close>

lemma ring_live_recycle:
  assumes "ring_live rx ((a, cs) # L) r" "unat n = length cs"
  shows "ring_live rx L (desc_recycle n r)"
proof -
  obtain lo used where l: "0 < length (descs r)" "length (descs r) < 2 ^ 32" "cur_link r = (lo + used) mod length (descs r)"
      "unat (free_num r) + used = length (descs r)" "cs \<noteq> []" "lo \<le> a" "laid (a + length cs) L (lo + used)"
    using assms(1) by (auto simp: ring_live_def)
  have "a + length cs \<le> lo + used" using laid_range [of lo "(a, cs) # L" "lo + used" a cs] l(5-7) by simp
  then have u: "length cs \<le> used" using l(6) by simp
  then have "unat (free_num r + n) = unat (free_num r) + length cs"
    using l(2,4) assms(2) by (subst unat_plus_simple [THEN iffD1]) (auto simp: word_le_nat_alt unat_word_ariths)
  moreover have "laid (lo + length cs) L (lo + length cs + (used - length cs))"
    using laid_mono [OF l(7), of "lo + length cs" "lo + used"] l(6) u by simp
  ultimately show ?thesis
    using assms(1) l u unfolding ring_live_def desc_recycle_def
    by (intro conjI exI [of _ "lo + length cs"] exI [of _ "used - length cs"]) auto
qed

text \<open>Putting a transaction leaves those before it alone, whether it is then queued or given up.\<close>

lemma ring_live_put:
  assumes live: "ring_live rx L r"
  obtains a where "cur_link r = a mod length (descs r)" "unat (free_num r) \<le> length (descs r)"
    "\<And>cs r'. placed rx r a cs r' \<Longrightarrow> cs \<noteq> [] \<Longrightarrow> length cs \<le> unat (free_num r) \<Longrightarrow>
      ring_live rx (L @ [(a, cs)]) r' \<and> ring_live rx L r'"
proof -
  obtain lo used where l: "0 < length (descs r)" "length (descs r) < 2 ^ 32" "cur_link r = (lo + used) mod length (descs r)"
      "unat (free_num r) + used = length (descs r)" "laid lo L (lo + used)"
    using live by (auto simp: ring_live_def)
  have "ring_live rx (L @ [(lo + used, cs)]) r' \<and> ring_live rx L r'"
    if p: "placed rx r (lo + used) cs r'" and ne: "cs \<noteq> []" and room: "length cs \<le> unat (free_num r)" for cs r'
  proof -
    have r': "length (descs r') = length (descs r)" "walk rx (descs r') (lo + used) cs None"
        "cur_link r' = (lo + (used + length cs)) mod length (descs r')" "unat (free_num r') + (used + length cs) = length (descs r')"
      using p l(4) room by (simp_all add: placed_def add.assoc)
    have "walk rx (descs r') a xs None" if "(a, xs) \<in> set L" for a xs
    proof -
      have rng: "lo \<le> a" "a + length xs \<le> lo + used" using laid_range [OF l(5) that] by auto
      then have "cells (length (descs r)) a (length xs) \<inter> cells (length (descs r)) (lo + used) (length cs) = {}"
        using room l(4) by (intro cells_disjoint) auto
      then have "walk rx (descs r') a xs None = walk rx (descs r) a xs None"
        using p by (intro walk_cong) (auto simp: placed_def)
      then show ?thesis using live that by (auto simp: ring_live_def)
    qed
    moreover have "laid lo (L @ [(lo + used, cs)]) (lo + (used + length cs))" "laid lo L (lo + (used + length cs))"
      using laid_snoc [OF l(5) ne] laid_mono [OF l(5)] by (simp_all add: add.assoc)
    ultimately show ?thesis
      using l(1,2) r' by (intro conjI ring_liveI [of _ lo "used + length cs"]) auto
  qed
  then show ?thesis using that [of "lo + used"] l by simp
qed

end
