(* ===== verification/Spi_Conf_Buffer.thy ===== *)
theory Spi_Conf_Buffer
  imports Spi_Master
begin

text \<open>
  The register image that a segmented transfer sends ahead of each segment: fifteen words, a bitmap
  and fourteen registers of the SPI peripheral (\<open>hal/esp32s3/include/hal/spi_ll.h\<close>,
  \<open>spi_hal_sct_format_conf_buffer\<close> in \<open>hal/spi_hal_iram.c\<close>). A buffer is the list of its words; the fields of
  a word are given by the position of their lowest bit and their width, as in \<open>spi_reg.h\<close>.
\<close>

section \<open>Fields of a word\<close>

definition SET_BIT :: "nat \<Rightarrow> u32 \<Rightarrow> u32" where "SET_BIT k w = w OR push_bit k 1"
definition CLR_BIT :: "nat \<Rightarrow> u32 \<Rightarrow> u32" where "CLR_BIT k w = w AND NOT (push_bit k 1)"

definition SET_FIELD :: "nat \<times> nat \<Rightarrow> u32 \<Rightarrow> u32 \<Rightarrow> u32" where
  "SET_FIELD f v w = (case f of (s, n) \<Rightarrow> (w AND NOT (push_bit s (mask n))) OR push_bit s (v AND mask n))"

definition GET_FIELD :: "nat \<times> nat \<Rightarrow> u32 \<Rightarrow> u32" where
  "GET_FIELD f w = (case f of (s, n) \<Rightarrow> drop_bit s w AND mask n)"

definition SPI_USR_CONF_NXT :: nat where "SPI_USR_CONF_NXT = 15"
definition SPI_CS_HOLD :: nat where "SPI_CS_HOLD = 6"
definition SPI_CS_SETUP :: nat where "SPI_CS_SETUP = 7"
definition SPI_USR_MOSI :: nat where "SPI_USR_MOSI = 27"
definition SPI_USR_MISO :: nat where "SPI_USR_MISO = 28"
definition SPI_USR_DUMMY :: nat where "SPI_USR_DUMMY = 29"
definition SPI_USR_ADDR :: nat where "SPI_USR_ADDR = 30"
definition SPI_USR_COMMAND :: nat where "SPI_USR_COMMAND = 31"
definition SPI_DMA_TX_ENA :: nat where "SPI_DMA_TX_ENA = 28"
definition SPI_DMA_RX_ENA :: nat where "SPI_DMA_RX_ENA = 27"
definition SPI_FADDR_DUAL :: nat where "SPI_FADDR_DUAL = 5"
definition SPI_FADDR_QUAD :: nat where "SPI_FADDR_QUAD = 6"
definition SPI_FADDR_OCT :: nat where "SPI_FADDR_OCT = 7"
definition SPI_FCMD_DUAL :: nat where "SPI_FCMD_DUAL = 8"
definition SPI_FCMD_QUAD :: nat where "SPI_FCMD_QUAD = 9"
definition SPI_FCMD_OCT :: nat where "SPI_FCMD_OCT = 10"
definition SPI_FREAD_DUAL :: nat where "SPI_FREAD_DUAL = 14"
definition SPI_FREAD_QUAD :: nat where "SPI_FREAD_QUAD = 15"
definition SPI_FREAD_OCT :: nat where "SPI_FREAD_OCT = 16"
definition SPI_FWRITE_DUAL :: nat where "SPI_FWRITE_DUAL = 12"
definition SPI_FWRITE_QUAD :: nat where "SPI_FWRITE_QUAD = 13"
definition SPI_FWRITE_OCT :: nat where "SPI_FWRITE_OCT = 14"

definition SPI_USR_ADDR_VALUE :: "nat \<times> nat" where "SPI_USR_ADDR_VALUE = (0, 32)"
definition SPI_CS_SETUP_TIME :: "nat \<times> nat" where "SPI_CS_SETUP_TIME = (17, 5)"
definition SPI_CS_HOLD_TIME :: "nat \<times> nat" where "SPI_CS_HOLD_TIME = (22, 5)"
definition SPI_USR_ADDR_BITLEN :: "nat \<times> nat" where "SPI_USR_ADDR_BITLEN = (27, 5)"
definition SPI_USR_DUMMY_CYCLELEN :: "nat \<times> nat" where "SPI_USR_DUMMY_CYCLELEN = (0, 8)"
definition SPI_USR_COMMAND_BITLEN :: "nat \<times> nat" where "SPI_USR_COMMAND_BITLEN = (28, 4)"
definition SPI_USR_COMMAND_VALUE :: "nat \<times> nat" where "SPI_USR_COMMAND_VALUE = (0, 16)"
definition SPI_MS_DATA_BITLEN :: "nat \<times> nat" where "SPI_MS_DATA_BITLEN = (0, 18)"

lemmas conf_bit_defs = SPI_USR_CONF_NXT_def SPI_CS_HOLD_def SPI_CS_SETUP_def SPI_USR_MOSI_def SPI_USR_MISO_def
  SPI_USR_DUMMY_def SPI_USR_ADDR_def SPI_USR_COMMAND_def SPI_DMA_TX_ENA_def SPI_DMA_RX_ENA_def SPI_FADDR_DUAL_def
  SPI_FADDR_QUAD_def SPI_FADDR_OCT_def SPI_FCMD_DUAL_def SPI_FCMD_QUAD_def SPI_FCMD_OCT_def SPI_FREAD_DUAL_def
  SPI_FREAD_QUAD_def SPI_FREAD_OCT_def SPI_FWRITE_DUAL_def SPI_FWRITE_QUAD_def SPI_FWRITE_OCT_def

lemmas conf_field_defs = SPI_USR_ADDR_VALUE_def SPI_CS_SETUP_TIME_def SPI_CS_HOLD_TIME_def SPI_USR_ADDR_BITLEN_def
  SPI_USR_DUMMY_CYCLELEN_def SPI_USR_COMMAND_BITLEN_def SPI_USR_COMMAND_VALUE_def SPI_MS_DATA_BITLEN_def

text \<open>The words of the buffer: the bitmap, then the registers.\<close>

definition SPI_LL_CONF_BUFFER_OFFSET :: nat where "SPI_LL_CONF_BUFFER_OFFSET = 1"
definition SOC_SPI_SCT_BUFFER_NUM_MAX :: nat where "SOC_SPI_SCT_BUFFER_NUM_MAX = 15"

datatype conf_reg = Addr_Reg | Ctrl_Reg | Clock_Reg | User_Reg | User1_Reg | User2_Reg | Ms_Dlen_Reg | Misc_Reg
  | Din_Mode_Reg | Din_Num_Reg | Dout_Mode_Reg | Dma_Conf_Reg | Dma_Int_Ena_Reg | Dma_Int_Clr_Reg

fun reg_pos :: "conf_reg \<Rightarrow> nat" where
  "reg_pos Addr_Reg = 0" | "reg_pos Ctrl_Reg = 1" | "reg_pos Clock_Reg = 2" | "reg_pos User_Reg = 3"
| "reg_pos User1_Reg = 4" | "reg_pos User2_Reg = 5" | "reg_pos Ms_Dlen_Reg = 6" | "reg_pos Misc_Reg = 7"
| "reg_pos Din_Mode_Reg = 8" | "reg_pos Din_Num_Reg = 9" | "reg_pos Dout_Mode_Reg = 10" | "reg_pos Dma_Conf_Reg = 11"
| "reg_pos Dma_Int_Ena_Reg = 12" | "reg_pos Dma_Int_Clr_Reg = 13"

definition conf_word :: "conf_reg \<Rightarrow> nat" where
  "conf_word r = reg_pos r + SPI_LL_CONF_BUFFER_OFFSET"

definition on_reg :: "conf_reg \<Rightarrow> (u32 \<Rightarrow> u32) \<Rightarrow> u32 list \<Rightarrow> u32 list" where
  "on_reg r f b = b[conf_word r := f (b ! conf_word r)]"

section \<open>The configuration of a segment\<close>

text \<open>\<open>spi_hal_seg_config_t\<close> and \<open>spi_line_mode_t\<close>.\<close>

record spi_line_mode =
  cmd_lines :: nat
  addr_lines :: nat
  data_lines :: nat

record spi_hal_seg_config =
  seg_end :: bool
  seg_gap_len :: u32
  cs_setup :: int
  seg_cmd :: u16
  cmd_bits :: int
  seg_addr :: u64
  addr_bits :: int
  dummy_bits :: int
  tx_bitlen :: int
  rx_bitlen :: int
  cs_hold :: int

section \<open>The phases\<close>

text \<open>\<open>HAL_SWAP32\<close>, and the command shifted to the end of the word that is sent first.\<close>

definition HAL_SWAP32 :: "u32 \<Rightarrow> u32" where
  "HAL_SWAP32 w = push_bit 24 (w AND 0xFF) OR push_bit 8 (w AND 0xFF00) OR drop_bit 8 (w AND 0xFF0000) OR drop_bit 24 w"

text \<open>
  The shifts of C are by \<open>32 - len\<close>, which is undefined when it is not below the width of the word or is
  negative; the model then takes the amount modulo the width (\<open>shl_amount\<close>), and no property looks at it.
\<close>

definition shl_amount :: "nat \<Rightarrow> int \<Rightarrow> nat" where
  "shl_amount width k = nat (k mod int width)"

definition HAL_SPI_SWAP_DATA_TX :: "u16 \<Rightarrow> int \<Rightarrow> u32" where
  "HAL_SPI_SWAP_DATA_TX data len = HAL_SWAP32 (push_bit (shl_amount 32 (32 - len)) (ucast data))"

definition line_bit :: "nat \<Rightarrow> nat \<Rightarrow> nat \<Rightarrow> nat \<Rightarrow> u32 \<Rightarrow> u32" where
  "line_bit lines dual quad oct w =
     (if lines = 2 then SET_BIT dual w else if lines = 4 then SET_BIT quad w
      else if lines = 8 then SET_BIT oct w else w)"

definition SPI_LL_ONE_LINE_CTRL_MASK :: u32 where
  "SPI_LL_ONE_LINE_CTRL_MASK = (push_bit SPI_FREAD_OCT 1) OR (push_bit SPI_FREAD_QUAD 1) OR (push_bit SPI_FREAD_DUAL 1) OR
     (push_bit SPI_FCMD_OCT 1) OR (push_bit SPI_FCMD_QUAD 1) OR (push_bit SPI_FCMD_DUAL 1) OR
     (push_bit SPI_FADDR_OCT 1) OR (push_bit SPI_FADDR_QUAD 1) OR (push_bit SPI_FADDR_DUAL 1)"

definition SPI_LL_ONE_LINE_USER_MASK :: u32 where
  "SPI_LL_ONE_LINE_USER_MASK = (push_bit SPI_FWRITE_OCT 1) OR (push_bit SPI_FWRITE_QUAD 1) OR (push_bit SPI_FWRITE_DUAL 1)"

definition spi_ll_format_line_mode_conf_buff :: "spi_line_mode \<Rightarrow> u32 list \<Rightarrow> u32 list" where
  "spi_ll_format_line_mode_conf_buff lm b =
     (let b1 = on_reg Ctrl_Reg (\<lambda>w. w AND NOT SPI_LL_ONE_LINE_CTRL_MASK) b;
          b2 = on_reg User_Reg (\<lambda>w. w AND NOT SPI_LL_ONE_LINE_USER_MASK) b1;
          b3 = on_reg Ctrl_Reg (line_bit (cmd_lines lm) SPI_FCMD_DUAL SPI_FCMD_QUAD SPI_FCMD_OCT) b2;
          b4 = on_reg Ctrl_Reg (line_bit (addr_lines lm) SPI_FADDR_DUAL SPI_FADDR_QUAD SPI_FADDR_OCT) b3;
          b5 = on_reg Ctrl_Reg (line_bit (data_lines lm) SPI_FREAD_DUAL SPI_FREAD_QUAD SPI_FREAD_OCT) b4
      in on_reg User_Reg (line_bit (data_lines lm) SPI_FWRITE_DUAL SPI_FWRITE_QUAD SPI_FWRITE_OCT) b5)"

definition put_bit :: "bool \<Rightarrow> nat \<Rightarrow> u32 \<Rightarrow> u32" where
  "put_bit b k w = (if b then SET_BIT k w else CLR_BIT k w)"

definition spi_ll_format_prep_phase_conf_buffer :: "u8 \<Rightarrow> u32 list \<Rightarrow> u32 list" where
  "spi_ll_format_prep_phase_conf_buffer setup_time b =
     on_reg User1_Reg (SET_FIELD SPI_CS_SETUP_TIME (ucast setup_time - 1))
       (on_reg User_Reg (put_bit (setup_time \<noteq> 0) SPI_CS_SETUP) b)"

definition spi_ll_format_cmd_phase_conf_buffer :: "u16 \<Rightarrow> int \<Rightarrow> bool \<Rightarrow> u32 list \<Rightarrow> u32 list" where
  "spi_ll_format_cmd_phase_conf_buffer cmd cmdlen lsbfirst b =
     (let b1 = on_reg User_Reg (put_bit (cmdlen \<noteq> 0) SPI_USR_COMMAND) b;
          b2 = on_reg User2_Reg (SET_FIELD SPI_USR_COMMAND_BITLEN (word_of_int (cmdlen - 1))) b1
      in on_reg User2_Reg (SET_FIELD SPI_USR_COMMAND_VALUE
           (if lsbfirst then ucast cmd else HAL_SPI_SWAP_DATA_TX cmd cmdlen)) b2)"

definition spi_ll_format_addr_phase_conf_buffer :: "u64 \<Rightarrow> int \<Rightarrow> bool \<Rightarrow> u32 list \<Rightarrow> u32 list" where
  "spi_ll_format_addr_phase_conf_buffer a addrlen lsbfirst b =
     (let b1 = on_reg User_Reg (put_bit (addrlen \<noteq> 0) SPI_USR_ADDR) b;
          b2 = on_reg User1_Reg (SET_FIELD SPI_USR_ADDR_BITLEN (word_of_int (addrlen - 1))) b1
      in on_reg Addr_Reg (SET_FIELD SPI_USR_ADDR_VALUE
           (if lsbfirst then HAL_SWAP32 (ucast a) else ucast (push_bit (shl_amount 64 (32 - addrlen)) a))) b2)"

definition spi_ll_format_dummy_phase_conf_buffer :: "int \<Rightarrow> u32 list \<Rightarrow> u32 list" where
  "spi_ll_format_dummy_phase_conf_buffer dummy_n b =
     on_reg User1_Reg (SET_FIELD SPI_USR_DUMMY_CYCLELEN (word_of_int (dummy_n - 1)))
       (on_reg User_Reg (put_bit (dummy_n \<noteq> 0) SPI_USR_DUMMY) b)"

definition spi_ll_format_dout_phase_conf_buffer :: "int \<Rightarrow> u32 list \<Rightarrow> u32 list" where
  "spi_ll_format_dout_phase_conf_buffer bitlen b =
     (let b1 = on_reg Dma_Conf_Reg (put_bit (bitlen \<noteq> 0) SPI_DMA_TX_ENA) (on_reg User_Reg (put_bit (bitlen \<noteq> 0) SPI_USR_MOSI) b)
      in if bitlen \<noteq> 0 then on_reg Ms_Dlen_Reg (SET_FIELD SPI_MS_DATA_BITLEN (word_of_int (bitlen - 1))) b1 else b1)"

definition spi_ll_format_din_phase_conf_buffer :: "int \<Rightarrow> u32 list \<Rightarrow> u32 list" where
  "spi_ll_format_din_phase_conf_buffer bitlen b =
     (let b1 = on_reg Dma_Conf_Reg (put_bit (bitlen \<noteq> 0) SPI_DMA_RX_ENA) (on_reg User_Reg (put_bit (bitlen \<noteq> 0) SPI_USR_MISO) b)
      in if bitlen \<noteq> 0 then on_reg Ms_Dlen_Reg (SET_FIELD SPI_MS_DATA_BITLEN (word_of_int (bitlen - 1))) b1 else b1)"

definition spi_ll_format_done_phase_conf_buffer :: "int \<Rightarrow> u32 list \<Rightarrow> u32 list" where
  "spi_ll_format_done_phase_conf_buffer hold b =
     on_reg User1_Reg (SET_FIELD SPI_CS_HOLD_TIME (word_of_int hold))
       (on_reg User_Reg (put_bit (hold \<noteq> 0) SPI_CS_HOLD) b)"

definition spi_ll_format_conf_phase_conf_buffer :: "bool \<Rightarrow> u32 list \<Rightarrow> u32 list" where
  "spi_ll_format_conf_phase_conf_buffer is_end b = on_reg User_Reg (put_bit (\<not> is_end) SPI_USR_CONF_NXT) b"

text \<open>The image of the registers \<open>hw\<close>, and the whole image of a segment.\<close>

definition SPI_LL_SCT_MAGIC_NUMBER :: u32 where "SPI_LL_SCT_MAGIC_NUMBER = 2"

definition spi_ll_init_conf_buffer :: "(conf_reg \<Rightarrow> u32) \<Rightarrow> u32 list" where
  "spi_ll_init_conf_buffer hw =
     (0x7FFF OR push_bit 28 SPI_LL_SCT_MAGIC_NUMBER) #
     map hw [Addr_Reg, Ctrl_Reg, Clock_Reg, User_Reg, User1_Reg, User2_Reg, Ms_Dlen_Reg, Misc_Reg,
       Din_Mode_Reg, Din_Num_Reg, Dout_Mode_Reg, Dma_Conf_Reg, Dma_Int_Ena_Reg, Dma_Int_Clr_Reg]"

definition spi_hal_sct_format_conf_buffer ::
  "spi_line_mode \<Rightarrow> spi_hal_seg_config \<Rightarrow> bool \<Rightarrow> bool \<Rightarrow> u32 list \<Rightarrow> u32 list" where
  "spi_hal_sct_format_conf_buffer lm c tx_lsbfirst rx_lsbfirst b =
     (let b1 = spi_ll_format_line_mode_conf_buff lm b;
          b2 = spi_ll_format_prep_phase_conf_buffer (word_of_int (cs_setup c)) b1;
          b3 = spi_ll_format_cmd_phase_conf_buffer (seg_cmd c) (cmd_bits c) tx_lsbfirst b2;
          b4 = spi_ll_format_addr_phase_conf_buffer (seg_addr c) (addr_bits c) rx_lsbfirst b3;
          b5 = spi_ll_format_dummy_phase_conf_buffer (dummy_bits c) b4;
          b6 = spi_ll_format_dout_phase_conf_buffer (tx_bitlen c) b5;
          b7 = spi_ll_format_din_phase_conf_buffer (rx_bitlen c) b6;
          b8 = spi_ll_format_done_phase_conf_buffer (cs_hold c) b7
      in spi_ll_format_conf_phase_conf_buffer (seg_end c) b8)"

section \<open>Reading the image back\<close>

lemma bit_put_bit [simp]: "k < 32 \<Longrightarrow> bit (put_bit b k w) j \<longleftrightarrow> (if j = k then b else bit w j)"
  using bit_imp_le_length [of w j] by (auto simp: put_bit_def SET_BIT_def CLR_BIT_def bit_simps)

lemma bit_line_bit:
  assumes "dual < 32" "quad < 32" "oct < 32"
  shows "bit (line_bit lines dual quad oct w) j \<longleftrightarrow>
    bit w j \<or> j = dual \<and> lines = 2 \<or> j = quad \<and> lines = 4 \<or> j = oct \<and> lines = 8"
  using assms by (auto simp: line_bit_def SET_BIT_def bit_simps)

lemma GET_SET_same: "s + n \<le> 32 \<Longrightarrow> GET_FIELD (s, n) (SET_FIELD (s, n) v w) = take_bit n v"
  by (rule bit_word_eqI) (auto simp: GET_FIELD_def SET_FIELD_def bit_simps)

lemma GET_SET_other: "s + n \<le> t \<or> t + k \<le> s \<Longrightarrow> GET_FIELD (s, n) (SET_FIELD (t, k) v w) = GET_FIELD (s, n) w"
  by (rule bit_word_eqI) (auto simp: GET_FIELD_def SET_FIELD_def bit_simps dest: bit_imp_le_length)

lemma conf_word_inj [simp]: "conf_word r = conf_word r' \<longleftrightarrow> r = r'"
  by (cases r; cases r') (simp_all add: conf_word_def)

lemma conf_word_range [simp]: "conf_word r < 15" "0 < conf_word r"
  by (cases r; simp add: conf_word_def SPI_LL_CONF_BUFFER_OFFSET_def)+

lemma length_on_reg [simp]: "length (on_reg r f b) = length b"
  by (simp add: on_reg_def)

lemma nth_on_reg [simp]:
  "length b = 15 \<Longrightarrow> on_reg r f b ! conf_word r' = (if r = r' then f (b ! conf_word r') else b ! conf_word r')"
  "length b = 15 \<Longrightarrow> on_reg r f b ! 0 = b ! 0"
  using conf_word_range(2) [of r] by (auto simp: on_reg_def nth_list_update)

lemmas conf_phase_defs = spi_ll_format_line_mode_conf_buff_def spi_ll_format_prep_phase_conf_buffer_def
  spi_ll_format_cmd_phase_conf_buffer_def spi_ll_format_addr_phase_conf_buffer_def
  spi_ll_format_dummy_phase_conf_buffer_def spi_ll_format_dout_phase_conf_buffer_def
  spi_ll_format_din_phase_conf_buffer_def spi_ll_format_done_phase_conf_buffer_def
  spi_ll_format_conf_phase_conf_buffer_def

text \<open>What the peripheral makes of an image: a phase is there when its bit is, and then it is as long as its field says.\<close>

definition phase_len :: "bool \<Rightarrow> nat \<times> nat \<Rightarrow> u32 \<Rightarrow> int" where
  "phase_len on f w = (if on then uint (GET_FIELD f w) + 1 else 0)"

definition lines_of :: "u32 \<Rightarrow> nat \<Rightarrow> nat \<Rightarrow> nat \<Rightarrow> nat" where
  "lines_of w dual quad oct = (if bit w oct then 8 else if bit w quad then 4 else if bit w dual then 2 else 1)"

text \<open>
  The lines of the command, the address and the data, and those of the data that are sent: the two
  directions have bits of their own.
\<close>

definition conf_lines :: "u32 list \<Rightarrow> spi_line_mode \<times> nat" where
  "conf_lines b =
     (let ctrl = b ! conf_word Ctrl_Reg; user = b ! conf_word User_Reg
      in (\<lparr>cmd_lines = lines_of ctrl SPI_FCMD_DUAL SPI_FCMD_QUAD SPI_FCMD_OCT,
           addr_lines = lines_of ctrl SPI_FADDR_DUAL SPI_FADDR_QUAD SPI_FADDR_OCT,
           data_lines = lines_of ctrl SPI_FREAD_DUAL SPI_FREAD_QUAD SPI_FREAD_OCT\<rparr>,
          lines_of user SPI_FWRITE_DUAL SPI_FWRITE_QUAD SPI_FWRITE_OCT))"

definition conf_cmd :: "bool \<Rightarrow> int \<Rightarrow> u32 \<Rightarrow> u16" where
  "conf_cmd lsbfirst len w =
     (let v = GET_FIELD SPI_USR_COMMAND_VALUE w
      in if len = 0 then 0 else if lsbfirst then ucast v else ucast (drop_bit (nat (32 - len)) (HAL_SWAP32 v)))"

definition conf_addr :: "bool \<Rightarrow> int \<Rightarrow> u32 \<Rightarrow> u64" where
  "conf_addr lsbfirst len w =
     (if len = 0 then 0 else if lsbfirst then ucast (HAL_SWAP32 w) else ucast (drop_bit (nat (32 - len)) w))"

definition conf_segment :: "bool \<Rightarrow> bool \<Rightarrow> u32 list \<Rightarrow> u32 \<Rightarrow> spi_hal_seg_config" where
  "conf_segment tx_lsbfirst rx_lsbfirst b gap =
     (let user = b ! conf_word User_Reg; user1 = b ! conf_word User1_Reg; user2 = b ! conf_word User2_Reg; dlen = b ! conf_word Ms_Dlen_Reg;
          cmdlen = phase_len (bit user SPI_USR_COMMAND) SPI_USR_COMMAND_BITLEN user2;
          addrlen = phase_len (bit user SPI_USR_ADDR) SPI_USR_ADDR_BITLEN user1
      in \<lparr>seg_end = (\<not> bit user SPI_USR_CONF_NXT), seg_gap_len = gap,
          cs_setup = phase_len (bit user SPI_CS_SETUP) SPI_CS_SETUP_TIME user1,
          seg_cmd = conf_cmd tx_lsbfirst cmdlen user2, cmd_bits = cmdlen,
          seg_addr = conf_addr rx_lsbfirst addrlen (b ! conf_word Addr_Reg), addr_bits = addrlen,
          dummy_bits = phase_len (bit user SPI_USR_DUMMY) SPI_USR_DUMMY_CYCLELEN user1,
          tx_bitlen = phase_len (bit user SPI_USR_MOSI) SPI_MS_DATA_BITLEN dlen,
          rx_bitlen = phase_len (bit user SPI_USR_MISO) SPI_MS_DATA_BITLEN dlen,
          cs_hold = (if bit user SPI_CS_HOLD then uint (GET_FIELD SPI_CS_HOLD_TIME user1) else 0)\<rparr>)"

definition seg_config_ok :: "spi_hal_seg_config \<Rightarrow> bool" where
  "seg_config_ok c \<longleftrightarrow>
     cs_setup c \<in> {0..32} \<and> cmd_bits c \<in> {0..16} \<and> addr_bits c \<in> {0..32} \<and> dummy_bits c \<in> {0..256} \<and>
     tx_bitlen c \<in> {0..2 ^ 18} \<and> rx_bitlen c \<in> {0..2 ^ 18} \<and> (tx_bitlen c = 0 \<or> rx_bitlen c = 0) \<and> cs_hold c \<in> {0..31} \<and>
     take_bit (nat (cmd_bits c)) (seg_cmd c) = seg_cmd c \<and> take_bit (nat (addr_bits c)) (seg_addr c) = seg_addr c"

lemma lines_of_line_bit:
  "lines \<in> {1, 2, 4, 8} \<Longrightarrow> k + 2 < 32 \<Longrightarrow> \<not> bit w k \<Longrightarrow> \<not> bit w (k + 1) \<Longrightarrow> \<not> bit w (k + 2) \<Longrightarrow> l = k + 1 \<Longrightarrow> m = k + 2 \<Longrightarrow>
   lines_of (line_bit lines k l m w) k l m = lines"
  by (auto simp: lines_of_def bit_line_bit)

lemma lines_of_other:
  "k < 32 \<Longrightarrow> l < 32 \<Longrightarrow> m < 32 \<Longrightarrow> {k, l, m} \<inter> {k', l', m'} = {} \<Longrightarrow>
   lines_of (line_bit lines k l m w) k' l' m' = lines_of w k' l' m'"
  by (auto simp: lines_of_def bit_line_bit)

lemma one_line_bits:
  "k \<in> {5, 6, 7, 8, 9, 10, 14, 15, 16} \<Longrightarrow> \<not> bit (w AND NOT SPI_LL_ONE_LINE_CTRL_MASK) k"
  by (auto simp: SPI_LL_ONE_LINE_CTRL_MASK_def conf_bit_defs bit_simps)

lemma uint_len_field: "n \<le> 32 \<Longrightarrow> 0 \<le> k \<Longrightarrow> k < 2 ^ n \<Longrightarrow> uint (take_bit n (word_of_int k :: u32)) = k"
  by (simp add: unsigned_take_bit_eq uint_word_of_int_eq take_bit_int_eq_self min_def)

lemma len_field:
  assumes "n \<le> 32" "0 \<le> k" "k \<le> 2 ^ n"
  shows "(if k \<noteq> 0 then uint (take_bit n (word_of_int (k - 1) :: u32)) + 1 else 0) = k"
  using uint_len_field [of n "k - 1"] assms by simp

lemma length_conf_phases [simp]:
  "length (spi_hal_sct_format_conf_buffer lm c txl rxl b) = length b"
  by (simp add: spi_hal_sct_format_conf_buffer_def conf_phase_defs Let_def)

lemma phase_lenI:
  "n \<le> 32 \<Longrightarrow> 0 \<le> k \<Longrightarrow> k \<le> 2 ^ n \<Longrightarrow> (k \<noteq> 0 \<Longrightarrow> GET_FIELD f w = take_bit n (word_of_int (k - 1))) \<Longrightarrow>
   phase_len (k \<noteq> 0) f w = k"
  using len_field [of n k] by (auto simp: phase_len_def)

lemma GET_field_other:
  "fst f + snd f \<le> fst g \<or> fst g + snd g \<le> fst f \<Longrightarrow> GET_FIELD f (SET_FIELD g v w) = GET_FIELD f w"
  by (cases f; cases g) (simp add: GET_SET_other)

lemma GET_field_same: "fst f + snd f \<le> 32 \<Longrightarrow> GET_FIELD f (SET_FIELD f v w) = take_bit (snd f) v"
  by (cases f) (simp add: GET_SET_same)

lemma ucast_setup: "0 \<le> k \<Longrightarrow> k \<le> 32 \<Longrightarrow> (ucast (word_of_int k :: u8) :: u32) = word_of_int k"
  by (simp add: unsigned_of_int take_bit_int_eq_self)

text \<open>
  The order of the bits of the address follows the flag of the received data: with the bits of sent data
  alone reversed, the address of a segment is not.
\<close>

lemma conf_addr_follows_rx:
  assumes "length b = 15" "addr_bits c \<in> {1..32}"
  shows "spi_hal_sct_format_conf_buffer lm c tx_lsbfirst rx_lsbfirst b ! conf_word Addr_Reg =
    (if rx_lsbfirst then HAL_SWAP32 (ucast (seg_addr c)) else push_bit (nat (32 - addr_bits c)) (ucast (seg_addr c)))"
proof -
  have f: "SET_FIELD (0, 32) v w = v" for v w :: u32
    by (rule bit_word_eqI) (simp add: SET_FIELD_def bit_simps)
  have "(ucast (push_bit k (x :: u64)) :: u32) = push_bit k (ucast x)" for k x
    by (rule bit_word_eqI) (auto simp: bit_simps)
  moreover have "shl_amount 64 (32 - addr_bits c) = nat (32 - addr_bits c)"
    using assms(2) by (simp add: shl_amount_def)
  ultimately show ?thesis
    using assms(1) by (simp add: spi_hal_sct_format_conf_buffer_def conf_phase_defs Let_def f SPI_USR_ADDR_VALUE_def)
qed

lemma bit_swap:
  "bit (HAL_SWAP32 w) n \<longleftrightarrow> n < 8 \<and> bit w (n + 24) \<or> 8 \<le> n \<and> n < 16 \<and> bit w (n + 8) \<or>
     16 \<le> n \<and> n < 24 \<and> bit w (n - 8) \<or> 24 \<le> n \<and> n < 32 \<and> bit w (n - 24)"
proof -
  have m: "0xFF = (mask 8 :: u32)" "0xFF00 = (push_bit 8 (mask 8) :: u32)" "0xFF0000 = (push_bit 16 (mask 8) :: u32)"
    by (simp_all add: mask_eq_exp_minus_1 push_bit_eq_mult)
  show ?thesis
    unfolding HAL_SWAP32_def m
    by (cases "n < 8"; cases "n < 16"; cases "n < 24"; cases "n < 32")
      (auto simp: bit_simps add.commute dest: bit_imp_le_length)
qed

lemma swap_swap [simp]: "HAL_SWAP32 (HAL_SWAP32 w) = w"
proof (rule bit_word_eqI)
  fix n
  assume "n < LENGTH(32)"
  then consider "n < 8" | "8 \<le> n" "n < 16" | "16 \<le> n" "n < 24" | "24 \<le> n" "n < 32" by fastforce
  then show "bit (HAL_SWAP32 (HAL_SWAP32 w)) n = bit w n" by cases (simp_all add: bit_swap, linarith+)
qed

lemma conf_cmd_field:
  assumes "0 \<le> len" "len \<le> 16" "take_bit (nat len) cmd = cmd"
    and f: "GET_FIELD SPI_USR_COMMAND_VALUE w = take_bit 16 (if lsbfirst then ucast cmd else HAL_SPI_SWAP_DATA_TX cmd len)"
  shows "conf_cmd lsbfirst len w = cmd"
proof -
  have z: "len = 0 \<Longrightarrow> cmd = 0" using assms(3) by simp
  show ?thesis
  proof (cases "len = 0 \<or> lsbfirst")
    case True
    have "ucast (take_bit 16 (ucast cmd :: u32)) = cmd" by (rule bit_word_eqI) (simp add: bit_simps)
    then show ?thesis using True z f by (auto simp: conf_cmd_def Let_def)
  next
    case False
    define k where "k = nat (32 - len)"
    have k: "16 \<le> k" "k < 32" "k + nat len = 32" "shl_amount 32 (32 - len) = k"
      using assms(1,2) False by (simp_all add: k_def shl_amount_def zmod_zminus1_eq_if nat_less_iff)
    define x :: u32 where "x = push_bit k (ucast cmd)"
    have bits: "bit cmd n \<Longrightarrow> n < nat len" for n
      using assms(3) by (metis bit_take_bit_iff)
    have "\<not> bit x n" if "n < 16" for n using that k(1) by (simp add: x_def bit_simps)
    then have "take_bit 16 (HAL_SWAP32 x) = HAL_SWAP32 x"
      by (intro bit_word_eqI) (auto simp: bit_take_bit_iff bit_swap)
    moreover have "ucast (drop_bit k x) = cmd"
      using bits k(3) by (intro bit_word_eqI) (fastforce simp: x_def bit_simps)
    ultimately show ?thesis
      using False f by (simp add: conf_cmd_def HAL_SPI_SWAP_DATA_TX_def k(4) x_def [symmetric] flip: k_def)
  qed
qed

lemma conf_addr_field:
  assumes "0 \<le> len" "len \<le> 32" "take_bit (nat len) a = (a :: u64)"
    and w: "1 \<le> len \<Longrightarrow> w = (if lsbfirst then HAL_SWAP32 (ucast a) else push_bit (nat (32 - len)) (ucast a))"
  shows "conf_addr lsbfirst len w = a"
proof (cases "len = 0")
  case True
  then show ?thesis using assms(3) by (simp add: conf_addr_def)
next
  case False
  have bits: "bit a n \<Longrightarrow> n < nat len" for n using assms(3) by (metis bit_take_bit_iff)
  have "nat (32 - len) + nat len = 32" using assms(1,2) by simp
  then have "ucast (drop_bit (nat (32 - len)) (push_bit (nat (32 - len)) (ucast a :: u32))) = a"
    using bits by (intro bit_word_eqI) (fastforce simp: bit_simps)
  moreover have "ucast (ucast a :: u32) = a"
    using bits assms(2) by (intro bit_word_eqI) (fastforce simp: bit_simps)
  ultimately show ?thesis using False assms(1,2) w by (simp add: conf_addr_def)
qed

text \<open>The two registers of the line mode, bit by bit: what the phases leave alone is as it was.\<close>

lemma bit_line_bit_set:
  "l = k + 1 \<Longrightarrow> m = k + 2 \<Longrightarrow> m < 32 \<Longrightarrow> bit (line_bit lines k l m w) j \<longleftrightarrow>
    (if j = k then bit w j \<or> lines = 2 else if j = l then bit w j \<or> lines = 4
     else if j = m then bit w j \<or> lines = 8 else bit w j)"
  by (auto simp: bit_line_bit)

lemma bit_single: "bit (push_bit n 1 :: u32) k \<longleftrightarrow> k = n \<and> n < 32"
  by (auto simp: bit_simps)

lemma ctrl_mask_bits: "bit SPI_LL_ONE_LINE_CTRL_MASK k \<longleftrightarrow> k \<in> {5, 6, 7, 8, 9, 10, 14, 15, 16}"
  by (simp add: SPI_LL_ONE_LINE_CTRL_MASK_def conf_bit_defs bit_or_iff bit_single del: push_bit_of_1) argo

lemma user_mask_bits: "bit SPI_LL_ONE_LINE_USER_MASK k \<longleftrightarrow> k \<in> {12, 13, 14}"
  by (simp add: SPI_LL_ONE_LINE_USER_MASK_def conf_bit_defs bit_or_iff bit_single del: push_bit_of_1) argo

definition ctrl_bits :: "spi_line_mode \<Rightarrow> u32 \<Rightarrow> nat \<Rightarrow> bool" where
  "ctrl_bits lm w k \<longleftrightarrow> (if k \<in> {5, 6, 7} then addr_lines lm = 2 ^ (k - 4)
     else if k \<in> {8, 9, 10} then cmd_lines lm = 2 ^ (k - 7)
     else if k \<in> {14, 15, 16} then data_lines lm = 2 ^ (k - 13) else bit w k)"

definition user_bits :: "spi_line_mode \<Rightarrow> spi_hal_seg_config \<Rightarrow> u32 \<Rightarrow> nat \<Rightarrow> bool" where
  "user_bits lm c w k \<longleftrightarrow> (if k \<in> {12, 13, 14} then data_lines lm = 2 ^ (k - 11)
     else if k = 6 then cs_hold c \<noteq> 0 else if k = 7 then word_of_int (cs_setup c) \<noteq> (0 :: u8)
     else if k = 15 then \<not> seg_end c else if k = 27 then tx_bitlen c \<noteq> 0 else if k = 28 then rx_bitlen c \<noteq> 0
     else if k = 29 then dummy_bits c \<noteq> 0 else if k = 30 then addr_bits c \<noteq> 0
     else if k = 31 then cmd_bits c \<noteq> 0 else bit w k)"

lemma masked_bit: "bit (w AND NOT msk) k \<longleftrightarrow> bit w k \<and> \<not> bit (msk :: u32) k"
  using bit_imp_le_length [of w k] by (auto simp: bit_simps)

lemma conf_ctrl_bits:
  assumes "length b = 15"
  shows "bit (spi_hal_sct_format_conf_buffer lm c txl rxl b ! conf_word Ctrl_Reg) k =
    ctrl_bits lm (b ! conf_word Ctrl_Reg) k"
proof -
  have w: "spi_hal_sct_format_conf_buffer lm c txl rxl b ! conf_word Ctrl_Reg =
      line_bit (data_lines lm) 14 15 16 (line_bit (addr_lines lm) 5 6 7
        (line_bit (cmd_lines lm) 8 9 10 (b ! conf_word Ctrl_Reg AND NOT SPI_LL_ONE_LINE_CTRL_MASK)))"
    using assms by (simp add: spi_hal_sct_format_conf_buffer_def conf_phase_defs Let_def conf_bit_defs)
  show ?thesis
    unfolding w ctrl_bits_def
    by (cases "k \<in> {5, 6, 7, 8, 9, 10, 14, 15, 16}")
      (elim insertE emptyE, simp_all add: bit_line_bit_set masked_bit ctrl_mask_bits)
qed

lemma conf_user_bits:
  assumes "length b = 15"
  shows "bit (spi_hal_sct_format_conf_buffer lm c txl rxl b ! conf_word User_Reg) k =
    user_bits lm c (b ! conf_word User_Reg) k"
proof -
  have w: "spi_hal_sct_format_conf_buffer lm c txl rxl b ! conf_word User_Reg =
      put_bit (\<not> seg_end c) 15 (put_bit (cs_hold c \<noteq> 0) 6 (put_bit (rx_bitlen c \<noteq> 0) 28
        (put_bit (tx_bitlen c \<noteq> 0) 27 (put_bit (dummy_bits c \<noteq> 0) 29 (put_bit (addr_bits c \<noteq> 0) 30
          (put_bit (cmd_bits c \<noteq> 0) 31 (put_bit (word_of_int (cs_setup c) \<noteq> (0 :: u8)) 7
            (line_bit (data_lines lm) 12 13 14 (b ! conf_word User_Reg AND NOT SPI_LL_ONE_LINE_USER_MASK)))))))))"
    using assms by (simp add: spi_hal_sct_format_conf_buffer_def conf_phase_defs Let_def conf_bit_defs)
  show ?thesis
    unfolding w user_bits_def
    by (simp add: bit_line_bit_set masked_bit user_mask_bits)
qed

lemma lines_of_bits:
  "n \<in> {1, 2, 4, 8} \<Longrightarrow> (bit w k \<longleftrightarrow> n = 2) \<Longrightarrow> (bit w l \<longleftrightarrow> n = 4) \<Longrightarrow> (bit w m \<longleftrightarrow> n = 8) \<Longrightarrow> lines_of w k l m = n"
  by (auto simp: lines_of_def)

text \<open>A control and a user register with these bits say the line mode.\<close>

lemma line_mode_read:
  assumes "{cmd_lines lm, addr_lines lm, data_lines lm} \<subseteq> {1, 2, 4, 8}"
    and "\<And>k. bit (b ! conf_word Ctrl_Reg) k = ctrl_bits lm w k"
    and "\<And>k. k \<in> {12, 13, 14} \<Longrightarrow> bit (b ! conf_word User_Reg) k \<longleftrightarrow> data_lines lm = 2 ^ (k - 11)"
  shows "conf_lines b = (lm, data_lines lm)"
proof -
  have "lines_of (b ! conf_word Ctrl_Reg) SPI_FCMD_DUAL SPI_FCMD_QUAD SPI_FCMD_OCT = cmd_lines lm"
    "lines_of (b ! conf_word Ctrl_Reg) SPI_FADDR_DUAL SPI_FADDR_QUAD SPI_FADDR_OCT = addr_lines lm"
    "lines_of (b ! conf_word Ctrl_Reg) SPI_FREAD_DUAL SPI_FREAD_QUAD SPI_FREAD_OCT = data_lines lm"
    "lines_of (b ! conf_word User_Reg) SPI_FWRITE_DUAL SPI_FWRITE_QUAD SPI_FWRITE_OCT = data_lines lm"
    using assms(1) by (intro lines_of_bits, simp_all add: assms(2,3) ctrl_bits_def conf_bit_defs)+
  then show ?thesis
    by (simp add: conf_lines_def Let_def)
qed

lemma conf_image_reads:
  fixes tx_lsbfirst rx_lsbfirst :: bool
  assumes "seg_config_ok c" "{cmd_lines lm, addr_lines lm, data_lines lm} \<subseteq> {1, 2, 4, 8}" "length b = 15"
  defines "b' \<equiv> spi_hal_sct_format_conf_buffer lm c tx_lsbfirst rx_lsbfirst b"
  shows "conf_segment tx_lsbfirst rx_lsbfirst b' (seg_gap_len c) = c \<and> conf_lines b' = (lm, data_lines lm) \<and> b' ! 0 = b ! 0 \<and>
    (\<forall>r. r \<notin> {Addr_Reg, Ctrl_Reg, User_Reg, User1_Reg, User2_Reg, Ms_Dlen_Reg, Dma_Conf_Reg} \<longrightarrow> b' ! conf_word r = b ! conf_word r)"
proof -
  let ?w = "\<lambda>r. b' ! conf_word r"
  note c = assms(1) [unfolded seg_config_ok_def, simplified]
  have user: "bit (?w User_Reg) SPI_USR_CONF_NXT = (\<not> seg_end c)" "bit (?w User_Reg) SPI_CS_HOLD = (cs_hold c \<noteq> 0)"
      "bit (?w User_Reg) SPI_USR_MISO = (rx_bitlen c \<noteq> 0)" "bit (?w User_Reg) SPI_USR_MOSI = (tx_bitlen c \<noteq> 0)"
      "bit (?w User_Reg) SPI_USR_DUMMY = (dummy_bits c \<noteq> 0)" "bit (?w User_Reg) SPI_USR_ADDR = (addr_bits c \<noteq> 0)"
      "bit (?w User_Reg) SPI_USR_COMMAND = (cmd_bits c \<noteq> 0)" "bit (?w User_Reg) SPI_CS_SETUP = (word_of_int (cs_setup c) \<noteq> (0 :: u8))"
    using assms(3) by (simp_all add: b'_def spi_hal_sct_format_conf_buffer_def conf_phase_defs Let_def conf_bit_defs)
  have user1: "GET_FIELD SPI_CS_SETUP_TIME (?w User1_Reg) = take_bit 5 (word_of_int (cs_setup c - 1))"
      "GET_FIELD SPI_CS_HOLD_TIME (?w User1_Reg) = take_bit 5 (word_of_int (cs_hold c))"
      "GET_FIELD SPI_USR_ADDR_BITLEN (?w User1_Reg) = take_bit 5 (word_of_int (addr_bits c - 1))"
      "GET_FIELD SPI_USR_DUMMY_CYCLELEN (?w User1_Reg) = take_bit 8 (word_of_int (dummy_bits c - 1))"
      "GET_FIELD SPI_USR_COMMAND_BITLEN (?w User2_Reg) = take_bit 4 (word_of_int (cmd_bits c - 1))"
      "tx_bitlen c \<noteq> 0 \<Longrightarrow> GET_FIELD SPI_MS_DATA_BITLEN (?w Ms_Dlen_Reg) = take_bit 18 (word_of_int (tx_bitlen c - 1))"
      "rx_bitlen c \<noteq> 0 \<Longrightarrow> GET_FIELD SPI_MS_DATA_BITLEN (?w Ms_Dlen_Reg) = take_bit 18 (word_of_int (rx_bitlen c - 1))"
    using assms(3) c by (auto simp: b'_def spi_hal_sct_format_conf_buffer_def conf_phase_defs Let_def conf_field_defs
        GET_SET_same GET_SET_other ucast_setup)
  have setup_bit: "(word_of_int (cs_setup c) \<noteq> (0 :: u8)) = (cs_setup c \<noteq> 0)"
    using c by (simp add: word_of_int_eq_0_iff) (auto dest: zdvd_imp_le)
  note len = phase_lenI [OF _ _ _ user1(1)] phase_lenI [OF _ _ _ user1(5)] phase_lenI [OF _ _ _ user1(3)]
    phase_lenI [OF _ _ _ user1(4)] phase_lenI [OF _ _ _ user1(6)] phase_lenI [OF _ _ _ user1(7)]
    uint_len_field [of 5 "cs_hold c"] user1(2)
  have cmd: "conf_cmd tx_lsbfirst (cmd_bits c) (?w User2_Reg) = seg_cmd c"
    using assms(3) c by (intro conf_cmd_field) (simp_all add: b'_def spi_hal_sct_format_conf_buffer_def conf_phase_defs
        Let_def SPI_USR_COMMAND_VALUE_def GET_SET_same)
  have addr: "conf_addr rx_lsbfirst (addr_bits c) (?w Addr_Reg) = seg_addr c"
    using conf_addr_follows_rx [OF assms(3), of c] c by (intro conf_addr_field) (auto simp: b'_def)
  have "conf_segment tx_lsbfirst rx_lsbfirst b' (seg_gap_len c) = c"
    by (rule spi_hal_seg_config.equality) (use c user len setup_bit cmd addr in \<open>simp_all add: conf_segment_def Let_def\<close>)
  moreover have "conf_lines b' = (lm, data_lines lm)"
    by (rule line_mode_read [OF assms(2)])
      (use assms(3) in \<open>auto simp: b'_def conf_ctrl_bits conf_user_bits user_bits_def\<close>)
  moreover have "b' ! 0 = b ! 0" "\<And>r. r \<notin> {Addr_Reg, Ctrl_Reg, User_Reg, User1_Reg, User2_Reg, Ms_Dlen_Reg, Dma_Conf_Reg} \<Longrightarrow>
      b' ! conf_word r = b ! conf_word r"
    using assms(3) by (auto simp: b'_def spi_hal_sct_format_conf_buffer_def conf_phase_defs Let_def)
  ultimately show ?thesis by blast
qed

text \<open>
  C30: The image of a segment says what the segment is, when its phases fit their fields
  (\<open>seg_config_ok\<close>) and its line modes are 1, 2, 4 or 8: read back phase by phase, it
  has the phases, the lengths, the command, the address, the line modes of sent and of received
  data and the end mark of the configuration, whatever the registers held before; the bitmap and
  the registers outside the phases are as they were.
\<close>

theorem conf_buffer_roundtrip:
  fixes tx_lsbfirst rx_lsbfirst :: bool
  assumes "seg_config_ok c" "{cmd_lines lm, addr_lines lm, data_lines lm} \<subseteq> {1, 2, 4, 8}" "length b = 15"
  defines "b' \<equiv> spi_hal_sct_format_conf_buffer lm c tx_lsbfirst rx_lsbfirst b"
  shows "conf_segment tx_lsbfirst rx_lsbfirst b' (seg_gap_len c) = c \<and> conf_lines b' = (lm, data_lines lm) \<and> b' ! 0 = b ! 0 \<and>
    (\<forall>r. r \<notin> {Addr_Reg, Ctrl_Reg, User_Reg, User1_Reg, User2_Reg, Ms_Dlen_Reg, Dma_Conf_Reg} \<longrightarrow> b' ! conf_word r = b ! conf_word r)"
  unfolding b'_def by (rule conf_image_reads [OF assms(1-3)])

definition seg_demo :: spi_hal_seg_config where
  "seg_demo = \<lparr>seg_end = True, seg_gap_len = 0, cs_setup = 2, seg_cmd = 0x80, cmd_bits = 8, seg_addr = 0x123456,
     addr_bits = 24, dummy_bits = 4, tx_bitlen = 0, rx_bitlen = 4096, cs_hold = 1\<rparr>"

lemma conf_buffer_roundtrip_witness:
  "conf_segment True False (spi_hal_sct_format_conf_buffer \<lparr>cmd_lines = 1, addr_lines = 2, data_lines = 4\<rparr> seg_demo True False
     (replicate 15 0xFFFFFFFF)) 0 = seg_demo"
  using conf_buffer_roundtrip [of seg_demo "\<lparr>cmd_lines = 1, addr_lines = 2, data_lines = 4\<rparr>" "replicate 15 0xFFFFFFFF" True False]
  by (simp add: seg_config_ok_def seg_demo_def take_bit_eq_mask mask_eq_exp_minus_1)


end
