(* ===== verification/Spi_Segments.thy ===== *)
theory Spi_Segments
  imports Spi_Ring Spi_Conf_Buffer
begin

text \<open>
  Segmented transfers (\<open>spi_device_queue_multi_trans\<close> and what belongs to it in \<open>spi_master.c\<close>): a list of
  segments becomes one transaction of the hardware, which loads the registers anew before each segment.
  A call of \<open>spi_device_queue_multi_trans\<close> is one function here; \<open>sct_take\<close> and \<open>sct_done\<close> are the two branches
  of \<open>spi_intr\<close> for this mode.
\<close>

section \<open>State\<close>

record spi_multi_transaction =
  base :: spi_transaction
  mt_cs_ena_pretrans :: u8
  mt_cs_ena_posttrans :: u8
  mt_command_bits :: u8
  mt_address_bits :: u8
  mt_dummy_bits :: u8
  sct_gap_len :: u32
  seg_trans_flags :: u32

definition SPI_MULTI_TRANS_PREP_LEN_UPDATED :: u32 where "SPI_MULTI_TRANS_PREP_LEN_UPDATED = 0x1"
definition SPI_MULTI_TRANS_CMD_LEN_UPDATED :: u32 where "SPI_MULTI_TRANS_CMD_LEN_UPDATED = 0x2"
definition SPI_MULTI_TRANS_ADDR_LEN_UPDATED :: u32 where "SPI_MULTI_TRANS_ADDR_LEN_UPDATED = 0x4"
definition SPI_MULTI_TRANS_DUMMY_LEN_UPDATED :: u32 where "SPI_MULTI_TRANS_DUMMY_LEN_UPDATED = 0x8"
definition SPI_MULTI_TRANS_DONE_LEN_UPDATED :: u32 where "SPI_MULTI_TRANS_DONE_LEN_UPDATED = 0x10"
definition SPI_DEVICE_TXBIT_LSBFIRST :: u32 where "SPI_DEVICE_TXBIT_LSBFIRST = 0x1"
definition SPI_DEVICE_RXBIT_LSBFIRST :: u32 where "SPI_DEVICE_RXBIT_LSBFIRST = 0x2"
definition SPI_DEVICE_NO_RETURN_RESULT :: u32 where "SPI_DEVICE_NO_RETURN_RESULT = 0x100"

text \<open>\<open>spi_sct_trans_priv_t\<close>: what is queued. The pointer to the segments is the list of them.\<close>

record spi_sct_trans_priv =
  tx_seg_head :: "nat option"
  rx_seg_head :: "nat option"
  sct_trans_desc_head :: "spi_multi_transaction list"
  sct_conf_buffer :: u32
  tx_used_desc_num :: u16
  rx_used_desc_num :: u16

text \<open>What \<open>spi_new_sct_trans\<close> does with the DMA channels and the peripheral, in order.\<close>

datatype dma_cmd = Conf_Bits_Len u32 | Clear_Seg_Done | Start_Rx nat | Start_Tx nat | User_Start

text \<open>
  \<open>sct_host\<close> has the fields of \<open>spi_host_t\<close>, \<open>spi_device_t\<close> and the device configuration that only this mode uses, with the
  queues of the devices, their depth, the registers of the peripheral and what has been asked of the DMA channels.
\<close>

record sct_machine = spi_machine +
  tx_ring :: sct_ring
  rx_ring :: sct_ring
  sct_mode_enabled :: bool
  cur_sct_trans :: spi_sct_trans_priv
  sct_queue :: "nat \<Rightarrow> spi_sct_trans_priv list"
  sct_ret_queue :: "nat \<Rightarrow> spi_sct_trans_priv list"
  sct_queue_size :: "nat \<Rightarrow> nat"
  cfg_cs_ena_pretrans :: "nat \<Rightarrow> u16"
  cfg_cs_ena_posttrans :: "nat \<Rightarrow> u8"
  hal_line_mode :: spi_line_mode
  hw_regs :: "conf_reg \<Rightarrow> u32"
  dma_cmds :: "dma_cmd list"

definition SOC_SPI_SCT_SUPPORTED_PERIPH :: "nat \<Rightarrow> bool" where
  "SOC_SPI_SCT_SUPPORTED_PERIPH n \<longleftrightarrow> n = 1"

section \<open>Words in memory\<close>

definition word_bytes :: "u32 \<Rightarrow> u8 list" where
  "word_bytes w = [ucast w, ucast (drop_bit 8 w), ucast (drop_bit 16 w), ucast (drop_bit 24 w)]"

definition load_word :: "(u32 \<Rightarrow> u8) \<Rightarrow> u32 \<Rightarrow> u32" where
  "load_word m a = ucast (m a) OR push_bit 8 (ucast (m (a + 1))) OR push_bit 16 (ucast (m (a + 2))) OR push_bit 24 (ucast (m (a + 3)))"

definition load_words :: "(u32 \<Rightarrow> u8) \<Rightarrow> u32 \<Rightarrow> nat \<Rightarrow> u32 list" where
  "load_words m a n = map (\<lambda>i. load_word m (a + of_nat (4 * i))) [0..<n]"

definition store_words :: "(u32 \<Rightarrow> u8) \<Rightarrow> u32 \<Rightarrow> u32 list \<Rightarrow> (u32 \<Rightarrow> u8)" where
  "store_words m a ws = store m a (concat (map word_bytes ws))"

section \<open>The register image of a segment\<close>

definition spi_sct_set_hal_trans_config :: "spi_multi_transaction \<Rightarrow> spi_line_mode" where
  "spi_sct_set_hal_trans_config seg =
     (let fs = tr_flags (base seg);
          lines = (if flag fs SPI_TRANS_MODE_OCT then 8
                   else if flag fs SPI_TRANS_MODE_DIO then 2 else if flag fs SPI_TRANS_MODE_QIO then 4 else 1)
      in \<lparr>cmd_lines = (if flag fs SPI_TRANS_MULTILINE_CMD then lines else 1),
          addr_lines = (if flag fs SPI_TRANS_MULTILINE_ADDR then lines else 1), data_lines = lines\<rparr>)"

definition seg_config :: "nat \<Rightarrow> spi_multi_transaction \<Rightarrow> bool \<Rightarrow> 'a sct_machine_scheme \<Rightarrow> spi_hal_seg_config" where
  "seg_config i seg is_last s =
     (let d = devices (host s) i; fs = seg_trans_flags seg
      in \<lparr>seg_end = is_last, seg_gap_len = sct_gap_len seg,
          cs_setup = (if flag fs SPI_MULTI_TRANS_PREP_LEN_UPDATED then uint (mt_cs_ena_pretrans seg)
                      else uint (cfg_cs_ena_pretrans s i)),
          seg_cmd = tr_cmd (base seg),
          cmd_bits = uint (if flag fs SPI_MULTI_TRANS_CMD_LEN_UPDATED then mt_command_bits seg else cfg_command_bits d),
          seg_addr = tr_addr (base seg),
          addr_bits = uint (if flag fs SPI_MULTI_TRANS_ADDR_LEN_UPDATED then mt_address_bits seg else cfg_address_bits d),
          dummy_bits = uint (if flag fs SPI_MULTI_TRANS_DUMMY_LEN_UPDATED then mt_dummy_bits seg else cfg_dummy_bits d),
          tx_bitlen = sint (tr_length (base seg)), rx_bitlen = sint (tr_rxlength (base seg)),
          cs_hold = uint (if flag fs SPI_MULTI_TRANS_DONE_LEN_UPDATED then mt_cs_ena_posttrans seg else cfg_cs_ena_posttrans s i)\<rparr>)"

definition s_sct_format_conf_buffer ::
  "nat \<Rightarrow> spi_multi_transaction \<Rightarrow> u32 \<Rightarrow> bool \<Rightarrow> 'a sct_machine_scheme \<Rightarrow> 'a sct_machine_scheme" where
  "s_sct_format_conf_buffer i seg a is_last s =
     (let lm = spi_sct_set_hal_trans_config seg; fs = cfg_flags (devices (host s) i);
          b = spi_hal_sct_format_conf_buffer lm (seg_config i seg is_last s) (flag fs SPI_DEVICE_TXBIT_LSBFIRST)
                (flag fs SPI_DEVICE_RXBIT_LSBFIRST) (load_words (mem s) a SOC_SPI_SCT_BUFFER_NUM_MAX)
      in s\<lparr>hal_line_mode := lm, mem := store_words (mem s) a b\<rparr>)"

definition s_sct_init_conf_buffer :: "u32 \<Rightarrow> nat \<Rightarrow> 'a sct_machine_scheme \<Rightarrow> 'a sct_machine_scheme" where
  "s_sct_init_conf_buffer a trans_num s =
     s\<lparr>mem := store_words (mem s) a (concat (replicate trans_num (spi_ll_init_conf_buffer (hw_regs s))))\<rparr>"

section \<open>Queueing\<close>

definition conf_len :: u32 where "conf_len = of_nat (SOC_SPI_SCT_BUFFER_NUM_MAX * 4)"

definition tx_addr :: "spi_multi_transaction \<Rightarrow> 'a machine_scheme \<Rightarrow> u32" where
  "tx_addr seg s = ptr_addr (frame_base s) (union_ptr (tr_tx (base seg)))"

definition rx_addr :: "spi_multi_transaction \<Rightarrow> 'a machine_scheme \<Rightarrow> u32" where
  "rx_addr seg s = ptr_addr (frame_base s) (union_ptr (tr_rx (base seg)))"

fun check_all_valid ::
  "spi_host \<Rightarrow> handle \<Rightarrow> spi_multi_transaction list \<Rightarrow> esp_err_t \<times> spi_multi_transaction list" where
  "check_all_valid h handle [] = (ESP_OK, [])"
| "check_all_valid h handle (seg # segs) =
     (case check_trans_valid h handle (base seg) of (err, t) \<Rightarrow>
        if err \<noteq> ESP_OK then (err, seg\<lparr>base := t\<rparr> # segs)
        else case check_all_valid h handle segs of (err', segs') \<Rightarrow> (err', seg\<lparr>base := t\<rparr> # segs'))"

text \<open>
  The receiving side of a further segment, whose result is not looked at; then the loop over the segments after the
  first: the error, the numbers of descriptors used so far, and the state.
\<close>

definition link_rx :: "spi_multi_transaction \<Rightarrow> 'a sct_machine_scheme \<Rightarrow> u32 \<times> 'a sct_machine_scheme" where
  "link_rx seg s =
     (if rx_addr seg s \<noteq> 0 then
        case spi_hal_sct_link_rx_seg_dma_desc (rx_addr seg s) (byte_len (tr_rxlength (base seg))) (rx_ring s) of
          None \<Rightarrow> (0, s) | Some (m, r) \<Rightarrow> (m, s\<lparr>rx_ring := r\<rparr>)
      else (0, s))"

fun link_segments ::
  "nat \<Rightarrow> u32 \<Rightarrow> spi_multi_transaction list \<Rightarrow> u32 \<Rightarrow> u32 \<Rightarrow> 'a sct_machine_scheme
     \<Rightarrow> esp_err_t \<times> u32 \<times> u32 \<times> 'a sct_machine_scheme" where
  "link_segments i a [] txn rxn s = (ESP_OK, txn, rxn, s)"
| "link_segments i a (seg # segs) txn rxn s =
     (let s1 = s_sct_format_conf_buffer i seg a (segs = []) s
      in case spi_hal_sct_link_tx_seg_dma_desc a conf_len (tx_addr seg s1) (byte_len (tr_length (base seg))) (tx_ring s1) of
           None \<Rightarrow> (ESP_ERR_INVALID_STATE, txn, rxn, s1)
         | Some (n, r) \<Rightarrow>
             (case link_rx seg (s1\<lparr>tx_ring := r\<rparr>) of (m, s2) \<Rightarrow> link_segments i (a + conf_len) segs (txn + n) (rxn + m) s2))"

text \<open>The first segment: the heads of the two chains.\<close>

definition head_segment ::
  "nat \<Rightarrow> u32 \<Rightarrow> spi_multi_transaction \<Rightarrow> bool \<Rightarrow> 'a sct_machine_scheme
     \<Rightarrow> esp_err_t \<times> nat option \<times> u32 \<times> nat option \<times> u32 \<times> 'a sct_machine_scheme" where
  "head_segment i a seg is_last s =
     (let s1 = s_sct_format_conf_buffer i seg a is_last s
      in case spi_hal_sct_new_tx_dma_desc_head a conf_len (tx_addr seg s1) (byte_len (tr_length (base seg))) (tx_ring s1) of
           None \<Rightarrow> (ESP_ERR_INVALID_STATE, None, 0, None, 0, s1)
         | Some (h, n, r) \<Rightarrow>
             let s2 = s1\<lparr>tx_ring := r\<rparr>
             in if rx_addr seg s2 \<noteq> 0 then
                  (case spi_hal_sct_new_rx_dma_desc_head (rx_addr seg s2) (byte_len (tr_rxlength (base seg))) (rx_ring s2) of
                     None \<Rightarrow> (ESP_ERR_INVALID_STATE, Some h, n, None, 0, s2)
                   | Some (h', m, r) \<Rightarrow> (ESP_OK, Some h, n, Some h', m, s2\<lparr>rx_ring := r\<rparr>))
                else (ESP_OK, Some h, n, None, 0, s2))"

text \<open>A full queue stays full for as long as the caller waits.\<close>

definition send_sct :: "nat \<Rightarrow> spi_sct_trans_priv \<Rightarrow> 'a sct_machine_scheme \<Rightarrow> esp_err_t \<times> 'a sct_machine_scheme" where
  "send_sct i p s =
     (if length (sct_queue s i) < sct_queue_size s i then
        (ESP_OK, set_host (\<lambda>h. h\<lparr>bus_lock := req_core i (bus_lock h)\<rparr>)
           (s\<lparr>sct_queue := (sct_queue s)(i := sct_queue s i @ [p])\<rparr>))
      else (ESP_ERR_TIMEOUT, s))"

definition build_and_send ::
  "nat \<Rightarrow> u32 \<Rightarrow> spi_multi_transaction list \<Rightarrow> 'a sct_machine_scheme \<Rightarrow> esp_err_t \<times> 'a sct_machine_scheme" where
  "build_and_send i conf_buffer segs s =
     (let s1 = s_sct_init_conf_buffer conf_buffer (length segs) s
      in case head_segment i conf_buffer (hd segs) (tl segs = []) s1 of (err, tx_head, txn, rx_head, rxn, s2) \<Rightarrow>
        if err \<noteq> ESP_OK then (err, s2)
        else case link_segments i (conf_buffer + conf_len) (tl segs) txn rxn s2 of (err2, txn', rxn', s3) \<Rightarrow>
          if err2 \<noteq> ESP_OK then (err2, s3)
          else send_sct i \<lparr>tx_seg_head = tx_head, rx_seg_head = rx_head, sct_trans_desc_head = segs,
              sct_conf_buffer = conf_buffer, tx_used_desc_num = ucast txn', rx_used_desc_num = ucast rxn'\<rparr> s3)"

text \<open>
  \<open>spi_device_queue_multi_trans\<close>, of at least one segment; the caller's segments come back as the checks have
  changed them.
\<close>

definition spi_device_queue_multi_trans ::
  "handle \<Rightarrow> spi_multi_transaction \<Rightarrow> spi_multi_transaction list \<Rightarrow> 'a sct_machine_scheme
     \<Rightarrow> esp_err_t \<times> spi_multi_transaction list \<times> 'a sct_machine_scheme" where
  "spi_device_queue_multi_trans handle seg segs s =
     (case handle of None \<Rightarrow> (ESP_ERR_INVALID_ARG, seg # segs, s)
      | Some i \<Rightarrow>
        if \<not> SOC_SPI_SCT_SUPPORTED_PERIPH (host_id (host s)) then (ESP_ERR_INVALID_ARG, seg # segs, s)
        else if \<not> sct_mode_enabled s then (ESP_ERR_INVALID_STATE, seg # segs, s)
        else case dma_malloc (of_nat (length (seg # segs)) * conf_len) s of (conf_buffer, s1) \<Rightarrow>
          if conf_buffer = 0 then (ESP_ERR_NO_MEM, seg # segs, s1)
          else case check_all_valid (host s1) handle (seg # segs) of (err, segs') \<Rightarrow>
            if err \<noteq> ESP_OK then (err, segs', s1)
            else if spi_bus_device_is_polling (host s1) i then (ESP_ERR_INVALID_STATE, segs', s1)
            else
              case build_and_send i conf_buffer segs' s1 of (err2, s2) \<Rightarrow> (err2, segs', s2))"

section \<open>The handler\<close>

definition s_sct_load_dma_link :: "nat option \<Rightarrow> nat option \<Rightarrow> dma_cmd list" where
  "s_sct_load_dma_link rx_head tx_head =
     Clear_Seg_Done # (case rx_head of None \<Rightarrow> [] | Some h \<Rightarrow> [Start_Rx h]) @
     (case tx_head of None \<Rightarrow> [] | Some h \<Rightarrow> [Start_Tx h])"

definition SOC_SPI_SCT_CONF_BITLEN_MAX :: u32 where "SOC_SPI_SCT_CONF_BITLEN_MAX = 0x3FFFA"

definition spi_new_sct_trans :: "nat \<Rightarrow> spi_sct_trans_priv \<Rightarrow> 'a sct_machine_scheme \<Rightarrow> 'a sct_machine_scheme" where
  "spi_new_sct_trans i p s =
     (let gap = sct_gap_len (hd (sct_trans_desc_head p))
      in set_host (spi_new_trans i)
           (s\<lparr>dma_cmds := dma_cmds s @ (if gap \<le> SOC_SPI_SCT_CONF_BITLEN_MAX then [Conf_Bits_Len gap] else []) @
                s_sct_load_dma_link (rx_seg_head p) (tx_seg_head p) @ [User_Start]\<rparr>))"

text \<open>A transaction is taken from the queue of a device and started.\<close>

definition sct_take :: "nat \<Rightarrow> 'a sct_machine_scheme \<Rightarrow> 'a sct_machine_scheme option" where
  "sct_take i s =
     (case sct_queue s i of [] \<Rightarrow> None
      | p # ps \<Rightarrow> Some (spi_new_sct_trans i p (s\<lparr>sct_queue := (sct_queue s)(i := ps), cur_sct_trans := p\<rparr>)))"

definition spi_post_sct_trans :: "'a sct_machine_scheme \<Rightarrow> 'a sct_machine_scheme outcome" where
  "spi_post_sct_trans s =
     (let p = cur_sct_trans s
      in if rx_seg_head p = None \<and> rx_used_desc_num p \<noteq> 0 then Inl Assert_Failed
         else
           let s1 = dma_free (sct_conf_buffer p) s
           in Inr (set_host (\<lambda>h. h\<lparr>cur_cs := DEV_NUM_MAX\<rparr>)
                (s1\<lparr>tx_ring := desc_recycle (ucast (tx_used_desc_num p)) (tx_ring s1),
                    rx_ring := desc_recycle (ucast (rx_used_desc_num p)) (rx_ring s1)\<rparr>)))"

text \<open>The transaction in flight is done: \<open>cs\<close> is the device that it belongs to.\<close>

definition sct_done :: "'a sct_machine_scheme \<Rightarrow> 'a sct_machine_scheme outcome" where
  "sct_done s =
     (let cs = cur_cs (host s)
      in if cs = DEV_NUM_MAX then Inl Assert_Failed
         else bindr (spi_post_sct_trans s) (\<lambda>s1.
           Inr (if \<not> flag (cfg_flags (devices (host s1) cs)) SPI_DEVICE_NO_RETURN_RESULT
                   \<and> length (sct_ret_queue s1 cs) < sct_queue_size s1 cs
                then s1\<lparr>sct_ret_queue := (sct_ret_queue s1)(cs := sct_ret_queue s1 cs @ [cur_sct_trans s1])\<rparr>
                else s1)))"

definition spi_device_get_multi_trans_result ::
  "handle \<Rightarrow> 'a sct_machine_scheme \<Rightarrow> esp_err_t \<times> spi_multi_transaction list \<times> 'a sct_machine_scheme" where
  "spi_device_get_multi_trans_result handle s =
     (case handle of None \<Rightarrow> (ESP_ERR_INVALID_ARG, [], s)
      | Some i \<Rightarrow>
        if \<not> SOC_SPI_SCT_SUPPORTED_PERIPH (host_id (host s)) then (ESP_ERR_INVALID_ARG, [], s)
        else if \<not> sct_mode_enabled s then (ESP_ERR_INVALID_STATE, [], s)
        else case sct_ret_queue s i of [] \<Rightarrow> (ESP_ERR_TIMEOUT, [], s)
          | p # ps \<Rightarrow> (ESP_OK, sct_trans_desc_head p, s\<lparr>sct_ret_queue := (sct_ret_queue s)(i := ps)\<rparr>))"

section \<open>Switching the mode\<close>

definition fake_trans :: spi_transaction where
  "fake_trans = trans0\<lparr>tr_flags := SPI_TRANS_USE_RXDATA OR SPI_TRANS_USE_TXDATA, tr_length := 8,
     tr_tx := Bytes [0xff, 0, 0, 0]\<rparr>"

text \<open>
  Of the registers that are set up for the fake transaction and for the mode only the line mode that the hardware layer
  keeps is followed here; the others are in \<open>Spi_Driver_Regs\<close>.
\<close>

definition spi_bus_multi_trans_mode_enable ::
  "handle \<Rightarrow> bool \<Rightarrow> 'a sct_machine_scheme \<Rightarrow> esp_err_t \<times> 'a sct_machine_scheme" where
  "spi_bus_multi_trans_mode_enable handle enable s =
     (case handle of None \<Rightarrow> (ESP_ERR_INVALID_ARG, s)
      | Some i \<Rightarrow>
        if \<not> SOC_SPI_SCT_SUPPORTED_PERIPH (host_id (host s)) then (ESP_ERR_INVALID_ARG, s)
        else if \<not> flag (cfg_flags (devices (host s) i)) SPI_DEVICE_HALFDUPLEX then (ESP_ERR_INVALID_STATE, s)
        else if spi_bus_device_is_polling (host s) i then (ESP_ERR_INVALID_STATE, s)
        else if sct_queue s i \<noteq> [] then (ESP_ERR_INVALID_STATE, s)
        else if enable then
          (case setup_priv_desc (host s) fake_trans s of (err, pr, s1) \<Rightarrow>
             if err \<noteq> ESP_OK then (err, s1)
             else
               let cfg = spi_format_hal_trans_struct (devices (host s1) i) pr (frame_base s1)
               in (ESP_OK, s1\<lparr>hal_line_mode := \<lparr>cmd_lines = hal_cmd_lines cfg, addr_lines = hal_addr_lines cfg,
                     data_lines = hal_data_lines cfg\<rparr>, tx_ring := s_spi_sct_reset_ring (tx_ring s1),
                     rx_ring := s_spi_sct_reset_ring (rx_ring s1), sct_mode_enabled := True\<rparr>))
        else (ESP_OK, s\<lparr>sct_mode_enabled := False\<rparr>))"

text \<open>What the set-up of the buffers of a transaction leaves alone.\<close>

definition same_rest :: "'a sct_machine_scheme \<Rightarrow> 'a sct_machine_scheme \<Rightarrow> bool" where
  "same_rest s s' \<longleftrightarrow> tx_ring s' = tx_ring s \<and> rx_ring s' = rx_ring s \<and> sct_queue s' = sct_queue s \<and> host s' = host s \<and>
     frame_base s' = frame_base s"

lemma same_rest_if: "same_rest s (snd (snd a)) \<Longrightarrow> same_rest s (snd (snd b)) \<Longrightarrow> same_rest s (snd (snd (if c then a else b)))"
  by simp

lemma same_rest_malloc:
  assumes "same_rest s t" "\<And>p t'. same_rest s t' \<Longrightarrow> same_rest s (snd (snd (f p t')))"
  shows "same_rest s (snd (snd (case dma_malloc n t of (p, t') \<Rightarrow> f p t')))"
proof -
  obtain p t' where m: "dma_malloc n t = (p, t')" by fastforce
  then have "same_rest s t'" using assms(1) by (auto simp: dma_malloc_def same_rest_def Let_def split: if_splits)
  then show ?thesis using assms(2) m by simp
qed

lemma same_rest_end:
  "same_rest s s" "same_rest s t \<Longrightarrow> same_rest s (snd (snd (e, p, t)))" "same_rest s t \<Longrightarrow> same_rest s (t\<lparr>mem := m\<rparr>)"
  "same_rest s t \<Longrightarrow> same_rest s (snd (uninstall_priv_desc \<lparr>priv_trans = x, buffer_to_send = Null_ptr, buffer_to_rcv = Null_ptr\<rparr> t))"
  by (auto simp: same_rest_def uninstall_priv_desc_def dma_free_def Let_def)

lemma setup_priv_frame: "setup_priv_desc h t s = (err, pr, s') \<Longrightarrow> same_rest s s'"
proof -
  have "same_rest s (snd (snd (setup_priv_desc h t s)))"
    unfolding setup_priv_desc_def Let_def by (intro same_rest_if same_rest_malloc same_rest_end)
  then show "setup_priv_desc h t s = (err, pr, s') \<Longrightarrow> same_rest s s'" by simp
qed

end
