(* ===== verification/Spi_Segments_Chain.thy ===== *)
theory Spi_Segments_Chain
  imports Spi_Segments "HOL-Library.Sublist"
begin

text \<open>
  What a call of \<open>spi_device_queue_multi_trans\<close> does to the ring for sending: the register images and the buffers
  of the segments are placed one after another, all of them when the call succeeds and the first ones when it fails.
\<close>

section \<open>The chain of a transaction\<close>

text \<open>The segments for sending of a list of segments whose register images start at an address.\<close>

primrec tx_segs :: "u32 \<Rightarrow> spi_multi_transaction list \<Rightarrow> 'a machine_scheme \<Rightarrow> tx_seg list" where
  "tx_segs a [] s = []"
| "tx_segs a (g # gs) s = (a, conf_len, tx_addr g s, byte_len (tr_length (base g))) # tx_segs (a + conf_len) gs s"

lemma tx_segs_frame: "frame_base s' = frame_base s \<Longrightarrow> tx_segs a gs s' = tx_segs a gs s"
  by (induction gs arbitrary: a) (simp_all add: tx_addr_def)

lemma conf_len: "unat conf_len = 60" "conf_len = 60"
  by (simp_all add: conf_len_def SOC_SPI_SCT_BUFFER_NUM_MAX_def)

definition tx_size :: "tx_seg list \<Rightarrow> nat" where
  "tx_size gs = length (concat (map tx_pieces gs))"

lemma tx_need:
  assumes "tx_good (a, cl, buf, len)"
  shows "unat (1 + s_sct_desc_get_required_num len) = length (tx_pieces (a, cl, buf, len))"
proof -
  have r: "unat (s_sct_desc_get_required_num len) = length (pieces buf (unat len) False)" "short len"
    using assms by (simp_all add: tx_good_def required_num)
  have "length (pieces buf (unat len) False) \<le> 2 ^ 20"
    using r(2) by (simp add: pieces_length short_def LLDESC_MAX_NUM_PER_DESC_def)
  then have "unat (1 + s_sct_desc_get_required_num len) = Suc (length (pieces buf (unat len) False))"
    using r(1) by (subst unat_plus_simple [THEN iffD1]) (auto simp: word_le_nat_alt unat_word_ariths)
  moreover have "buf = 0 \<Longrightarrow> len = 0" using assms by (simp add: tx_good_def)
  ultimately show ?thesis by (auto simp: tx_pieces_def tx_chunks_def)
qed

lemma link_tx_room:
  assumes "tx_good (a, cl, buf, len)"
  shows "spi_hal_sct_link_tx_seg_dma_desc a cl buf len r =
    (if unat (free_num r) < length (tx_pieces (a, cl, buf, len)) then None
     else Some (of_nat (length (tx_pieces (a, cl, buf, len))), put_tx (a, cl, buf, len) (link_last r)))"
proof -
  have "1 + s_sct_desc_get_required_num len = of_nat (length (tx_pieces (a, cl, buf, len)))"
    using tx_need [OF assms] by (metis of_nat_unat ucast_id)
  then show ?thesis
    using tx_need [OF assms] by (simp add: spi_hal_sct_link_tx_seg_dma_desc_def put_tx_def word_less_nat_alt Let_def)
qed

lemma head_tx_room:
  assumes "tx_good (a, cl, buf, len)"
  shows "spi_hal_sct_new_tx_dma_desc_head a cl buf len r =
    (if unat (free_num r) < length (tx_pieces (a, cl, buf, len)) then None
     else Some (cur_link r, of_nat (length (tx_pieces (a, cl, buf, len))), put_tx (a, cl, buf, len) r))"
proof -
  have "1 + s_sct_desc_get_required_num len = of_nat (length (tx_pieces (a, cl, buf, len)))"
    using tx_need [OF assms] by (metis of_nat_unat ucast_id)
  then show ?thesis
    using tx_need [OF assms] by (simp add: spi_hal_sct_new_tx_dma_desc_head_def put_tx_def word_less_nat_alt Let_def
        s_sct_prepare_tx_seg_def)
qed

text \<open>What the loop leaves alone.\<close>

definition same_driver :: "'a sct_machine_scheme \<Rightarrow> 'a sct_machine_scheme \<Rightarrow> bool" where
  "same_driver s t \<longleftrightarrow>
     frame_base t = frame_base s \<and> host t = host s \<and> heap_live t = heap_live s \<and> sct_queue t = sct_queue s \<and>
     sct_queue_size t = sct_queue_size s \<and> cur_sct_trans t = cur_sct_trans s \<and> sct_mode_enabled t = sct_mode_enabled s \<and>
     cfg_cs_ena_pretrans t = cfg_cs_ena_pretrans s \<and> cfg_cs_ena_posttrans t = cfg_cs_ena_posttrans s"

lemma same_driver_trans: "same_driver s t \<Longrightarrow> same_driver t u \<Longrightarrow> same_driver s u"
  by (simp add: same_driver_def)

lemma format_frame [simp]:
  "same_driver s (s_sct_format_conf_buffer i seg a l s)" "tx_ring (s_sct_format_conf_buffer i seg a l s) = tx_ring s"
  "rx_ring (s_sct_format_conf_buffer i seg a l s) = rx_ring s"
  by (simp_all add: s_sct_format_conf_buffer_def same_driver_def Let_def)

lemma link_rx_frame [simp]:
  "same_driver s (snd (link_rx seg s))" "tx_ring (snd (link_rx seg s)) = tx_ring s" "mem (snd (link_rx seg s)) = mem s"
  by (auto simp: link_rx_def same_driver_def split: option.split)

lemma link_segments_Cons:
  assumes "link_segments i a (g # gs) txn rxn s = (err, txn', rxn', s')"
  defines "s1 \<equiv> s_sct_format_conf_buffer i g a (gs = []) s"
  obtains (full) "spi_hal_sct_link_tx_seg_dma_desc a conf_len (tx_addr g s) (byte_len (tr_length (base g))) (tx_ring s) = None"
      "err = ESP_ERR_INVALID_STATE" "s' = s1" "txn' = txn" "rxn' = rxn"
  | (more) n r m s2 where
      "spi_hal_sct_link_tx_seg_dma_desc a conf_len (tx_addr g s) (byte_len (tr_length (base g))) (tx_ring s) = Some (n, r)"
      "link_rx g (s1\<lparr>tx_ring := r\<rparr>) = (m, s2)" "same_driver s s2" "tx_ring s2 = r" "mem s2 = mem s1"
      "link_segments i (a + conf_len) gs (txn + n) (rxn + m) s2 = (err, txn', rxn', s')"
proof -
  have s1: "same_driver s s1" "tx_ring s1 = tx_ring s" by (simp_all add: s1_def)
  then have t: "tx_addr g s1 = tx_addr g s" by (simp add: same_driver_def tx_addr_def)
  show ?thesis
  proof (cases "spi_hal_sct_link_tx_seg_dma_desc a conf_len (tx_addr g s) (byte_len (tr_length (base g))) (tx_ring s)")
    case None
    then show ?thesis using assms(1) full s1 t by (simp add: s1_def [symmetric])
  next
    case (Some nr)
    obtain n r where nr: "nr = (n, r)" by fastforce
    obtain m s2 where r: "link_rx g (s1\<lparr>tx_ring := r\<rparr>) = (m, s2)" by fastforce
    have "same_driver s s2" "tx_ring s2 = r" "mem s2 = mem s1"
      using link_rx_frame [where s = "s1\<lparr>tx_ring := r\<rparr>" and seg = g] s1 r by (simp_all add: same_driver_def)
    then show ?thesis using assms(1) more Some nr r s1 t by (simp add: s1_def [symmetric])
  qed
qed

lemma link_segments_frame: "link_segments i a gs txn rxn s = (err, txn', rxn', s') \<Longrightarrow> same_driver s s'"
proof (induction gs arbitrary: a txn rxn s)
  case (Cons g gs)
  from Cons.prems show ?case
    by (cases rule: link_segments_Cons) (auto intro: same_driver_trans Cons.IH)
qed (simp add: same_driver_def)

text \<open>The ring for sending after the loop: the segments so far are placed from where the transaction started.\<close>

lemma link_segments_placed:
  assumes "link_segments i a gs txn rxn s = (err, txn', rxn', s')" "placed False r0 p cs (tx_ring s)" "cs \<noteq> []"
    and "unat (free_num r0) \<le> length (descs r0)" "length cs \<le> unat (free_num r0)" "\<forall>g \<in> set (tx_segs a gs s). tx_good g"
  shows "\<exists>d. prefix d (tx_segs a gs s) \<and> placed False r0 p (cs @ concat (map tx_pieces d)) (tx_ring s') \<and>
    length cs + tx_size d \<le> unat (free_num r0) \<and>
    (err = ESP_OK \<longrightarrow> d = tx_segs a gs s \<and> txn' = txn + of_nat (tx_size d))"
  using assms
proof (induction gs arbitrary: a txn rxn s cs)
  case Nil
  then show ?case by (simp add: tx_size_def)
next
  case (Cons g gs)
  let ?g = "(a, conf_len, tx_addr g s, byte_len (tr_length (base g)))"
  have good: "tx_good ?g" using Cons.prems(6) by simp
  have free: "unat (free_num (tx_ring s)) = unat (free_num r0) - length cs" using Cons.prems(2) by (simp add: placed_def)
  from Cons.prems(1) show ?case
  proof (cases rule: link_segments_Cons)
    case full
    then show ?thesis using Cons.prems by (intro exI [of _ "[]"]) (simp add: tx_size_def)
  next
    case (more n r m s2)
    have room: "length (tx_pieces ?g) \<le> unat (free_num (tx_ring s))" and n: "n = of_nat (length (tx_pieces ?g))"
      and r: "r = put_tx ?g (link_last (tx_ring s))"
      using more(1) link_tx_room [OF good, of "tx_ring s"] by (auto split: if_splits)
    have "placed False r0 p (cs @ tx_pieces ?g) (tx_ring s2)"
      using tx_side.placed_link [OF Cons.prems(2,3) good] Cons.prems(4,5) room free more(4) r by simp
    moreover have segs: "tx_segs b gs s2 = tx_segs b gs s" for b
      using more(3) by (intro tx_segs_frame) (simp add: same_driver_def)
    moreover have "length (cs @ tx_pieces ?g) \<le> unat (free_num r0)" "cs @ tx_pieces ?g \<noteq> []"
      using room free Cons.prems(3,5) by simp_all
    ultimately obtain d where d: "prefix d (tx_segs (a + conf_len) gs s)"
        "placed False r0 p ((cs @ tx_pieces ?g) @ concat (map tx_pieces d)) (tx_ring s')"
        "length (cs @ tx_pieces ?g) + tx_size d \<le> unat (free_num r0)"
        "err = ESP_OK \<longrightarrow> d = tx_segs (a + conf_len) gs s \<and> txn' = (txn + n) + of_nat (tx_size d)"
      using Cons.IH [OF more(6), of "cs @ tx_pieces ?g"] Cons.prems(4,6) by auto
    then show ?thesis
      by (intro exI [of _ "?g # d"]) (auto simp: tx_size_def n add.assoc)
  qed
qed

section \<open>A call of the driver\<close>

lemma check_all_valid_segs:
  "check_all_valid h (Some i) gs = (ESP_OK, gs') \<Longrightarrow>
   length gs' = length gs \<and> (\<forall>g \<in> set gs'. unat (tr_length (base g)) \<le> 0x40000)"
proof (induction gs arbitrary: gs')
  case (Cons g gs)
  obtain t where t: "check_trans_valid h (Some i) (base g) = (ESP_OK, t)"
    using Cons.prems by (auto split: prod.splits if_splits)
  have "unat (tr_length t) \<le> 0x40000"
    using t by (auto simp: check_trans_valid_def SPI_LL_DMA_MAX_BIT_LEN_def SPI_LL_CPU_MAX_BIT_LEN_def Let_def word_le_nat_alt
        split: if_splits)
  then show ?case using Cons t by (auto split: prod.splits if_splits)
qed simp

lemma short_byte_len: "unat n \<le> 0x40000 \<Longrightarrow> short (byte_len n)"
proof -
  assume n: "unat n \<le> 0x40000"
  then have "unat (n + 7) = unat n + 7"
    by (subst unat_plus_simple [THEN iffD1]) (auto simp: word_le_nat_alt unat_word_ariths)
  then show ?thesis using n by (simp add: short_def byte_len_def unat_div)
qed

lemma byte_len_0: "unat n \<le> 0x40000 \<Longrightarrow> byte_len n = 0 \<longleftrightarrow> n = 0"
proof -
  assume n: "unat n \<le> 0x40000"
  then have "unat (n + 7) = unat n + 7"
    by (subst unat_plus_simple [THEN iffD1]) (auto simp: word_le_nat_alt unat_word_ariths)
  then have "unat (byte_len n) = (unat n + 7) div 8" by (simp add: byte_len_def unat_div)
  then show ?thesis by (auto simp: unat_eq_0 [symmetric])
qed

text \<open>What a caller has to see to: a segment without a buffer for sending has no bits for sending.\<close>

definition sends_ok :: "'a machine_scheme \<Rightarrow> spi_multi_transaction list \<Rightarrow> bool" where
  "sends_ok s gs \<longleftrightarrow> (\<forall>g \<in> set gs. tx_addr g s = 0 \<longrightarrow> tr_length (base g) = 0)"

lemma tx_segs_good:
  "sends_ok s gs \<Longrightarrow> \<forall>g \<in> set gs. unat (tr_length (base g)) \<le> 0x40000 \<Longrightarrow> \<forall>g \<in> set (tx_segs a gs s). tx_good g"
  by (induction gs arbitrary: a)
    (auto simp: sends_ok_def tx_good_def conf_len LLDESC_MAX_NUM_PER_DESC_def short_byte_len byte_len_0)

definition sct_item :: "nat option \<Rightarrow> nat option \<Rightarrow> spi_multi_transaction list \<Rightarrow> u32 \<Rightarrow> u32 \<Rightarrow> u32 \<Rightarrow> spi_sct_trans_priv" where
  "sct_item th rh segs conf txn rxn = \<lparr>tx_seg_head = th, rx_seg_head = rh, sct_trans_desc_head = segs,
     sct_conf_buffer = conf, tx_used_desc_num = ucast txn, rx_used_desc_num = ucast rxn\<rparr>"

lemma queue_cases:
  assumes "spi_device_queue_multi_trans (Some i) g gs s = (err, segs', s')"
  obtains (early) "err \<noteq> ESP_OK" "tx_ring s' = tx_ring s" "rx_ring s' = rx_ring s" "sct_queue s' = sct_queue s"
      "frame_base s' = frame_base s" "host s' = host s" "cur_sct_trans s' = cur_sct_trans s"
  | (built) conf s1 where "dma_malloc (of_nat (length (g # gs)) * conf_len) s = (conf, s1)" "conf \<noteq> 0"
      "check_all_valid (host s) (Some i) (g # gs) = (ESP_OK, segs')" "build_and_send i conf segs' s1 = (err, s')"
proof -
  obtain conf s1 where m: "dma_malloc (of_nat (length (g # gs)) * conf_len) s = (conf, s1)" by fastforce
  have s1: "tx_ring s1 = tx_ring s" "rx_ring s1 = rx_ring s" "sct_queue s1 = sct_queue s" "frame_base s1 = frame_base s"
      "host s1 = host s" "cur_sct_trans s1 = cur_sct_trans s"
    using m by (auto simp: dma_malloc_def Let_def split: if_splits)
  obtain e segs where c: "check_all_valid (host s) (Some i) (g # gs) = (e, segs)" by fastforce
  obtain e2 s2 where b: "build_and_send i conf segs s1 = (e2, s2)" by fastforce
  have eq: "spi_device_queue_multi_trans (Some i) g gs s =
      (if \<not> SOC_SPI_SCT_SUPPORTED_PERIPH (host_id (host s)) then (ESP_ERR_INVALID_ARG, g # gs, s)
       else if \<not> sct_mode_enabled s then (ESP_ERR_INVALID_STATE, g # gs, s)
       else if conf = 0 then (ESP_ERR_NO_MEM, g # gs, s1)
       else if e \<noteq> ESP_OK then (e, segs, s1)
       else if spi_bus_device_is_polling (host s) i then (ESP_ERR_INVALID_STATE, segs, s1)
       else (e2, segs, s2))"
    using m c b s1(5) by (simp add: spi_device_queue_multi_trans_def del: check_all_valid.simps)
  have "err \<noteq> ESP_OK \<and> (s' = s \<or> s' = s1) \<or> conf \<noteq> 0 \<and> e = ESP_OK \<and> segs = segs' \<and> e2 = err \<and> s2 = s'"
    using assms unfolding eq by (auto split: if_splits)
  then show ?thesis using early built [OF m] c b s1 by metis
qed

lemma build_cases:
  assumes "build_and_send i conf segs s = (err, s')"
  obtains e th txn rh rxn s2 where
      "head_segment i conf (hd segs) (tl segs = []) (s_sct_init_conf_buffer conf (length segs) s) = (e, th, txn, rh, rxn, s2)"
      "e \<noteq> ESP_OK" "err = e" "s' = s2"
  | e th txn rh rxn s2 txn' rxn' where
      "head_segment i conf (hd segs) (tl segs = []) (s_sct_init_conf_buffer conf (length segs) s) = (ESP_OK, th, txn, rh, rxn, s2)"
      "link_segments i (conf + conf_len) (tl segs) txn rxn s2 = (e, txn', rxn', s')" "e \<noteq> ESP_OK" "err = e"
  | th txn rh rxn s2 txn' rxn' s3 where
      "head_segment i conf (hd segs) (tl segs = []) (s_sct_init_conf_buffer conf (length segs) s) = (ESP_OK, th, txn, rh, rxn, s2)"
      "link_segments i (conf + conf_len) (tl segs) txn rxn s2 = (ESP_OK, txn', rxn', s3)"
      "send_sct i (sct_item th rh segs conf txn' rxn') s3 = (err, s')"
  using assms unfolding build_and_send_def Let_def
  by (auto simp: sct_item_def split: prod.splits if_splits)

lemma init_frame [simp]: "same_driver s (s_sct_init_conf_buffer a n s)" "tx_ring (s_sct_init_conf_buffer a n s) = tx_ring s"
  "rx_ring (s_sct_init_conf_buffer a n s) = rx_ring s"
  by (simp_all add: s_sct_init_conf_buffer_def same_driver_def)

lemma head_placed:
  fixes s :: "'a sct_machine_scheme" and conf :: u32 and g :: spi_multi_transaction
  defines "r0 \<equiv> tx_ring s" and "seg \<equiv> (conf, conf_len, tx_addr g s, byte_len (tr_length (base g)))"
  assumes h: "head_segment i conf g l s = (e, th, txn, rh, rxn, s')" and good: "tx_good seg"
    and cur: "cur_link r0 = p mod length (descs r0)" "unat (free_num r0) \<le> length (descs r0)"
  shows "same_driver s s'"
    "tx_ring s' = r0 \<and> e \<noteq> ESP_OK \<or>
     placed False r0 p (tx_pieces seg) (tx_ring s') \<and> length (tx_pieces seg) \<le> unat (free_num r0) \<and>
       th = Some (cur_link r0) \<and> txn = of_nat (tx_size [seg])"
proof -
  define s1 where "s1 = s_sct_format_conf_buffer i g conf l s"
  have s1: "same_driver s s1" "tx_ring s1 = r0" by (simp_all add: s1_def r0_def)
  then have t: "tx_addr g s1 = tx_addr g s" by (simp add: same_driver_def tx_addr_def)
  have "same_driver s s' \<and> (tx_ring s' = r0 \<and> e \<noteq> ESP_OK \<or> placed False r0 p (tx_pieces seg) (tx_ring s') \<and>
      length (tx_pieces seg) \<le> unat (free_num r0) \<and> th = Some (cur_link r0) \<and> txn = of_nat (tx_size [seg]))"
  proof (cases "unat (free_num r0) < length (tx_pieces seg)")
    case True
    then show ?thesis
      using h s1 head_tx_room [OF good [unfolded seg_def], of r0]
      by (simp add: head_segment_def s1_def [symmetric] t seg_def [symmetric] Let_def)
  next
    case False
    then have "placed False r0 p (tx_pieces seg) (put_tx seg r0)"
      by (intro tx_side.placing good cur) simp
    then show ?thesis
      using h s1 head_tx_room [OF good [unfolded seg_def], of r0] False
      by (auto simp: head_segment_def s1_def [symmetric] t seg_def [symmetric] Let_def same_driver_def tx_size_def
          split: if_splits option.splits)
  qed
  then show "same_driver s s'" "tx_ring s' = r0 \<and> e \<noteq> ESP_OK \<or>
     placed False r0 p (tx_pieces seg) (tx_ring s') \<and> length (tx_pieces seg) \<le> unat (free_num r0) \<and>
       th = Some (cur_link r0) \<and> txn = of_nat (tx_size [seg])" by auto
qed

text \<open>What a call does to the ring for sending and to the queues.\<close>

definition same_in_flight :: "'a sct_machine_scheme \<Rightarrow> 'a sct_machine_scheme \<Rightarrow> bool" where
  "same_in_flight s t \<longleftrightarrow> frame_base t = frame_base s \<and> cur_sct_trans t = cur_sct_trans s \<and> cur_cs (host t) = cur_cs (host s) \<and>
     devices (host t) = devices (host s)"

lemma build_placed:
  fixes s :: "'a sct_machine_scheme"
  defines "r0 \<equiv> tx_ring s"
  assumes b: "build_and_send i conf segs s = (err, s')" and ne: "segs \<noteq> []" and good: "\<forall>g \<in> set (tx_segs conf segs s). tx_good g"
    and cur: "cur_link r0 = p mod length (descs r0)" "unat (free_num r0) \<le> length (descs r0)"
  shows "same_in_flight s s'"
    and "tx_ring s' = r0 \<and> err \<noteq> ESP_OK \<or>
      (\<exists>d. prefix d (tx_segs conf segs s) \<and> d \<noteq> [] \<and> placed False r0 p (concat (map tx_pieces d)) (tx_ring s') \<and>
        tx_size d \<le> unat (free_num r0) \<and> (err = ESP_OK \<longrightarrow> d = tx_segs conf segs s))"
    and "if err = ESP_OK then \<exists>rh rxn. sct_queue s' = (sct_queue s)(i := sct_queue s i @
        [sct_item (Some (cur_link r0)) rh segs conf (of_nat (tx_size (tx_segs conf segs s))) rxn])
      else sct_queue s' = sct_queue s"
proof -
  obtain g gs where segs: "segs = g # gs" using ne by (cases segs) auto
  let ?seg = "(conf, conf_len, tx_addr g s, byte_len (tr_length (base g)))"
  let ?s1 = "s_sct_init_conf_buffer conf (length segs) s"
  have s1: "same_driver s ?s1" "tx_ring ?s1 = r0" by (simp_all add: r0_def)
  then have t: "tx_addr g ?s1 = tx_addr g s" by (simp add: same_driver_def tx_addr_def)
  have gd: "tx_good ?seg" "\<forall>g \<in> set (tx_segs (conf + conf_len) gs s). tx_good g" using good by (simp_all add: segs)
  note head = head_placed [where s = ?s1 and conf = conf and p = p and g = g, unfolded t s1(2), OF _ gd(1) cur]
  have one: "prefix [?seg] (tx_segs conf segs s)" by (simp add: segs)
  have link: "same_driver ?s1 s4 \<and> (\<exists>d. prefix d (tx_segs conf segs s) \<and> d \<noteq> [] \<and> placed False r0 p (concat (map tx_pieces d)) (tx_ring s4) \<and>
        tx_size d \<le> unat (free_num r0) \<and> (e = ESP_OK \<longrightarrow> d = tx_segs conf segs s \<and> txn' = of_nat (tx_size d)) \<and> th = Some (cur_link r0))"
    if h: "head_segment i conf (hd segs) (tl segs = []) ?s1 = (ESP_OK, th, txn, rh, rxn, s3)"
      and l: "link_segments i (conf + conf_len) (tl segs) txn rxn s3 = (e, txn', rxn', s4)" for th txn rh rxn s3 e txn' rxn' s4
  proof -
    have h': "same_driver ?s1 s3" "placed False r0 p (tx_pieces ?seg) (tx_ring s3)" "length (tx_pieces ?seg) \<le> unat (free_num r0)"
        "th = Some (cur_link r0)" "txn = of_nat (tx_size [?seg])"
      using head [of i "tl segs = []" ESP_OK th txn rh rxn s3] h by (simp_all add: segs)
    have "tx_segs b gs s3 = tx_segs b gs s" for b
      using same_driver_trans [OF s1(1) h'(1)] by (intro tx_segs_frame) (simp add: same_driver_def)
    moreover have "tx_pieces ?seg \<noteq> []" by (simp add: tx_pieces_def tx_chunks_def)
    ultimately obtain d where d: "prefix d (tx_segs (conf + conf_len) gs s)"
        "placed False r0 p (tx_pieces ?seg @ concat (map tx_pieces d)) (tx_ring s4)" "length (tx_pieces ?seg) + tx_size d \<le> unat (free_num r0)"
        "e = ESP_OK \<longrightarrow> d = tx_segs (conf + conf_len) gs s \<and> txn' = txn + of_nat (tx_size d)"
      using link_segments_placed [OF l h'(2) _ cur(2) h'(3)] gd(2) by (auto simp: segs)
    then show ?thesis
      using link_segments_frame [OF l] h' same_driver_trans
      by (intro conjI exI [of _ "?seg # d"]) (auto simp: segs tx_size_def)
  qed
  have all: "same_in_flight s s' \<and> (tx_ring s' = r0 \<and> err \<noteq> ESP_OK \<or>
      (\<exists>d. prefix d (tx_segs conf segs s) \<and> d \<noteq> [] \<and> placed False r0 p (concat (map tx_pieces d)) (tx_ring s') \<and>
        tx_size d \<le> unat (free_num r0) \<and> (err = ESP_OK \<longrightarrow> d = tx_segs conf segs s))) \<and>
      (if err = ESP_OK then \<exists>rh rxn. sct_queue s' = (sct_queue s)(i := sct_queue s i @
          [sct_item (Some (cur_link r0)) rh segs conf (of_nat (tx_size (tx_segs conf segs s))) rxn])
        else sct_queue s' = sct_queue s)"
    using b
  proof (cases rule: build_cases)
    case (1 e th txn rh rxn s2)
    have h: "same_driver ?s1 s2" "tx_ring s2 = r0 \<or> placed False r0 p (tx_pieces ?seg) (tx_ring s2) \<and> tx_size [?seg] \<le> unat (free_num r0)"
      using head [of i "tl segs = []" e th txn rh rxn s2] 1(1) by (auto simp: segs tx_size_def)
    then have "same_in_flight s s'" "sct_queue s' = sct_queue s"
      using same_driver_trans [OF s1(1) h(1)] 1(4) by (simp_all add: same_driver_def same_in_flight_def)
    then show ?thesis using h(2) one 1(2-4) by auto
  next
    case (2 e th txn rh rxn s2 txn' rxn')
    note l = link [OF 2(1,2)]
    then have "same_in_flight s s'" "sct_queue s' = sct_queue s"
      using same_driver_trans [OF s1(1)] by (auto simp: same_driver_def same_in_flight_def)
    then show ?thesis using l 2(3,4) by auto
  next
    case (3 th txn rh rxn s2 txn' rxn' s3)
    note l = link [OF 3(1,2)]
    have d: "same_driver s s3" using l same_driver_trans [OF s1(1)] by blast
    have "same_in_flight s s'" "tx_ring s' = tx_ring s3" "err = ESP_OK \<or> err = ESP_ERR_TIMEOUT"
        "sct_queue s' = (if err = ESP_OK then (sct_queue s)(i := sct_queue s i @ [sct_item th rh segs conf txn' rxn']) else sct_queue s)"
      using 3(3) d by (auto simp: send_sct_def same_driver_def same_in_flight_def set_host_def split: if_splits)
    then show ?thesis using l by auto
  qed
  then show "same_in_flight s s'" "tx_ring s' = r0 \<and> err \<noteq> ESP_OK \<or>
      (\<exists>d. prefix d (tx_segs conf segs s) \<and> d \<noteq> [] \<and> placed False r0 p (concat (map tx_pieces d)) (tx_ring s') \<and>
        tx_size d \<le> unat (free_num r0) \<and> (err = ESP_OK \<longrightarrow> d = tx_segs conf segs s))"
    "if err = ESP_OK then \<exists>rh rxn. sct_queue s' = (sct_queue s)(i := sct_queue s i @
          [sct_item (Some (cur_link r0)) rh segs conf (of_nat (tx_size (tx_segs conf segs s))) rxn])
        else sct_queue s' = sct_queue s" by auto
qed


end
