(* ===== verification/Spi_Segments_Queue.thy ===== *)
theory Spi_Segments_Queue
  imports Spi_Segments_Chain
begin

text \<open>
  The result of \<open>spi_device_queue_multi_trans\<close>: when it succeeds and what it then leaves in memory, a register image
  for each segment that says what the segment is; and what it leaves behind when it fails.
\<close>

section \<open>Words in memory\<close>

lemma load_words_Suc: "load_words m a (Suc n) = load_word m a # load_words m (a + 4) n"
  by (simp add: load_words_def upt_conv_Cons map_Suc_upt [symmetric] add.assoc del: upt_Suc)

lemma store_words_Cons: "store_words m a (w # ws) = store_words (store m a (word_bytes w)) (a + 4) ws"
  by (simp add: store_words_def word_bytes_def add.assoc)

lemma length_word_bytes: "length (concat (map word_bytes ws)) = 4 * length ws"
  by (induction ws) (simp_all add: word_bytes_def)

text \<open>Addresses as offsets from a block.\<close>

lemma offset_inj: "c + of_nat j = c + of_nat k \<Longrightarrow> j < 2 ^ 32 \<Longrightarrow> k < 2 ^ 32 \<Longrightarrow> j = k" for c :: u32
  by (simp add: word_of_nat_eq_iff take_bit_nat_eq_self)

lemma store_words_outside:
  fixes c :: u32
  assumes "k < lo \<or> lo + 4 * length ws \<le> k" "k < 2 ^ 32" "lo + 4 * length ws \<le> 2 ^ 32"
  shows "store_words m (c + of_nat lo) ws (c + of_nat k) = m (c + of_nat k)"
  unfolding store_words_def
proof (rule store_outside)
  fix i
  assume i: "i < length (concat (map word_bytes ws))"
  then have "i < 4 * length ws" by (simp add: length_word_bytes)
  then have "k \<noteq> lo + i" "lo + i < 2 ^ 32" using assms by auto
  then show "c + of_nat k \<noteq> c + of_nat lo + of_nat i"
    using offset_inj [of c k "lo + i"] assms(2) by (auto simp: add.assoc)
qed

lemma load_words_cong:
  "(\<And>k. lo \<le> k \<Longrightarrow> k < lo + 4 * n \<Longrightarrow> m' (c + of_nat k) = m (c + of_nat k)) \<Longrightarrow>
   load_words m' (c + of_nat lo) n = load_words m (c + of_nat lo) n" for c :: u32
proof (induction n arbitrary: lo)
  case (Suc n)
  have "load_words m' (c + of_nat (lo + 4)) n = load_words m (c + of_nat (lo + 4)) n"
    using Suc.prems by (intro Suc.IH) simp
  moreover have "m' (c + of_nat lo + of_nat j) = m (c + of_nat lo + of_nat j)" if "j < 4" for j
    using Suc.prems [of "lo + j"] that by (simp add: add.assoc)
  from this [of 0] this [of 1] this [of 2] this [of 3]
  have "load_word m' (c + of_nat lo) = load_word m (c + of_nat lo)" by (simp add: load_word_def)
  ultimately show ?case by (simp add: load_words_Suc add.assoc)
qed (simp add: load_words_def)

lemma word_join: "ucast (ucast w :: u8) OR push_bit 8 (ucast (ucast (drop_bit 8 w) :: u8)) OR
    push_bit 16 (ucast (ucast (drop_bit 16 w) :: u8)) OR push_bit 24 (ucast (ucast (drop_bit 24 w) :: u8)) = w" for w :: u32
proof (rule bit_word_eqI)
  fix n
  assume "n < LENGTH(32)"
  then consider "n < 8" | "8 \<le> n" "n < 16" | "16 \<le> n" "n < 24" | "24 \<le> n" "n < 32" by fastforce
  then show "bit (ucast (ucast w :: u8) OR push_bit 8 (ucast (ucast (drop_bit 8 w) :: u8)) OR
    push_bit 16 (ucast (ucast (drop_bit 16 w) :: u8)) OR push_bit 24 (ucast (ucast (drop_bit 24 w) :: u8)) :: u32) n = bit w n"
    by cases (auto simp: bit_simps)
qed

lemma load_word_bytes: "load_word (store m a (word_bytes w)) a = w"
  by (simp add: load_word_def word_bytes_def word_join add.assoc)

lemma load_store_words:
  fixes c :: u32
  shows "lo + 4 * length ws \<le> 2 ^ 32 \<Longrightarrow> load_words (store_words m (c + of_nat lo) ws) (c + of_nat lo) (length ws) = ws"
proof (induction ws arbitrary: lo m)
  case (Cons w ws)
  let ?m = "store m (c + of_nat lo) (word_bytes w)"
  have "load_words (store_words ?m (c + of_nat (lo + 4)) ws) (c + of_nat (lo + 4)) (length ws) = ws"
    using Cons.prems by (intro Cons.IH) simp
  moreover have "load_words (store_words ?m (c + of_nat (lo + 4)) ws) (c + of_nat lo) 1 = load_words ?m (c + of_nat lo) 1"
    using Cons.prems by (intro load_words_cong store_words_outside) auto
  then have "load_word (store_words ?m (c + of_nat (lo + 4)) ws) (c + of_nat lo) = w"
    using load_word_bytes [of m "c + of_nat lo" w] by (simp add: load_words_def)
  ultimately show ?case by (simp add: load_words_Suc store_words_Cons add.assoc)
qed (simp add: load_words_def)

section \<open>The register images of a call\<close>

definition seg_image :: "nat \<Rightarrow> spi_multi_transaction \<Rightarrow> bool \<Rightarrow> 'a sct_machine_scheme \<Rightarrow> u32 list \<Rightarrow> u32 list" where
  "seg_image i g l s b = spi_hal_sct_format_conf_buffer (spi_sct_set_hal_trans_config g) (seg_config i g l s)
     (flag (cfg_flags (devices (host s) i)) SPI_DEVICE_TXBIT_LSBFIRST) (flag (cfg_flags (devices (host s) i)) SPI_DEVICE_RXBIT_LSBFIRST) b"

lemma format_mem: "mem (s_sct_format_conf_buffer i g a l s) = store_words (mem s) a (seg_image i g l s (load_words (mem s) a 15))"
  by (simp add: s_sct_format_conf_buffer_def seg_image_def Let_def SOC_SPI_SCT_BUFFER_NUM_MAX_def)

lemma seg_image_frame: "same_driver s t \<Longrightarrow> seg_image i g l t = seg_image i g l s"
  by (rule ext) (simp add: seg_image_def seg_config_def same_driver_def Let_def)

lemma length_seg_image [simp]: "length (seg_image i g l s b) = length b"
  by (simp add: seg_image_def)

text \<open>The memory after the images of some segments, from an address on.\<close>

primrec formatted :: "nat \<Rightarrow> u32 \<Rightarrow> spi_multi_transaction list \<Rightarrow> 'a sct_machine_scheme \<Rightarrow> (u32 \<Rightarrow> u8) \<Rightarrow> (u32 \<Rightarrow> u8)" where
  "formatted i a [] s m = m"
| "formatted i a (g # gs) s m =
     formatted i (a + conf_len) gs s (store_words m a (seg_image i g (gs = []) s (load_words m a 15)))"

lemma formatted_frame: "same_driver s t \<Longrightarrow> formatted i a gs t m = formatted i a gs s m"
  by (induction gs arbitrary: a m) (simp_all add: seg_image_frame)

lemma link_segments_mem: "link_segments i a gs txn rxn s = (ESP_OK, txn', rxn', s') \<Longrightarrow> mem s' = formatted i a gs s (mem s)"
proof (induction gs arbitrary: a txn rxn s)
  case (Cons g gs)
  from Cons.prems show ?case
  proof (cases rule: link_segments_Cons)
    case (more n r m s2)
    then show ?thesis using Cons.IH [OF more(6)] formatted_frame [OF more(3)] by (simp add: format_mem)
  qed simp
qed simp

lemma length_load_words [simp]: "length (load_words m a n) = n"
  by (simp add: load_words_def)

lemma formatted_outside:
  "k < 60 * j \<Longrightarrow> 60 * (j + length gs) \<le> 2 ^ 32 \<Longrightarrow>
   formatted i (c + of_nat (60 * j)) gs s m (c + of_nat k) = m (c + of_nat k)"
proof (induction gs arbitrary: j m)
  case (Cons g gs)
  have step: "c + of_nat (60 * j) + conf_len = c + of_nat (60 * Suc j)" by (simp add: conf_len(2))
  have "store_words m (c + of_nat (60 * j)) (seg_image i g (gs = []) s (load_words m (c + of_nat (60 * j)) 15)) (c + of_nat k) = m (c + of_nat k)"
    using Cons.prems by (intro store_words_outside) auto
  then show ?case using Cons.IH [of "Suc j"] Cons.prems unfolding formatted.simps step by simp
qed simp

lemma formatted_words:
  "k < length gs \<Longrightarrow> 60 * (j + length gs) \<le> 2 ^ 32 \<Longrightarrow>
   load_words (formatted i (c + of_nat (60 * j)) gs s m) (c + of_nat (60 * (j + k))) 15 =
   seg_image i (gs ! k) (Suc k = length gs) s (load_words m (c + of_nat (60 * (j + k))) 15)"
proof (induction gs arbitrary: j k m)
  case (Cons g gs)
  let ?a = "c + of_nat (60 * j)"
  let ?m = "store_words m ?a (seg_image i g (gs = []) s (load_words m ?a 15))"
  have step: "?a + conf_len = c + of_nat (60 * Suc j)" by (simp add: conf_len(2))
  show ?case
  proof (cases k)
    case 0
    have "load_words (formatted i (c + of_nat (60 * Suc j)) gs s ?m) ?a 15 = load_words ?m ?a 15"
      using Cons.prems by (intro load_words_cong formatted_outside) auto
    also have "\<dots> = seg_image i g (gs = []) s (load_words m ?a 15)"
      using load_store_words [of "60 * j" "seg_image i g (gs = []) s (load_words m ?a 15)" m c] Cons.prems by simp
    finally show ?thesis unfolding formatted.simps step using 0 by auto
  next
    case (Suc k')
    have "load_words ?m (c + of_nat (60 * (Suc j + k'))) 15 = load_words m (c + of_nat (60 * (Suc j + k'))) 15"
      using Cons.prems Suc by (intro load_words_cong store_words_outside) auto
    moreover have "load_words (formatted i (c + of_nat (60 * Suc j)) gs s ?m) (c + of_nat (60 * (Suc j + k'))) 15 =
        seg_image i (gs ! k') (Suc k' = length gs) s (load_words ?m (c + of_nat (60 * (Suc j + k'))) 15)"
      using Cons.prems Suc by (intro Cons.IH) simp_all
    ultimately show ?thesis unfolding formatted.simps step using Suc by simp
  qed
qed simp

lemma nth_replicated: "k < n \<Longrightarrow> j < length b \<Longrightarrow> concat (replicate n b) ! (length b * k + j) = b ! j"
proof (induction n arbitrary: k)
  case (Suc n)
  then show ?case by (cases k) (simp_all add: nth_append add.assoc)
qed simp

lemma init_words:
  assumes "k < n" "60 * n \<le> 2 ^ 32"
  shows "load_words (mem (s_sct_init_conf_buffer c n s)) (c + of_nat (60 * k)) 15 = spi_ll_init_conf_buffer (hw_regs s)"
proof -
  let ?b = "spi_ll_init_conf_buffer (hw_regs s)" and ?m = "mem (s_sct_init_conf_buffer c n s)"
  have len: "length ?b = 15" by (simp add: spi_ll_init_conf_buffer_def)
  then have all: "length (concat (replicate n ?b)) = 15 * n" by (simp add: length_concat sum_list_replicate)
  then have w: "load_words ?m c (15 * n) = concat (replicate n ?b)"
    using load_store_words [of 0 "concat (replicate n ?b)" "mem s" c] assms by (simp add: s_sct_init_conf_buffer_def)
  show ?thesis
  proof (rule nth_equalityI)
    fix j
    assume "j < length (load_words ?m (c + of_nat (60 * k)) 15)"
    then have j: "j < 15" by simp
    have "15 * Suc k \<le> 15 * n" using assms(1) by (intro mult_le_mono2) simp
    then have "15 * k + j < 15 * n" using j by simp
    then have "load_word ?m (c + of_nat (4 * (15 * k + j))) = concat (replicate n ?b) ! (15 * k + j)"
      using arg_cong [OF w, of "\<lambda>ws. ws ! (15 * k + j)"] by (simp add: load_words_def)
    then have "load_word ?m (c + of_nat (4 * (15 * k + j))) = ?b ! j"
      using nth_replicated [of k n j ?b] assms j len by simp
    then show "load_words ?m (c + of_nat (60 * k)) 15 ! j = ?b ! j"
      using j by (simp add: load_words_def add.assoc distrib_left)
  qed (simp add: len)
qed

lemma head_mem: "head_segment i a g l s = (e, th, txn, rh, rxn, s') \<Longrightarrow>
   mem s' = store_words (mem s) a (seg_image i g l s (load_words (mem s) a 15))"
  by (auto simp: head_segment_def format_mem Let_def split: option.splits if_splits prod.splits)

lemma head_frame:
  assumes "head_segment i a g l s = (e, th, txn, rh, rxn, s')"
  shows "same_driver s s'"
proof -
  define s1 where "s1 = s_sct_format_conf_buffer i g a l s"
  have "same_driver s s1" by (simp add: s1_def)
  then show ?thesis
    using assms by (auto simp: head_segment_def s1_def [symmetric] Let_def same_driver_def split: option.splits if_splits prod.splits)
qed

lemma send_mem: "send_sct i p s = (e, s') \<Longrightarrow> mem s' = mem s"
  by (auto simp: send_sct_def split: if_splits)

lemma build_mem:
  assumes b: "build_and_send i conf segs s = (ESP_OK, s')" and ne: "segs \<noteq> []"
  shows "mem s' = formatted i conf segs s (mem (s_sct_init_conf_buffer conf (length segs) s))"
proof -
  obtain g gs where segs: "segs = g # gs" using ne by (cases segs) auto
  let ?s1 = "s_sct_init_conf_buffer conf (length segs) s"
  obtain th txn rh rxn s2 txn' rxn' s3 where
    h: "head_segment i conf g (gs = []) ?s1 = (ESP_OK, th, txn, rh, rxn, s2)"
    and l: "link_segments i (conf + conf_len) gs txn rxn s2 = (ESP_OK, txn', rxn', s3)"
    and p: "mem s' = mem s3"
    using b by (cases rule: build_cases) (auto simp: segs dest: send_mem)
  have fr: "same_driver ?s1 s2" using h by (rule head_frame)
  have f: "formatted i a gs s2 m = formatted i a gs s m" for a m
    using formatted_frame [OF same_driver_trans [OF init_frame(1) fr]] by simp
  show ?thesis
    using p link_segments_mem [OF l] head_mem [OF h] f seg_image_frame [OF init_frame(1) [of s conf "length segs"], of i g "gs = []"] by (simp add: segs)
qed

lemma build_item:
  assumes b: "build_and_send i conf segs s = (ESP_OK, s')"
  obtains p where "sct_queue s' i = sct_queue s i @ [p]" "sct_trans_desc_head p = segs" "sct_conf_buffer p = conf"
  using b
proof (cases rule: build_cases)
  case (3 th txn rh rxn s2 txn' rxn' s3)
  have "same_driver (s_sct_init_conf_buffer conf (length segs) s) s2"
    using 3(1) by (rule head_frame)
  then have "sct_queue s3 = sct_queue s"
    using link_segments_frame [OF 3(2)] by (simp add: same_driver_def s_sct_init_conf_buffer_def)
  moreover have "sct_queue s' i = sct_queue s3 i @ [sct_item th rh segs conf txn' rxn']"
    using 3(3) by (auto simp: send_sct_def set_host_def split: if_splits)
  ultimately show ?thesis using that by (simp add: sct_item_def)
qed simp_all

text \<open>The line modes that a segment can ask for.\<close>

lemma seg_lines: "{cmd_lines (spi_sct_set_hal_trans_config g), addr_lines (spi_sct_set_hal_trans_config g),
    data_lines (spi_sct_set_hal_trans_config g)} \<subseteq> {1, 2, 4, 8}"
  by (simp add: spi_sct_set_hal_trans_config_def Let_def)


section \<open>The result of a call\<close>

definition rx_room :: "spi_multi_transaction \<Rightarrow> 'a sct_machine_scheme \<Rightarrow> bool" where
  "rx_room g s \<longleftrightarrow>
     (rx_addr g s \<noteq> 0 \<longrightarrow> s_sct_desc_get_required_num (byte_len (tr_rxlength (base g))) \<le> free_num (rx_ring s))"

lemma head_room:
  fixes s :: "'a sct_machine_scheme" and conf :: u32 and g :: spi_multi_transaction
  defines "seg \<equiv> (conf, conf_len, tx_addr g s, byte_len (tr_length (base g)))"
  assumes h: "head_segment i conf g l s = (e, th, txn, rh, rxn, s')" and good: "tx_good seg" and rx: "rx_room g s"
  shows "e = (if length (tx_pieces seg) \<le> unat (free_num (tx_ring s)) then ESP_OK else ESP_ERR_INVALID_STATE)"
    "e \<noteq> ESP_OK \<Longrightarrow> tx_ring s' = tx_ring s"
proof -
  define s1 where "s1 = s_sct_format_conf_buffer i g conf l s"
  have s1: "same_driver s s1" "tx_ring s1 = tx_ring s" "rx_ring s1 = rx_ring s" by (simp_all add: s1_def)
  then have t: "tx_addr g s1 = tx_addr g s" "\<And>r. rx_addr g (s1\<lparr>tx_ring := r\<rparr>) = rx_addr g s"
    by (simp_all add: same_driver_def tx_addr_def rx_addr_def)
  have "e = (if length (tx_pieces seg) \<le> unat (free_num (tx_ring s)) then ESP_OK else ESP_ERR_INVALID_STATE) \<and>
      (e \<noteq> ESP_OK \<longrightarrow> tx_ring s' = tx_ring s)"
    using h s1 rx head_tx_room [OF good [unfolded seg_def], of "tx_ring s"]
    by (auto simp: head_segment_def s1_def [symmetric] t seg_def [symmetric] rx_room_def Let_def not_less
        spi_hal_sct_new_rx_dma_desc_head_def s_sct_prepare_rx_seg_def split: if_splits option.splits)
  then show "e = (if length (tx_pieces seg) \<le> unat (free_num (tx_ring s)) then ESP_OK else ESP_ERR_INVALID_STATE)"
    "e \<noteq> ESP_OK \<Longrightarrow> tx_ring s' = tx_ring s" by auto
qed

lemma link_segments_room:
  assumes "link_segments i a gs txn rxn s = (err, txn', rxn', s')" "placed False r0 p cs (tx_ring s)" "cs \<noteq> []"
    and "unat (free_num r0) \<le> length (descs r0)" "length cs \<le> unat (free_num r0)" "\<forall>g \<in> set (tx_segs a gs s). tx_good g"
  shows "err = (if length cs + tx_size (tx_segs a gs s) \<le> unat (free_num r0) then ESP_OK else ESP_ERR_INVALID_STATE)"
  using assms
proof (induction gs arbitrary: a txn rxn s cs)
  case Nil
  then show ?case by (simp add: tx_size_def)
next
  case (Cons g gs)
  let ?g = "(a, conf_len, tx_addr g s, byte_len (tr_length (base g)))"
  have good: "tx_good ?g" using Cons.prems(6) by simp
  have free: "unat (free_num (tx_ring s)) = unat (free_num r0) - length cs" using Cons.prems(2) by (simp add: placed_def)
  from Cons.prems(1) show ?case
  proof (cases rule: link_segments_Cons)
    case full
    then show ?thesis
      using link_tx_room [OF good, of "tx_ring s"] free Cons.prems(5) by (auto simp: tx_size_def split: if_splits)
  next
    case (more n r m s2)
    have room: "length (tx_pieces ?g) \<le> unat (free_num (tx_ring s))" and r: "r = put_tx ?g (link_last (tx_ring s))"
      using more(1) link_tx_room [OF good, of "tx_ring s"] by (auto split: if_splits)
    have "placed False r0 p (cs @ tx_pieces ?g) (tx_ring s2)"
      using tx_side.placed_link [OF Cons.prems(2,3) good] Cons.prems(4,5) room free more(4) r by simp
    moreover have segs: "tx_segs b gs s2 = tx_segs b gs s" for b
      using more(3) by (intro tx_segs_frame) (simp add: same_driver_def)
    moreover have "length (cs @ tx_pieces ?g) \<le> unat (free_num r0)" "cs @ tx_pieces ?g \<noteq> []"
      using room free Cons.prems(3,5) by simp_all
    ultimately have "err = (if length (cs @ tx_pieces ?g) + tx_size (tx_segs (a + conf_len) gs s) \<le> unat (free_num r0)
        then ESP_OK else ESP_ERR_INVALID_STATE)"
      using Cons.IH [OF more(6), of "cs @ tx_pieces ?g"] Cons.prems(4,6) by simp
    then show ?thesis by (simp add: tx_size_def)
  qed
qed

lemma build_result:
  fixes s :: "'a sct_machine_scheme"
  defines "r0 \<equiv> tx_ring s"
  assumes b: "build_and_send i conf segs s = (err, s')" and ne: "segs \<noteq> []" and good: "\<forall>g \<in> set (tx_segs conf segs s). tx_good g"
    and cur: "cur_link r0 = p mod length (descs r0)" "unat (free_num r0) \<le> length (descs r0)" and rx: "rx_room (hd segs) s"
  shows "err = (if unat (free_num r0) < tx_size (tx_segs conf segs s) then ESP_ERR_INVALID_STATE
      else if length (sct_queue s i) < sct_queue_size s i then ESP_OK else ESP_ERR_TIMEOUT) \<and>
    heap_live s' = heap_live s \<and> host s' = (if err = ESP_OK then (host s)\<lparr>bus_lock := req_core i (bus_lock (host s))\<rparr> else host s) \<and>
    (tx_size (tx_segs conf segs s) \<le> unat (free_num r0) \<longrightarrow>
      unat (free_num (tx_ring s')) = unat (free_num r0) - tx_size (tx_segs conf segs s))"
proof -
  obtain g gs where segs: "segs = g # gs" using ne by (cases segs) auto
  let ?seg = "(conf, conf_len, tx_addr g s, byte_len (tr_length (base g)))" and ?all = "tx_size (tx_segs conf segs s)"
  let ?s1 = "s_sct_init_conf_buffer conf (length segs) s"
  have s1: "same_driver s ?s1" "tx_ring ?s1 = r0" by (simp_all add: r0_def)
  have "rx_room g ?s1" using rx by (simp add: segs rx_room_def rx_addr_def s_sct_init_conf_buffer_def)
  note s1 = s1 this
  then have t: "tx_addr g ?s1 = tx_addr g s" by (simp add: same_driver_def tx_addr_def)
  have gd: "tx_good ?seg" "\<forall>g \<in> set (tx_segs (conf + conf_len) gs s). tx_good g" using good by (simp_all add: segs)
  note room = head_room [where s = ?s1 and conf = conf and g = g, unfolded t s1(2), OF _ gd(1) s1(3)]
  note head = head_placed [where s = ?s1 and conf = conf and p = p and g = g, unfolded t s1(2), OF _ gd(1) cur]
  have all: "?all = length (tx_pieces ?seg) + tx_size (tx_segs (conf + conf_len) gs s)" by (simp add: segs tx_size_def)
  have link: "same_driver s s4 \<and> e = (if ?all \<le> unat (free_num r0) then ESP_OK else ESP_ERR_INVALID_STATE) \<and>
      (e = ESP_OK \<longrightarrow> unat (free_num (tx_ring s4)) = unat (free_num r0) - ?all)"
    if h: "head_segment i conf (hd segs) (tl segs = []) ?s1 = (ESP_OK, th, txn, rh, rxn, s3)"
      and l: "link_segments i (conf + conf_len) (tl segs) txn rxn s3 = (e, txn', rxn', s4)" for th txn rh rxn s3 e txn' rxn' s4
  proof -
    have h': "same_driver s s3" "placed False r0 p (tx_pieces ?seg) (tx_ring s3)" "length (tx_pieces ?seg) \<le> unat (free_num r0)"
      using head [of i "tl segs = []" ESP_OK th txn rh rxn s3] h same_driver_trans [OF s1(1)] by (simp_all add: segs)
    have fr: "tx_segs b gs s3 = tx_segs b gs s" for b
      using h'(1) by (intro tx_segs_frame) (simp add: same_driver_def)
    have ne: "tx_pieces ?seg \<noteq> []" by (simp add: tx_pieces_def tx_chunks_def)
    have gd': "\<forall>g \<in> set (tx_segs (conf + conf_len) gs s3). tx_good g" using gd(2) fr by simp
    have l': "link_segments i (conf + conf_len) gs txn rxn s3 = (e, txn', rxn', s4)" using l by (simp add: segs)
    have e: "e = (if ?all \<le> unat (free_num r0) then ESP_OK else ESP_ERR_INVALID_STATE)"
      using link_segments_room [OF l' h'(2) ne cur(2) h'(3) gd'] fr all by simp
    obtain d where d: "placed False r0 p (tx_pieces ?seg @ concat (map tx_pieces d)) (tx_ring s4)"
        "e = ESP_OK \<longrightarrow> d = tx_segs (conf + conf_len) gs s"
      using link_segments_placed [OF l' h'(2) ne cur(2) h'(3) gd'] fr by auto
    have "e = ESP_OK \<longrightarrow> unat (free_num (tx_ring s4)) = unat (free_num r0) - ?all"
      using d all by (auto simp: placed_def tx_size_def)
    then show ?thesis using e same_driver_trans [OF h'(1) link_segments_frame [OF l]] by simp
  qed
  from b show ?thesis
  proof (cases rule: build_cases)
    case (1 e th txn rh rxn s2)
    have h: "head_segment i conf g (gs = []) ?s1 = (e, th, txn, rh, rxn, s2)" using 1(1) by (simp add: segs)
    have "unat (free_num r0) < ?all" "e = ESP_ERR_INVALID_STATE"
      using room(1) [OF h] 1(2) all by (auto split: if_splits)
    moreover have "same_driver s s2" using same_driver_trans [OF s1(1) head_frame [OF h]] .
    ultimately show ?thesis using 1(2-4) by (simp add: same_driver_def)
  next
    case (2 e th txn rh rxn s2 txn' rxn')
    then show ?thesis using link [OF 2(1,2)] by (auto simp: same_driver_def split: if_splits)
  next
    case (3 th txn rh rxn s2 txn' rxn' s3)
    then show ?thesis
      using link [OF 3(1,2)] by (auto simp: same_driver_def send_sct_def set_host_def split: if_splits)
  qed
qed

lemma check_trans_valid_result: "snd (check_trans_valid h (Some i) t) \<in> {t, t\<lparr>tr_rxlength := tr_length t\<rparr>}"
  by (simp only: check_trans_valid_def option.case Let_def snd_conv insert_iff if_distrib [of snd] split: if_split) simp

lemma check_trans_valid_tx: "check_trans_valid h (Some i) t = (e, t') \<Longrightarrow> tr_tx t' = tr_tx t \<and> tr_length t' = tr_length t"
  using check_trans_valid_result [of h i t] by auto

lemma check_all_valid_sends:
  "check_all_valid h (Some i) gs = (e, gs') \<Longrightarrow> sends_ok s gs' = sends_ok s gs"
proof (induction gs arbitrary: e gs')
  case (Cons g gs)
  obtain e1 t where t: "check_trans_valid h (Some i) (base g) = (e1, t)" by fastforce
  obtain e2 gs2 where r: "check_all_valid h (Some i) gs = (e2, gs2)" by fastforce
  show ?case
    using Cons.prems Cons.IH [OF r] t r check_trans_valid_tx [OF t] by (auto simp: sends_ok_def tx_addr_def split: if_splits)
qed simp

lemma queue_result:
  fixes s s1 :: "'a sct_machine_scheme"
  assumes "SOC_SPI_SCT_SUPPORTED_PERIPH (host_id (host s))" "sct_mode_enabled s" "\<not> spi_bus_device_is_polling (host s) i"
    and alloc: "dma_malloc (of_nat (length (g # gs)) * conf_len) s = (conf, s1)" "conf \<noteq> 0"
    and valid: "check_all_valid (host s) (Some i) (g # gs) = (ESP_OK, segs')" and sends: "sends_ok s (g # gs)"
    and ring: "cur_link (tx_ring s) < length (descs (tx_ring s))" "unat (free_num (tx_ring s)) \<le> length (descs (tx_ring s))"
    and rx: "rx_room (hd segs') s"
  defines "need \<equiv> tx_size (tx_segs conf segs' s)" and "free \<equiv> unat (free_num (tx_ring s))"
  shows "\<exists>err s'. spi_device_queue_multi_trans (Some i) g gs s = (err, segs', s') \<and>
    err = (if free < need then ESP_ERR_INVALID_STATE
           else if length (sct_queue s i) < sct_queue_size s i then ESP_OK else ESP_ERR_TIMEOUT) \<and>
    heap_live s' = conf # heap_live s \<and>
    (err \<noteq> ESP_OK \<longrightarrow> sct_queue s' = sct_queue s) \<and>
    (need \<le> free \<longrightarrow> unat (free_num (tx_ring s')) = free - need)"
proof -
  have s1: "tx_ring s1 = tx_ring s" "rx_ring s1 = rx_ring s" "frame_base s1 = frame_base s" "host s1 = host s"
      "sct_queue s1 = sct_queue s" "sct_queue_size s1 = sct_queue_size s" "heap_live s1 = conf # heap_live s"
    using alloc by (auto simp: dma_malloc_def Let_def split: if_splits)
  have segs: "tx_segs conf segs' s1 = tx_segs conf segs' s" using s1 by (intro tx_segs_frame) simp
  have v: "length segs' = length (g # gs)" "sends_ok s segs'" "\<forall>g \<in> set segs'. unat (tr_length (base g)) \<le> 0x40000"
    using check_all_valid_segs [OF valid] check_all_valid_sends [OF valid] sends by auto
  then have ne: "segs' \<noteq> []" and good: "\<forall>g \<in> set (tx_segs conf segs' s). tx_good g"
    using tx_segs_good [of s segs' conf] by auto
  obtain err s' where b: "build_and_send i conf segs' s1 = (err, s')" by fastforce
  have "rx_room (hd segs') s1" using rx s1 by (simp add: rx_room_def rx_addr_def)
  then have r: "err = (if free < need then ESP_ERR_INVALID_STATE
        else if length (sct_queue s i) < sct_queue_size s i then ESP_OK else ESP_ERR_TIMEOUT)" "heap_live s' = heap_live s1"
      "need \<le> free \<longrightarrow> unat (free_num (tx_ring s')) = free - need"
    using build_result [OF b ne, unfolded segs s1, of "cur_link (tx_ring s)"] good ring by (simp_all add: need_def free_def s1)
  have "err \<noteq> ESP_OK \<Longrightarrow> sct_queue s' = sct_queue s"
    using build_placed(3) [OF b ne, unfolded segs s1, of "cur_link (tx_ring s)"] good ring by simp
  moreover have "spi_device_queue_multi_trans (Some i) g gs s = (err, segs', s')"
    using assms(1-3) alloc valid b s1(4) by (simp add: spi_device_queue_multi_trans_def del: check_all_valid.simps)
  ultimately show ?thesis using r s1(7) by simp
qed


section \<open>A host to try it on\<close>

text \<open>A host with four descriptors for sending and two for receiving.\<close>

definition blank_desc :: sct_desc where
  "blank_desc = \<lparr>d_size = 0, d_length = 0, d_buffer = 0, d_eof = False, d_owner_dma = False, d_next = None\<rparr>"

definition blank_ring :: "nat \<Rightarrow> sct_ring" where
  "blank_ring n = \<lparr>descs = replicate n blank_desc, free_num = 0, cur_link = 0, link_tail = None\<rparr>"

definition seg_host :: spi_host where
  "seg_host = dma_host\<lparr>host_id := 1, cur_cs := DEV_NUM_MAX,
     devices := (\<lambda>i. \<lparr>dev_id = i, cfg_command_bits = 8, cfg_address_bits = 0, cfg_dummy_bits = 0,
       cfg_flags = SPI_DEVICE_HALFDUPLEX, timing_dummy = False\<rparr>)\<rparr>"

definition seg_machine :: sct_machine where
  "seg_machine = \<lparr>environ = environ roomy_machine, log = [], mem = (\<lambda>a. ucast a), frame_base = 0x3FC90000, heap_live = [],
     host = seg_host, periph_claimed = True, bus_ctx_set = True, bus_driver_ctx_set = True,
     tx_ring = blank_ring 4, rx_ring = blank_ring 2, sct_mode_enabled = False,
     cur_sct_trans = sct_item None None [] 0 0 0, sct_queue = (\<lambda>_. []), sct_ret_queue = (\<lambda>_. []), sct_queue_size = (\<lambda>_. 4),
     cfg_cs_ena_pretrans = (\<lambda>_. 0), cfg_cs_ena_posttrans = (\<lambda>_. 0),
     hal_line_mode = \<lparr>cmd_lines = 1, addr_lines = 1, data_lines = 1\<rparr>, hw_regs = (\<lambda>_. 0), dma_cmds = []\<rparr>"

definition seg_write :: "u32 \<Rightarrow> u32 \<Rightarrow> spi_multi_transaction" where
  "seg_write a n = \<lparr>base = trans0\<lparr>tr_length := n, tr_tx := Buffer (Addr a)\<rparr>, mt_cs_ena_pretrans = 0, mt_cs_ena_posttrans = 0,
     mt_command_bits = 0, mt_address_bits = 0, mt_dummy_bits = 0, sct_gap_len = 0, seg_trans_flags = 0\<rparr>"

definition seg_ready :: sct_machine where
  "seg_ready = seg_machine\<lparr>tx_ring := s_spi_sct_reset_ring (blank_ring 4), rx_ring := s_spi_sct_reset_ring (blank_ring 2),
     sct_mode_enabled := True\<rparr>"

lemma seg_enable: "spi_bus_multi_trans_mode_enable (Some 0) True seg_machine = (ESP_OK, seg_ready)"
  by (simp add: spi_bus_multi_trans_mode_enable_def seg_ready_def seg_machine_def seg_host_def dma_host_def roomy_machine_def
      SOC_SPI_SCT_SUPPORTED_PERIPH_def setup_priv_desc_def fake_trans_def trans0_def spi_format_hal_trans_struct_def flag_def
      spi_bus_device_is_polling_def SPI_DEVICE_HALFDUPLEX_def SPI_TRANS_USE_RXDATA_def SPI_TRANS_USE_TXDATA_def
      SPI_TRANS_DMA_BUFFER_ALIGN_MANUAL_def SPI_TRANS_MULTILINE_ADDR_def SPI_TRANS_MULTILINE_CMD_def SPI_TRANS_MODE_QIO_def
      SPI_TRANS_MODE_DIO_def SPI_TRANS_MODE_OCT_def ptr_addr_def esp_ptr_dma_capable_def Let_def)

definition seg_pair :: "spi_multi_transaction list" where
  "seg_pair = [seg_write 0x3FC91000 16, seg_write 0x3FC92000 24]"

lemma seg_pair_valid: "check_all_valid seg_host (Some 0) seg_pair = (ESP_OK, seg_pair)"
  by code_simp

lemma seg_ready_fields [simp]:
  "host seg_ready = seg_host" "sct_mode_enabled seg_ready" "sct_queue seg_ready = (\<lambda>_. [])" "heap_live seg_ready = []"
  "sct_queue_size seg_ready = (\<lambda>_. 4)" "cur_link (tx_ring seg_ready) = 0" "length (descs (tx_ring seg_ready)) = 4"
  "free_num (tx_ring seg_ready) = 4" "\<not> spi_bus_device_is_polling seg_host i" "host_id seg_host = 1"
  by (simp_all add: seg_ready_def seg_machine_def s_spi_sct_reset_ring_def blank_ring_def seg_host_def dma_host_def
      spi_bus_device_is_polling_def)

lemma seg_pair_room: "tx_size (tx_segs 0x3FCA0000 seg_pair seg_ready) = 4"
  by code_simp

lemma seg_pair_ok: "sends_ok seg_ready seg_pair" "rx_room (hd seg_pair) seg_ready" "hd seg_pair # tl seg_pair = seg_pair"
  by (simp_all add: sends_ok_def rx_room_def seg_pair_def seg_write_def tx_addr_def rx_addr_def trans0_def ptr_addr_def
      union_ptr_def bytes_as_ptr_def)

lemma seg_pair_alloc: "\<exists>s1. dma_malloc (of_nat (length seg_pair) * conf_len) seg_ready = (0x3FCA0000, s1)"
  by (simp add: dma_malloc_def seg_ready_def seg_machine_def roomy_machine_def)


lemma seg_pair_queued: "\<exists>s'. spi_device_queue_multi_trans (Some 0) (hd seg_pair) (tl seg_pair) seg_ready = (ESP_OK, seg_pair, s')"
proof -
  obtain s1 where "dma_malloc (of_nat (length seg_pair) * conf_len) seg_ready = (0x3FCA0000, s1)" using seg_pair_alloc ..
  then show ?thesis
    using queue_result [of seg_ready 0 "hd seg_pair" "tl seg_pair" "0x3FCA0000" s1 seg_pair] seg_pair_valid seg_pair_ok seg_pair_room
    by (auto simp: SOC_SPI_SCT_SUPPORTED_PERIPH_def)
qed

lemma seg_pair_config_ok: "\<forall>k < length seg_pair. seg_config_ok (seg_config 0 (seg_pair ! k) (Suc k = length seg_pair) seg_ready)"
  by (auto simp: less_Suc_eq seg_config_ok_def seg_config_def seg_pair_def seg_write_def trans0_def seg_host_def dma_host_def
      seg_ready_def seg_machine_def flag_def Let_def)


end
