(* ===== verification/Spi_Segments_Safety.thy ===== *)
theory Spi_Segments_Safety
  imports Spi_Segments_Queue
begin

text \<open>
  What segmented transfers guarantee, and where they fail. A queued transaction is a chain of descriptors
  over the register images and the buffers of its segments, and it stays so until it is done, as long as
  transactions end in the order in which they were queued: so for the transactions of one device. With two devices a
  later transaction may overtake, and the descriptors of the earlier one are then taken again.
\<close>

section \<open>The transactions of one device\<close>

definition gather :: "(u32 \<Rightarrow> u8) \<Rightarrow> (u32 \<times> nat) list \<Rightarrow> u8 list" where
  "gather m cs = concat (map (\<lambda>(b, n). load m b n) cs)"

definition seg_bytes :: "(u32 \<Rightarrow> u8) \<Rightarrow> tx_seg \<Rightarrow> u8 list" where
  "seg_bytes m g = (case g of (conf, cl, buf, len) \<Rightarrow> load m conf (unat cl) @ load m buf (unat len))"

lemma gather_segs: "\<forall>g \<in> set gs. tx_good g \<Longrightarrow> gather m (concat (map tx_pieces gs)) = concat (map (seg_bytes m) gs)"
proof (induction gs)
  case (Cons g gs)
  obtain a cl buf len where g: "g = (a, cl, buf, len)" by (cases g) auto
  have "gather m (tx_pieces g) = seg_bytes m g"
    using Cons.prems pieces_bytes [of m buf "unat len"]
    by (auto simp: g gather_def tx_pieces_def tx_chunks_def seg_bytes_def tx_good_def load_def)
  then show ?case using Cons by (simp add: gather_def)
qed (simp add: gather_def)

text \<open>The transactions of a device that are not done: the one in flight, then the queue.\<close>

definition outstanding :: "nat \<Rightarrow> 'a sct_machine_scheme \<Rightarrow> spi_sct_trans_priv list" where
  "outstanding i s = (if cur_cs (host s) = DEV_NUM_MAX then [] else [cur_sct_trans s]) @ sct_queue s i"

definition item_segs :: "'a sct_machine_scheme \<Rightarrow> spi_sct_trans_priv \<Rightarrow> tx_seg list" where
  "item_segs s p = tx_segs (sct_conf_buffer p) (sct_trans_desc_head p) s"

definition item_ok :: "'a sct_machine_scheme \<Rightarrow> nat \<times> (u32 \<times> nat) list \<Rightarrow> spi_sct_trans_priv \<Rightarrow> bool" where
  "item_ok s x p \<longleftrightarrow>
     tx_seg_head p = Some (fst x mod length (descs (tx_ring s))) \<and> snd x = concat (map tx_pieces (item_segs s p)) \<and>
     unat (tx_used_desc_num p) = length (snd x) \<and> (\<forall>g \<in> set (item_segs s p). tx_good g)"

definition sct_inv :: "nat \<Rightarrow> 'a sct_machine_scheme \<Rightarrow> bool" where
  "sct_inv i s \<longleftrightarrow> length (descs (tx_ring s)) < 2 ^ 16 \<and> dev_id (devices (host s) i) \<noteq> DEV_NUM_MAX \<and>
     (\<exists>L. ring_live False L (tx_ring s) \<and> list_all2 (item_ok s) L (outstanding i s))"

text \<open>
  What one device and the handler do: the device queues transactions, whose segments without a buffer for sending
  have no bits for sending, and fetches results; the handler starts and ends them.
\<close>

inductive sct_step :: "nat \<Rightarrow> 'a sct_machine_scheme \<Rightarrow> 'a sct_machine_scheme \<Rightarrow> bool" for i where
  queue: "spi_device_queue_multi_trans (Some i) g gs s = (err, segs', s') \<Longrightarrow> sends_ok s (g # gs) \<Longrightarrow> sct_step i s s'"
| take: "cur_cs (host s) = DEV_NUM_MAX \<Longrightarrow> sct_take i s = Some s' \<Longrightarrow> sct_step i s s'"
| finish: "sct_done s = Inr s' \<Longrightarrow> sct_step i s s'"
| result: "spi_device_get_multi_trans_result (Some i) s = (err, segs, s') \<Longrightarrow> sct_step i s s'"

inductive_cases sct_stepE: "sct_step i s s'"

lemma item_ok_frame:
  "length (descs (tx_ring s')) = length (descs (tx_ring s)) \<Longrightarrow> frame_base s' = frame_base s \<Longrightarrow> item_ok s' = item_ok s"
  using tx_segs_frame [of s' s] by (simp add: item_ok_def item_segs_def fun_eq_iff)

lemma sct_invI:
  "length (descs (tx_ring s)) < 2 ^ 16 \<Longrightarrow> dev_id (devices (host s) i) \<noteq> DEV_NUM_MAX \<Longrightarrow> ring_live False L (tx_ring s) \<Longrightarrow>
   list_all2 (item_ok s) L (outstanding i s) \<Longrightarrow> sct_inv i s"
  unfolding sct_inv_def by blast

lemma sct_inv_queue:
  assumes inv: "sct_inv i s" and q: "spi_device_queue_multi_trans (Some i) g gs s = (err, segs', s')" and ok: "sends_ok s (g # gs)"
  shows "sct_inv i s'"
proof -
  obtain L where L: "ring_live False L (tx_ring s)" "list_all2 (item_ok s) L (outstanding i s)"
    and n: "length (descs (tx_ring s)) < 2 ^ 16" and dv: "dev_id (devices (host s) i) \<noteq> DEV_NUM_MAX"
    using inv by (auto simp: sct_inv_def)
  from q show ?thesis
  proof (cases rule: queue_cases)
    case early
    have "item_ok s' = item_ok s" using early by (intro item_ok_frame) simp_all
    moreover have "outstanding i s' = outstanding i s" using early by (simp add: outstanding_def)
    ultimately show ?thesis using early L n dv by (intro sct_invI [of _ _ L]) simp_all
  next
    case (built conf s1)
    have s1: "tx_ring s1 = tx_ring s" "frame_base s1 = frame_base s" "host s1 = host s" "sct_queue s1 = sct_queue s"
        "cur_sct_trans s1 = cur_sct_trans s"
      using built(1) by (auto simp: dma_malloc_def Let_def split: if_splits)
    have "length segs' = length (g # gs)" "sends_ok s segs'" "\<forall>g \<in> set segs'. unat (tr_length (base g)) \<le> 0x40000"
      using check_all_valid_segs [OF built(3)] check_all_valid_sends [OF built(3)] ok by auto
    then have ne: "segs' \<noteq> []" and good: "\<forall>g \<in> set (tx_segs conf segs' s). tx_good g"
      using tx_segs_good [of s segs' conf] by auto
    have segs: "tx_segs conf segs' s1 = tx_segs conf segs' s" using s1 by (intro tx_segs_frame) simp
    obtain a where a: "cur_link (tx_ring s) = a mod length (descs (tx_ring s))" "unat (free_num (tx_ring s)) \<le> length (descs (tx_ring s))"
      "\<And>cs r'. placed False (tx_ring s) a cs r' \<Longrightarrow> cs \<noteq> [] \<Longrightarrow> length cs \<le> unat (free_num (tx_ring s)) \<Longrightarrow>
        ring_live False (L @ [(a, cs)]) r' \<and> ring_live False L r'"
      using ring_live_put [OF L(1)] by blast
    note b = build_placed [OF built(4) ne, unfolded segs s1, OF good a(1,2)]
    have fr: "frame_base s' = frame_base s" "cur_sct_trans s' = cur_sct_trans s" "cur_cs (host s') = cur_cs (host s)"
        "devices (host s') = devices (host s)"
      using b(1) s1 by (simp_all add: same_in_flight_def)
    consider (same) "tx_ring s' = tx_ring s" "err \<noteq> ESP_OK" | (put) d where "d \<noteq> []" "placed False (tx_ring s) a (concat (map tx_pieces d)) (tx_ring s')"
        "tx_size d \<le> unat (free_num (tx_ring s))" "err = ESP_OK \<longrightarrow> d = tx_segs conf segs' s" "\<forall>g \<in> set d. tx_good g"
      using b(2) good by (auto dest: set_mono_prefix)
    then show ?thesis
    proof cases
      case same
      have "item_ok s' = item_ok s" using same fr by (intro item_ok_frame) simp_all
      moreover have "outstanding i s' = outstanding i s" using same fr b(3) by (simp add: outstanding_def)
      ultimately show ?thesis using same fr L n dv by (intro sct_invI [of _ _ L]) simp_all
    next
      case put
      have len: "length (descs (tx_ring s')) = length (descs (tx_ring s))" using put(2) by (simp add: placed_def)
      have same: "item_ok s' = item_ok s" using len fr by (intro item_ok_frame) simp_all
      obtain x xs where "d = x # xs" using put(1) by (cases d) auto
      then have ne: "concat (map tx_pieces d) \<noteq> []" using put(5) tx_side.chunks_ne by auto
      note live = a(3) [OF put(2) ne] put(3)
      show ?thesis
      proof (cases "err = ESP_OK")
        case True
        then obtain rh rxn where qq: "sct_queue s' = (sct_queue s)(i := sct_queue s i @
            [sct_item (Some (cur_link (tx_ring s))) rh segs' conf (of_nat (tx_size (tx_segs conf segs' s))) rxn])"
          using b(3) by auto
        have d: "d = tx_segs conf segs' s" using put(4) True by simp
        have "tx_size d < 2 ^ 16" using put(3) a(2) n by simp
        then have "item_ok s (a, concat (map tx_pieces d)) (sct_item (Some (cur_link (tx_ring s))) rh segs' conf (of_nat (tx_size d)) rxn)"
          using a(1) put(5) d by (simp add: item_ok_def sct_item_def item_segs_def tx_size_def unsigned_ucast_eq
            unsigned_take_bit_eq unsigned_of_nat take_bit_nat_eq_self)
        moreover have "outstanding i s' = outstanding i s @ [sct_item (Some (cur_link (tx_ring s))) rh segs' conf (of_nat (tx_size d)) rxn]"
          using fr qq d by (simp add: outstanding_def)
        moreover have "ring_live False (L @ [(a, concat (map tx_pieces d))]) (tx_ring s')"
          using live by (simp add: tx_size_def)
        ultimately show ?thesis
          using L n dv len fr same
          by (intro sct_invI [of _ _ "L @ [(a, concat (map tx_pieces d))]"]) (simp_all add: list_all2_appendI)
      next
        case False
        then have "outstanding i s' = outstanding i s" using fr b(3) by (simp add: outstanding_def)
        moreover have "ring_live False L (tx_ring s')" using live by (simp add: tx_size_def)
        ultimately show ?thesis
          using L n dv len fr same by (intro sct_invI [of _ _ L]) simp_all
      qed
    qed
  qed
qed

lemma take_fields:
  assumes "sct_take i s = Some s'"
  obtains p ps where "sct_queue s i = p # ps" "sct_queue s' = (sct_queue s)(i := ps)" "cur_sct_trans s' = p"
    "tx_ring s' = tx_ring s" "frame_base s' = frame_base s" "cur_cs (host s') = dev_id (devices (host s) i)"
    "devices (host s') = devices (host s)" "mem s' = mem s"
  using assms
  by (auto simp: sct_take_def spi_new_sct_trans_def set_host_def spi_new_trans_def spi_bus_lock_touch_def Let_def split: list.splits)

lemma sct_inv_take:
  assumes inv: "sct_inv i s" and free: "cur_cs (host s) = DEV_NUM_MAX" and t: "sct_take i s = Some s'"
  shows "sct_inv i s'"
proof -
  obtain L where L: "ring_live False L (tx_ring s)" "list_all2 (item_ok s) L (outstanding i s)"
    and n: "length (descs (tx_ring s)) < 2 ^ 16" "dev_id (devices (host s) i) \<noteq> DEV_NUM_MAX"
    using inv by (auto simp: sct_inv_def)
  from t obtain p ps where p: "sct_queue s i = p # ps" "sct_queue s' = (sct_queue s)(i := ps)" "cur_sct_trans s' = p"
    "tx_ring s' = tx_ring s" "frame_base s' = frame_base s" "cur_cs (host s') = dev_id (devices (host s) i)"
    "devices (host s') = devices (host s)" by (rule take_fields)
  have "outstanding i s' = outstanding i s" using p n free by (simp add: outstanding_def)
  moreover have "item_ok s' = item_ok s" using p by (intro item_ok_frame) simp_all
  ultimately show ?thesis using L n p by (intro sct_invI [of _ _ L]) simp_all
qed

lemma done_fields:
  assumes "sct_done s = Inr s'"
  shows "cur_cs (host s) \<noteq> DEV_NUM_MAX" "cur_cs (host s') = DEV_NUM_MAX" "sct_queue s' = sct_queue s"
    "tx_ring s' = desc_recycle (ucast (tx_used_desc_num (cur_sct_trans s))) (tx_ring s)"
    "frame_base s' = frame_base s" "devices (host s') = devices (host s)" "mem s' = mem s"
  using assms
  by (auto simp: sct_done_def spi_post_sct_trans_def dma_free_def set_host_def Let_def bindr_def split: if_splits)

lemma unat_widen: "unat (ucast w :: u32) = unat (w :: u16)"
  using unsigned_less [of w, where ?'a = nat] by (simp add: unsigned_ucast_eq take_bit_nat_eq_self_iff)

lemma sct_inv_finish:
  assumes inv: "sct_inv i s" and d: "sct_done s = Inr s'"
  shows "sct_inv i s'"
proof -
  note f = done_fields [OF d]
  obtain L where L: "ring_live False L (tx_ring s)" "list_all2 (item_ok s) L (cur_sct_trans s # sct_queue s i)"
    and n: "length (descs (tx_ring s)) < 2 ^ 16" "dev_id (devices (host s) i) \<noteq> DEV_NUM_MAX"
    using inv f(1) by (auto simp: sct_inv_def outstanding_def)
  then obtain x L' where x: "L = x # L'" "item_ok s x (cur_sct_trans s)" "list_all2 (item_ok s) L' (sct_queue s i)"
    by (auto simp: list_all2_Cons2)
  have "unat (ucast (tx_used_desc_num (cur_sct_trans s)) :: u32) = length (snd x)"
    using x(2) by (simp add: item_ok_def unat_widen)
  then have "ring_live False L' (tx_ring s')"
    using ring_live_recycle [of False "fst x" "snd x" L' "tx_ring s"] L(1) x(1) f(4) by simp
  moreover have "outstanding i s' = sct_queue s i" using f by (simp add: outstanding_def)
  moreover have "item_ok s' = item_ok s" using f by (intro item_ok_frame) (simp_all add: desc_recycle_def)
  ultimately show ?thesis using x n f by (intro sct_invI [of _ _ L']) (simp_all add: desc_recycle_def)
qed

lemma sct_inv_result:
  assumes inv: "sct_inv i s" and r: "spi_device_get_multi_trans_result (Some i) s = (err, segs, s')"
  shows "sct_inv i s'"
proof -
  have f: "tx_ring s' = tx_ring s" "frame_base s' = frame_base s" "host s' = host s" "sct_queue s' = sct_queue s"
      "cur_sct_trans s' = cur_sct_trans s"
    using r by (auto simp: spi_device_get_multi_trans_result_def split: if_splits list.splits)
  have "item_ok s' = item_ok s" using f by (intro item_ok_frame) simp_all
  moreover have "outstanding i s' = outstanding i s" using f by (simp add: outstanding_def)
  ultimately show ?thesis using inv f by (simp add: sct_inv_def)
qed

lemma sct_inv_steps: "(sct_step i)\<^sup>*\<^sup>* s s' \<Longrightarrow> sct_inv i s \<Longrightarrow> sct_inv i s'"
  by (induction rule: rtranclp_induct)
    (auto elim!: sct_stepE intro: sct_inv_queue sct_inv_take sct_inv_finish sct_inv_result)

text \<open>Switching the mode on, while nothing is in flight, starts with every descriptor free.\<close>

lemma sct_inv_start:
  assumes "spi_bus_multi_trans_mode_enable (Some i) True s = (ESP_OK, s')" "cur_cs (host s) = DEV_NUM_MAX"
    and "0 < length (descs (tx_ring s))" "length (descs (tx_ring s)) < 2 ^ 16" "dev_id (devices (host s) i) \<noteq> DEV_NUM_MAX"
  shows "sct_inv i s'"
proof -
  have f: "tx_ring s' = s_spi_sct_reset_ring (tx_ring s)" "host s' = host s" "sct_queue s' i = []"
    using assms(1)
    by (auto simp: spi_bus_multi_trans_mode_enable_def same_rest_def Let_def dest!: setup_priv_frame split: if_splits prod.splits)
  then have "outstanding i s' = []" using assms(2) by (simp add: outstanding_def)
  moreover have "ring_live False [] (tx_ring s')" using ring_live_reset [of "tx_ring s"] assms(3,4) f(1) by simp
  ultimately show ?thesis using assms f by (intro sct_invI [of _ _ "[]"]) (simp_all add: s_spi_sct_reset_ring_def)
qed

text \<open>What the DMA engine reads for a transaction that is not done.\<close>

lemma sct_inv_reads:
  assumes "sct_inv i s" "p \<in> set (outstanding i s)"
  shows "\<exists>h. tx_seg_head p = Some h \<and>
    gather (mem s) (follow False (length (descs (tx_ring s))) (descs (tx_ring s)) h) = concat (map (seg_bytes (mem s)) (item_segs s p))"
proof -
  obtain L where L: "ring_live False L (tx_ring s)" "list_all2 (item_ok s) L (outstanding i s)"
    using assms(1) by (auto simp: sct_inv_def)
  then obtain x where x: "x \<in> set L" "item_ok s x p"
    using assms(2) by (metis in_set_conv_nth list_all2_conv_all_nth)
  obtain a cs where a: "x = (a, cs)" by fastforce
  obtain lo used where l: "unat (free_num (tx_ring s)) + used = length (descs (tx_ring s))" "laid lo L (lo + used)"
      "walk False (descs (tx_ring s)) a cs None"
    using L(1) x(1) a by (auto simp: ring_live_def)
  have rng: "cs \<noteq> []" "length cs \<le> length (descs (tx_ring s))"
    using laid_range [OF l(2), of a cs] x(1) a l(1) by auto
  have "follow False (length (descs (tx_ring s))) (descs (tx_ring s)) (a mod length (descs (tx_ring s))) = cs"
    using l(3) rng by (intro follow_walk)
  then show ?thesis
    using x(2) a gather_segs [of "item_segs s p" "mem s"] by (auto simp: item_ok_def)
qed

text \<open>
  C28: From the moment the mode of segmented transfers is switched on, and for as long as one
  device queues transactions whose segments have a send buffer or a length of 0
  (\<open>sends_ok\<close>), fetches results and the handler starts and ends them, every
  transaction that is not done keeps its chain: what the DMA engine reads along it is the register
  image and the buffer of each segment, in order, however often the ring of descriptors has gone
  round and whichever calls failed in between. A segment with a length and no send buffer, which
  the checks accept, makes more descriptors free than there are and is not covered.
\<close>

theorem sct_transactions_intact:
  fixes s0 s1 s :: "'a sct_machine_scheme"
  assumes "spi_bus_multi_trans_mode_enable (Some i) True s0 = (ESP_OK, s1)" "cur_cs (host s0) = DEV_NUM_MAX"
    and "0 < length (descs (tx_ring s0))" "length (descs (tx_ring s0)) < 2 ^ 16" "dev_id (devices (host s0) i) \<noteq> DEV_NUM_MAX"
    and "(sct_step i)\<^sup>*\<^sup>* s1 s" "p \<in> set (outstanding i s)"
  shows "\<exists>h. tx_seg_head p = Some h \<and>
    gather (mem s) (follow False (length (descs (tx_ring s))) (descs (tx_ring s)) h) = concat (map (seg_bytes (mem s)) (item_segs s p))"
  using sct_inv_start [OF assms(1-5)] sct_inv_steps [OF assms(6)] sct_inv_reads assms(7) by blast

lemma seg_pair_outstanding:
  "\<exists>s' p. spi_device_queue_multi_trans (Some 0) (hd seg_pair) (tl seg_pair) seg_ready = (ESP_OK, seg_pair, s') \<and> p \<in> set (outstanding 0 s')"
proof -
  obtain s' where q: "spi_device_queue_multi_trans (Some 0) (hd seg_pair) (tl seg_pair) seg_ready = (ESP_OK, seg_pair, s')"
    using seg_pair_queued ..
  then have "\<exists>p. p \<in> set (sct_queue s' 0)"
  proof (cases rule: queue_cases)
    case (built conf s1)
    then show ?thesis using build_item [OF built(4)] by (metis in_set_conv_decomp)
  qed simp
  then show ?thesis using q by (auto simp: outstanding_def)
qed

lemma sct_transactions_intact_witness:
  "\<exists>s' p h. (sct_step 0)\<^sup>*\<^sup>* seg_ready s' \<and> p \<in> set (outstanding 0 s') \<and> tx_seg_head p = Some h \<and>
    gather (mem s') (follow False (length (descs (tx_ring s'))) (descs (tx_ring s')) h) = concat (map (seg_bytes (mem s')) (item_segs s' p))"
proof -
  obtain s' p where q: "spi_device_queue_multi_trans (Some 0) (hd seg_pair) (tl seg_pair) seg_ready = (ESP_OK, seg_pair, s')"
      "p \<in> set (outstanding 0 s')"
    using seg_pair_outstanding by blast
  have st: "(sct_step 0)\<^sup>*\<^sup>* seg_ready s'"
    using sct_step.queue [OF q(1)] seg_pair_ok by auto
  have "cur_cs (host seg_machine) = DEV_NUM_MAX" "length (descs (tx_ring seg_machine)) = 4" "dev_id (devices (host seg_machine) 0) \<noteq> DEV_NUM_MAX"
    by (simp_all add: seg_machine_def seg_host_def blank_ring_def DEV_NUM_MAX_def)
  then show ?thesis
    using sct_transactions_intact [OF seg_enable _ _ _ _ st q(2)] st q(2) by auto
qed

section \<open>A segment for receiving after one for sending\<close>

lemma head_tx_only:
  assumes "head_segment i a g l s = (ESP_OK, th, txn, rh, rxn, s')" "rx_addr g s = 0"
  shows "rh = None" "rxn = 0" "rx_ring s' = rx_ring s"
proof -
  define s1 where "s1 = s_sct_format_conf_buffer i g a l s"
  have "same_driver s s1" "rx_ring s1 = rx_ring s" by (simp_all add: s1_def)
  then have "rh = None \<and> rxn = 0 \<and> rx_ring s' = rx_ring s"
    using assms by (auto simp: head_segment_def s1_def [symmetric] rx_addr_def same_driver_def Let_def split: option.splits)
  then show "rh = None" "rxn = 0" "rx_ring s' = rx_ring s" by auto
qed

lemma link_one_rx:
  assumes "link_segments i a [g] txn 0 s = (ESP_OK, txn', rxn', s')" "rx_addr g s \<noteq> 0" "rx_room g s"
  shows "rxn' = s_sct_desc_get_required_num (byte_len (tr_rxlength (base g)))"
proof -
  define s1 where "s1 = s_sct_format_conf_buffer i g a True s"
  have "same_driver s s1" "rx_ring s1 = rx_ring s" by (simp_all add: s1_def)
  then show ?thesis
    using assms by (auto simp: s1_def [symmetric] link_rx_def rx_addr_def rx_room_def same_driver_def Let_def not_less
        spi_hal_sct_link_rx_seg_dma_desc_def split: option.splits if_splits prod.splits)
qed

lemma build_pair_rx:
  fixes s :: "'a sct_machine_scheme"
  assumes b: "build_and_send i conf [g1, g2] s = (ESP_OK, s')"
    and rx: "rx_addr g1 s = 0" "rx_addr g2 s \<noteq> 0" "rx_room g2 s"
  shows "\<exists>p. sct_queue s' i = sct_queue s i @ [p] \<and> rx_seg_head p = None \<and>
    rx_used_desc_num p = ucast (s_sct_desc_get_required_num (byte_len (tr_rxlength (base g2))))"
  using b
proof (cases rule: build_cases)
  case (3 th txn rh rxn s2 txn' rxn' s3)
  let ?s1 = "s_sct_init_conf_buffer conf (length [g1, g2]) s"
  have a: "rx_addr g t = rx_addr g s" if "same_driver s t" for g and t :: "'a sct_machine_scheme"
    using that by (simp add: rx_addr_def same_driver_def)
  have s1: "same_driver s ?s1" "rx_ring ?s1 = rx_ring s" by (rule init_frame)+
  have h: "head_segment i conf g1 False ?s1 = (ESP_OK, th, txn, rh, rxn, s2)" using 3(1) by simp
  note head = head_tx_only [OF h, unfolded a [OF s1(1)] s1(2), OF rx(1)]
  have s2: "same_driver s s2" using same_driver_trans [OF s1(1) head_frame [OF h]] .
  have l: "link_segments i (conf + conf_len) [g2] txn 0 s2 = (ESP_OK, txn', rxn', s3)"
    using 3(2) head(2) by (simp del: link_segments.simps)
  have "rxn' = s_sct_desc_get_required_num (byte_len (tr_rxlength (base g2)))"
    using rx(2,3) a [OF s2] head(3) by (intro link_one_rx [OF l]) (simp_all add: rx_room_def)
  moreover have "same_driver s s3" using same_driver_trans [OF s2 link_segments_frame [OF l]] .
  moreover have "sct_queue s' i = sct_queue s3 i @ [sct_item th rh [g1, g2] conf txn' rxn']"
    using 3(3) by (auto simp: send_sct_def set_host_def split: if_splits)
  ultimately show ?thesis using head(1) by (simp add: sct_item_def same_driver_def)
qed simp_all

lemma required_small:
  assumes "unat n \<le> 0x40000" "n \<noteq> 0"
  shows "(ucast (s_sct_desc_get_required_num (byte_len n)) :: u16) \<noteq> 0"
proof -
  let ?r = "s_sct_desc_get_required_num (byte_len n)"
  have r: "unat ?r = length (pieces 0 (unat (byte_len n)) False)" "byte_len n \<noteq> 0"
    using required_num [OF short_byte_len] byte_len_0 assms by auto
  have "unat (n + 7) = unat n + 7"
    using assms(1) by (subst unat_plus_simple [THEN iffD1]) (auto simp: word_le_nat_alt unat_word_ariths)
  then have "unat (byte_len n) \<le> 0x8000" using assms(1) by (simp add: byte_len_def unat_div)
  then have "unat ?r < 2 ^ 16" using r(1) by (simp add: pieces_length LLDESC_MAX_NUM_PER_DESC_def)
  moreover have "unat ?r \<noteq> 0" using r by (subst (asm) pieces.simps) (auto simp: unat_eq_0)
  ultimately have "unat (ucast ?r :: u16) \<noteq> 0"
    by (simp add: unsigned_ucast_eq unsigned_take_bit_eq take_bit_nat_eq_self)
  then show ?thesis by auto
qed

lemma check_trans_valid_rx:
  "check_trans_valid h (Some i) t = (ESP_OK, t') \<Longrightarrow> unat (tr_rxlength t') \<le> 0x40000"
  by (auto simp: check_trans_valid_def SPI_LL_DMA_MAX_BIT_LEN_def SPI_LL_CPU_MAX_BIT_LEN_def Let_def word_le_nat_alt
      split: if_splits)

lemma check_all_valid_rx:
  "check_all_valid h (Some i) gs = (ESP_OK, gs') \<Longrightarrow> \<forall>g \<in> set gs'. unat (tr_rxlength (base g)) \<le> 0x40000"
proof (induction gs arbitrary: gs')
  case (Cons g gs)
  obtain t where "check_trans_valid h (Some i) (base g) = (ESP_OK, t)"
    using Cons.prems by (auto split: prod.splits if_splits)
  then show ?case using Cons check_trans_valid_rx by (auto split: prod.splits if_splits)
qed simp

text \<open>
  C34: A transaction that first sends and then receives, as a write of a command and a read of the
  answer do, ends in a failed assertion: only the first segment sets the head of the chain for
  receiving, so the descriptors of the second are counted, but the chain is never started, and the
  handler finds a count without a head when the transaction is done.
\<close>

theorem sct_rx_after_tx_aborts:
  fixes s s' t :: "'a sct_machine_scheme"
  assumes q: "spi_device_queue_multi_trans (Some i) g [g'] s = (ESP_OK, [g1, g2], s')"
    and rx: "rx_addr g1 s = 0" "rx_addr g2 s \<noteq> 0" "tr_rxlength (base g2) \<noteq> 0" "rx_room g2 s"
  shows "\<exists>p. sct_queue s' i = sct_queue s i @ [p] \<and>
    (cur_sct_trans t = p \<and> cur_cs (host t) \<noteq> DEV_NUM_MAX \<longrightarrow> sct_done t = Inl Assert_Failed)"
  using q
proof (cases rule: queue_cases)
  case (built conf s1)
  have s1: "rx_addr g1 s1 = 0" "rx_addr g2 s1 \<noteq> 0" "rx_room g2 s1" "sct_queue s1 = sct_queue s"
    using built(1) rx by (auto simp: dma_malloc_def rx_addr_def rx_room_def Let_def split: if_splits)
  obtain p where p: "sct_queue s' i = sct_queue s1 i @ [p]" "rx_seg_head p = None"
      "rx_used_desc_num p = ucast (s_sct_desc_get_required_num (byte_len (tr_rxlength (base g2))))"
    using build_pair_rx [OF built(4) s1(1-3)] by blast
  have "unat (tr_rxlength (base g2)) \<le> 0x40000" using check_all_valid_rx [OF built(3)] by simp
  then have "rx_used_desc_num p \<noteq> 0" using p(3) rx(3) required_small by simp
  then show ?thesis
    using p s1(4) by (intro exI [of _ p]) (auto simp: sct_done_def spi_post_sct_trans_def bindr_def Let_def)
qed simp

text \<open>A write of two bytes and then a read of one, on the host above.\<close>

definition seg_read :: "u32 \<Rightarrow> u32 \<Rightarrow> spi_multi_transaction" where
  "seg_read a n = (seg_write 0 0)\<lparr>base := trans0\<lparr>tr_rxlength := n, tr_rx := Buffer (Addr a)\<rparr>\<rparr>"

lemma seg_write_read_queued:
  "\<exists>s'. spi_device_queue_multi_trans (Some 0) (seg_write 0x3FC91000 16) [seg_read 0x3FC92000 8] seg_ready =
     (ESP_OK, [seg_write 0x3FC91000 16, seg_read 0x3FC92000 8], s')"
proof -
  have v: "check_all_valid (host seg_ready) (Some 0) [seg_write 0x3FC91000 16, seg_read 0x3FC92000 8] =
      (ESP_OK, [seg_write 0x3FC91000 16, seg_read 0x3FC92000 8])"
    unfolding seg_ready_fields by code_simp
  have m: "\<exists>s1. dma_malloc (of_nat (length [seg_write 0x3FC91000 16, seg_read 0x3FC92000 8]) * conf_len) seg_ready = (0x3FCA0000, s1)"
    by (simp add: dma_malloc_def seg_ready_def seg_machine_def roomy_machine_def)
  then obtain s1 where m: "dma_malloc (of_nat (length [seg_write 0x3FC91000 16, seg_read 0x3FC92000 8]) * conf_len) seg_ready =
      (0x3FCA0000, s1)" ..
  have "sends_ok seg_ready [seg_write 0x3FC91000 16, seg_read 0x3FC92000 8]" "rx_room (seg_write 0x3FC91000 16) seg_ready"
    by (simp_all add: sends_ok_def rx_room_def seg_read_def seg_write_def tx_addr_def rx_addr_def trans0_def ptr_addr_def
        union_ptr_def bytes_as_ptr_def)
  moreover have "tx_size (tx_segs 0x3FCA0000 [seg_write 0x3FC91000 16, seg_read 0x3FC92000 8] seg_ready) = 3"
    by code_simp
  ultimately show ?thesis
    using queue_result [OF _ _ _ m _ v] by (auto simp: SOC_SPI_SCT_SUPPORTED_PERIPH_def simp del: check_all_valid.simps)
qed

lemma sct_rx_after_tx_aborts_witness:
  "\<exists>s' p. spi_device_queue_multi_trans (Some 0) (seg_write 0x3FC91000 16) [seg_read 0x3FC92000 8] seg_ready =
       (ESP_OK, [seg_write 0x3FC91000 16, seg_read 0x3FC92000 8], s') \<and>
     sct_queue s' 0 = [p] \<and> sct_done (set_host (\<lambda>h. h\<lparr>cur_cs := 0\<rparr>) (s'\<lparr>cur_sct_trans := p\<rparr>)) = Inl Assert_Failed"
proof -
  obtain s' where q: "spi_device_queue_multi_trans (Some 0) (seg_write 0x3FC91000 16) [seg_read 0x3FC92000 8] seg_ready =
       (ESP_OK, [seg_write 0x3FC91000 16, seg_read 0x3FC92000 8], s')"
    using seg_write_read_queued ..
  have rx: "rx_addr (seg_write 0x3FC91000 16) seg_ready = 0" "rx_addr (seg_read 0x3FC92000 8) seg_ready \<noteq> 0"
      "tr_rxlength (base (seg_read 0x3FC92000 8)) \<noteq> 0" "rx_room (seg_read 0x3FC92000 8) seg_ready"
    by (simp_all add: rx_room_def seg_read_def seg_write_def rx_addr_def trans0_def ptr_addr_def union_ptr_def bytes_as_ptr_def
        seg_ready_def seg_machine_def s_spi_sct_reset_ring_def blank_ring_def s_sct_desc_get_required_num_def byte_len_def
        LLDESC_MAX_NUM_PER_DESC_def)
  have aborts: "\<exists>p. sct_queue s' 0 = [p] \<and> (cur_sct_trans t = p \<and> cur_cs (host t) \<noteq> DEV_NUM_MAX \<longrightarrow> sct_done t = Inl Assert_Failed)" for t :: sct_machine
    using sct_rx_after_tx_aborts [OF q rx, of t] by simp
  obtain p where p: "sct_queue s' 0 = [p]" using aborts by blast
  then show ?thesis
    using q aborts [of "set_host (\<lambda>h. h\<lparr>cur_cs := 0\<rparr>) (s'\<lparr>cur_sct_trans := p\<rparr>)"]
    by (intro exI [of _ s'] exI [of _ p]) (auto simp: set_host_def DEV_NUM_MAX_def)
qed

section \<open>Descriptors given back out of order\<close>

lemma head_two:
  assumes "buf \<noteq> 0" "n \<in> {1..4092}" "cur_link r = p mod length (descs r)" "2 \<le> unat (free_num r)" "unat (free_num r) \<le> length (descs r)"
  obtains r' where "spi_hal_sct_new_tx_dma_desc_head cf conf_len buf n r = Some (p mod length (descs r), 2, r')"
    "placed False r p [(cf, 60), (buf, unat n)] r'"
proof -
  have n: "0 < unat n" "unat n \<le> 4092" using assms(2) by (auto simp: word_le_nat_alt)
  then have good: "tx_good (cf, conf_len, buf, n)"
    using assms(1) by (simp add: tx_good_def short_def conf_len LLDESC_MAX_NUM_PER_DESC_def)
  have cs: "tx_pieces (cf, conf_len, buf, n) = [(cf, 60), (buf, unat n)]"
    using assms(1) n pieces.simps [of buf "unat n" False]
    by (auto simp: tx_pieces_def tx_chunks_def conf_len LLDESC_MAX_NUM_PER_DESC_def)
  have "placed False r p [(cf, 60), (buf, unat n)] (put_tx (cf, conf_len, buf, n) r)"
    using tx_side.placing [OF good assms(3)] assms(4,5) cs by simp
  then show ?thesis using that head_tx_room [OF good, of r] assms(3,4) cs by simp
qed

text \<open>
  C35: With two devices on the bus a transaction may be done before an earlier one of the other
  device. Its descriptors are then counted as free, although the next ones in turn are those of
  the earlier transaction: here, in a ring of six, of the transactions A, B and C the last is done
  before the others, and a transaction D that needs two descriptors takes those of A. What the DMA
  engine then reads for A is D.
\<close>

theorem sct_overtaken_overwritten:
  fixes cfa cfb cfc cfd a b c d :: u32
  assumes "0 \<notin> {a, b, c, d}" "{na, nb, nc, nd} \<subseteq> {1..4092 :: u32}"
  shows "\<exists>ha hb hc hd r1 r2 r3 r4.
    spi_hal_sct_new_tx_dma_desc_head cfa conf_len a na (s_spi_sct_reset_ring (blank_ring 6)) = Some (ha, 2, r1) \<and>
    spi_hal_sct_new_tx_dma_desc_head cfb conf_len b nb r1 = Some (hb, 2, r2) \<and>
    spi_hal_sct_new_tx_dma_desc_head cfc conf_len c nc r2 = Some (hc, 2, r3) \<and>
    follow False 6 (descs r3) ha = [(cfa, 60), (a, unat na)] \<and>
    spi_hal_sct_new_tx_dma_desc_head cfd conf_len d nd (desc_recycle 2 r3) = Some (hd, 2, r4) \<and>
    follow False 6 (descs r4) ha = [(cfd, 60), (d, unat nd)]"
proof -
  let ?r0 = "s_spi_sct_reset_ring (blank_ring 6)"
  have r0: "cur_link ?r0 = 0 mod length (descs ?r0)" "free_num ?r0 = 6" "length (descs ?r0) = 6"
    by (simp_all add: s_spi_sct_reset_ring_def blank_ring_def)
  obtain r1 where r1: "spi_hal_sct_new_tx_dma_desc_head cfa conf_len a na ?r0 = Some (0, 2, r1)"
      "placed False ?r0 0 [(cfa, 60), (a, unat na)] r1"
    using assms r0 by (auto intro: head_two [of a na ?r0 0 cfa])
  then have f1: "cur_link r1 = 2 mod length (descs r1)" "unat (free_num r1) = 4" "length (descs r1) = 6"
    using r0 by (simp_all add: placed_def)
  obtain r2 where r2: "spi_hal_sct_new_tx_dma_desc_head cfb conf_len b nb r1 = Some (2, 2, r2)"
      "placed False r1 2 [(cfb, 60), (b, unat nb)] r2"
    using assms f1 by (auto intro: head_two [of b nb r1 2 cfb])
  then have f2: "cur_link r2 = 4 mod length (descs r2)" "unat (free_num r2) = 2" "length (descs r2) = 6"
    using f1 by (simp_all add: placed_def)
  obtain r3 where r3: "spi_hal_sct_new_tx_dma_desc_head cfc conf_len c nc r2 = Some (4, 2, r3)"
      "placed False r2 4 [(cfc, 60), (c, unat nc)] r3"
    using assms f2 by (auto intro: head_two [of c nc r2 4 cfc])
  then have f3: "cur_link r3 = 0" "unat (free_num r3) = 0" "length (descs r3) = 6"
    using f2 by (simp_all add: placed_def)
  let ?r = "desc_recycle 2 r3"
  have f: "cur_link ?r = 0 mod length (descs ?r)" "unat (free_num ?r) = 2" "length (descs ?r) = 6"
    using f3 by (simp_all add: desc_recycle_def unat_eq_0)
  obtain r4 where r4: "spi_hal_sct_new_tx_dma_desc_head cfd conf_len d nd ?r = Some (0, 2, r4)"
      "placed False ?r 0 [(cfd, 60), (d, unat nd)] r4"
    using assms f by (auto intro: head_two [of d nd ?r 0 cfd])
  have "walk False (descs r1) 0 [(cfa, 60), (a, unat na)] None"
    using r1(2) by (simp add: placed_def del: walk.simps)
  moreover have "descs r3 ! k = descs r1 ! k" if "k < 2" for k
  proof -
    have "k \<notin> cells 6 2 2" "k \<notin> cells 6 4 2" using that by (auto simp: cells_def lessThan_Suc numeral_2_eq_2)
    then show ?thesis using r2(2) r3(2) f1(3) f2(3) by (simp add: placed_def numeral_2_eq_2)
  qed
  ultimately have "walk False (descs r3) 0 [(cfa, 60), (a, unat na)] None"
    using f1(3) f3(3) by simp
  then have "follow False 6 (descs r3) (0 mod length (descs r3)) = [(cfa, 60), (a, unat na)]"
    by (intro follow_walk) simp_all
  moreover have "follow False 6 (descs r4) (0 mod length (descs r4)) = [(cfd, 60), (d, unat nd)]"
    using r4(2) by (intro follow_walk) (simp_all add: placed_def del: walk.simps)
  ultimately show ?thesis using r1(1) r2(1) r3(1) r4(1) f3(3) r4(2) f(3) by (auto simp: placed_def simp del: walk.simps)
qed

lemma sct_overtaken_overwritten_witness:
  "\<exists>ha r3 r4 hd. follow False 6 (descs r3) ha = [(0x3FCA0000, 60), (0x3FC91000, 4)] \<and>
    spi_hal_sct_new_tx_dma_desc_head 0x3FCA1000 conf_len 0x3FC94000 8 (desc_recycle 2 r3) = Some (hd, 2, r4) \<and>
    follow False 6 (descs r4) ha = [(0x3FCA1000, 60), (0x3FC94000, 8)]"
  using sct_overtaken_overwritten [of "0x3FC91000" "0x3FC92000" "0x3FC93000" "0x3FC94000" 4 4 4 8 "0x3FCA0000" "0x3FCA0040" "0x3FCA0080"
      "0x3FCA1000"] by auto

end
