(* ===== verification/Spi_Registers.thy ===== *)
theory Spi_Registers
  imports Spi_Segments_Queue
begin

text \<open>
  The registers of the SPI peripheral and what the low-level functions of the master write to them
  (\<open>hal/esp32s3/include/hal/spi_ll.h\<close>, with the layout of \<open>soc/esp32s3/register/soc/spi_struct.h\<close>). The register file is a
  function from registers to words. It holds what was last written; what the peripheral makes of a write is not
  part of the code, with one exception: the update bit of the command register, on which \<open>spi_ll_apply_config\<close> waits,
  is cleared by the peripheral.
\<close>

section \<open>The register file\<close>

text \<open>The registers that a segment image holds (\<open>Conf\<close>), and the others that the master uses.\<close>

datatype spi_reg = Conf conf_reg | Cmd_Reg | Slave_Reg | Clk_Gate_Reg | Int_Raw_Reg | Int_Set_Reg | Data_Buf nat

type_synonym spi_regs = "spi_reg \<Rightarrow> u32"

definition upd :: "spi_reg \<Rightarrow> (u32 \<Rightarrow> u32) \<Rightarrow> spi_regs \<Rightarrow> spi_regs" where
  "upd r f hw = hw(r := f (hw r))"

text \<open>A sequence of statements, and a conditional one.\<close>

primrec in_order :: "('a \<Rightarrow> 'a) list \<Rightarrow> 'a \<Rightarrow> 'a" where
  "in_order [] x = x"
| "in_order (f # fs) x = in_order fs (f x)"

definition only_if :: "bool \<Rightarrow> ('a \<Rightarrow> 'a) \<Rightarrow> 'a \<Rightarrow> 'a" where
  "only_if b f x = (if b then f x else x)"

lemma upd_apply [simp]: "upd r f hw r' = (if r' = r then f (hw r) else hw r')"
  by (simp add: upd_def)

section \<open>Fields\<close>

text \<open>Bits and fields of the registers, by the position of the lowest bit.\<close>

definition CMD_CONF_BITLEN :: "nat \<times> nat" where "CMD_CONF_BITLEN = (0, 18)"
definition CMD_UPDATE :: nat where "CMD_UPDATE = 23"
definition CMD_USR :: nat where "CMD_USR = 24"
definition CTRL_D_POL :: nat where "CTRL_D_POL = 19"
definition CTRL_RD_BIT_ORDER :: "nat \<times> nat" where "CTRL_RD_BIT_ORDER = (23, 2)"
definition CTRL_WR_BIT_ORDER :: "nat \<times> nat" where "CTRL_WR_BIT_ORDER = (25, 2)"
definition CLOCK_CLKCNT_L :: "nat \<times> nat" where "CLOCK_CLKCNT_L = (0, 6)"
definition CLOCK_CLKCNT_H :: "nat \<times> nat" where "CLOCK_CLKCNT_H = (6, 6)"
definition CLOCK_CLKCNT_N :: "nat \<times> nat" where "CLOCK_CLKCNT_N = (12, 6)"
definition CLOCK_CLKDIV_PRE :: "nat \<times> nat" where "CLOCK_CLKDIV_PRE = (18, 4)"
definition CLOCK_CLK_EQU_SYSCLK :: nat where "CLOCK_CLK_EQU_SYSCLK = 31"
definition USER_DOUTDIN :: nat where "USER_DOUTDIN = 0"
definition USER_CK_OUT_EDGE :: nat where "USER_CK_OUT_EDGE = 9"
definition USER_SIO :: nat where "USER_SIO = 17"
definition USER_MISO_HIGHPART :: nat where "USER_MISO_HIGHPART = 24"
definition USER_MOSI_HIGHPART :: nat where "USER_MOSI_HIGHPART = 25"
definition MISC_MASTER_CS_POL :: "nat \<times> nat" where "MISC_MASTER_CS_POL = (7, 6)"
definition MISC_CK_IDLE_EDGE :: nat where "MISC_CK_IDLE_EDGE = 29"
definition MISC_CS_KEEP_ACTIVE :: nat where "MISC_CS_KEEP_ACTIVE = 30"
definition DMA_SEG_TRANS_EN :: nat where "DMA_SEG_TRANS_EN = 18"
definition RX_SEG_TRANS_CLR_EN :: nat where "RX_SEG_TRANS_CLR_EN = 19"
definition TX_SEG_TRANS_CLR_EN :: nat where "TX_SEG_TRANS_CLR_EN = 20"
definition RX_AFIFO_RST :: nat where "RX_AFIFO_RST = 29"
definition BUF_AFIFO_RST :: nat where "BUF_AFIFO_RST = 30"
definition DMA_AFIFO_RST :: nat where "DMA_AFIFO_RST = 31"
definition INT_INFIFO_FULL_ERR :: nat where "INT_INFIFO_FULL_ERR = 0"
definition INT_OUTFIFO_EMPTY_ERR :: nat where "INT_OUTFIFO_EMPTY_ERR = 1"
definition INT_TRANS_DONE :: nat where "INT_TRANS_DONE = 12"
definition INT_DMA_SEG_TRANS_DONE :: nat where "INT_DMA_SEG_TRANS_DONE = 13"
definition SLAVE_DMA_SEG_MAGIC_VALUE :: "nat \<times> nat" where "SLAVE_DMA_SEG_MAGIC_VALUE = (22, 4)"
definition SLAVE_USR_CONF :: nat where "SLAVE_USR_CONF = 28"
definition CLK_GATE_CLK_EN :: nat where "CLK_GATE_CLK_EN = 0"
definition CLK_GATE_MST_CLK_ACTIVE :: nat where "CLK_GATE_MST_CLK_ACTIVE = 1"
definition CLK_GATE_MST_CLK_SEL :: nat where "CLK_GATE_MST_CLK_SEL = 2"

lemmas reg_field_defs = CMD_CONF_BITLEN_def CMD_UPDATE_def CMD_USR_def CTRL_D_POL_def CTRL_RD_BIT_ORDER_def
  CTRL_WR_BIT_ORDER_def CLOCK_CLKCNT_L_def CLOCK_CLKCNT_H_def CLOCK_CLKCNT_N_def CLOCK_CLKDIV_PRE_def
  CLOCK_CLK_EQU_SYSCLK_def USER_DOUTDIN_def USER_CK_OUT_EDGE_def USER_SIO_def USER_MISO_HIGHPART_def
  USER_MOSI_HIGHPART_def MISC_MASTER_CS_POL_def MISC_CK_IDLE_EDGE_def MISC_CS_KEEP_ACTIVE_def DMA_SEG_TRANS_EN_def
  RX_SEG_TRANS_CLR_EN_def TX_SEG_TRANS_CLR_EN_def RX_AFIFO_RST_def BUF_AFIFO_RST_def DMA_AFIFO_RST_def
  INT_INFIFO_FULL_ERR_def INT_OUTFIFO_EMPTY_ERR_def INT_TRANS_DONE_def INT_DMA_SEG_TRANS_DONE_def
  SLAVE_DMA_SEG_MAGIC_VALUE_def SLAVE_USR_CONF_def CLK_GATE_CLK_EN_def CLK_GATE_MST_CLK_ACTIVE_def CLK_GATE_MST_CLK_SEL_def

text \<open>A boolean stored in a field of two bits.\<close>

definition put_flag :: "bool \<Rightarrow> nat \<times> nat \<Rightarrow> u32 \<Rightarrow> u32" where
  "put_flag b f = SET_FIELD f (if b then 1 else 0)"

lemma bit_SET_FIELD [simp]:
  "bit (SET_FIELD (s, n) v w) j \<longleftrightarrow> (if s \<le> j \<and> j < s + n \<and> j < 32 then bit v (j - s) else bit w j)"
  by (auto simp: SET_FIELD_def bit_simps dest: bit_imp_le_length)

section \<open>Set-up of the peripheral\<close>

text \<open>The hosts, by their number: 1 is \<open>GPSPI2\<close>, 2 is \<open>GPSPI3\<close> (\<open>SPI_LL_GET_HW\<close>).\<close>

datatype spi_clock_source = SPI_CLK_SRC_APB | SPI_CLK_SRC_XTAL

definition spi_ll_enable_clock :: "bool \<Rightarrow> spi_regs \<Rightarrow> spi_regs" where
  "spi_ll_enable_clock enable = upd Clk_Gate_Reg (put_bit enable CLK_GATE_CLK_EN)"

definition spi_ll_set_clk_source :: "spi_clock_source \<Rightarrow> spi_regs \<Rightarrow> spi_regs" where
  "spi_ll_set_clk_source src = upd Clk_Gate_Reg (put_bit (case src of SPI_CLK_SRC_XTAL \<Rightarrow> False | _ \<Rightarrow> True) CLK_GATE_MST_CLK_SEL)"

definition spi_ll_master_init :: "spi_regs \<Rightarrow> spi_regs" where
  "spi_ll_master_init = in_order
     [upd (Conf User1_Reg) (SET_FIELD SPI_CS_SETUP_TIME 0),
      upd (Conf User1_Reg) (SET_FIELD SPI_CS_HOLD_TIME 0),
      upd (Conf User_Reg) (put_bit False USER_MISO_HIGHPART),
      upd (Conf User_Reg) (put_bit False USER_MOSI_HIGHPART),
      upd Slave_Reg (\<lambda>_. 0),
      upd (Conf User_Reg) (\<lambda>_. 0),
      upd Clk_Gate_Reg (put_bit True CLK_GATE_MST_CLK_ACTIVE),
      upd Clk_Gate_Reg (put_bit True CLK_GATE_MST_CLK_SEL),
      upd (Conf Dma_Conf_Reg) (\<lambda>_. 0),
      upd (Conf Dma_Conf_Reg) (put_bit True TX_SEG_TRANS_CLR_EN),
      upd (Conf Dma_Conf_Reg) (put_bit True RX_SEG_TRANS_CLR_EN),
      upd (Conf Dma_Conf_Reg) (put_bit False DMA_SEG_TRANS_EN)]"

definition spi_ll_set_mosi_free_level :: "bool \<Rightarrow> spi_regs \<Rightarrow> spi_regs" where
  "spi_ll_set_mosi_free_level level = upd (Conf Ctrl_Reg) (put_bit level CTRL_D_POL)"

text \<open>
  \<open>busy k\<close>: the peripheral still shows the update bit at the \<open>k\<close>-th read. The loop ends at the first read
  at which it does not; then the bit is clear.
\<close>

partial_function (option) wait_update :: "(nat \<Rightarrow> bool) \<Rightarrow> nat \<Rightarrow> spi_regs \<Rightarrow> spi_regs option" where
  "wait_update busy k hw =
     (if busy k then wait_update busy (Suc k) hw else Some (upd Cmd_Reg (put_bit False CMD_UPDATE) hw))"

definition spi_ll_apply_config :: "(nat \<Rightarrow> bool) \<Rightarrow> spi_regs \<Rightarrow> spi_regs option" where
  "spi_ll_apply_config busy hw = wait_update busy 0 (upd Cmd_Reg (put_bit True CMD_UPDATE) hw)"

definition spi_ll_usr_is_done :: "spi_regs \<Rightarrow> bool" where
  "spi_ll_usr_is_done hw = bit (hw Int_Raw_Reg) INT_TRANS_DONE"

definition spi_ll_user_start :: "spi_regs \<Rightarrow> spi_regs" where
  "spi_ll_user_start = upd Cmd_Reg (put_bit True CMD_USR)"

definition spi_ll_get_running_cmd :: "spi_regs \<Rightarrow> u32" where
  "spi_ll_get_running_cmd hw = GET_FIELD (CMD_USR, 1) (hw Cmd_Reg)"

definition spi_ll_dma_tx_fifo_reset :: "spi_regs \<Rightarrow> spi_regs" where
  "spi_ll_dma_tx_fifo_reset = in_order
     [upd (Conf Dma_Conf_Reg) (put_bit True DMA_AFIFO_RST), upd (Conf Dma_Conf_Reg) (put_bit False DMA_AFIFO_RST)]"

definition spi_ll_dma_rx_fifo_reset :: "spi_regs \<Rightarrow> spi_regs" where
  "spi_ll_dma_rx_fifo_reset = in_order
     [upd (Conf Dma_Conf_Reg) (put_bit True RX_AFIFO_RST), upd (Conf Dma_Conf_Reg) (put_bit False RX_AFIFO_RST)]"

definition spi_ll_infifo_full_clr :: "spi_regs \<Rightarrow> spi_regs" where
  "spi_ll_infifo_full_clr = upd (Conf Dma_Int_Clr_Reg) (put_bit True INT_INFIFO_FULL_ERR)"

definition spi_ll_outfifo_empty_clr :: "spi_regs \<Rightarrow> spi_regs" where
  "spi_ll_outfifo_empty_clr = upd (Conf Dma_Int_Clr_Reg) (put_bit True INT_OUTFIFO_EMPTY_ERR)"

definition spi_ll_dma_rx_enable :: "bool \<Rightarrow> spi_regs \<Rightarrow> spi_regs" where
  "spi_ll_dma_rx_enable enable = upd (Conf Dma_Conf_Reg) (put_bit enable SPI_DMA_RX_ENA)"

definition spi_ll_dma_tx_enable :: "bool \<Rightarrow> spi_regs \<Rightarrow> spi_regs" where
  "spi_ll_dma_tx_enable enable = upd (Conf Dma_Conf_Reg) (put_bit enable SPI_DMA_TX_ENA)"

section \<open>The data buffer\<close>

text \<open>
  Sixteen words that hold the data of a transfer without DMA, in the order of memory (little endian). A length is in
  bits, at most \<open>16 * 32\<close>, as \<open>check_trans_valid\<close> makes sure; the loops take one word at a time.
\<close>

definition buf_words :: "u32 \<Rightarrow> nat" where
  "buf_words bitlen = (unat bitlen + 31) div 32"

definition spi_ll_write_buffer :: "(u32 \<Rightarrow> u8) \<Rightarrow> u32 \<Rightarrow> u32 \<Rightarrow> spi_regs \<Rightarrow> spi_regs" where
  "spi_ll_write_buffer m a bitlen =
     in_order (map (\<lambda>k. upd (Data_Buf k) (\<lambda>_. load_word m (a + of_nat (4 * k)))) [0..<buf_words bitlen])"

text \<open>The bytes of the \<open>k\<close>-th word that belong to the buffer: \<open>(len + 7) / 8\<close> for the bits left, at most 32.\<close>

definition read_bytes :: "u32 \<Rightarrow> nat \<Rightarrow> nat" where
  "read_bytes bitlen k = (min 32 (unat bitlen - 32 * k) + 7) div 8"

definition spi_ll_read_buffer :: "u32 \<Rightarrow> u32 \<Rightarrow> spi_regs \<Rightarrow> (u32 \<Rightarrow> u8) \<Rightarrow> u32 \<Rightarrow> u8" where
  "spi_ll_read_buffer a bitlen hw =
     in_order (map (\<lambda>k m. store m (a + of_nat (4 * k)) (take (read_bytes bitlen k) (word_bytes (hw (Data_Buf k))))) [0..<buf_words bitlen])"

section \<open>Device settings\<close>

text \<open>\<open>cs\<close> is the number of the select line; shifts beyond the field of six bits are cut off.\<close>

definition spi_ll_master_set_pos_cs :: "nat \<Rightarrow> bool \<Rightarrow> spi_regs \<Rightarrow> spi_regs" where
  "spi_ll_master_set_pos_cs cs pos_cs = upd (Conf Misc_Reg) (\<lambda>w.
     SET_FIELD MISC_MASTER_CS_POL
       (if pos_cs then GET_FIELD MISC_MASTER_CS_POL w OR push_bit cs 1
        else GET_FIELD MISC_MASTER_CS_POL w AND NOT (push_bit cs 1)) w)"

definition spi_ll_set_tx_lsbfirst :: "bool \<Rightarrow> spi_regs \<Rightarrow> spi_regs" where
  "spi_ll_set_tx_lsbfirst lsbfirst = upd (Conf Ctrl_Reg) (put_flag lsbfirst CTRL_WR_BIT_ORDER)"

definition spi_ll_set_rx_lsbfirst :: "bool \<Rightarrow> spi_regs \<Rightarrow> spi_regs" where
  "spi_ll_set_rx_lsbfirst lsbfirst = upd (Conf Ctrl_Reg) (put_flag lsbfirst CTRL_RD_BIT_ORDER)"

definition set_edges :: "bool \<Rightarrow> bool \<Rightarrow> spi_regs \<Rightarrow> spi_regs" where
  "set_edges idle out = in_order
     [upd (Conf Misc_Reg) (put_bit idle MISC_CK_IDLE_EDGE), upd (Conf User_Reg) (put_bit out USER_CK_OUT_EDGE)]"

definition spi_ll_master_set_mode :: "u8 \<Rightarrow> spi_regs \<Rightarrow> spi_regs" where
  "spi_ll_master_set_mode m =
     (if m = 0 then set_edges False False
      else if m = 1 then set_edges False True
      else if m = 2 then set_edges True True
      else if m = 3 then set_edges True False
      else id)"

definition spi_ll_set_half_duplex :: "bool \<Rightarrow> spi_regs \<Rightarrow> spi_regs" where
  "spi_ll_set_half_duplex half_duplex = upd (Conf User_Reg) (put_bit (\<not> half_duplex) USER_DOUTDIN)"

definition spi_ll_set_sio_mode :: "bool \<Rightarrow> spi_regs \<Rightarrow> spi_regs" where
  "spi_ll_set_sio_mode sio = upd (Conf User_Reg) (put_bit sio USER_SIO)"

definition spi_ll_master_set_line_mode :: "spi_line_mode \<Rightarrow> spi_regs \<Rightarrow> spi_regs" where
  "spi_ll_master_set_line_mode lm = in_order
     [upd (Conf Ctrl_Reg) (\<lambda>w. w AND NOT SPI_LL_ONE_LINE_CTRL_MASK),
      upd (Conf User_Reg) (\<lambda>w. w AND NOT SPI_LL_ONE_LINE_USER_MASK),
      upd (Conf Ctrl_Reg) (put_bit (cmd_lines lm = 2) SPI_FCMD_DUAL),
      upd (Conf Ctrl_Reg) (put_bit (cmd_lines lm = 4) SPI_FCMD_QUAD),
      upd (Conf Ctrl_Reg) (put_bit (cmd_lines lm = 8) SPI_FCMD_OCT),
      upd (Conf Ctrl_Reg) (put_bit (addr_lines lm = 2) SPI_FADDR_DUAL),
      upd (Conf Ctrl_Reg) (put_bit (addr_lines lm = 4) SPI_FADDR_QUAD),
      upd (Conf Ctrl_Reg) (put_bit (addr_lines lm = 8) SPI_FADDR_OCT),
      upd (Conf Ctrl_Reg) (put_bit (data_lines lm = 2) SPI_FREAD_DUAL),
      upd (Conf Ctrl_Reg) (put_bit (data_lines lm = 4) SPI_FREAD_QUAD),
      upd (Conf Ctrl_Reg) (put_bit (data_lines lm = 8) SPI_FREAD_OCT),
      upd (Conf User_Reg) (put_bit (data_lines lm = 2) SPI_FWRITE_DUAL),
      upd (Conf User_Reg) (put_bit (data_lines lm = 4) SPI_FWRITE_QUAD),
      upd (Conf User_Reg) (put_bit (data_lines lm = 8) SPI_FWRITE_OCT)]"

definition spi_ll_master_select_cs :: "nat \<Rightarrow> nat \<Rightarrow> spi_regs \<Rightarrow> spi_regs" where
  "spi_ll_master_select_cs hostid cs_id =
     in_order (map (\<lambda>k. upd (Conf Misc_Reg) (put_bit (cs_id \<noteq> k) k))
       (if hostid = 1 then [0, 1, 2, 3, 4, 5] else if hostid = 2 then [0, 1, 2] else []))"

definition spi_ll_master_keep_cs :: "bool \<Rightarrow> spi_regs \<Rightarrow> spi_regs" where
  "spi_ll_master_keep_cs keep_active = upd (Conf Misc_Reg) (put_bit keep_active MISC_CS_KEEP_ACTIVE)"

text \<open>The word of the clock register (\<open>reg.val\<close> of \<open>spi_ll_master_cal_clock\<close>).\<close>

definition clock_val :: "spi_clock_reg \<Rightarrow> u32" where
  "clock_val c = in_order
     [SET_FIELD CLOCK_CLKCNT_L (word_of_int (clkcnt_l c)), SET_FIELD CLOCK_CLKCNT_H (word_of_int (clkcnt_h c)),
      SET_FIELD CLOCK_CLKCNT_N (word_of_int (clkcnt_n c)), SET_FIELD CLOCK_CLKDIV_PRE (word_of_int (clkdiv_pre c)),
      put_bit (clk_equ_sysclk c) CLOCK_CLK_EQU_SYSCLK] 0"

definition spi_ll_master_set_clock_by_reg :: "spi_clock_reg \<Rightarrow> spi_regs \<Rightarrow> spi_regs" where
  "spi_ll_master_set_clock_by_reg c = upd (Conf Clock_Reg) (\<lambda>_. clock_val c)"

definition spi_ll_set_mosi_delay :: "int \<Rightarrow> int \<Rightarrow> spi_regs \<Rightarrow> spi_regs" where
  "spi_ll_set_mosi_delay delay_mode delay_num hw = hw"

definition spi_ll_set_miso_delay :: "int \<Rightarrow> int \<Rightarrow> spi_regs \<Rightarrow> spi_regs" where
  "spi_ll_set_miso_delay delay_mode delay_num hw = hw"

definition spi_ll_master_set_cs_hold :: "int \<Rightarrow> spi_regs \<Rightarrow> spi_regs" where
  "spi_ll_master_set_cs_hold hold = in_order
     [upd (Conf User1_Reg) (SET_FIELD SPI_CS_HOLD_TIME (word_of_int hold)),
      upd (Conf User_Reg) (put_bit (hold \<noteq> 0) SPI_CS_HOLD)]"

definition spi_ll_master_set_cs_setup :: "u8 \<Rightarrow> spi_regs \<Rightarrow> spi_regs" where
  "spi_ll_master_set_cs_setup n = in_order
     [upd (Conf User1_Reg) (SET_FIELD SPI_CS_SETUP_TIME (ucast n - 1)),
      upd (Conf User_Reg) (put_bit (n \<noteq> 0) SPI_CS_SETUP)]"

section \<open>Transaction settings\<close>

definition spi_ll_set_mosi_bitlen :: "u32 \<Rightarrow> spi_regs \<Rightarrow> spi_regs" where
  "spi_ll_set_mosi_bitlen bitlen = only_if (bitlen > 0) (upd (Conf Ms_Dlen_Reg) (SET_FIELD SPI_MS_DATA_BITLEN (bitlen - 1)))"

definition spi_ll_set_miso_bitlen :: "u32 \<Rightarrow> spi_regs \<Rightarrow> spi_regs" where
  "spi_ll_set_miso_bitlen bitlen = only_if (bitlen > 0) (upd (Conf Ms_Dlen_Reg) (SET_FIELD SPI_MS_DATA_BITLEN (bitlen - 1)))"

definition spi_ll_set_command_bitlen :: "int \<Rightarrow> spi_regs \<Rightarrow> spi_regs" where
  "spi_ll_set_command_bitlen bitlen = in_order
     [upd (Conf User2_Reg) (SET_FIELD SPI_USR_COMMAND_BITLEN (word_of_int (bitlen - 1))),
      upd (Conf User_Reg) (put_bit (bitlen \<noteq> 0) SPI_USR_COMMAND)]"

definition spi_ll_set_addr_bitlen :: "int \<Rightarrow> spi_regs \<Rightarrow> spi_regs" where
  "spi_ll_set_addr_bitlen bitlen = in_order
     [upd (Conf User1_Reg) (SET_FIELD SPI_USR_ADDR_BITLEN (word_of_int (bitlen - 1))),
      upd (Conf User_Reg) (put_bit (bitlen \<noteq> 0) SPI_USR_ADDR)]"

definition spi_ll_set_address :: "u64 \<Rightarrow> int \<Rightarrow> bool \<Rightarrow> spi_regs \<Rightarrow> spi_regs" where
  "spi_ll_set_address a addrlen lsbfirst = upd (Conf Addr_Reg)
     (\<lambda>_. if lsbfirst then HAL_SWAP32 (ucast a) else ucast (push_bit (shl_amount 64 (32 - addrlen)) a))"

definition spi_ll_set_command :: "u16 \<Rightarrow> int \<Rightarrow> bool \<Rightarrow> spi_regs \<Rightarrow> spi_regs" where
  "spi_ll_set_command cmd cmdlen lsbfirst = upd (Conf User2_Reg)
     (SET_FIELD SPI_USR_COMMAND_VALUE (if lsbfirst then ucast cmd else HAL_SPI_SWAP_DATA_TX cmd cmdlen))"

definition spi_ll_set_dummy :: "int \<Rightarrow> spi_regs \<Rightarrow> spi_regs" where
  "spi_ll_set_dummy dummy_n = in_order
     [upd (Conf User_Reg) (put_bit (dummy_n \<noteq> 0) SPI_USR_DUMMY),
      only_if (dummy_n > 0) (upd (Conf User1_Reg) (SET_FIELD SPI_USR_DUMMY_CYCLELEN (word_of_int (dummy_n - 1))))]"

definition spi_ll_enable_miso :: "bool \<Rightarrow> spi_regs \<Rightarrow> spi_regs" where
  "spi_ll_enable_miso enable = upd (Conf User_Reg) (put_bit enable SPI_USR_MISO)"

definition spi_ll_enable_mosi :: "bool \<Rightarrow> spi_regs \<Rightarrow> spi_regs" where
  "spi_ll_enable_mosi enable = upd (Conf User_Reg) (put_bit enable SPI_USR_MOSI)"

section \<open>Interrupts\<close>

text \<open>\<open>INTR_LIST\<close>: a bit of the mask that the driver uses, and the bit of the interrupt registers it stands for.\<close>

definition INTR_LIST :: "(nat \<times> nat) list" where
  "INTR_LIST = [(0, 12), (6, 10), (7, 11), (8, 8), (9, 9), (14, 13), (10, 4), (11, 5), (12, 6), (13, 7)]"

definition SPI_LL_INTR_TRANS_DONE :: u32 where "SPI_LL_INTR_TRANS_DONE = push_bit 0 1"
definition SPI_LL_INTR_SEG_DONE :: u32 where "SPI_LL_INTR_SEG_DONE = push_bit 14 1"

definition for_each_intr :: "u32 \<Rightarrow> spi_reg \<Rightarrow> bool \<Rightarrow> spi_regs \<Rightarrow> spi_regs" where
  "for_each_intr msk r v = in_order (map (\<lambda>(m, b). only_if (bit msk m) (upd r (put_bit v b))) INTR_LIST)"

definition spi_ll_enable_intr :: "u32 \<Rightarrow> spi_regs \<Rightarrow> spi_regs" where
  "spi_ll_enable_intr msk = for_each_intr msk (Conf Dma_Int_Ena_Reg) True"

definition spi_ll_disable_intr :: "u32 \<Rightarrow> spi_regs \<Rightarrow> spi_regs" where
  "spi_ll_disable_intr msk = for_each_intr msk (Conf Dma_Int_Ena_Reg) False"

definition spi_ll_set_intr :: "u32 \<Rightarrow> spi_regs \<Rightarrow> spi_regs" where
  "spi_ll_set_intr msk = for_each_intr msk Int_Set_Reg True"

definition spi_ll_clear_intr :: "u32 \<Rightarrow> spi_regs \<Rightarrow> spi_regs" where
  "spi_ll_clear_intr msk = for_each_intr msk (Conf Dma_Int_Clr_Reg) True"

definition spi_ll_get_intr :: "u32 \<Rightarrow> spi_regs \<Rightarrow> bool" where
  "spi_ll_get_intr msk hw = list_ex (\<lambda>(m, b). bit msk m \<and> bit (hw Int_Raw_Reg) b) INTR_LIST"

definition spi_ll_disable_int :: "spi_regs \<Rightarrow> spi_regs" where
  "spi_ll_disable_int = upd (Conf Dma_Int_Ena_Reg) (put_bit False INT_TRANS_DONE)"

definition spi_ll_clear_int_stat :: "spi_regs \<Rightarrow> spi_regs" where
  "spi_ll_clear_int_stat = upd (Conf Dma_Int_Clr_Reg) (put_bit True INT_TRANS_DONE)"

definition spi_ll_set_int_stat :: "spi_regs \<Rightarrow> spi_regs" where
  "spi_ll_set_int_stat = upd Int_Set_Reg (put_bit True INT_TRANS_DONE)"

definition spi_ll_enable_int :: "spi_regs \<Rightarrow> spi_regs" where
  "spi_ll_enable_int = upd (Conf Dma_Int_Ena_Reg) (put_bit True INT_TRANS_DONE)"

section \<open>Segmented transfers\<close>

definition spi_ll_set_conf_phase_bits_len :: "u32 \<Rightarrow> spi_regs \<Rightarrow> spi_regs" where
  "spi_ll_set_conf_phase_bits_len conf_bitlen =
     only_if (conf_bitlen \<le> SOC_SPI_SCT_CONF_BITLEN_MAX) (upd Cmd_Reg (SET_FIELD CMD_CONF_BITLEN conf_bitlen))"

definition spi_ll_conf_state_enable :: "bool \<Rightarrow> spi_regs \<Rightarrow> spi_regs" where
  "spi_ll_conf_state_enable enable = upd Slave_Reg (put_bit enable SLAVE_USR_CONF)"

definition spi_ll_set_magic_number :: "u8 \<Rightarrow> spi_regs \<Rightarrow> spi_regs" where
  "spi_ll_set_magic_number magic_value = upd Slave_Reg (SET_FIELD SLAVE_DMA_SEG_MAGIC_VALUE (ucast magic_value))"

section \<open>Facts\<close>

text \<open>The loop of \<open>spi_ll_apply_config\<close> ends at the first read that does not show the bit, and leaves every other bit alone.\<close>

lemma wait_update_ends: "\<not> busy (k + n) \<Longrightarrow> wait_update busy k hw = Some (upd Cmd_Reg (put_bit False CMD_UPDATE) hw)"
proof (induction n arbitrary: k)
  case 0
  then show ?case by (subst wait_update.simps) simp
next
  case (Suc n)
  then show ?case using Suc.IH [of "Suc k"] by (subst wait_update.simps) (simp del: upd_apply add: fun_eq_iff)
qed

lemma wait_update_result: "wait_update busy k hw = Some hw' \<Longrightarrow> hw' = upd Cmd_Reg (put_bit False CMD_UPDATE) hw"
  by (erule wait_update.raw_induct [rotated]) (auto split: if_splits)

lemma update_cleared [simp]:
  "upd Cmd_Reg (put_bit False CMD_UPDATE) (upd Cmd_Reg (put_bit True CMD_UPDATE) hw) = upd Cmd_Reg (put_bit False CMD_UPDATE) hw"
proof -
  have "put_bit False CMD_UPDATE (put_bit True CMD_UPDATE w) = put_bit False CMD_UPDATE w" for w
    by (rule bit_word_eqI) (simp add: CMD_UPDATE_def)
  then show ?thesis by (auto simp: upd_def)
qed

lemma apply_config_ends:
  "\<not> busy n \<Longrightarrow> spi_ll_apply_config busy hw = Some (upd Cmd_Reg (put_bit False CMD_UPDATE) hw)"
  using wait_update_ends [of busy 0 n] by (simp add: spi_ll_apply_config_def)

lemma apply_config_result:
  "spi_ll_apply_config busy hw = Some hw' \<Longrightarrow> hw' = upd Cmd_Reg (put_bit False CMD_UPDATE) hw"
  unfolding spi_ll_apply_config_def by (drule wait_update_result) simp

lemma in_order_append [simp]: "in_order (fs @ gs) x = in_order gs (in_order fs x)"
  by (induction fs arbitrary: x) simp_all

text \<open>The data buffer: what was written there comes back.\<close>

lemma word_bytes_load_word: "word_bytes (load_word m a) = load m a 4"
proof -
  have "ucast (load_word m a) = m a" "ucast (drop_bit 8 (load_word m a)) = m (a + 1)"
    by (rule bit_word_eqI, auto simp: load_word_def bit_simps dest: bit_imp_le_length)+
  moreover have "ucast (drop_bit 16 (load_word m a)) = m (a + 2)" "ucast (drop_bit 24 (load_word m a)) = m (a + 3)"
    by (rule bit_word_eqI, auto simp: load_word_def bit_simps dest: bit_imp_le_length)+
  ultimately show ?thesis by (simp add: word_bytes_def load_def upt_rec)
qed

lemma write_buffer_words:
  "spi_ll_write_buffer m a bitlen hw r =
     (case r of Data_Buf k \<Rightarrow> if k < buf_words bitlen then load_word m (a + of_nat (4 * k)) else hw r | _ \<Rightarrow> hw r)"
proof -
  have "in_order (map (\<lambda>k. upd (Data_Buf k) (\<lambda>_. f k)) [0..<n]) hw r =
      (case r of Data_Buf k \<Rightarrow> if k < n then f k else hw r | _ \<Rightarrow> hw r)" for f n
    by (induction n) (auto simp: less_Suc_eq split: spi_reg.splits)
  then show ?thesis unfolding spi_ll_write_buffer_def .
qed

text \<open>The bytes that a read of the buffer yields.\<close>

definition buf_bytes :: "spi_regs \<Rightarrow> u32 \<Rightarrow> u8 list" where
  "buf_bytes hw bitlen = take ((unat bitlen + 7) div 8) (concat (map (\<lambda>k. word_bytes (hw (Data_Buf k))) [0..<buf_words bitlen]))"

lemma length_word_bytes_4 [simp]: "length (word_bytes w) = 4"
  by (simp add: word_bytes_def)

lemma store_append: "store m a (xs @ ys) = store (store m a xs) (a + of_nat (length xs)) ys"
  by (induction xs arbitrary: m a) (simp_all add: add.assoc)

lemma length_concat_words: "length (concat (map (\<lambda>k. word_bytes (f k)) [0..<n])) = 4 * n"
  by (induction n) simp_all

lemma read_buffer_prefix:
  "n \<le> buf_words bitlen \<Longrightarrow>
   in_order (map (\<lambda>k m. store m (a + of_nat (4 * k)) (take (read_bytes bitlen k) (word_bytes (f k)))) [0..<n]) m =
   store m a (take (min (4 * n) ((unat bitlen + 7) div 8)) (concat (map (\<lambda>k. word_bytes (f k)) [0..<n])))"
proof (induction n)
  case (Suc n)
  let ?t = "(unat bitlen + 7) div 8"
  have n: "32 * n < unat bitlen" using Suc.prems by (simp add: buf_words_def)
  then have le: "4 * n \<le> ?t" by linarith
  have r: "read_bytes bitlen n = min 4 (?t - 4 * n)"
    using n unfolding read_bytes_def min_def by (cases "32 \<le> unat bitlen - 32 * n") (simp_all, linarith+)
  have "min (4 * Suc n) ?t = 4 * n + min 4 (?t - 4 * n)" using le by simp
  then show ?case
    using Suc le by (simp only:) (simp add: r length_concat_words store_append)
qed simp

lemma read_buffer_stores: "spi_ll_read_buffer a bitlen hw m = store m a (buf_bytes hw bitlen)"
proof -
  have "min (4 * buf_words bitlen) ((unat bitlen + 7) div 8) = (unat bitlen + 7) div 8"
    by (simp add: buf_words_def)
  then show ?thesis
    using read_buffer_prefix [of "buf_words bitlen" bitlen a "\<lambda>k. hw (Data_Buf k)" m]
    by (simp add: spi_ll_read_buffer_def buf_bytes_def)
qed

lemma concat_load: "concat (map (\<lambda>k. load m (a + of_nat (4 * k)) 4) [0..<n]) = load m a (4 * n)"
proof (induction n)
  case (Suc n)
  then show ?case using load_append [of m a "4 * n" 4] by (simp add: add.commute)
qed simp

lemma take_load: "n \<le> k \<Longrightarrow> take n (load m a k) = load m a n"
  by (simp add: load_def take_map)

lemma buffer_holds: "buf_bytes (spi_ll_write_buffer m a bitlen hw) bitlen = load m a ((unat bitlen + 7) div 8)"
proof -
  have "concat (map (\<lambda>k. word_bytes (spi_ll_write_buffer m a bitlen hw (Data_Buf k))) [0..<buf_words bitlen]) =
      concat (map (\<lambda>k. load m (a + of_nat (4 * k)) 4) [0..<buf_words bitlen])"
    by (intro arg_cong [where f = concat] map_cong refl) (simp add: write_buffer_words word_bytes_load_word)
  then show ?thesis by (simp only: buf_bytes_def concat_load) (simp add: take_load buf_words_def)
qed

end
