(* ===== verification/Spi_Hal.thy ===== *)
theory Spi_Hal
  imports Spi_Registers
begin

text \<open>
  The hardware layer of the SPI master (\<open>hal/spi_hal.c\<close>, \<open>hal/spi_hal_iram.c\<close>): what a device and a transaction are in the
  registers. A function takes the register file and returns it changed; \<open>hostid\<close> is the number of the host, which
  says whose registers they are.
\<close>

section \<open>Configuration of a device\<close>

text \<open>
  \<open>spi_hal_timing_conf_t\<close> with the two fields that the driver fills in, and \<open>spi_hal_dev_config_t\<close>. \<open>source_pre_div\<close> and
  \<open>rx_sample_point\<close> have no effect on this chip.
\<close>

record spi_dev_timing = spi_hal_timing_conf +
  clock_source :: spi_clock_source
  source_real_freq :: int

record spi_hal_dev_config =
  hd_mode :: int
  hd_cs_setup :: int
  hd_cs_hold :: int
  hd_cs_pin_id :: nat
  hd_timing :: spi_dev_timing
  hd_sio :: bool
  hd_half_duplex :: bool
  hd_tx_lsbfirst :: bool
  hd_rx_lsbfirst :: bool
  hd_no_compensate :: bool
  hd_positive_cs :: bool

section \<open>The peripheral\<close>

definition spi_hal_init :: "(nat \<Rightarrow> bool) \<Rightarrow> spi_regs \<Rightarrow> spi_regs option" where
  "spi_hal_init busy hw =
     spi_ll_apply_config busy
       (in_order [spi_ll_master_init, spi_ll_enable_int, spi_ll_set_int_stat, spi_ll_set_mosi_delay 0 0] hw)"

definition spi_hal_config_io_default_level :: "(nat \<Rightarrow> bool) \<Rightarrow> bool \<Rightarrow> spi_regs \<Rightarrow> spi_regs option" where
  "spi_hal_config_io_default_level busy level hw = spi_ll_apply_config busy (spi_ll_set_mosi_free_level level hw)"

definition spi_hal_deinit :: "spi_regs \<Rightarrow> spi_regs" where
  "spi_hal_deinit = in_order [spi_ll_disable_int, spi_ll_clear_int_stat]"

definition spi_hal_sct_init :: "spi_regs \<Rightarrow> spi_regs" where
  "spi_hal_sct_init = in_order
     [spi_ll_conf_state_enable True, spi_ll_set_magic_number (ucast SPI_LL_SCT_MAGIC_NUMBER), spi_ll_disable_int,
      spi_ll_enable_intr SPI_LL_INTR_SEG_DONE, spi_ll_set_intr SPI_LL_INTR_SEG_DONE]"

definition spi_hal_sct_deinit :: "spi_regs \<Rightarrow> spi_regs" where
  "spi_hal_sct_deinit = in_order
     [spi_ll_conf_state_enable False, spi_ll_disable_intr SPI_LL_INTR_SEG_DONE, spi_ll_clear_intr SPI_LL_INTR_SEG_DONE,
      spi_ll_clear_int_stat, spi_ll_enable_int]"

section \<open>Device and transaction\<close>

definition spi_hal_setup_device :: "nat \<Rightarrow> spi_hal_dev_config \<Rightarrow> spi_regs \<Rightarrow> spi_regs" where
  "spi_hal_setup_device hostid d = in_order
     [spi_ll_master_set_pos_cs (hd_cs_pin_id d) (hd_positive_cs d),
      spi_ll_master_set_clock_by_reg (clock_reg (hd_timing d)),
      spi_ll_set_rx_lsbfirst (hd_rx_lsbfirst d),
      spi_ll_set_tx_lsbfirst (hd_tx_lsbfirst d),
      spi_ll_master_set_mode (word_of_int (hd_mode d)),
      spi_ll_set_half_duplex (hd_half_duplex d),
      spi_ll_set_sio_mode (hd_sio d),
      spi_ll_master_set_cs_setup (word_of_int (hd_cs_setup d)),
      spi_ll_master_set_cs_hold (hd_cs_hold d),
      spi_ll_master_select_cs hostid (hd_cs_pin_id d)]"

text \<open>
  The dummy bits that make up for the delay of the input, the delay of the input line, and the lengths of the
  command and address phases.
\<close>

definition extra_dummy :: "spi_hal_dev_config \<Rightarrow> spi_hal_trans_config \<Rightarrow> int" where
  "extra_dummy d c =
     (if hal_rcv_buffer c \<noteq> 0 \<and> \<not> hd_no_compensate d \<and> hd_half_duplex d then timing_dummy_n (hd_timing d) else 0)"

definition miso_delay :: "spi_hal_dev_config \<Rightarrow> int \<Rightarrow> int \<times> int" where
  "miso_delay d extra =
     (if timing_miso_delay (hd_timing d) < 0 then
        (if hd_mode d = 0 \<or> hd_mode d = 3 then 2 else if hd_mode d = 1 \<or> hd_mode d = 2 then 1 else 0, 0)
      else (0, if extra \<noteq> 0 then timing_miso_delay (hd_timing d) else 0))"

definition no_cmd_addr :: "spi_hal_dev_config \<Rightarrow> bool" where
  "no_cmd_addr d \<longleftrightarrow> \<not> hd_half_duplex d \<and> hd_cs_setup d \<noteq> 0"

definition hal_lines :: "spi_hal_trans_config \<Rightarrow> spi_line_mode" where
  "hal_lines c = \<lparr>cmd_lines = hal_cmd_lines c, addr_lines = hal_addr_lines c, data_lines = hal_data_lines c\<rparr>"

definition spi_hal_setup_trans :: "spi_hal_dev_config \<Rightarrow> spi_hal_trans_config \<Rightarrow> spi_regs \<Rightarrow> spi_regs outcome" where
  "spi_hal_setup_trans d c hw =
     (let hw1 = spi_ll_clear_int_stat hw
      in if spi_ll_get_running_cmd hw1 \<noteq> 0 then Inl Assert_Failed
         else
           let extra = extra_dummy d c; (delay_mode, delay_num) = miso_delay d extra;
               cmdlen = (if no_cmd_addr d then 0 else uint (hal_cmd_bits c));
               addrlen = (if no_cmd_addr d then 0 else uint (hal_addr_bits c))
           in Inr (in_order
             [spi_ll_master_set_line_mode (hal_lines c),
              spi_ll_set_dummy (extra + uint (hal_dummy_bits c)),
              spi_ll_set_miso_delay delay_mode delay_num,
              spi_ll_set_mosi_bitlen (hal_tx_bitlen c),
              spi_ll_set_miso_bitlen (if hd_half_duplex d then hal_rx_bitlen c else hal_tx_bitlen c),
              spi_ll_set_addr_bitlen addrlen,
              spi_ll_set_command_bitlen cmdlen,
              spi_ll_set_command (hal_cmd c) cmdlen (hd_tx_lsbfirst d),
              spi_ll_set_address (hal_addr c) addrlen (hd_tx_lsbfirst d),
              spi_ll_master_keep_cs (hal_cs_keep_active c)] hw1))"

definition spi_hal_enable_data_line :: "bool \<Rightarrow> bool \<Rightarrow> spi_regs \<Rightarrow> spi_regs" where
  "spi_hal_enable_data_line mosi_ena miso_ena = in_order [spi_ll_enable_mosi mosi_ena, spi_ll_enable_miso miso_ena]"

definition spi_hal_hw_prepare_rx :: "spi_regs \<Rightarrow> spi_regs" where
  "spi_hal_hw_prepare_rx = in_order [spi_ll_dma_rx_fifo_reset, spi_ll_infifo_full_clr, spi_ll_dma_rx_enable True]"

definition spi_hal_hw_prepare_tx :: "spi_regs \<Rightarrow> spi_regs" where
  "spi_hal_hw_prepare_tx = in_order [spi_ll_dma_tx_fifo_reset, spi_ll_outfifo_empty_clr, spi_ll_dma_tx_enable True]"

definition spi_hal_user_start :: "(nat \<Rightarrow> bool) \<Rightarrow> spi_regs \<Rightarrow> spi_regs option" where
  "spi_hal_user_start busy hw = map_option spi_ll_user_start (spi_ll_apply_config busy hw)"

definition spi_hal_usr_is_done :: "spi_regs \<Rightarrow> bool" where
  "spi_hal_usr_is_done = spi_ll_usr_is_done"

text \<open>\<open>m\<close> is the memory that the buffers lie in.\<close>

definition spi_hal_push_tx_buffer :: "(u32 \<Rightarrow> u8) \<Rightarrow> spi_hal_trans_config \<Rightarrow> spi_regs \<Rightarrow> spi_regs" where
  "spi_hal_push_tx_buffer m c hw =
     (if hal_send_buffer c \<noteq> 0 then spi_ll_write_buffer m (hal_send_buffer c) (hal_tx_bitlen c) hw else hw)"

definition spi_hal_fetch_result :: "spi_hal_trans_config \<Rightarrow> spi_regs \<Rightarrow> (u32 \<Rightarrow> u8) \<Rightarrow> u32 \<Rightarrow> u8" where
  "spi_hal_fetch_result c hw m =
     (if hal_rcv_buffer c \<noteq> 0 then spi_ll_read_buffer (hal_rcv_buffer c) (hal_rx_bitlen c) hw m else m)"

section \<open>Segmented transfers\<close>

definition spi_hal_clear_intr_mask :: "u32 \<Rightarrow> spi_regs \<Rightarrow> spi_regs" where
  "spi_hal_clear_intr_mask = spi_ll_clear_intr"

definition spi_hal_get_intr_mask :: "u32 \<Rightarrow> spi_regs \<Rightarrow> bool" where
  "spi_hal_get_intr_mask = spi_ll_get_intr"

definition spi_hal_sct_set_conf_bits_len :: "u32 \<Rightarrow> spi_regs \<Rightarrow> spi_regs" where
  "spi_hal_sct_set_conf_bits_len = spi_ll_set_conf_phase_bits_len"

definition spi_hal_sct_init_conf_buffer :: "spi_regs \<Rightarrow> u32 list" where
  "spi_hal_sct_init_conf_buffer hw = spi_ll_init_conf_buffer (\<lambda>r. hw (Conf r))"

section \<open>What a register holds after each call\<close>

text \<open>
  The registers are handled by what is in them after a call: one conditional equation for each function, so that
  \<open>simp\<close> reads a word of the register file through any sequence of calls.
\<close>

lemmas ll_defs = spi_ll_master_set_pos_cs_def spi_ll_master_set_clock_by_reg_def spi_ll_set_rx_lsbfirst_def
  spi_ll_set_tx_lsbfirst_def set_edges_def spi_ll_set_half_duplex_def spi_ll_set_sio_mode_def
  spi_ll_master_set_cs_setup_def spi_ll_master_set_cs_hold_def spi_ll_master_set_line_mode_def
  spi_ll_set_dummy_def spi_ll_set_miso_delay_def spi_ll_set_mosi_bitlen_def spi_ll_set_miso_bitlen_def
  spi_ll_set_addr_bitlen_def spi_ll_set_command_bitlen_def spi_ll_set_command_def spi_ll_set_address_def
  spi_ll_master_keep_cs_def spi_ll_enable_mosi_def spi_ll_enable_miso_def spi_ll_clear_int_stat_def only_if_def

lemma set_mode_edges:
  "hd_mode d \<in> {0..3} \<Longrightarrow>
   spi_ll_master_set_mode (word_of_int (hd_mode d)) = set_edges (hd_mode d \<in> {2, 3}) (hd_mode d \<in> {1, 2})"
proof -
  assume "hd_mode d \<in> {0..3}"
  then have "hd_mode d = 0 \<or> hd_mode d = 1 \<or> hd_mode d = 2 \<or> hd_mode d = 3" by auto
  then show ?thesis by (auto simp: spi_ll_master_set_mode_def)
qed

definition select_bits :: "nat \<Rightarrow> nat \<Rightarrow> u32 \<Rightarrow> u32" where
  "select_bits hostid cs = in_order (map (\<lambda>k. put_bit (cs \<noteq> k) k)
     (if hostid = 1 then [0, 1, 2, 3, 4, 5] else if hostid = 2 then [0, 1, 2] else []))"

lemma select_cs_apply:
  "spi_ll_master_select_cs hostid cs hw r = (if r = Conf Misc_Reg then select_bits hostid cs (hw (Conf Misc_Reg)) else hw r)"
  by (simp add: spi_ll_master_select_cs_def select_bits_def)

definition lines_of_host :: "nat \<Rightarrow> nat" where
  "lines_of_host hostid = (if hostid = 1 then 6 else if hostid = 2 then 3 else 0)"

lemma bit_select_bits [simp]:
  "bit (select_bits hostid cs w) j \<longleftrightarrow> (if j < lines_of_host hostid then j \<noteq> cs else bit w j)"
  by (auto simp: select_bits_def lines_of_host_def)

definition pos_bits :: "nat \<Rightarrow> bool \<Rightarrow> u32 \<Rightarrow> u32" where
  "pos_bits cs b w = SET_FIELD MISC_MASTER_CS_POL
     (if b then GET_FIELD MISC_MASTER_CS_POL w OR push_bit cs 1 else GET_FIELD MISC_MASTER_CS_POL w AND NOT (push_bit cs 1)) w"

lemma bit_pos_bits [simp]: "bit (pos_bits cs b w) j \<longleftrightarrow> (if j = cs + 7 \<and> cs < 6 then b else bit w j)"
  by (auto simp: pos_bits_def MISC_MASTER_CS_POL_def GET_FIELD_def bit_simps)

text \<open>The device part of the registers, register by register.\<close>

lemma setup_device_regs:
  assumes "hd_mode d \<in> {0..3}"
  shows "spi_hal_setup_device hostid d hw (Conf Misc_Reg) =
      select_bits hostid (hd_cs_pin_id d) (put_bit (hd_mode d \<in> {2, 3}) MISC_CK_IDLE_EDGE
        (pos_bits (hd_cs_pin_id d) (hd_positive_cs d) (hw (Conf Misc_Reg))))"
    and "spi_hal_setup_device hostid d hw (Conf Clock_Reg) = clock_val (clock_reg (hd_timing d))"
    and "spi_hal_setup_device hostid d hw (Conf Ctrl_Reg) =
      put_flag (hd_tx_lsbfirst d) CTRL_WR_BIT_ORDER (put_flag (hd_rx_lsbfirst d) CTRL_RD_BIT_ORDER (hw (Conf Ctrl_Reg)))"
    and "spi_hal_setup_device hostid d hw (Conf User_Reg) =
      put_bit (hd_cs_hold d \<noteq> 0) SPI_CS_HOLD (put_bit (word_of_int (hd_cs_setup d) \<noteq> (0 :: u8)) SPI_CS_SETUP
        (put_bit (hd_sio d) USER_SIO (put_bit (\<not> hd_half_duplex d) USER_DOUTDIN
          (put_bit (hd_mode d \<in> {1, 2}) USER_CK_OUT_EDGE (hw (Conf User_Reg))))))"
    and "spi_hal_setup_device hostid d hw (Conf User1_Reg) =
      SET_FIELD SPI_CS_HOLD_TIME (word_of_int (hd_cs_hold d))
        (SET_FIELD SPI_CS_SETUP_TIME (ucast (word_of_int (hd_cs_setup d) :: u8) - 1) (hw (Conf User1_Reg)))"
    and "r \<notin> Conf ` {Misc_Reg, Clock_Reg, Ctrl_Reg, User_Reg, User1_Reg} \<Longrightarrow> spi_hal_setup_device hostid d hw r = hw r"
  using set_mode_edges [OF assms]
  by (simp_all add: spi_hal_setup_device_def select_cs_apply pos_bits_def ll_defs image_iff)

section \<open>Switching devices\<close>

text \<open>\<open>dev_loaded\<close>: the registers say what the configuration of the device says, so that setting it up changes nothing.\<close>

definition dev_loaded :: "nat \<Rightarrow> spi_hal_dev_config \<Rightarrow> spi_regs \<Rightarrow> bool" where
  "dev_loaded hostid d hw \<longleftrightarrow> spi_hal_setup_device hostid d hw = hw"

lemma bit_put_flag [simp]:
  "bit (put_flag b (s, n) w) j \<longleftrightarrow> (if s \<le> j \<and> j < s + n \<and> j < 32 then b \<and> j = s else bit w j)"
  by (auto simp: put_flag_def bit_1_iff)

lemma setup_device_twice:
  assumes d: "hd_mode d \<in> {0..3}" and e: "hd_mode e \<in> {0..3}"
    and p: "hd_cs_pin_id e = hd_cs_pin_id d \<or> 6 \<le> hd_cs_pin_id e \<or>
      bit (hw (Conf Misc_Reg)) (hd_cs_pin_id e + 7) = hd_positive_cs e"
  shows "spi_hal_setup_device hostid d (spi_hal_setup_device hostid e hw) = spi_hal_setup_device hostid d hw"
proof
  fix r
  let ?d = "spi_hal_setup_device hostid d" and ?e = "spi_hal_setup_device hostid e"
  note regs = setup_device_regs [OF d] setup_device_regs [OF e]
  consider "r \<notin> Conf ` {Misc_Reg, Clock_Reg, Ctrl_Reg, User_Reg, User1_Reg}" | "r = Conf Misc_Reg" | "r = Conf Clock_Reg"
    | "r = Conf Ctrl_Reg" | "r = Conf User_Reg" | "r = Conf User1_Reg" by blast
  then show "?d (?e hw) r = ?d hw r"
  proof cases
    case 2
    then show ?thesis using p by (auto intro!: bit_word_eqI simp: regs lines_of_host_def MISC_CK_IDLE_EDGE_def split: if_splits)
  next
    case 4
    then show ?thesis by (auto intro!: bit_word_eqI simp: regs CTRL_WR_BIT_ORDER_def CTRL_RD_BIT_ORDER_def)
  next
    case 5
    then show ?thesis by (auto intro!: bit_word_eqI simp: regs conf_bit_defs reg_field_defs)
  next
    case 6
    then show ?thesis by (auto intro!: bit_word_eqI simp: regs SPI_CS_HOLD_TIME_def SPI_CS_SETUP_TIME_def)
  qed (simp_all add: regs)
qed

lemma setup_device_loads: "hd_mode d \<in> {0..3} \<Longrightarrow> dev_loaded hostid d (spi_hal_setup_device hostid d hw)"
  by (simp add: dev_loaded_def setup_device_twice)

text \<open>A device stays loaded while the bits that say what it is stay what they are; a transaction does not touch them.\<close>

lemma dev_loaded_cong:
  assumes m: "hd_mode d \<in> {0..3}" and l: "dev_loaded hostid d hw"
    and same: "\<And>j. j \<in> {..<13} \<union> {29} \<Longrightarrow> bit (hw' (Conf Misc_Reg)) j = bit (hw (Conf Misc_Reg)) j"
      "hw' (Conf Clock_Reg) = hw (Conf Clock_Reg)"
      "\<And>j. j \<in> {23..<27} \<Longrightarrow> bit (hw' (Conf Ctrl_Reg)) j = bit (hw (Conf Ctrl_Reg)) j"
      "\<And>j. j \<in> {0, 6, 7, 9, 17} \<Longrightarrow> bit (hw' (Conf User_Reg)) j = bit (hw (Conf User_Reg)) j"
      "\<And>j. j \<in> {17..<27} \<Longrightarrow> bit (hw' (Conf User1_Reg)) j = bit (hw (Conf User1_Reg)) j"
  shows "dev_loaded hostid d hw'"
  unfolding dev_loaded_def
proof
  fix r
  have e: "bit (spi_hal_setup_device hostid d hw r) j = bit (hw r) j" for j
    using l by (simp add: dev_loaded_def)
  note regs = setup_device_regs [OF m]
  consider "r \<notin> Conf ` {Misc_Reg, Clock_Reg, Ctrl_Reg, User_Reg, User1_Reg}" | "r = Conf Misc_Reg" | "r = Conf Clock_Reg"
    | "r = Conf Ctrl_Reg" | "r = Conf User_Reg" | "r = Conf User1_Reg" by blast
  then show "spi_hal_setup_device hostid d hw' r = hw' r"
  proof cases
    case 2
    show ?thesis unfolding 2
    proof (rule bit_word_eqI)
      fix j
      show "bit (spi_hal_setup_device hostid d hw' (Conf Misc_Reg)) j = bit (hw' (Conf Misc_Reg)) j"
        using e [of j] same(1) [of j] by (auto simp: 2 regs lines_of_host_def MISC_CK_IDLE_EDGE_def split: if_splits)
    qed
  next
    case 3
    then show ?thesis using l same(2) by (metis dev_loaded_def regs(2))
  next
    case 4
    show ?thesis unfolding 4
    proof (rule bit_word_eqI)
      fix j
      show "bit (spi_hal_setup_device hostid d hw' (Conf Ctrl_Reg)) j = bit (hw' (Conf Ctrl_Reg)) j"
        using e [of j] same(3) [of j] by (auto simp: 4 regs CTRL_WR_BIT_ORDER_def CTRL_RD_BIT_ORDER_def split: if_splits)
    qed
  next
    case 5
    show ?thesis unfolding 5
    proof (rule bit_word_eqI)
      fix j
      show "bit (spi_hal_setup_device hostid d hw' (Conf User_Reg)) j = bit (hw' (Conf User_Reg)) j"
        using e [of j] same(4) [of j] by (auto simp: 5 regs conf_bit_defs reg_field_defs split: if_splits)
    qed
  next
    case 6
    show ?thesis unfolding 6
    proof (rule bit_word_eqI)
      fix j
      show "bit (spi_hal_setup_device hostid d hw' (Conf User1_Reg)) j = bit (hw' (Conf User1_Reg)) j"
        using e [of j] same(5) [of j] by (auto simp: 6 regs SPI_CS_HOLD_TIME_def SPI_CS_SETUP_TIME_def split: if_splits)
    qed
  qed (simp add: regs)
qed

text \<open>The clock register says what the search has found.\<close>

lemma clock_val_fields:
  assumes "clkcnt_l c \<in> {0..63}" "clkcnt_h c \<in> {0..63}" "clkcnt_n c \<in> {0..63}" "clkdiv_pre c \<in> {0..15}"
  shows "uint (GET_FIELD CLOCK_CLKCNT_L (clock_val c)) = clkcnt_l c" "uint (GET_FIELD CLOCK_CLKCNT_H (clock_val c)) = clkcnt_h c"
    "uint (GET_FIELD CLOCK_CLKCNT_N (clock_val c)) = clkcnt_n c" "uint (GET_FIELD CLOCK_CLKDIV_PRE (clock_val c)) = clkdiv_pre c"
    "bit (clock_val c) CLOCK_CLK_EQU_SYSCLK = clk_equ_sysclk c"
proof -
  have o: "s + n \<le> 31 \<Longrightarrow> GET_FIELD (s, n) (put_bit b 31 w) = GET_FIELD (s, n) w" for s n b w
    by (rule bit_word_eqI) (auto simp: GET_FIELD_def bit_simps)
  show "uint (GET_FIELD CLOCK_CLKCNT_L (clock_val c)) = clkcnt_l c" "uint (GET_FIELD CLOCK_CLKCNT_H (clock_val c)) = clkcnt_h c"
    "uint (GET_FIELD CLOCK_CLKCNT_N (clock_val c)) = clkcnt_n c" "uint (GET_FIELD CLOCK_CLKDIV_PRE (clock_val c)) = clkdiv_pre c"
    "bit (clock_val c) CLOCK_CLK_EQU_SYSCLK = clk_equ_sysclk c"
    using assms by (simp_all add: clock_val_def reg_field_defs o GET_SET_same GET_SET_other uint_len_field)
qed

text \<open>
  C20: Switching devices leaves no residue: what the registers say after a device has been set up
  does not depend on the device that was set up before it, its clock polarity, bit orders and
  timings included. Of the select lines of the host just its own is enabled. The clock idles high
  and the data change with the edge that the mode says. Of the other device only the polarity of
  its own select line is kept.
\<close>

theorem setup_device_no_residue:
  fixes hostid :: nat and d e :: spi_hal_dev_config and hw :: spi_regs
  assumes "hd_mode d \<in> {0..3}" "hd_mode e \<in> {0..3}"
    and "bit (hw (Conf Misc_Reg)) (hd_cs_pin_id e + 7) = hd_positive_cs e \<or> hd_cs_pin_id e = hd_cs_pin_id d"
  defines "hw' \<equiv> spi_hal_setup_device hostid d (spi_hal_setup_device hostid e hw)"
  shows "hw' = spi_hal_setup_device hostid d hw \<and>
    (\<forall>k < lines_of_host hostid. bit (hw' (Conf Misc_Reg)) k \<longleftrightarrow> k \<noteq> hd_cs_pin_id d) \<and>
    (bit (hw' (Conf Misc_Reg)) MISC_CK_IDLE_EDGE \<longleftrightarrow> hd_mode d div 2 = 1) \<and>
    (bit (hw' (Conf User_Reg)) USER_CK_OUT_EDGE \<longleftrightarrow> hd_mode d div 2 \<noteq> hd_mode d mod 2)"
proof -
  have eq: "hw' = spi_hal_setup_device hostid d hw"
    unfolding hw'_def using assms(3) by (intro setup_device_twice [OF assms(1,2)]) auto
  have m: "hd_mode d = 0 \<or> hd_mode d = 1 \<or> hd_mode d = 2 \<or> hd_mode d = 3" using assms(1) by auto
  have "bit (hw' (Conf Misc_Reg)) MISC_CK_IDLE_EDGE \<longleftrightarrow> hd_mode d div 2 = 1"
    using m by (auto simp: eq setup_device_regs [OF assms(1)] lines_of_host_def MISC_CK_IDLE_EDGE_def)
  moreover have "bit (hw' (Conf User_Reg)) USER_CK_OUT_EDGE \<longleftrightarrow> hd_mode d div 2 \<noteq> hd_mode d mod 2"
    using m by (auto simp: eq setup_device_regs [OF assms(1)] conf_bit_defs reg_field_defs)
  ultimately show ?thesis by (simp add: eq setup_device_regs [OF assms(1)])
qed

section \<open>What a transaction is in the registers\<close>

text \<open>
  \<open>trans_phases\<close>: the phases of a transaction, in the terms of a segment; \<open>mosi\<close> and \<open>miso\<close> say which data lines are
  enabled. In full duplex both directions have the length of the sent data. \<open>trans_ok\<close>: what \<open>check_trans_valid\<close> and the
  widths of the fields ask of a transaction.
\<close>

definition trans_cmd_bits :: "spi_hal_dev_config \<Rightarrow> spi_hal_trans_config \<Rightarrow> int" where
  "trans_cmd_bits d c = (if no_cmd_addr d then 0 else uint (hal_cmd_bits c))"

definition trans_addr_bits :: "spi_hal_dev_config \<Rightarrow> spi_hal_trans_config \<Rightarrow> int" where
  "trans_addr_bits d c = (if no_cmd_addr d then 0 else uint (hal_addr_bits c))"

definition trans_phases ::
  "spi_hal_dev_config \<Rightarrow> spi_hal_trans_config \<Rightarrow> bool \<Rightarrow> bool \<Rightarrow> bool \<Rightarrow> spi_hal_seg_config" where
  "trans_phases d c mosi miso nxt =
     \<lparr>seg_end = (\<not> nxt), seg_gap_len = 0, cs_setup = hd_cs_setup d,
      seg_cmd = (if trans_cmd_bits d c = 0 then 0 else hal_cmd c), cmd_bits = trans_cmd_bits d c,
      seg_addr = (if trans_addr_bits d c = 0 then 0 else hal_addr c), addr_bits = trans_addr_bits d c,
      dummy_bits = extra_dummy d c + uint (hal_dummy_bits c),
      tx_bitlen = (if mosi then uint (hal_tx_bitlen c) else 0),
      rx_bitlen = (if miso then uint (if hd_half_duplex d then hal_rx_bitlen c else hal_tx_bitlen c) else 0),
      cs_hold = hd_cs_hold d\<rparr>"

definition mosi_line :: "spi_hal_dev_config \<Rightarrow> spi_hal_trans_config \<Rightarrow> bool" where
  "mosi_line d c \<longleftrightarrow> \<not> hd_half_duplex d \<and> hal_rcv_buffer c \<noteq> 0 \<or> hal_send_buffer c \<noteq> 0"

definition miso_line :: "spi_hal_trans_config \<Rightarrow> bool" where
  "miso_line c \<longleftrightarrow> hal_rcv_buffer c \<noteq> 0"

definition trans_ok :: "spi_hal_dev_config \<Rightarrow> spi_hal_trans_config \<Rightarrow> bool" where
  "trans_ok d c \<longleftrightarrow>
     hd_mode d \<in> {0..3} \<and> hd_cs_setup d \<in> {0..32} \<and> hd_cs_hold d \<in> {0..31} \<and>
     {hal_cmd_lines c, hal_addr_lines c, hal_data_lines c} \<subseteq> {1, 2, 4, 8} \<and>
     hal_cmd_bits c \<le> 16 \<and> hal_addr_bits c \<le> 32 \<and> extra_dummy d c + uint (hal_dummy_bits c) \<in> {0..256} \<and>
     hal_tx_bitlen c \<le> 0x40000 \<and> hal_rx_bitlen c \<le> 0x40000 \<and>
     take_bit (unat (hal_cmd_bits c)) (hal_cmd c) = hal_cmd c \<and> take_bit (unat (hal_addr_bits c)) (hal_addr c) = hal_addr c \<and>
     (mosi_line d c \<longrightarrow> hal_tx_bitlen c \<noteq> 0) \<and>
     (hd_half_duplex d \<longrightarrow> (miso_line c \<longrightarrow> hal_rx_bitlen c \<noteq> 0) \<and> (hal_tx_bitlen c = 0 \<or> hal_rx_bitlen c = 0))"

text \<open>The registers of the phases after a transaction has been set up, in one state.\<close>

lemma setup_trans_ok: "\<not> bit (hw Cmd_Reg) CMD_USR \<Longrightarrow> \<exists>hw'. spi_hal_setup_trans d c hw = Inr hw'"
proof -
  assume "\<not> bit (hw Cmd_Reg) CMD_USR"
  then have "spi_ll_get_running_cmd (spi_ll_clear_int_stat hw) = 0"
    by (intro bit_word_eqI) (auto simp: spi_ll_get_running_cmd_def spi_ll_clear_int_stat_def GET_FIELD_def bit_simps intro!: Nat.gr0I)
  then show ?thesis by (simp add: spi_hal_setup_trans_def Let_def split: prod.splits)
qed

lemma setup_trans_eq:
  "spi_hal_setup_trans d c hw = Inr hw' \<Longrightarrow> hw' = in_order
     [spi_ll_master_set_line_mode (hal_lines c), spi_ll_set_dummy (extra_dummy d c + uint (hal_dummy_bits c)),
      spi_ll_set_mosi_bitlen (hal_tx_bitlen c),
      spi_ll_set_miso_bitlen (if hd_half_duplex d then hal_rx_bitlen c else hal_tx_bitlen c),
      spi_ll_set_addr_bitlen (trans_addr_bits d c), spi_ll_set_command_bitlen (trans_cmd_bits d c),
      spi_ll_set_command (hal_cmd c) (trans_cmd_bits d c) (hd_tx_lsbfirst d),
      spi_ll_set_address (hal_addr c) (trans_addr_bits d c) (hd_tx_lsbfirst d),
      spi_ll_master_keep_cs (hal_cs_keep_active c)] (spi_ll_clear_int_stat hw)"
  by (cases "miso_delay d (extra_dummy d c)")
    (simp add: spi_hal_setup_trans_def Let_def spi_ll_set_miso_delay_def trans_addr_bits_def trans_cmd_bits_def split: if_split_asm)

lemma setup_trans_regs:
  fixes hw' :: spi_regs and mosi miso :: bool
  assumes "spi_hal_setup_trans d c hw = Inr hw'"
  defines "hw2 \<equiv> spi_hal_enable_data_line mosi miso hw'"
  shows "hw2 (Conf Ctrl_Reg) = spi_ll_master_set_line_mode (hal_lines c) hw (Conf Ctrl_Reg)"
    and "hw2 (Conf User_Reg) = put_bit miso SPI_USR_MISO (put_bit mosi SPI_USR_MOSI
      (put_bit (trans_cmd_bits d c \<noteq> 0) SPI_USR_COMMAND (put_bit (trans_addr_bits d c \<noteq> 0) SPI_USR_ADDR
        (put_bit (extra_dummy d c + uint (hal_dummy_bits c) \<noteq> 0) SPI_USR_DUMMY
          (spi_ll_master_set_line_mode (hal_lines c) hw (Conf User_Reg))))))"
    and "hw2 (Conf User1_Reg) = SET_FIELD SPI_USR_ADDR_BITLEN (word_of_int (trans_addr_bits d c - 1))
      (only_if (extra_dummy d c + uint (hal_dummy_bits c) > 0)
        (SET_FIELD SPI_USR_DUMMY_CYCLELEN (word_of_int (extra_dummy d c + uint (hal_dummy_bits c) - 1))) (hw (Conf User1_Reg)))"
    and "hw2 (Conf User2_Reg) = SET_FIELD SPI_USR_COMMAND_VALUE
      (if hd_tx_lsbfirst d then ucast (hal_cmd c) else HAL_SPI_SWAP_DATA_TX (hal_cmd c) (trans_cmd_bits d c))
      (SET_FIELD SPI_USR_COMMAND_BITLEN (word_of_int (trans_cmd_bits d c - 1)) (hw (Conf User2_Reg)))"
    and "hw2 (Conf Addr_Reg) = (if hd_tx_lsbfirst d then HAL_SWAP32 (ucast (hal_addr c))
      else ucast (push_bit (shl_amount 64 (32 - trans_addr_bits d c)) (hal_addr c)))"
    and "hw2 (Conf Ms_Dlen_Reg) = spi_ll_set_miso_bitlen (if hd_half_duplex d then hal_rx_bitlen c else hal_tx_bitlen c)
      (spi_ll_set_mosi_bitlen (hal_tx_bitlen c) hw) (Conf Ms_Dlen_Reg)"
    and "hw2 (Conf Misc_Reg) = put_bit (hal_cs_keep_active c) MISC_CS_KEEP_ACTIVE (hw (Conf Misc_Reg))"
    and "hw2 (Conf Clock_Reg) = hw (Conf Clock_Reg)"
    and "hw2 (Conf Dma_Conf_Reg) = hw (Conf Dma_Conf_Reg)"
    and "hw2 (Conf Dma_Int_Ena_Reg) = hw (Conf Dma_Int_Ena_Reg)"
    and "hw2 Cmd_Reg = hw Cmd_Reg"
    and "hw2 (Conf Din_Mode_Reg) = hw (Conf Din_Mode_Reg)"
    and "hw2 (Conf Din_Num_Reg) = hw (Conf Din_Num_Reg)"
    and "hw2 (Conf Dout_Mode_Reg) = hw (Conf Dout_Mode_Reg)"
  unfolding hw2_def setup_trans_eq [OF assms(1)] spi_hal_enable_data_line_def by (simp_all add: ll_defs)

lemma image_word [simp]: "spi_hal_sct_init_conf_buffer hw ! conf_word r = hw (Conf r)"
  by (cases r) (simp_all add: spi_hal_sct_init_conf_buffer_def spi_ll_init_conf_buffer_def conf_word_def SPI_LL_CONF_BUFFER_OFFSET_def)

lemma length_image [simp]: "length (spi_hal_sct_init_conf_buffer hw) = 15"
  by (simp add: spi_hal_sct_init_conf_buffer_def spi_ll_init_conf_buffer_def)

lemma loaded_phases:
  assumes "dev_loaded hostid d hw" "hd_mode d \<in> {0..3}"
  shows "bit (hw (Conf User_Reg)) SPI_CS_HOLD \<longleftrightarrow> hd_cs_hold d \<noteq> 0"
    and "bit (hw (Conf User_Reg)) SPI_CS_SETUP \<longleftrightarrow> word_of_int (hd_cs_setup d) \<noteq> (0 :: u8)"
    and "GET_FIELD SPI_CS_HOLD_TIME (hw (Conf User1_Reg)) = take_bit 5 (word_of_int (hd_cs_hold d))"
    and "GET_FIELD SPI_CS_SETUP_TIME (hw (Conf User1_Reg)) = take_bit 5 (ucast (word_of_int (hd_cs_setup d) :: u8) - 1)"
proof -
  have eq: "spi_hal_setup_device hostid d hw = hw" using assms(1) by (simp add: dev_loaded_def)
  note u = setup_device_regs(4) [OF assms(2), of hostid hw, unfolded eq] setup_device_regs(5) [OF assms(2), of hostid hw, unfolded eq]
  show "bit (hw (Conf User_Reg)) SPI_CS_HOLD \<longleftrightarrow> hd_cs_hold d \<noteq> 0"
    by (subst u(1)) (simp add: conf_bit_defs reg_field_defs)
  show "bit (hw (Conf User_Reg)) SPI_CS_SETUP \<longleftrightarrow> word_of_int (hd_cs_setup d) \<noteq> (0 :: u8)"
    by (subst u(1)) (simp add: conf_bit_defs reg_field_defs)
  show "GET_FIELD SPI_CS_HOLD_TIME (hw (Conf User1_Reg)) = take_bit 5 (word_of_int (hd_cs_hold d))"
    by (subst u(2)) (simp add: SPI_CS_HOLD_TIME_def GET_SET_same)
  show "GET_FIELD SPI_CS_SETUP_TIME (hw (Conf User1_Reg)) = take_bit 5 (ucast (word_of_int (hd_cs_setup d) :: u8) - 1)"
    by (subst u(2)) (simp add: SPI_CS_HOLD_TIME_def SPI_CS_SETUP_TIME_def GET_SET_same GET_SET_other)
qed

text \<open>The line mode: its bits in the two registers, and no other.\<close>

lemma line_mode_user: "bit (spi_ll_master_set_line_mode lm hw (Conf User_Reg)) k \<longleftrightarrow>
    (if k = 12 then data_lines lm = 2 else if k = 13 then data_lines lm = 4 else if k = 14 then data_lines lm = 8
     else bit (hw (Conf User_Reg)) k)"
  using bit_imp_le_length [of "hw (Conf User_Reg)" k]
  by (auto simp: spi_ll_master_set_line_mode_def conf_bit_defs user_mask_bits bit_simps)

lemma line_mode_ctrl:
  "bit (spi_ll_master_set_line_mode lm hw (Conf Ctrl_Reg)) k = ctrl_bits lm (hw (Conf Ctrl_Reg)) k"
proof -
  have w: "spi_ll_master_set_line_mode lm hw (Conf Ctrl_Reg) =
      put_bit (data_lines lm = 8) 16 (put_bit (data_lines lm = 4) 15 (put_bit (data_lines lm = 2) 14
        (put_bit (addr_lines lm = 8) 7 (put_bit (addr_lines lm = 4) 6 (put_bit (addr_lines lm = 2) 5
          (put_bit (cmd_lines lm = 8) 10 (put_bit (cmd_lines lm = 4) 9 (put_bit (cmd_lines lm = 2) 8
            (hw (Conf Ctrl_Reg) AND NOT SPI_LL_ONE_LINE_CTRL_MASK)))))))))"
    by (simp add: spi_ll_master_set_line_mode_def conf_bit_defs)
  show ?thesis
    unfolding w ctrl_bits_def
    by (cases "k \<in> {5, 6, 7, 8, 9, 10, 14, 15, 16}")
      (elim insertE emptyE, simp_all add: masked_bit ctrl_mask_bits)
qed

lemma setup_nonzero: "k \<in> {0..32} \<Longrightarrow> (word_of_int k \<noteq> (0 :: u8)) = (k \<noteq> 0)"
  by (simp add: word_of_int_eq_0_iff) (auto dest: zdvd_imp_le)

lemma data_length_reads:
  assumes "trans_ok d c" and dlen: "w = spi_ll_set_miso_bitlen (if hd_half_duplex d then hal_rx_bitlen c else hal_tx_bitlen c)
      (spi_ll_set_mosi_bitlen (hal_tx_bitlen c) hw) (Conf Ms_Dlen_Reg)"
  shows "phase_len (mosi_line d c) SPI_MS_DATA_BITLEN w = (if mosi_line d c then uint (hal_tx_bitlen c) else 0)"
    and "phase_len (miso_line c) SPI_MS_DATA_BITLEN w =
      (if miso_line c then uint (if hd_half_duplex d then hal_rx_bitlen c else hal_tx_bitlen c) else 0)"
proof -
  note c = assms(1) [unfolded trans_ok_def]
  have len: "phase_len b SPI_MS_DATA_BITLEN (SET_FIELD SPI_MS_DATA_BITLEN (l - 1) v) = (if b then uint l else 0)"
    if "l \<noteq> 0" "l \<le> 0x40000" for b l v
  proof -
    have "uint l \<noteq> 0" "uint l \<le> 2 ^ 18" using that by (auto simp: uint_0_iff word_le_def)
    then show ?thesis
      using phase_lenI [of 18 "uint l" SPI_MS_DATA_BITLEN "SET_FIELD SPI_MS_DATA_BITLEN (l - 1) v"]
      by (auto simp: phase_len_def SPI_MS_DATA_BITLEN_def GET_SET_same)
  qed
  have off: "phase_len False f v = 0" for f v by (simp add: phase_len_def)
  show "phase_len (mosi_line d c) SPI_MS_DATA_BITLEN w = (if mosi_line d c then uint (hal_tx_bitlen c) else 0)"
    using c len [of "hal_tx_bitlen c" True] off
    by (cases "mosi_line d c"; cases "hd_half_duplex d")
      (auto simp: dlen spi_ll_set_miso_bitlen_def spi_ll_set_mosi_bitlen_def only_if_def word_gt_0)
  show "phase_len (miso_line c) SPI_MS_DATA_BITLEN w =
      (if miso_line c then uint (if hd_half_duplex d then hal_rx_bitlen c else hal_tx_bitlen c) else 0)"
    using c len [of "hal_tx_bitlen c" True] len [of "hal_rx_bitlen c" True] off
    by (cases "miso_line c"; cases "hd_half_duplex d")
      (auto simp: dlen spi_ll_set_miso_bitlen_def spi_ll_set_mosi_bitlen_def only_if_def word_gt_0 mosi_line_def miso_line_def)
qed

lemma setup_trans_reads:
  assumes ok: "trans_ok d c" and loaded: "dev_loaded hostid d hw" and st: "spi_hal_setup_trans d c hw = Inr hw'"
  defines "hw2 \<equiv> spi_hal_enable_data_line (mosi_line d c) (miso_line c) hw'"
  shows "conf_segment (hd_tx_lsbfirst d) (hd_tx_lsbfirst d) (spi_hal_sct_init_conf_buffer hw2) 0 =
      trans_phases d c (mosi_line d c) (miso_line c) (bit (hw (Conf User_Reg)) SPI_USR_CONF_NXT) \<and>
    conf_lines (spi_hal_sct_init_conf_buffer hw2) = (hal_lines c, hal_data_lines c)"
proof -
  note c = ok [unfolded trans_ok_def]
  note regs = setup_trans_regs [OF st, of "mosi_line d c" "miso_line c", folded hw2_def]
  have mode: "hd_mode d \<in> {0..3}" and prep: "hd_cs_setup d \<in> {0..32}" using c by blast+
  note dev = loaded_phases [OF loaded mode]
  let ?dummy = "extra_dummy d c + uint (hal_dummy_bits c)"
  have user: "bit (hw2 (Conf User_Reg)) SPI_USR_CONF_NXT = bit (hw (Conf User_Reg)) SPI_USR_CONF_NXT"
      "bit (hw2 (Conf User_Reg)) SPI_CS_HOLD = bit (hw (Conf User_Reg)) SPI_CS_HOLD"
      "bit (hw2 (Conf User_Reg)) SPI_CS_SETUP = bit (hw (Conf User_Reg)) SPI_CS_SETUP"
      "bit (hw2 (Conf User_Reg)) SPI_USR_MISO = miso_line c" "bit (hw2 (Conf User_Reg)) SPI_USR_MOSI = mosi_line d c"
      "bit (hw2 (Conf User_Reg)) SPI_USR_DUMMY = (?dummy \<noteq> 0)"
      "bit (hw2 (Conf User_Reg)) SPI_USR_ADDR = (trans_addr_bits d c \<noteq> 0)"
      "bit (hw2 (Conf User_Reg)) SPI_USR_COMMAND = (trans_cmd_bits d c \<noteq> 0)"
    by (simp_all add: regs(2) line_mode_user conf_bit_defs)
  have user1: "GET_FIELD SPI_CS_SETUP_TIME (hw2 (Conf User1_Reg)) = GET_FIELD SPI_CS_SETUP_TIME (hw (Conf User1_Reg))"
      "GET_FIELD SPI_CS_HOLD_TIME (hw2 (Conf User1_Reg)) = GET_FIELD SPI_CS_HOLD_TIME (hw (Conf User1_Reg))"
      "GET_FIELD SPI_USR_ADDR_BITLEN (hw2 (Conf User1_Reg)) = take_bit 5 (word_of_int (trans_addr_bits d c - 1))"
      "0 < ?dummy \<Longrightarrow> GET_FIELD SPI_USR_DUMMY_CYCLELEN (hw2 (Conf User1_Reg)) = take_bit 8 (word_of_int (?dummy - 1))"
      "GET_FIELD SPI_USR_COMMAND_BITLEN (hw2 (Conf User2_Reg)) = take_bit 4 (word_of_int (trans_cmd_bits d c - 1))"
      "GET_FIELD SPI_USR_COMMAND_VALUE (hw2 (Conf User2_Reg)) = take_bit 16
        (if hd_tx_lsbfirst d then ucast (hal_cmd c) else HAL_SPI_SWAP_DATA_TX (hal_cmd c) (trans_cmd_bits d c))"
    by (simp_all add: regs(3,4) conf_field_defs GET_SET_same GET_SET_other only_if_def)
  have lens: "0 \<le> trans_cmd_bits d c" "trans_cmd_bits d c \<le> 16" "0 \<le> trans_addr_bits d c" "trans_addr_bits d c \<le> 32"
    using c by (auto simp: trans_cmd_bits_def trans_addr_bits_def word_le_def)
  have cmd: "conf_cmd (hd_tx_lsbfirst d) (trans_cmd_bits d c) (hw2 (Conf User2_Reg)) = (if trans_cmd_bits d c = 0 then 0 else hal_cmd c)"
  proof (cases "trans_cmd_bits d c = 0")
    case False
    then show ?thesis
      using c lens(1,2) user1(6) by (simp add: conf_cmd_field trans_cmd_bits_def split: if_split_asm)
  qed (simp add: conf_cmd_def Let_def)
  have addr: "conf_addr (hd_tx_lsbfirst d) (trans_addr_bits d c) (hw2 (Conf Addr_Reg)) = (if trans_addr_bits d c = 0 then 0 else hal_addr c)"
  proof (cases "trans_addr_bits d c = 0")
    case False
    have "(ucast (push_bit k (x :: u64)) :: u32) = push_bit k (ucast x)" for k x
      by (rule bit_word_eqI) (auto simp: bit_simps)
    moreover have "shl_amount 64 (32 - trans_addr_bits d c) = nat (32 - trans_addr_bits d c)"
      using False lens(3,4) by (simp add: shl_amount_def)
    ultimately show ?thesis
      using c False lens(3,4) by (simp add: conf_addr_field regs(5) trans_addr_bits_def split: if_split_asm)
  qed (simp add: conf_addr_def)
  note setup_bit = setup_nonzero [OF prep]
  have "phase_len (hd_cs_setup d \<noteq> 0) SPI_CS_SETUP_TIME (hw2 (Conf User1_Reg)) = hd_cs_setup d"
    using prep dev(4) by (intro phase_lenI [of 5]) (auto simp: user1(1) ucast_setup)
  moreover have "phase_len (trans_cmd_bits d c \<noteq> 0) SPI_USR_COMMAND_BITLEN (hw2 (Conf User2_Reg)) = trans_cmd_bits d c"
    using lens user1(5) by (intro phase_lenI [of 4]) auto
  moreover have "phase_len (trans_addr_bits d c \<noteq> 0) SPI_USR_ADDR_BITLEN (hw2 (Conf User1_Reg)) = trans_addr_bits d c"
    using lens user1(3) by (intro phase_lenI [of 5]) auto
  moreover have "phase_len (?dummy \<noteq> 0) SPI_USR_DUMMY_CYCLELEN (hw2 (Conf User1_Reg)) = ?dummy"
    using c user1(4) by (intro phase_lenI [of 8]) auto
  moreover have "(if bit (hw2 (Conf User_Reg)) SPI_CS_HOLD then uint (GET_FIELD SPI_CS_HOLD_TIME (hw2 (Conf User1_Reg))) else 0) = hd_cs_hold d"
    using c dev(1,3) uint_len_field [of 5 "hd_cs_hold d"] by (simp add: user(2) user1(2))
  moreover note data_length_reads [OF ok regs(6)]
  ultimately have "conf_segment (hd_tx_lsbfirst d) (hd_tx_lsbfirst d) (spi_hal_sct_init_conf_buffer hw2) 0 =
      trans_phases d c (mosi_line d c) (miso_line c) (bit (hw (Conf User_Reg)) SPI_USR_CONF_NXT)"
    using c dev(1,2) cmd addr by (simp add: conf_segment_def trans_phases_def Let_def user setup_bit)
  moreover have "{cmd_lines (hal_lines c), addr_lines (hal_lines c), data_lines (hal_lines c)} \<subseteq> {1, 2, 4, 8}"
    using c by (simp add: hal_lines_def)
  then have "conf_lines (spi_hal_sct_init_conf_buffer hw2) = (hal_lines c, data_lines (hal_lines c))"
    by (rule line_mode_read [where w = "hw (Conf Ctrl_Reg)"])
      (auto simp: regs(1,2) line_mode_ctrl line_mode_user conf_bit_defs)
  ultimately show ?thesis
    by (simp add: hal_lines_def)
qed

text \<open>The user register after a transaction has been set up is that of its phases.\<close>

lemma setup_trans_user:
  assumes ok: "trans_ok d c" and loaded: "dev_loaded hostid d hw" and st: "spi_hal_setup_trans d c hw = Inr hw'"
  shows "bit (spi_hal_enable_data_line (mosi_line d c) (miso_line c) hw' (Conf User_Reg)) k =
    user_bits (hal_lines c) (trans_phases d c (mosi_line d c) (miso_line c) (bit (hw (Conf User_Reg)) SPI_USR_CONF_NXT))
      (hw (Conf User_Reg)) k"
proof -
  note c = ok [unfolded trans_ok_def]
  have mode: "hd_mode d \<in> {0..3}" using c by blast
  note dev = loaded_phases(1,2) [OF loaded mode, unfolded conf_bit_defs]
  let ?seg = "trans_phases d c (mosi_line d c) (miso_line c) (bit (hw (Conf User_Reg)) SPI_USR_CONF_NXT)"
  have seg: "cs_hold ?seg = hd_cs_hold d" "cs_setup ?seg = hd_cs_setup d"
      "seg_end ?seg = (\<not> bit (hw (Conf User_Reg)) 15)" "dummy_bits ?seg = extra_dummy d c + uint (hal_dummy_bits c)"
      "addr_bits ?seg = trans_addr_bits d c" "cmd_bits ?seg = trans_cmd_bits d c"
      "(tx_bitlen ?seg \<noteq> 0) = mosi_line d c" "(rx_bitlen ?seg \<noteq> 0) = miso_line c"
    using c by (auto simp: trans_phases_def conf_bit_defs uint_0_iff mosi_line_def miso_line_def)
  have "bit (put_bit (miso_line c) 28 (put_bit (mosi_line d c) 27 (put_bit (trans_cmd_bits d c \<noteq> 0) 31
      (put_bit (trans_addr_bits d c \<noteq> 0) 30 (put_bit (extra_dummy d c + uint (hal_dummy_bits c) \<noteq> 0) 29 w))))) k =
      user_bits (hal_lines c) ?seg (hw (Conf User_Reg)) k"
    if "w = spi_ll_master_set_line_mode (hal_lines c) hw (Conf User_Reg)" for w
    unfolding that user_bits_def seg
    by (cases "k \<in> {6, 7, 12, 13, 14, 15, 27, 28, 29, 30, 31}")
      (elim insertE emptyE, simp_all add: line_mode_user dev)
  then show ?thesis
    by (simp add: setup_trans_regs(2) [OF st] conf_bit_defs)
qed

section \<open>Two ways to the same registers\<close>

lemma conf_segment_rx:
  "rx = tx \<or> addr_bits (conf_segment tx tx b g) = 0 \<Longrightarrow> conf_segment tx rx b g = conf_segment tx tx b g"
  by (auto simp: conf_segment_def conf_addr_def Let_def)

lemma conf_segment_addr_bits: "addr_bits (conf_segment tx rx b g) = addr_bits (conf_segment tx rx' b g)"
  by (simp add: conf_segment_def Let_def)

lemma trans_phases_ok:
  assumes "trans_ok d c" "hd_half_duplex d"
  shows "seg_config_ok (trans_phases d c (mosi_line d c) (miso_line c) nxt)"
proof -
  note c = assms(1) [unfolded trans_ok_def]
  have b: "uint w \<le> 262144" if "w \<le> 0x40000" for w :: u32 using that by (simp add: word_le_def)
  have "uint (hal_tx_bitlen c) \<le> 262144" "uint (hal_rx_bitlen c) \<le> 262144"
    using c b by blast+
  moreover have "uint (hal_cmd_bits c) \<le> 16" "uint (hal_addr_bits c) \<le> 32" using c by (auto simp: word_le_def)
  moreover have "hal_tx_bitlen c = 0 \<or> hal_rx_bitlen c = 0" "{hd_cs_setup d} \<subseteq> {0..32}" "{hd_cs_hold d} \<subseteq> {0..31}"
      "{extra_dummy d c + uint (hal_dummy_bits c)} \<subseteq> {0..256}" "take_bit (unat (hal_cmd_bits c)) (hal_cmd c) = hal_cmd c"
      "take_bit (unat (hal_addr_bits c)) (hal_addr c) = hal_addr c"
    using c assms(2) by simp_all
  ultimately show ?thesis
    using assms(2) by (auto simp: seg_config_ok_def trans_phases_def trans_cmd_bits_def trans_addr_bits_def)
qed

text \<open>
  C31: A segment and an ordinary transaction with the same phases come to the same: the registers
  that the driver sets up for a half-duplex transaction, and the image that it builds from the
  same registers for a segment with these phases, are read by the peripheral as the same command,
  address, lengths, line modes and timings. Word for word they agree in the control and user
  registers, the clock, the timing of the data lines and the interrupts enabled, and in the
  register of the select lines except for the bit that keeps the line active, which only the
  transaction sets; the DMA enable bits and the interrupts to be cleared are not compared. This
  holds when the bit orders of the two directions are the same or there is no address phase; the
  image of an address follows the order of the received bits, the register that of the sent ones.
\<close>

theorem segment_image_matches_registers:
  fixes d :: spi_hal_dev_config and c :: spi_hal_trans_config and hw hw' :: spi_regs
  assumes "trans_ok d c" "hd_half_duplex d" "dev_loaded hostid d hw" "spi_hal_setup_trans d c hw = Inr hw'"
    and "hd_rx_lsbfirst d = hd_tx_lsbfirst d \<or> hal_addr_bits c = 0"
  defines "seg \<equiv> trans_phases d c (mosi_line d c) (miso_line c) (bit (hw (Conf User_Reg)) SPI_USR_CONF_NXT)"
  defines "img \<equiv> spi_hal_sct_format_conf_buffer (hal_lines c) seg (hd_tx_lsbfirst d) (hd_rx_lsbfirst d)
    (spi_hal_sct_init_conf_buffer hw)"
  defines "hw2 \<equiv> spi_hal_enable_data_line (mosi_line d c) (miso_line c) hw'"
  shows "conf_segment (hd_tx_lsbfirst d) (hd_tx_lsbfirst d) img 0 =
      conf_segment (hd_tx_lsbfirst d) (hd_tx_lsbfirst d) (spi_hal_sct_init_conf_buffer hw2) 0 \<and>
    conf_lines img = conf_lines (spi_hal_sct_init_conf_buffer hw2) \<and>
    (\<forall>r \<in> {Ctrl_Reg, User_Reg, Clock_Reg, Din_Mode_Reg, Din_Num_Reg, Dout_Mode_Reg, Dma_Int_Ena_Reg}.
      img ! conf_word r = hw2 (Conf r)) \<and>
    (\<forall>k. k \<noteq> MISC_CS_KEEP_ACTIVE \<longrightarrow> bit (img ! conf_word Misc_Reg) k = bit (hw2 (Conf Misc_Reg)) k)"
proof -
  note regs = setup_trans_reads [OF assms(1,3,4), folded hw2_def]
  note word = setup_trans_regs [OF assms(4), of "mosi_line d c" "miso_line c", folded hw2_def]
  have lines: "{cmd_lines (hal_lines c), addr_lines (hal_lines c), data_lines (hal_lines c)} \<subseteq> {1, 2, 4, 8}"
    using assms(1) by (simp add: trans_ok_def hal_lines_def)
  have gap: "seg_gap_len seg = 0" by (simp add: seg_def trans_phases_def)
  have ok: "seg_config_ok seg" unfolding seg_def by (rule trans_phases_ok [OF assms(1,2)])
  note image = conf_image_reads [OF ok lines length_image, where tx_lsbfirst = "hd_tx_lsbfirst d" and rx_lsbfirst = "hd_rx_lsbfirst d",
      of hw, folded img_def, unfolded gap]
  have "hal_addr_bits c = 0 \<Longrightarrow> addr_bits seg = 0" by (simp add: seg_def trans_phases_def trans_addr_bits_def)
  then have "conf_segment (hd_tx_lsbfirst d) (hd_tx_lsbfirst d) img 0 = seg"
    using assms(5) image [THEN conjunct1] conf_segment_rx [of "hd_rx_lsbfirst d" "hd_tx_lsbfirst d" img 0]
      conf_segment_addr_bits [of "hd_tx_lsbfirst d" "hd_rx_lsbfirst d" img 0 "hd_tx_lsbfirst d"] by auto
  moreover have "conf_lines img = (hal_lines c, hal_data_lines c)"
    using image [THEN conjunct2, THEN conjunct1] by (simp add: hal_lines_def)
  moreover have "img ! conf_word Ctrl_Reg = hw2 (Conf Ctrl_Reg)"
    by (rule bit_word_eqI) (simp add: img_def conf_ctrl_bits word(1) line_mode_ctrl)
  moreover have "img ! conf_word User_Reg = hw2 (Conf User_Reg)"
    using setup_trans_user [OF assms(1,3,4)]
    by (intro bit_word_eqI) (simp add: img_def conf_user_bits hw2_def seg_def)
  moreover have "img ! conf_word r = hw (Conf r)"
    if "r \<in> {Clock_Reg, Misc_Reg, Din_Mode_Reg, Din_Num_Reg, Dout_Mode_Reg, Dma_Int_Ena_Reg}" for r
    using that image [THEN conjunct2, THEN conjunct2, THEN conjunct2] by auto
  ultimately show ?thesis
    using regs by (simp add: seg_def word(7,8,10,12-14) MISC_CS_KEEP_ACTIVE_def)
qed

text \<open>A flash chip in half duplex, in mode 3 on the second select line, and a read command with an address of 24 bits.\<close>

definition flash_timing :: spi_dev_timing where
  "flash_timing = \<lparr>clock_reg = \<lparr>clkcnt_l = 1, clkcnt_h = 0, clkcnt_n = 1, clkdiv_pre = 0, clk_equ_sysclk = False\<rparr>,
     expect_freq = 40000000, real_freq = 40000000, timing_dummy_n = 0, timing_miso_delay = -1,
     clock_source = SPI_CLK_SRC_APB, source_real_freq = 80000000\<rparr>"

definition flash_dev :: spi_hal_dev_config where
  "flash_dev = \<lparr>hd_mode = 3, hd_cs_setup = 2, hd_cs_hold = 1, hd_cs_pin_id = 1, hd_timing = flash_timing, hd_sio = False,
     hd_half_duplex = True, hd_tx_lsbfirst = False, hd_rx_lsbfirst = False, hd_no_compensate = False, hd_positive_cs = True\<rparr>"

definition flash_read :: spi_hal_trans_config where
  "flash_read = \<lparr>hal_cmd = 0x6B, hal_cmd_bits = 8, hal_addr_bits = 24, hal_addr = 0x123456, hal_dummy_bits = 8,
     hal_tx_bitlen = 0, hal_rx_bitlen = 4096, hal_send_buffer = 0, hal_rcv_buffer = 0x3FC90000, hal_cs_keep_active = False,
     hal_data_lines = 4, hal_addr_lines = 1, hal_cmd_lines = 1\<rparr>"

lemma flash_ok: "trans_ok flash_dev flash_read"
  by (simp add: trans_ok_def flash_dev_def flash_read_def flash_timing_def mosi_line_def miso_line_def extra_dummy_def
      take_bit_eq_mask mask_eq_exp_minus_1)

definition flash_regs :: spi_regs where
  "flash_regs = spi_hal_setup_device 1 flash_dev (\<lambda>_. 0)"

lemma flash_loaded: "dev_loaded 1 flash_dev flash_regs"
  unfolding flash_regs_def by (rule setup_device_loads) (simp add: flash_dev_def)

lemma flash_set_up: "\<exists>hw'. spi_hal_setup_trans flash_dev flash_read flash_regs = Inr hw'"
  by (rule setup_trans_ok) (simp add: flash_regs_def setup_device_regs(6) flash_dev_def image_iff)

lemma setup_device_no_residue_witness:
  "spi_hal_setup_device 1 (flash_dev\<lparr>hd_mode := 0, hd_cs_pin_id := 0, hd_positive_cs := False\<rparr>)
       (spi_hal_setup_device 1 flash_dev (\<lambda>_. 0x100)) =
     spi_hal_setup_device 1 (flash_dev\<lparr>hd_mode := 0, hd_cs_pin_id := 0, hd_positive_cs := False\<rparr>) (\<lambda>_. 0x100)"
  using setup_device_no_residue [of "flash_dev\<lparr>hd_mode := 0, hd_cs_pin_id := 0, hd_positive_cs := False\<rparr>" flash_dev "\<lambda>_. 0x100" 1]
  by (simp add: flash_dev_def)

lemma segment_image_matches_registers_witness:
  "\<exists>hw'. spi_hal_setup_trans flash_dev flash_read flash_regs = Inr hw' \<and>
     conf_lines (spi_hal_sct_format_conf_buffer (hal_lines flash_read) (trans_phases flash_dev flash_read False True
         (bit (flash_regs (Conf User_Reg)) SPI_USR_CONF_NXT)) False False (spi_hal_sct_init_conf_buffer flash_regs)) =
       conf_lines (spi_hal_sct_init_conf_buffer (spi_hal_enable_data_line False True hw'))"
proof -
  obtain hw' where st: "spi_hal_setup_trans flash_dev flash_read flash_regs = Inr hw'" using flash_set_up by blast
  have "mosi_line flash_dev flash_read = False" "miso_line flash_read = True" "hd_tx_lsbfirst flash_dev = False"
      "hd_rx_lsbfirst flash_dev = False" "hd_half_duplex flash_dev"
    by (simp_all add: mosi_line_def miso_line_def flash_dev_def flash_read_def)
  then show ?thesis
    using segment_image_matches_registers [OF flash_ok _ flash_loaded st] st by auto
qed

section \<open>Transfers without DMA\<close>

text \<open>
  C21: Without DMA a transfer goes through the sixteen words of the data buffer. What is put there
  from the send buffer, whatever its address and its length of up to 512 bits, is what comes out
  again byte by byte into the receive buffer, and nothing else of the memory is written; no other
  register is touched. Whole words are read from memory, so that the last word holds up to three
  bytes from behind the send buffer.
\<close>

theorem cpu_buffer_roundtrip:
  fixes c :: spi_hal_trans_config and m m' :: "u32 \<Rightarrow> u8" and hw :: spi_regs
  assumes "hal_send_buffer c \<noteq> 0" "hal_rcv_buffer c \<noteq> 0" "hal_rx_bitlen c = hal_tx_bitlen c" "hal_tx_bitlen c \<le> SPI_LL_CPU_MAX_BIT_LEN"
  defines "hw' \<equiv> spi_hal_push_tx_buffer m c hw"
  shows "spi_hal_fetch_result c hw' m' = store m' (hal_rcv_buffer c) (load m (hal_send_buffer c) ((unat (hal_tx_bitlen c) + 7) div 8)) \<and>
    (\<forall>r. r \<notin> Data_Buf ` {..<16} \<longrightarrow> hw' r = hw r) \<and>
    (\<forall>k. 32 * k < unat (hal_tx_bitlen c) \<longrightarrow> hw' (Data_Buf k) = load_word m (hal_send_buffer c + of_nat (4 * k)))"
proof (intro conjI allI impI)
  have hw': "hw' = spi_ll_write_buffer m (hal_send_buffer c) (hal_tx_bitlen c) hw"
    using assms(1) by (simp add: hw'_def spi_hal_push_tx_buffer_def)
  show "spi_hal_fetch_result c hw' m' = store m' (hal_rcv_buffer c) (load m (hal_send_buffer c) ((unat (hal_tx_bitlen c) + 7) div 8))"
    using assms(2,3) by (simp add: spi_hal_fetch_result_def read_buffer_stores hw' buffer_holds)
  have "unat (hal_tx_bitlen c) \<le> 512"
    using assms(4) by (simp add: word_le_nat_alt SPI_LL_CPU_MAX_BIT_LEN_def)
  then have n: "buf_words (hal_tx_bitlen c) \<le> 16" by (simp add: buf_words_def)
  show "hw' r = hw r" if "r \<notin> Data_Buf ` {..<16}" for r
    using that n unfolding hw' by (subst write_buffer_words) (auto split: spi_reg.splits)
  show "hw' (Data_Buf k) = load_word m (hal_send_buffer c + of_nat (4 * k))" if "32 * k < unat (hal_tx_bitlen c)" for k
    using that unfolding hw' by (subst write_buffer_words) (auto simp: buf_words_def)
qed

lemma cpu_buffer_roundtrip_witness:
  "spi_hal_fetch_result (flash_read\<lparr>hal_send_buffer := 0x40, hal_tx_bitlen := 40, hal_rx_bitlen := 40\<rparr>)
     (spi_hal_push_tx_buffer (\<lambda>a. ucast a) (flash_read\<lparr>hal_send_buffer := 0x40, hal_tx_bitlen := 40, hal_rx_bitlen := 40\<rparr>) (\<lambda>_. 0))
     (\<lambda>_. 0xFF) = store (\<lambda>_. 0xFF) 0x3FC90000 [0x40, 0x41, 0x42, 0x43, 0x44]"
  using cpu_buffer_roundtrip [of "flash_read\<lparr>hal_send_buffer := 0x40, hal_tx_bitlen := 40, hal_rx_bitlen := 40\<rparr>"
      "\<lambda>a. ucast a" "\<lambda>_. 0" "\<lambda>_. 0xFF"]
  by (simp add: flash_read_def SPI_LL_CPU_MAX_BIT_LEN_def load_def upt_rec)

end
