(* ===== verification/Spi_Driver_Regs.thy ===== *)
theory Spi_Driver_Regs
  imports Spi_Setup Spi_Hal
begin

text \<open>
  The SPI master driver down to the registers (\<open>spi_master.c\<close>): set-up of the host, of a device and of a transaction, the data for
  the DMA engine or for the data buffer, and the switch to segmented transfers and back. The calls of \<open>Spi_Master\<close> and \<open>Spi_Segments\<close> that
  only follow the driver's own state are used for that part of it.
\<close>

section \<open>State\<close>

text \<open>
  \<open>hal_device\<close> has the fields of \<open>spi_device_t\<close> that say how the device is set up. The last fields of \<open>hal_machine\<close> are \<open>trans_config\<close>
  of the hardware layer and the chains on which the DMA channels were last started.
\<close>

record hal_device =
  hal_dev :: spi_hal_dev_config
  cfg_duty_cycle_pos :: int
  cfg_input_delay_ns :: int

record hal_machine = sct_machine +
  regs :: spi_regs
  hal_devs :: "nat \<Rightarrow> hal_device"
  trans_config :: spi_hal_trans_config
  rx_link :: "dma_desc list"
  tx_link :: "dma_desc list"

definition with_regs :: "(spi_regs \<Rightarrow> spi_regs) \<Rightarrow> 'a hal_machine_scheme \<Rightarrow> 'a hal_machine_scheme" where
  "with_regs f s = s\<lparr>regs := f (regs s), hw_regs := (\<lambda>r. f (regs s) (Conf r))\<rparr>"

text \<open>A call that waits for the peripheral: it never returns when the peripheral does not answer.\<close>

definition with_regs_opt :: "(spi_regs \<Rightarrow> spi_regs option) \<Rightarrow> 'a hal_machine_scheme \<Rightarrow> 'a hal_machine_scheme outcome" where
  "with_regs_opt f s = (case f (regs s) of None \<Rightarrow> Inl Blocked | Some hw \<Rightarrow> Inr (with_regs (\<lambda>_. hw) s))"

section \<open>The host and its devices\<close>

text \<open>The registers when the driver of a host is initialised and taken away.\<close>

definition init_driver_regs :: "(nat \<Rightarrow> bool) \<Rightarrow> bool \<Rightarrow> spi_regs \<Rightarrow> spi_regs option" where
  "init_driver_regs busy data_io_default_level hw =
     (case spi_hal_init busy (spi_ll_enable_clock True hw) of None \<Rightarrow> None
      | Some hw1 \<Rightarrow> spi_hal_config_io_default_level busy data_io_default_level hw1)"

definition spi_master_init_driver_hw ::
  "(nat \<Rightarrow> bool) \<Rightarrow> bool \<Rightarrow> int \<Rightarrow> 'a hal_machine_scheme \<Rightarrow> (esp_err_t \<times> 'a hal_machine_scheme) outcome" where
  "spi_master_init_driver_hw busy level host_num s =
     (case spi_master_init_driver host_num s of (err, s1) \<Rightarrow>
        if err \<noteq> ESP_OK then Inr (err, s1)
        else bindr (with_regs_opt (init_driver_regs busy level) s1) (\<lambda>s2. Inr (ESP_OK, s2)))"

definition spi_master_deinit_driver_hw :: "'a hal_machine_scheme \<Rightarrow> esp_err_t \<times> 'a hal_machine_scheme" where
  "spi_master_deinit_driver_hw s =
     (case spi_master_deinit_driver s of (err, s1) \<Rightarrow> (err, if err = ESP_OK then with_regs spi_hal_deinit s1 else s1))"

record spi_device_interface_config = spi_device_config +
  dcfg_mode :: u8
  dcfg_clock_source :: spi_clock_source
  dcfg_cs_ena_pretrans :: u16
  dcfg_cs_ena_posttrans :: u8

definition SPI_DEVICE_POSITIVE_CS :: u32 where "SPI_DEVICE_POSITIVE_CS = 0x8"

text \<open>The configuration of a device for the hardware layer, when it is added in slot \<open>i\<close>.\<close>

definition new_hal_dev :: "nat \<Rightarrow> spi_device_interface_config \<Rightarrow> spi_dev_timing \<Rightarrow> spi_hal_dev_config" where
  "new_hal_dev i c tc =
     (let hold = uint (dcfg_cs_ena_posttrans c); fs = dcfg_flags c
      in \<lparr>hd_mode = uint (dcfg_mode c), hd_cs_setup = uint (dcfg_cs_ena_pretrans c), hd_cs_hold = (if hold = 0 then 1 else hold),
          hd_cs_pin_id = i, hd_timing = tc, hd_sio = flag fs SPI_DEVICE_3WIRE, hd_half_duplex = flag fs SPI_DEVICE_HALFDUPLEX,
          hd_tx_lsbfirst = flag fs SPI_DEVICE_TXBIT_LSBFIRST, hd_rx_lsbfirst = flag fs SPI_DEVICE_RXBIT_LSBFIRST,
          hd_no_compensate = flag fs SPI_DEVICE_NO_DUMMY, hd_positive_cs = flag fs SPI_DEVICE_POSITIVE_CS\<rparr>)"

text \<open>
  \<open>spi_setup_device\<close>. A frequency given with the transaction is kept as the device's own; the registers are
  written when another device used the bus last or the frequency has changed.
\<close>

definition override_clock :: "nat \<Rightarrow> spi_transaction option \<Rightarrow> 'a hal_machine_scheme \<Rightarrow> bool \<times> 'a hal_machine_scheme" where
  "override_clock i topt s =
     (case topt of None \<Rightarrow> (False, s)
      | Some t \<Rightarrow>
        let v = hal_devs s i; d = hal_dev v; tc = hd_timing d
        in if tr_override_freq_hz t > 0 \<and> word_of_int (expect_freq tc) \<noteq> tr_override_freq_hz t then
             (case spi_hal_cal_clock_conf (source_real_freq tc) (uint (tr_override_freq_hz t)) (cfg_duty_cycle_pos v) True
                     (cfg_input_delay_ns v) of
                (err, conf) \<Rightarrow>
                  if err = ESP_OK then
                    let tc' = tc\<lparr>clock_reg := clock_reg conf, expect_freq := expect_freq conf, real_freq := real_freq conf,
                                timing_dummy_n := timing_dummy_n conf, timing_miso_delay := timing_miso_delay conf\<rparr>
                    in (True, set_host (\<lambda>h. h\<lparr>devices := (devices h)(i := devices h i\<lparr>timing_dummy := timing_dummy_n conf \<noteq> 0\<rparr>)\<rparr>)
                          (s\<lparr>hal_devs := (hal_devs s)(i := v\<lparr>hal_dev := d\<lparr>hd_timing := tc'\<rparr>\<rparr>)\<rparr>))
                  else (False, s))
           else (False, s))"

definition load_device :: "nat \<Rightarrow> 'a hal_machine_scheme \<Rightarrow> spi_regs \<Rightarrow> spi_regs" where
  "load_device i s = in_order
     [spi_hal_setup_device (host_id (host s)) (hal_dev (hal_devs s i)),
      spi_ll_set_clk_source (clock_source (hd_timing (hal_dev (hal_devs s i))))]"

definition spi_setup_device :: "nat \<Rightarrow> spi_transaction option \<Rightarrow> 'a hal_machine_scheme \<Rightarrow> 'a hal_machine_scheme" where
  "spi_setup_device i topt s =
     (case override_clock i topt s of (clock_changed, s1) \<Rightarrow>
      case spi_bus_lock_touch i (bus_lock (host s1)) of (touched, l) \<Rightarrow>
        let s2 = set_host (\<lambda>h. h\<lparr>bus_lock := l\<rparr>) s1
        in if touched \<or> clock_changed then with_regs (load_device i s2) s2 else s2)"

section \<open>A transaction\<close>

text \<open>The length of a buffer in bytes, as the driver computes it.\<close>

definition bytes_of_bits :: "u32 \<Rightarrow> int" where
  "bytes_of_bits bits = (sint bits + 7) sdiv 8"

text \<open>
  A chain is built and the channel started on it; an empty buffer makes the driver write before its first
  descriptor.
\<close>

definition start_rx :: "spi_hal_trans_config \<Rightarrow> 'a hal_machine_scheme \<Rightarrow> 'a hal_machine_scheme outcome" where
  "start_rx c s =
     (if hal_rcv_buffer c = 0 then Inr s
      else case spicommon_dma_desc_setup_link (hal_rcv_buffer c) (bytes_of_bits (hal_rx_bitlen c)) True of
          None \<Rightarrow> Inl Out_Of_Bounds
        | Some ds \<Rightarrow> Inr ((with_regs spi_hal_hw_prepare_rx s)\<lparr>rx_link := ds\<rparr>))"

definition start_tx :: "spi_hal_trans_config \<Rightarrow> 'a hal_machine_scheme \<Rightarrow> 'a hal_machine_scheme outcome" where
  "start_tx c s =
     (if hal_send_buffer c = 0 then Inr s
      else case spicommon_dma_desc_setup_link (hal_send_buffer c) (bytes_of_bits (hal_tx_bitlen c)) False of
          None \<Rightarrow> Inl Out_Of_Bounds
        | Some ds \<Rightarrow> Inr ((with_regs spi_hal_hw_prepare_tx s)\<lparr>tx_link := ds\<rparr>))"

definition s_spi_dma_prepare_data :: "spi_hal_trans_config \<Rightarrow> 'a hal_machine_scheme \<Rightarrow> 'a hal_machine_scheme outcome" where
  "s_spi_dma_prepare_data c s = bindr (start_rx c s) (start_tx c)"

text \<open>The data bytes in the descriptor of the transaction lie in the frame of the caller.\<close>

definition frame_mem :: "spi_transaction \<Rightarrow> 'a machine_scheme \<Rightarrow> u32 \<Rightarrow> u8" where
  "frame_mem t s = store (store (mem s) (frame_base s + 32) (union_bytes (tr_tx t))) (frame_base s + 36) (union_bytes (tr_rx t))"

definition s_spi_prepare_data ::
  "spi_hal_dev_config \<Rightarrow> spi_transaction \<Rightarrow> spi_hal_trans_config \<Rightarrow> 'a hal_machine_scheme \<Rightarrow> 'a hal_machine_scheme outcome" where
  "s_spi_prepare_data d t c s =
     bindr (if dma_enabled (bus_attr (host s)) then s_spi_dma_prepare_data c s
            else Inr (with_regs (spi_hal_push_tx_buffer (frame_mem t s) c) s))
       (\<lambda>s1. Inr (with_regs (spi_hal_enable_data_line (mosi_line d c) (miso_line c)) s1))"

definition spi_new_trans_hw ::
  "(nat \<Rightarrow> bool) \<Rightarrow> nat \<Rightarrow> spi_trans_priv \<Rightarrow> 'a hal_machine_scheme \<Rightarrow> 'a hal_machine_scheme outcome" where
  "spi_new_trans_hw busy i pr s =
     (let s1 = spi_setup_device i (Some (priv_trans pr)) (set_host (\<lambda>h. h\<lparr>cur_cs := dev_id (devices h i)\<rparr>) s);
          d = hal_dev (hal_devs s1 i);
          c = spi_format_hal_trans_struct (devices (host s1) i) pr (frame_base s1)
      in bindr (spi_hal_setup_trans d c (regs s1)) (\<lambda>hw.
         bindr (s_spi_prepare_data d (priv_trans pr) c ((with_regs (\<lambda>_. hw) s1)\<lparr>trans_config := c, hal_line_mode := hal_lines c\<rparr>))
           (with_regs_opt (spi_hal_user_start busy))))"

section \<open>Segmented transfers\<close>

definition sct_load_regs :: "bool \<Rightarrow> bool \<Rightarrow> spi_regs \<Rightarrow> spi_regs" where
  "sct_load_regs rx tx = in_order
     [spi_hal_clear_intr_mask SPI_LL_INTR_SEG_DONE, only_if rx spi_hal_hw_prepare_rx, only_if tx spi_hal_hw_prepare_tx]"

definition spi_new_sct_trans_hw ::
  "(nat \<Rightarrow> bool) \<Rightarrow> nat \<Rightarrow> spi_sct_trans_priv \<Rightarrow> 'a hal_machine_scheme \<Rightarrow> 'a hal_machine_scheme outcome" where
  "spi_new_sct_trans_hw busy i p s =
     (let s1 = spi_new_sct_trans i p (spi_setup_device i None s);
          gap = sct_gap_len (hd (sct_trans_desc_head p))
      in with_regs_opt (spi_hal_user_start busy)
           (with_regs (in_order [spi_hal_sct_set_conf_bits_len gap,
              sct_load_regs (rx_seg_head p \<noteq> None) (tx_seg_head p \<noteq> None)]) s1))"

text \<open>
  \<open>spi_bus_multi_trans_mode_enable\<close>: the registers are set up for the device and the fake transaction, which is
  not started. The bus lock does not hear of it.
\<close>

definition enable_regs ::
  "nat \<Rightarrow> spi_hal_dev_config \<Rightarrow> spi_hal_trans_config \<Rightarrow> spi_regs \<Rightarrow> spi_regs outcome" where
  "enable_regs hostid d c hw =
     bindr (spi_hal_setup_trans d c (spi_hal_setup_device hostid d hw)) (\<lambda>hw1. Inr (spi_hal_sct_init hw1))"

text \<open>
  \<open>spi_format_hal_trans_struct\<close> takes the buffers from \<open>host->cur_trans_buf\<close>, not from the transaction that it
  is given. Here that is the one sent last, so that its buffers go with the fake transaction and
  decide, in half duplex, on the extra dummy bits.
\<close>

definition fake_config :: "nat \<Rightarrow> 'a hal_machine_scheme \<Rightarrow> spi_hal_trans_config" where
  "fake_config i s =
     (case setup_priv_desc (host s) fake_trans s of (err, pr, s1) \<Rightarrow>
        let sent = cur_trans (host s)
        in spi_format_hal_trans_struct (devices (host s) i)
             (pr\<lparr>buffer_to_send := buffer_to_send sent, buffer_to_rcv := buffer_to_rcv sent\<rparr>) (frame_base s))"

definition spi_bus_multi_trans_mode_enable_hw ::
  "handle \<Rightarrow> bool \<Rightarrow> 'a hal_machine_scheme \<Rightarrow> (esp_err_t \<times> 'a hal_machine_scheme) outcome" where
  "spi_bus_multi_trans_mode_enable_hw handle enable s =
     (case handle of None \<Rightarrow> Inr (ESP_ERR_INVALID_ARG, s)
      | Some i \<Rightarrow>
        case spi_bus_multi_trans_mode_enable (Some i) enable s of (err, s1) \<Rightarrow>
          if err \<noteq> ESP_OK then Inr (err, s1)
          else if enable then
            bindr (enable_regs (host_id (host s)) (hal_dev (hal_devs s i)) (fake_config i s) (regs s))
              (\<lambda>hw. Inr (ESP_OK, (with_regs (\<lambda>_. hw) s1)\<lparr>trans_config := fake_config i s\<rparr>))
          else Inr (ESP_OK, with_regs spi_hal_sct_deinit s1))"

section \<open>Frame\<close>

lemma with_regs_fields [simp]:
  "regs (with_regs f s) = f (regs s)" "hal_devs (with_regs f s) = hal_devs s" "host (with_regs f s) = host s"
  "frame_base (with_regs f s) = frame_base s" "mem (with_regs f s) = mem s" "environ (with_regs f s) = environ s"
  "trans_config (with_regs f s) = trans_config s" "rx_link (with_regs f s) = rx_link s" "tx_link (with_regs f s) = tx_link s"
  by (simp_all add: with_regs_def)

lemma set_host_hal [simp]:
  "regs (set_host f s) = regs s" "hal_devs (set_host f s) = hal_devs s" "trans_config (set_host f s) = trans_config s"
  "rx_link (set_host f s) = rx_link s" "tx_link (set_host f s) = tx_link s"
  by (simp_all add: set_host_def)

section \<open>Initialisation\<close>

text \<open>
  The driver is initialised as soon as the peripheral answers: master mode with no phase enabled, and the interrupt at the end of a transaction
  enabled and already pending, so that enabling it later calls the handler.
\<close>

lemma init_driver_result:
  assumes "\<not> busy n"
  shows "\<exists>hw'. init_driver_regs busy level hw = Some hw' \<and> hw' (Conf User_Reg) = 0 \<and> hw' Slave_Reg = 0 \<and>
    bit (hw' (Conf Dma_Int_Ena_Reg)) INT_TRANS_DONE \<and> bit (hw' Int_Set_Reg) INT_TRANS_DONE \<and>
    (bit (hw' (Conf Ctrl_Reg)) CTRL_D_POL \<longleftrightarrow> level)"
  using apply_config_ends [of busy n] assms
  by (simp add: init_driver_regs_def spi_hal_init_def spi_hal_config_io_default_level_def spi_ll_master_init_def spi_ll_enable_int_def
      spi_ll_set_int_stat_def spi_ll_set_mosi_delay_def spi_ll_set_mosi_free_level_def INT_TRANS_DONE_def CTRL_D_POL_def)

section \<open>The registers of the device\<close>

text \<open>The registers outside the DMA engine: what is left alone by starting the channels.\<close>

definition same_setup :: "spi_regs \<Rightarrow> spi_regs \<Rightarrow> bool" where
  "same_setup hw hw' \<longleftrightarrow> (\<forall>r. r \<notin> {Dma_Conf_Reg, Dma_Int_Clr_Reg} \<longrightarrow> hw' (Conf r) = hw (Conf r)) \<and> hw' Cmd_Reg = hw Cmd_Reg"

lemma same_setup_refl [simp]: "same_setup hw hw"
  by (simp add: same_setup_def)

lemma same_setup_trans: "same_setup hw hw1 \<Longrightarrow> same_setup hw1 hw2 \<Longrightarrow> same_setup hw hw2"
  by (simp add: same_setup_def)

lemma same_setup_prepare [simp]:
  "same_setup hw (spi_hal_hw_prepare_rx hw)" "same_setup hw (spi_hal_hw_prepare_tx hw)"
  "same_setup hw (spi_hal_push_tx_buffer m c hw)"
  by (simp_all add: same_setup_def spi_hal_hw_prepare_rx_def spi_hal_hw_prepare_tx_def spi_ll_dma_rx_fifo_reset_def
      spi_ll_dma_tx_fifo_reset_def spi_ll_infifo_full_clr_def spi_ll_outfifo_empty_clr_def spi_ll_dma_rx_enable_def
      spi_ll_dma_tx_enable_def spi_hal_push_tx_buffer_def write_buffer_words)

lemma same_setup_data_line:
  "same_setup hw hw' \<Longrightarrow> same_setup (spi_hal_enable_data_line a b hw) (spi_hal_enable_data_line a b hw')"
  by (simp add: same_setup_def spi_hal_enable_data_line_def spi_ll_enable_mosi_def spi_ll_enable_miso_def)

lemma same_setup_reads:
  assumes "same_setup hw hw'"
  shows "conf_segment a b (spi_hal_sct_init_conf_buffer hw') g = conf_segment a b (spi_hal_sct_init_conf_buffer hw) g"
    and "conf_lines (spi_hal_sct_init_conf_buffer hw') = conf_lines (spi_hal_sct_init_conf_buffer hw)"
  using assms by (simp_all add: same_setup_def conf_segment_def conf_lines_def)

lemma same_setup_loaded: "hd_mode d \<in> {0..3} \<Longrightarrow> same_setup hw hw' \<Longrightarrow> dev_loaded h d hw \<Longrightarrow> dev_loaded h d hw'"
  by (erule (1) dev_loaded_cong) (simp_all add: same_setup_def)

lemma setup_trans_keeps_device:
  assumes m: "hd_mode e \<in> {0..3}" and l: "dev_loaded h e hw" and st: "spi_hal_setup_trans d c hw = Inr hw'"
  shows "dev_loaded h e (spi_hal_enable_data_line mosi miso hw')"
proof -
  note r = setup_trans_regs [OF st, of mosi miso]
  have ctrl: "bit (spi_ll_master_set_line_mode lm hw (Conf Ctrl_Reg)) j = bit (hw (Conf Ctrl_Reg)) j" if "j \<in> {23..<27}" for lm j
  proof -
    have "\<not> bit SPI_LL_ONE_LINE_CTRL_MASK j"
      using that unfolding SPI_LL_ONE_LINE_CTRL_MASK_def conf_bit_defs bit_or_iff bit_push_bit_iff bit_1_iff by auto
    then show ?thesis
      using that by (auto simp: spi_ll_master_set_line_mode_def conf_bit_defs bit_and_iff bit_not_iff)
  qed
  show ?thesis
    by (rule dev_loaded_cong [OF m l])
      (auto simp: r ctrl line_mode_user conf_bit_defs reg_field_defs SPI_USR_ADDR_BITLEN_def SPI_USR_DUMMY_CYCLELEN_def only_if_def)
qed

text \<open>The invariant: the registers are those of the device that used the bus last.\<close>

definition regs_current :: "'a hal_machine_scheme \<Rightarrow> bool" where
  "regs_current s \<longleftrightarrow>
     (\<forall>i. device_set (host s) i \<longrightarrow> hd_mode (hal_dev (hal_devs s i)) \<in> {0..3}) \<and>
     (\<forall>i. last_dev (bus_lock (host s)) = Some i \<longrightarrow>
        device_set (host s) i \<and> dev_loaded (host_id (host s)) (hal_dev (hal_devs s i)) (regs s))"

lemma override_clock_frame:
  assumes "override_clock i t s = (b, s1)"
  shows "regs s1 = regs s" "host_id (host s1) = host_id (host s)" "bus_lock (host s1) = bus_lock (host s)"
    "device_set (host s1) = device_set (host s)" "frame_base s1 = frame_base s" "mem s1 = mem s" "bus_attr (host s1) = bus_attr (host s)"
    "cur_cs (host s1) = cur_cs (host s)" "\<And>k. hd_mode (hal_dev (hal_devs s1 k)) = hd_mode (hal_dev (hal_devs s k))"
    "\<And>k. hd_cs_pin_id (hal_dev (hal_devs s1 k)) = hd_cs_pin_id (hal_dev (hal_devs s k))"
    "\<And>k. k \<noteq> i \<Longrightarrow> hal_devs s1 k = hal_devs s k" "\<not> b \<Longrightarrow> s1 = s"
  using assms by (auto simp: override_clock_def set_host_def Let_def split: option.splits if_splits prod.splits)

lemma setup_device_frame:
  "regs (spi_setup_device i t s) Cmd_Reg = regs s Cmd_Reg" "host_id (host (spi_setup_device i t s)) = host_id (host s)"
  "last_dev (bus_lock (host (spi_setup_device i t s))) = Some i"
  "device_set (host (spi_setup_device i t s)) = device_set (host s)"
  "frame_base (spi_setup_device i t s) = frame_base s" "mem (spi_setup_device i t s) = mem s"
  "bus_attr (host (spi_setup_device i t s)) = bus_attr (host s)" "cur_cs (host (spi_setup_device i t s)) = cur_cs (host s)"
  "hd_mode (hal_dev (hal_devs (spi_setup_device i t s) k)) = hd_mode (hal_dev (hal_devs s k))"
  "hd_cs_pin_id (hal_dev (hal_devs (spi_setup_device i t s) k)) = hd_cs_pin_id (hal_dev (hal_devs s k))"
proof -
  obtain b s1 where o: "override_clock i t s = (b, s1)" by (cases "override_clock i t s")
  note f = override_clock_frame [OF o]
  have "spi_hal_setup_device h d hw Cmd_Reg = hw Cmd_Reg" for h d hw
    by (simp add: spi_hal_setup_device_def ll_defs select_cs_apply spi_ll_master_set_mode_def)
  then have c: "load_device i u hw Cmd_Reg = hw Cmd_Reg" for u :: "'a hal_machine_scheme" and hw
    by (simp add: load_device_def spi_ll_set_clk_source_def)
  show "regs (spi_setup_device i t s) Cmd_Reg = regs s Cmd_Reg" "host_id (host (spi_setup_device i t s)) = host_id (host s)"
    "last_dev (bus_lock (host (spi_setup_device i t s))) = Some i"
    "device_set (host (spi_setup_device i t s)) = device_set (host s)"
    "frame_base (spi_setup_device i t s) = frame_base s" "mem (spi_setup_device i t s) = mem s"
    "bus_attr (host (spi_setup_device i t s)) = bus_attr (host s)" "cur_cs (host (spi_setup_device i t s)) = cur_cs (host s)"
    "hd_mode (hal_dev (hal_devs (spi_setup_device i t s) k)) = hd_mode (hal_dev (hal_devs s k))"
    "hd_cs_pin_id (hal_dev (hal_devs (spi_setup_device i t s) k)) = hd_cs_pin_id (hal_dev (hal_devs s k))"
    using f c by (simp_all add: spi_setup_device_def o spi_bus_lock_touch_def Let_def set_host_def)
qed

lemma setup_device_current:
  assumes inv: "regs_current s" and i: "device_set (host s) i"
  shows "regs_current (spi_setup_device i t s)"
    and "dev_loaded (host_id (host s)) (hal_dev (hal_devs (spi_setup_device i t s) i)) (regs (spi_setup_device i t s))"
proof -
  let ?s' = "spi_setup_device i t s"
  obtain b s1 where o: "override_clock i t s = (b, s1)" by (cases "override_clock i t s")
  note f = override_clock_frame [OF o]
  have modes: "device_set (host s) k \<Longrightarrow> hd_mode (hal_dev (hal_devs s k)) \<in> {0..3}" for k
    using inv by (simp add: regs_current_def)
  show loaded: "dev_loaded (host_id (host s)) (hal_dev (hal_devs ?s' i)) (regs ?s')"
  proof (cases "last_dev (bus_lock (host s)) \<noteq> Some i \<or> b")
    case True
    let ?d = "hal_dev (hal_devs s1 i)" and ?hw = "spi_hal_setup_device (host_id (host s)) (hal_dev (hal_devs s1 i)) (regs s)"
    have m: "hd_mode ?d \<in> {0..3}" using f(9) modes [OF i] by simp
    have "hal_devs ?s' = hal_devs s1" "regs ?s' = spi_ll_set_clk_source (clock_source (hd_timing ?d)) ?hw"
      using True f by (auto simp: spi_setup_device_def o spi_bus_lock_touch_def Let_def load_device_def set_host_def)
    moreover have "dev_loaded (host_id (host s)) ?d (spi_ll_set_clk_source src ?hw)" for src
      by (rule dev_loaded_cong [OF m setup_device_loads [OF m]]) (simp_all add: spi_ll_set_clk_source_def)
    ultimately show ?thesis by simp
  next
    case False
    then have "s1 = s" "hal_devs ?s' = hal_devs s" "regs ?s' = regs s"
      using f by (simp_all add: spi_setup_device_def o spi_bus_lock_touch_def Let_def set_host_def)
    then show ?thesis using inv False by (simp add: regs_current_def)
  qed
  show "regs_current ?s'"
    unfolding regs_current_def
    using modes loaded i by (auto simp: setup_device_frame)
qed

section \<open>Starting a transaction\<close>

lemma setup_link_some:
  assumes "bits \<noteq> 0" "bits \<le> 0x40000"
  shows "\<exists>ds. spicommon_dma_desc_setup_link a (bytes_of_bits bits) is_rx = Some ds"
proof -
  have u: "uint bits \<le> 262144" using assms(2) by (simp add: word_le_def)
  moreover have n: "0 < uint bits" using assms(1) by (simp add: uint_0_iff order_less_le)
  ultimately have "sint bits = uint bits"
    by (simp add: sint_uint signed_take_bit_int_eq_self_iff)
  then have "bytes_of_bits bits \<noteq> 0"
    using n by (simp add: bytes_of_bits_def signed_divide_int_def)
  then show ?thesis
    by (subst spicommon_dma_desc_setup_link_def) (simp add: Let_def dma_chain.simps [of a "bytes_of_bits bits"])
qed

text \<open>What the preparation of the data changes.\<close>

lemma prepare_data_frame:
  assumes "s_spi_prepare_data d t c s = Inr s'"
  shows "same_setup (spi_hal_enable_data_line (mosi_line d c) (miso_line c) (regs s)) (regs s')" "host s' = host s" "hal_devs s' = hal_devs s"
proof -
  obtain s1 where s1: "s' = with_regs (spi_hal_enable_data_line (mosi_line d c) (miso_line c)) s1"
    and p: "(if dma_enabled (bus_attr (host s)) then s_spi_dma_prepare_data c s
        else Inr (with_regs (spi_hal_push_tx_buffer (frame_mem t s) c) s)) = Inr s1"
    using assms by (auto simp: s_spi_prepare_data_def bindr_def split: sum.splits)
  have rx: "same_setup (regs u) (regs v) \<and> host v = host u \<and> hal_devs v = hal_devs u"
    if "start_rx c u = Inr v \<or> start_tx c u = Inr v" for u v :: "'a hal_machine_scheme"
    using that by (auto simp: start_rx_def start_tx_def split: if_splits option.splits)
  have "same_setup (regs s) (regs s1) \<and> host s1 = host s \<and> hal_devs s1 = hal_devs s"
  proof (cases "dma_enabled (bus_attr (host s))")
    case True
    then obtain u where "start_rx c s = Inr u" "start_tx c u = Inr s1"
      using p by (auto simp: s_spi_dma_prepare_data_def bindr_def split: sum.splits)
    then show ?thesis using rx [of s u] rx [of u s1] by (auto intro: same_setup_trans)
  next
    case False
    then show ?thesis using p by auto
  qed
  then show "same_setup (spi_hal_enable_data_line (mosi_line d c) (miso_line c) (regs s)) (regs s')" "host s' = host s" "hal_devs s' = hal_devs s"
    by (simp_all add: s1 same_setup_data_line)
qed

lemma prepare_data_runs:
  assumes "hal_send_buffer c \<noteq> 0 \<longrightarrow> hal_tx_bitlen c \<noteq> 0" "hal_rcv_buffer c \<noteq> 0 \<longrightarrow> hal_rx_bitlen c \<noteq> 0"
    and "hal_tx_bitlen c \<le> 0x40000" "hal_rx_bitlen c \<le> 0x40000"
  shows "\<exists>s'. s_spi_prepare_data d t c s = Inr s'"
proof -
  have "\<exists>s'. start_rx c s = Inr s'"
    using assms(2,4) setup_link_some [of "hal_rx_bitlen c" "hal_rcv_buffer c" True] by (auto simp: start_rx_def)
  then obtain u where u: "start_rx c s = Inr u" by blast
  have "\<exists>s'. start_tx c u = Inr s'"
    using assms(1,3) setup_link_some [of "hal_tx_bitlen c" "hal_send_buffer c" False] by (auto simp: start_tx_def)
  then show ?thesis
    using u by (auto simp: s_spi_prepare_data_def s_spi_dma_prepare_data_def bindr_def)
qed

text \<open>The state after the device has been set up, and the transaction as the hardware layer sees it.\<close>

definition before_trans :: "nat \<Rightarrow> spi_trans_priv \<Rightarrow> 'a hal_machine_scheme \<Rightarrow> 'a hal_machine_scheme" where
  "before_trans i pr s = spi_setup_device i (Some (priv_trans pr)) (set_host (\<lambda>h. h\<lparr>cur_cs := dev_id (devices h i)\<rparr>) s)"

definition cur_dev :: "nat \<Rightarrow> spi_trans_priv \<Rightarrow> 'a hal_machine_scheme \<Rightarrow> spi_hal_dev_config" where
  "cur_dev i pr s = hal_dev (hal_devs (before_trans i pr s) i)"

definition cur_config :: "nat \<Rightarrow> spi_trans_priv \<Rightarrow> 'a hal_machine_scheme \<Rightarrow> spi_hal_trans_config" where
  "cur_config i pr s = spi_format_hal_trans_struct (devices (host (before_trans i pr s)) i) pr (frame_base s)"

lemma new_trans_unfold:
  "spi_new_trans_hw busy i pr s =
     bindr (spi_hal_setup_trans (cur_dev i pr s) (cur_config i pr s) (regs (before_trans i pr s))) (\<lambda>hw.
       bindr (s_spi_prepare_data (cur_dev i pr s) (priv_trans pr) (cur_config i pr s)
           ((with_regs (\<lambda>_. hw) (before_trans i pr s))\<lparr>trans_config := cur_config i pr s, hal_line_mode := hal_lines (cur_config i pr s)\<rparr>))
         (with_regs_opt (spi_hal_user_start busy)))"
  by (simp add: spi_new_trans_hw_def Let_def before_trans_def cur_dev_def cur_config_def setup_device_frame)

lemma new_trans_result:
  assumes st: "spi_hal_setup_trans (cur_dev i pr s) (cur_config i pr s) (regs (before_trans i pr s)) = Inr hw"
    and new: "spi_new_trans_hw busy i pr s = Inr s'"
  defines "hw2 \<equiv> spi_hal_enable_data_line (mosi_line (cur_dev i pr s) (cur_config i pr s)) (miso_line (cur_config i pr s)) hw"
  shows "same_setup (hw2(Cmd_Reg := regs s' Cmd_Reg)) (regs s')" "bit (regs s' Cmd_Reg) CMD_USR"
    "host s' = host (before_trans i pr s)" "hal_devs s' = hal_devs (before_trans i pr s)"
proof -
  let ?s1 = "before_trans i pr s" and ?d = "cur_dev i pr s" and ?c = "cur_config i pr s"
  let ?s2 = "(with_regs (\<lambda>_. hw) ?s1)\<lparr>trans_config := ?c, hal_line_mode := hal_lines ?c\<rparr>"
  obtain s3 where p: "s_spi_prepare_data ?d (priv_trans pr) ?c ?s2 = Inr s3" and w: "with_regs_opt (spi_hal_user_start busy) s3 = Inr s'"
    using new st by (auto simp: new_trans_unfold bindr_def split: sum.splits)
  obtain hw3 where a: "spi_ll_apply_config busy (regs s3) = Some hw3" and r: "regs s' = spi_ll_user_start hw3"
      "host s' = host s3" "hal_devs s' = hal_devs s3"
    using w by (auto simp: with_regs_opt_def spi_hal_user_start_def split: option.splits)
  have "hw3 = upd Cmd_Reg (put_bit False CMD_UPDATE) (regs s3)" by (rule apply_config_result [OF a])
  then have eq: "regs s' (Conf q) = regs s3 (Conf q)" "bit (regs s' Cmd_Reg) CMD_USR" for q
    by (simp_all add: r spi_ll_user_start_def CMD_USR_def)
  note f = prepare_data_frame [OF p]
  show "same_setup (hw2(Cmd_Reg := regs s' Cmd_Reg)) (regs s')"
    using f(1) eq(1) by (simp add: same_setup_def hw2_def)
  show "bit (regs s' Cmd_Reg) CMD_USR" by (rule eq(2))
  show "host s' = host ?s1" "hal_devs s' = hal_devs ?s1" using f(2,3) r by simp_all
qed

lemma before_trans_frame:
  "regs_current s \<Longrightarrow> device_set (host s) i \<Longrightarrow> regs_current (before_trans i pr s)"
  "regs_current s \<Longrightarrow> device_set (host s) i \<Longrightarrow> dev_loaded (host_id (host s)) (cur_dev i pr s) (regs (before_trans i pr s))"
  "regs (before_trans i pr s) Cmd_Reg = regs s Cmd_Reg" "frame_base (before_trans i pr s) = frame_base s"
  "host_id (host (before_trans i pr s)) = host_id (host s)" "last_dev (bus_lock (host (before_trans i pr s))) = Some i"
  "device_set (host (before_trans i pr s)) = device_set (host s)" "bus_attr (host (before_trans i pr s)) = bus_attr (host s)"
  "cur_cs (host (before_trans i pr s)) = dev_id (devices (host s) i)"
proof -
  let ?u = "set_host (\<lambda>h. h\<lparr>cur_cs := dev_id (devices h i)\<rparr>) s"
  have u: "regs_current s \<Longrightarrow> regs_current ?u" by (simp add: regs_current_def set_host_def)
  have h: "host_id (host ?u) = host_id (host s)" "device_set (host ?u) = device_set (host s)" "cur_cs (host ?u) = dev_id (devices (host s) i)"
      "bus_attr (host ?u) = bus_attr (host s)" "frame_base ?u = frame_base s"
    by (simp_all add: set_host_def)
  show "regs_current s \<Longrightarrow> device_set (host s) i \<Longrightarrow> regs_current (before_trans i pr s)"
    "regs_current s \<Longrightarrow> device_set (host s) i \<Longrightarrow> dev_loaded (host_id (host s)) (cur_dev i pr s) (regs (before_trans i pr s))"
    using setup_device_current [of ?u i] u h by (simp_all add: before_trans_def cur_dev_def)
qed (simp_all add: before_trans_def setup_device_frame)

lemma new_trans_runs:
  assumes "\<not> bit (regs s Cmd_Reg) CMD_USR" "\<not> busy n"
    and "hal_send_buffer (cur_config i pr s) \<noteq> 0 \<longrightarrow> hal_tx_bitlen (cur_config i pr s) \<noteq> 0"
      "hal_rcv_buffer (cur_config i pr s) \<noteq> 0 \<longrightarrow> hal_rx_bitlen (cur_config i pr s) \<noteq> 0"
      "hal_tx_bitlen (cur_config i pr s) \<le> 0x40000" "hal_rx_bitlen (cur_config i pr s) \<le> 0x40000"
  shows "\<exists>hw s'. spi_hal_setup_trans (cur_dev i pr s) (cur_config i pr s) (regs (before_trans i pr s)) = Inr hw \<and>
    spi_new_trans_hw busy i pr s = Inr s'"
proof -
  let ?s1 = "before_trans i pr s" and ?d = "cur_dev i pr s" and ?c = "cur_config i pr s"
  note f = before_trans_frame [where s = s and i = i and pr = pr]
  obtain hw where st: "spi_hal_setup_trans ?d ?c (regs ?s1) = Inr hw"
    using setup_trans_ok [of "regs ?s1" ?d ?c] assms(1) f(3) by auto
  let ?s2 = "(with_regs (\<lambda>_. hw) ?s1)\<lparr>trans_config := ?c, hal_line_mode := hal_lines ?c\<rparr>"
  obtain s3 where p: "s_spi_prepare_data ?d (priv_trans pr) ?c ?s2 = Inr s3"
    using prepare_data_runs [OF assms(3-6), of ?d "priv_trans pr" ?s2] by blast
  have "\<exists>s'. with_regs_opt (spi_hal_user_start busy) s3 = Inr s'"
    using apply_config_ends [of busy n] assms(2) by (simp add: with_regs_opt_def spi_hal_user_start_def)
  then show ?thesis
    using st p by (simp add: new_trans_unfold bindr_def)
qed


text \<open>Two devices in half duplex on the second host, of which the second used the bus last, and a read of 512 bytes.\<close>

definition demo_regs :: spi_regs where
  "demo_regs = spi_hal_setup_device 1 flash_dev (\<lambda>_. 0)"

definition demo_machine :: hal_machine where
  "demo_machine = \<lparr>environ = environ roomy_machine, log = [], mem = (\<lambda>a. ucast a), frame_base = 0x3FC90000, heap_live = [],
     host = seg_host\<lparr>device_set := (\<lambda>i. i < 2), bus_lock := (bus_lock seg_host)\<lparr>last_dev := Some 1\<rparr>\<rparr>,
     periph_claimed = True, bus_ctx_set = True, bus_driver_ctx_set = True,
     tx_ring = blank_ring 4, rx_ring = blank_ring 2, sct_mode_enabled = False,
     cur_sct_trans = sct_item None None [] 0 0 0, sct_queue = (\<lambda>_. []), sct_ret_queue = (\<lambda>_. []), sct_queue_size = (\<lambda>_. 4),
     cfg_cs_ena_pretrans = (\<lambda>_. 0), cfg_cs_ena_posttrans = (\<lambda>_. 0),
     hal_line_mode = \<lparr>cmd_lines = 1, addr_lines = 1, data_lines = 1\<rparr>, hw_regs = (\<lambda>r. demo_regs (Conf r)), dma_cmds = [],
     regs = demo_regs, hal_devs = (\<lambda>i. \<lparr>hal_dev = flash_dev\<lparr>hd_cs_pin_id := i\<rparr>, cfg_duty_cycle_pos = 128, cfg_input_delay_ns = 0\<rparr>),
     trans_config = flash_read, rx_link = [], tx_link = []\<rparr>"

definition demo_trans :: spi_trans_priv where
  "demo_trans = \<lparr>priv_trans = trans0\<lparr>tr_cmd := 0x6B, tr_rxlength := 4096, tr_rx := Buffer (Addr 0x3FC91000)\<rparr>,
     buffer_to_send = Null_ptr, buffer_to_rcv = Addr 0x3FC91000\<rparr>"

lemma demo_current: "regs_current demo_machine"
proof -
  have "flash_dev\<lparr>hd_cs_pin_id := 1\<rparr> = flash_dev" by (simp add: flash_dev_def)
  moreover have "dev_loaded 1 flash_dev demo_regs"
    unfolding demo_regs_def by (rule setup_device_loads) (simp add: flash_dev_def)
  ultimately show ?thesis
    by (simp add: regs_current_def demo_machine_def seg_host_def) (simp add: flash_dev_def)
qed

lemma demo_cmd: "regs demo_machine Cmd_Reg = 0"
  by (simp add: demo_machine_def demo_regs_def setup_device_regs(6) flash_dev_def image_iff)

lemma demo_config:
  assumes "i < 2" "hal_devs s = hal_devs demo_machine" "devices (host s) = devices (host demo_machine)" "frame_base s = frame_base demo_machine"
  shows "cur_dev i demo_trans s = flash_dev\<lparr>hd_cs_pin_id := i\<rparr>"
    and "cur_config i demo_trans s = \<lparr>hal_cmd = 0x6B, hal_cmd_bits = 8, hal_addr_bits = 0, hal_addr = 0, hal_dummy_bits = 0,
       hal_tx_bitlen = 0, hal_rx_bitlen = 4096, hal_send_buffer = 0, hal_rcv_buffer = 0x3FC91000, hal_cs_keep_active = False,
       hal_data_lines = 1, hal_addr_lines = 1, hal_cmd_lines = 1\<rparr>"
proof -
  have "hal_devs (before_trans i demo_trans s) = hal_devs s" "devices (host (before_trans i demo_trans s)) = devices (host s)"
    by (simp_all add: before_trans_def spi_setup_device_def override_clock_def demo_trans_def trans0_def spi_bus_lock_touch_def
        set_host_def Let_def)
  then show "cur_dev i demo_trans s = flash_dev\<lparr>hd_cs_pin_id := i\<rparr>"
    and "cur_config i demo_trans s = \<lparr>hal_cmd = 0x6B, hal_cmd_bits = 8, hal_addr_bits = 0, hal_addr = 0, hal_dummy_bits = 0,
       hal_tx_bitlen = 0, hal_rx_bitlen = 4096, hal_send_buffer = 0, hal_rcv_buffer = 0x3FC91000, hal_cs_keep_active = False,
       hal_data_lines = 1, hal_addr_lines = 1, hal_cmd_lines = 1\<rparr>"
    using assms by (simp_all add: cur_dev_def cur_config_def demo_machine_def seg_host_def spi_format_hal_trans_struct_def demo_trans_def
        trans0_def flag_def spi_flag_defs ptr_addr_def Let_def)
qed

lemma demo_ok: "trans_ok (cur_dev 0 demo_trans demo_machine) (cur_config 0 demo_trans demo_machine)"
  unfolding demo_config [OF _ refl refl refl, of 0, simplified]
  by (simp add: trans_ok_def flash_dev_def flash_timing_def mosi_line_def miso_line_def extra_dummy_def take_bit_eq_mask
      mask_eq_exp_minus_1)


section \<open>Devices come and go\<close>

text \<open>
  The calls that share the registers, with ordinary transactions: one is started; the peripheral works, which changes its status, its
  command register and the data buffer; a device is added in a free slot or removed.
\<close>

inductive hal_step :: "'a hal_machine_scheme \<Rightarrow> 'a hal_machine_scheme \<Rightarrow> bool" where
  Start: "device_set (host s) i \<Longrightarrow> spi_new_trans_hw busy i pr s = Inr s' \<Longrightarrow> hal_step s s'"
| Work: "(\<And>r. hw (Conf r) = regs s (Conf r)) \<Longrightarrow> hal_step s (with_regs (\<lambda>_. hw) s)"
| Add: "\<not> device_set (host s) i \<Longrightarrow> hal_dev v = new_hal_dev i c tc \<Longrightarrow> dcfg_mode c \<le> 3 \<Longrightarrow>
    hal_step s (set_host (\<lambda>h. h\<lparr>device_set := (device_set h)(i := True)\<rparr>) (s\<lparr>hal_devs := (hal_devs s)(i := v)\<rparr>))"
| Remove: "spi_bus_remove_device True (Some i) s = Inr (ESP_OK, s') \<Longrightarrow> hal_step s s'"

lemma new_trans_current:
  assumes inv: "regs_current s" and i: "device_set (host s) i" and new: "spi_new_trans_hw busy i pr s = Inr s'"
  shows "regs_current s'"
proof -
  let ?s1 = "before_trans i pr s" and ?d = "cur_dev i pr s" and ?c = "cur_config i pr s"
  note f = before_trans_frame [where s = s and i = i and pr = pr]
  have inv1: "regs_current ?s1" using f(1) inv i by blast
  obtain hw where st: "spi_hal_setup_trans ?d ?c (regs ?s1) = Inr hw"
    using new by (auto simp: new_trans_unfold bindr_def split: sum.splits)
  note r = new_trans_result [OF st new]
  have m: "hd_mode ?d \<in> {0..3}" using inv1 i f(7) by (simp add: regs_current_def cur_dev_def)
  let ?hw2 = "spi_hal_enable_data_line (mosi_line ?d ?c) (miso_line ?c) hw"
  have "dev_loaded (host_id (host s)) ?d (?hw2(Cmd_Reg := w))" for w
    by (rule dev_loaded_cong [OF m setup_trans_keeps_device [OF m f(2) [OF inv i] st]]) simp_all
  then have "dev_loaded (host_id (host s)) ?d (regs s')" by (rule same_setup_loaded [OF m r(1)])
  then show ?thesis
    using inv1 i f(5-7) by (auto simp: regs_current_def r(3,4) cur_dev_def)
qed

lemma hal_step_current: "hal_step s s' \<Longrightarrow> regs_current s \<Longrightarrow> regs_current s'"
proof (induction rule: hal_step.induct)
  case (Start s i busy pr s')
  then show ?case by (blast intro: new_trans_current)
next
  case (Work hw s)
  have "dev_loaded h d (regs s) \<Longrightarrow> hd_mode d \<in> {0..3} \<Longrightarrow> dev_loaded h d hw" for h d
    by (rule dev_loaded_cong) (use Work(1) in simp_all)
  then show ?case using Work(2) by (auto simp: regs_current_def)
next
  case (Add s i v c tc)
  have "hd_mode (hal_dev v) \<in> {0..3}"
    using Add(2,3) by (simp add: new_hal_dev_def Let_def word_le_def)
  then show ?case using Add(1,4) by (auto simp: regs_current_def set_host_def)
next
  case (Remove i s s')
  then show ?case
    by (auto simp: regs_current_def spi_bus_remove_device_def unregister_lock_def spi_bus_lock_unregister_dev_def set_host_def Let_def
        split: if_splits)
qed

text \<open>
  C19: In every state that starts with no device on the bus, and in which devices are added, used
  for transactions in any order and removed, the registers are those of the device that used the
  bus last. This is what \<open>spi_setup_device\<close> relies on when it skips the set-up for
  that device: a device that has changed its frequency, or a new one in the slot of a removed one,
  is set up again.
\<close>

theorem registers_of_last_device:
  assumes "\<And>i. \<not> device_set (host s) i" "last_dev (bus_lock (host s)) = None" "rtranclp hal_step s s'"
    and "last_dev (bus_lock (host s')) = Some i"
  shows "device_set (host s') i \<and>
    spi_hal_setup_device (host_id (host s')) (hal_dev (hal_devs s' i)) (regs s') = regs s'"
proof -
  have "regs_current s" using assms(1,2) by (simp add: regs_current_def)
  with assms(3) have "regs_current s'" by (induction rule: rtranclp_induct) (blast intro: hal_step_current)+
  then show ?thesis using assms(4) by (simp add: regs_current_def dev_loaded_def)
qed

definition empty_machine :: hal_machine where
  "empty_machine = demo_machine\<lparr>host := (host demo_machine)\<lparr>device_set := (\<lambda>i. False), bus_lock := bus_lock seg_host\<rparr>\<rparr>"

definition demo_interface :: spi_device_interface_config where
  "demo_interface = \<lparr>dcfg_command_bits = 8, dcfg_address_bits = 0, dcfg_dummy_bits = 0, dcfg_clock_speed_hz = 40000000,
     dcfg_duty_cycle_pos = 128, dcfg_input_delay_ns = 0, dcfg_spics_io_num = 6, dcfg_flags = SPI_DEVICE_HALFDUPLEX,
     dcfg_post_cb = False, dcfg_mode = 0, dcfg_clock_source = SPI_CLK_SRC_APB, dcfg_cs_ena_pretrans = 0, dcfg_cs_ena_posttrans = 0\<rparr>"

definition demo_hal_device :: hal_device where
  "demo_hal_device = \<lparr>hal_dev = new_hal_dev 0 demo_interface flash_timing, cfg_duty_cycle_pos = 128, cfg_input_delay_ns = 0\<rparr>"

definition added_machine :: hal_machine where
  "added_machine = set_host (\<lambda>h. h\<lparr>device_set := (device_set h)(0 := True)\<rparr>)
     (empty_machine\<lparr>hal_devs := (hal_devs empty_machine)(0 := demo_hal_device)\<rparr>)"

lemma added_config:
  "cur_config 0 demo_trans added_machine = \<lparr>hal_cmd = 0x6B, hal_cmd_bits = 8, hal_addr_bits = 0, hal_addr = 0, hal_dummy_bits = 0,
     hal_tx_bitlen = 0, hal_rx_bitlen = 4096, hal_send_buffer = 0, hal_rcv_buffer = 0x3FC91000, hal_cs_keep_active = False,
     hal_data_lines = 1, hal_addr_lines = 1, hal_cmd_lines = 1\<rparr>"
proof -
  have "devices (host (before_trans 0 demo_trans added_machine)) = devices seg_host"
    by (simp add: before_trans_def spi_setup_device_def override_clock_def demo_trans_def trans0_def spi_bus_lock_touch_def
        set_host_def added_machine_def empty_machine_def demo_machine_def seg_host_def dma_host_def spi_bus_init_lock_def Let_def)
  then show ?thesis
    by (simp add: cur_config_def added_machine_def empty_machine_def demo_machine_def set_host_def seg_host_def
        spi_format_hal_trans_struct_def demo_trans_def trans0_def flag_def spi_flag_defs ptr_addr_def Let_def)
qed

lemma registers_of_last_device_witness:
  "\<exists>s' :: hal_machine. spi_new_trans_hw (\<lambda>k. False) 0 demo_trans added_machine = Inr s' \<and>
     spi_hal_setup_device (host_id (host s')) (hal_dev (hal_devs s' 0)) (regs s') = regs s'"
proof -
  have cmd: "regs added_machine Cmd_Reg = 0"
    using demo_cmd by (simp add: added_machine_def empty_machine_def)
  obtain hw s' where st: "spi_hal_setup_trans (cur_dev 0 demo_trans added_machine) (cur_config 0 demo_trans added_machine)
      (regs (before_trans 0 demo_trans added_machine)) = Inr hw"
    and new: "spi_new_trans_hw (\<lambda>k. False) 0 demo_trans added_machine = Inr s'"
    using new_trans_runs [of added_machine "\<lambda>k. False" 0 0 demo_trans] by (auto simp: cmd added_config)
  have "hal_step empty_machine added_machine"
    unfolding added_machine_def
    by (rule hal_step.Add [of _ _ _ demo_interface flash_timing])
      (simp_all add: empty_machine_def demo_hal_device_def demo_interface_def)
  moreover have "hal_step added_machine s'"
    by (rule hal_step.Start [OF _ new]) (simp add: added_machine_def set_host_def)
  ultimately have steps: "rtranclp hal_step empty_machine s'" by simp
  have "last_dev (bus_lock (host s')) = Some 0"
    by (simp add: new_trans_result(3) [OF st new] before_trans_frame)
  then show ?thesis
    using registers_of_last_device [of empty_machine s' 0] steps new
    by (auto simp: empty_machine_def seg_host_def dma_host_def spi_bus_init_lock_def)
qed

section \<open>The switch to segmented transfers\<close>

text \<open>The select lines: setting up a transaction or switching the mode does not change them.\<close>

lemma for_each_intr_other: "r' \<noteq> r \<Longrightarrow> for_each_intr msk r v hw r' = hw r'"
proof -
  assume r: "r' \<noteq> r"
  have "in_order (map (\<lambda>(m, b). only_if (bit msk m) (upd r (put_bit v b))) xs) h r' = h r'" for xs h
    by (induction xs arbitrary: h) (use r in \<open>auto simp: only_if_def\<close>)
  then show ?thesis by (simp add: for_each_intr_def)
qed

lemma misc_of_sct_mode:
  "spi_hal_sct_init hw (Conf Misc_Reg) = hw (Conf Misc_Reg)" "spi_hal_sct_deinit hw (Conf Misc_Reg) = hw (Conf Misc_Reg)"
  by (simp_all add: spi_hal_sct_init_def spi_hal_sct_deinit_def spi_ll_conf_state_enable_def spi_ll_set_magic_number_def
      spi_ll_disable_int_def spi_ll_enable_int_def spi_ll_clear_int_stat_def spi_ll_enable_intr_def spi_ll_set_intr_def
      spi_ll_disable_intr_def spi_ll_clear_intr_def for_each_intr_other)

lemma cmd_of_sct_mode:
  "spi_hal_sct_init hw Cmd_Reg = hw Cmd_Reg" "spi_hal_sct_deinit hw Cmd_Reg = hw Cmd_Reg"
  by (simp_all add: spi_hal_sct_init_def spi_hal_sct_deinit_def spi_ll_conf_state_enable_def spi_ll_set_magic_number_def
      spi_ll_disable_int_def spi_ll_enable_int_def spi_ll_clear_int_stat_def spi_ll_enable_intr_def spi_ll_set_intr_def
      spi_ll_disable_intr_def spi_ll_clear_intr_def for_each_intr_other)

lemma misc_of_enable:
  assumes "hd_mode d \<in> {0..3}" "enable_regs hostid d c hw = Inr hw'" "k < lines_of_host hostid"
  shows "bit (hw' (Conf Misc_Reg)) k \<longleftrightarrow> k \<noteq> hd_cs_pin_id d"
proof -
  obtain hw1 where st: "spi_hal_setup_trans d c (spi_hal_setup_device hostid d hw) = Inr hw1" and hw': "hw' = spi_hal_sct_init hw1"
    using assms(2) by (auto simp: enable_regs_def bindr_def split: sum.splits)
  have "k < 6" using assms(3) by (auto simp: lines_of_host_def split: if_splits)
  moreover have "hw' (Conf Misc_Reg) = spi_hal_enable_data_line False False hw1 (Conf Misc_Reg)"
    by (simp add: hw' misc_of_sct_mode spi_hal_enable_data_line_def spi_ll_enable_mosi_def spi_ll_enable_miso_def)
  ultimately show ?thesis
    using assms(3) by (simp add: setup_trans_regs(7) [OF st] setup_device_regs(1) [OF assms(1)] MISC_CS_KEEP_ACTIVE_def)
qed

lemma misc_of_skipped:
  assumes last: "last_dev (bus_lock (host s)) = Some j" and freq: "tr_override_freq_hz (priv_trans pr) = 0"
    and new: "spi_new_trans_hw busy j pr s = Inr s'" and k: "k < 6"
  shows "bit (regs s' (Conf Misc_Reg)) k = bit (regs s (Conf Misc_Reg)) k"
proof -
  have same: "regs (before_trans j pr s) = regs s" "frame_base (before_trans j pr s) = frame_base s"
    using last freq by (simp_all add: before_trans_def spi_setup_device_def override_clock_def spi_bus_lock_touch_def set_host_def)
  obtain hw where st: "spi_hal_setup_trans (cur_dev j pr s) (cur_config j pr s) (regs s) = Inr hw"
    using new same(1) by (auto simp: new_trans_unfold bindr_def split: sum.splits)
  note r = new_trans_result [OF st [folded same(1)] new]
  show ?thesis
    using r(1) k by (simp add: same_setup_def setup_trans_regs(7) [OF st] MISC_CS_KEEP_ACTIVE_def)
qed

text \<open>
  C32: The switch to segmented transfers leaves the registers of the device it was called for
  behind, and the bus lock does not hear of it. When another device used the bus last, and the
  mode is switched on and off again, a transaction of that other device is sent with the select
  line of the first one: its own is off.
\<close>

theorem sct_mode_selects_wrong_device:
  fixes s :: "'a hal_machine_scheme"
  assumes "last_dev (bus_lock (host s)) = Some j" "hd_mode (hal_dev (hal_devs s i)) \<in> {0..3}"
    and "hd_cs_pin_id (hal_dev (hal_devs s i)) = i" "i < lines_of_host (host_id (host s))" "j < lines_of_host (host_id (host s))" "i \<noteq> j"
    and "spi_bus_multi_trans_mode_enable_hw (Some i) True s = Inr (ESP_OK, s1)"
      "spi_bus_multi_trans_mode_enable_hw (Some i) False s1 = Inr (ESP_OK, s2)"
    and "tr_override_freq_hz (priv_trans pr) = 0" "spi_new_trans_hw busy j pr s2 = Inr s3"
  shows "\<not> bit (regs s3 (Conf Misc_Reg)) i \<and> bit (regs s3 (Conf Misc_Reg)) j"
proof -
  obtain hw u where en: "enable_regs (host_id (host s)) (hal_dev (hal_devs s i)) (fake_config i s) (regs s) = Inr hw"
    and s1: "s1 = (with_regs (\<lambda>_. hw) u)\<lparr>trans_config := fake_config i s\<rparr>" and u: "spi_bus_multi_trans_mode_enable (Some i) True s = (ESP_OK, u)"
    using assms(7) by (auto simp: spi_bus_multi_trans_mode_enable_hw_def bindr_def split: prod.splits sum.splits if_splits)
  obtain v where v: "spi_bus_multi_trans_mode_enable (Some i) False s1 = (ESP_OK, v)" and s2: "s2 = with_regs spi_hal_sct_deinit v"
    using assms(8) by (auto simp: spi_bus_multi_trans_mode_enable_hw_def split: prod.splits if_splits)
  have "host v = host s1" "regs v = regs s1"
    using v by (auto simp: spi_bus_multi_trans_mode_enable_def split: if_splits)
  moreover have "host u = host s"
    using u by (auto simp: spi_bus_multi_trans_mode_enable_def same_rest_def Let_def dest!: setup_priv_frame split: if_splits prod.splits)
  ultimately have s2': "last_dev (bus_lock (host s2)) = Some j" "regs s2 (Conf Misc_Reg) = hw (Conf Misc_Reg)"
    using assms(1) by (simp_all add: s2 s1 misc_of_sct_mode)
  have "lines_of_host (host_id (host s)) \<le> 6" by (simp add: lines_of_host_def)
  then have "bit (regs s3 (Conf Misc_Reg)) k = (k \<noteq> i)" if "k \<in> {i, j}" for k
    using misc_of_skipped [OF s2'(1) assms(9,10), of k] misc_of_enable [OF assms(2) en, of k] that assms(3-5) s2'(2) by auto
  then show ?thesis using assms(6) by simp
qed

lemma sct_mode_selects_wrong_device_witness:
  "\<exists>(s1 :: hal_machine) s2 s3. spi_bus_multi_trans_mode_enable_hw (Some 0) True demo_machine = Inr (ESP_OK, s1) \<and>
     spi_bus_multi_trans_mode_enable_hw (Some 0) False s1 = Inr (ESP_OK, s2) \<and>
     spi_new_trans_hw (\<lambda>k. False) 1 demo_trans s2 = Inr s3 \<and>
     \<not> bit (regs s3 (Conf Misc_Reg)) 0 \<and> bit (regs s3 (Conf Misc_Reg)) 1"
proof -
  note enable_simps = spi_bus_multi_trans_mode_enable_def demo_machine_def seg_host_def dma_host_def roomy_machine_def
      SOC_SPI_SCT_SUPPORTED_PERIPH_def setup_priv_desc_def fake_trans_def trans0_def spi_format_hal_trans_struct_def flag_def
      spi_bus_device_is_polling_def spi_bus_init_lock_def spi_flag_defs ptr_addr_def esp_ptr_dma_capable_def Let_def
  have "\<exists>u. spi_bus_multi_trans_mode_enable (Some 0) True demo_machine = (ESP_OK, u) \<and> host u = host demo_machine \<and>
      hal_devs u = hal_devs demo_machine \<and> frame_base u = frame_base demo_machine \<and> sct_queue u = sct_queue demo_machine"
    by (simp add: enable_simps)
  then obtain u where u: "spi_bus_multi_trans_mode_enable (Some 0) True demo_machine = (ESP_OK, u)" "host u = host demo_machine"
      "hal_devs u = hal_devs demo_machine" "frame_base u = frame_base demo_machine" "sct_queue u = sct_queue demo_machine" by blast
  let ?d = "hal_dev (hal_devs demo_machine 0)" and ?c = "fake_config 0 demo_machine"
  have m: "hd_mode ?d \<in> {0..3}" by (simp add: demo_machine_def flash_dev_def)
  obtain hw where st: "spi_hal_setup_trans ?d ?c (spi_hal_setup_device 1 ?d (regs demo_machine)) = Inr hw"
    using setup_trans_ok [of "spi_hal_setup_device 1 ?d (regs demo_machine)" ?d ?c] demo_cmd
    by (auto simp: setup_device_regs(6) [OF m] image_iff)
  define s1 where "s1 = (with_regs (\<lambda>_. spi_hal_sct_init hw) u)\<lparr>trans_config := ?c\<rparr>"
  have one: "spi_bus_multi_trans_mode_enable_hw (Some 0) True demo_machine = Inr (ESP_OK, s1)"
    using u(1) st by (simp add: spi_bus_multi_trans_mode_enable_hw_def enable_regs_def bindr_def s1_def)
      (simp add: demo_machine_def seg_host_def)
  define s2 where "s2 = with_regs spi_hal_sct_deinit (s1\<lparr>sct_mode_enabled := False\<rparr>)"
  have "spi_bus_multi_trans_mode_enable (Some 0) False s1 = (ESP_OK, s1\<lparr>sct_mode_enabled := False\<rparr>)"
    using u by (simp add: s1_def with_regs_def) (simp add: enable_simps)
  then have two: "spi_bus_multi_trans_mode_enable_hw (Some 0) False s1 = Inr (ESP_OK, s2)"
    by (simp add: spi_bus_multi_trans_mode_enable_hw_def s2_def)
  have c: "cur_config 1 demo_trans s2 = \<lparr>hal_cmd = 0x6B, hal_cmd_bits = 8, hal_addr_bits = 0, hal_addr = 0, hal_dummy_bits = 0,
       hal_tx_bitlen = 0, hal_rx_bitlen = 4096, hal_send_buffer = 0, hal_rcv_buffer = 0x3FC91000, hal_cs_keep_active = False,
       hal_data_lines = 1, hal_addr_lines = 1, hal_cmd_lines = 1\<rparr>"
    using u by (intro demo_config(2)) (simp_all add: s2_def s1_def)
  have "regs s2 Cmd_Reg = 0"
    using setup_trans_regs(11) [OF st] demo_cmd
    by (simp add: s2_def s1_def setup_device_regs(6) [OF m] image_iff cmd_of_sct_mode spi_hal_enable_data_line_def
        spi_ll_enable_mosi_def spi_ll_enable_miso_def)
  then obtain s3 where three: "spi_new_trans_hw (\<lambda>k. False) 1 demo_trans s2 = Inr s3"
    using new_trans_runs [of s2 "\<lambda>k. False" 0 1 demo_trans] by (auto simp: c simp del: One_nat_def)
  show ?thesis
    using sct_mode_selects_wrong_device [OF _ m _ _ _ _ one two _ three] one two three
    by (auto simp: demo_machine_def seg_host_def lines_of_host_def demo_trans_def trans0_def)
qed

section \<open>A receive buffer without a length\<close>

text \<open>
  In full duplex a transaction with a receive buffer and no length passes every check, but it
  is not a transaction of no data: with DMA the chain for the receive buffer is empty, and the
  driver then marks the descriptor before the first as the last one, outside its array.
\<close>

lemma rx_without_length_overruns:
  fixes s :: "'a hal_machine_scheme"
  assumes "\<not> flag (cfg_flags (devices (host s) i)) SPI_DEVICE_HALFDUPLEX" "dma_enabled (bus_attr (host s))"
    and t: "t = trans0\<lparr>tr_rx := Buffer (Addr a)\<rparr>" "a \<noteq> 0" and idle: "\<not> bit (regs s Cmd_Reg) CMD_USR"
  shows "check_trans_valid (host s) (Some i) t = (ESP_OK, t) \<and>
    spi_new_trans_hw busy i \<lparr>priv_trans = t, buffer_to_send = Null_ptr, buffer_to_rcv = Addr a\<rparr> s = Inl Out_Of_Bounds"
proof
  let ?pr = "\<lparr>priv_trans = t, buffer_to_send = Null_ptr, buffer_to_rcv = Addr a\<rparr>"
  show "check_trans_valid (host s) (Some i) t = (ESP_OK, t)"
    using assms(1) t by (simp add: check_trans_valid_def trans0_def flag_def union_ptr_def bytes_as_ptr_def Let_def)
  note f = before_trans_frame [where s = s and i = i and pr = ?pr]
  obtain hw where st: "spi_hal_setup_trans (cur_dev i ?pr s) (cur_config i ?pr s) (regs (before_trans i ?pr s)) = Inr hw"
    using setup_trans_ok [of "regs (before_trans i ?pr s)"] idle f(3) by auto
  have c: "hal_rcv_buffer (cur_config i ?pr s) \<noteq> 0" "hal_rx_bitlen (cur_config i ?pr s) = 0"
    using t by (simp_all add: cur_config_def spi_format_hal_trans_struct_def trans0_def ptr_addr_def Let_def)
  have "spicommon_dma_desc_setup_link x (bytes_of_bits 0) True = None" for x
    by (subst spicommon_dma_desc_setup_link_def) (simp add: bytes_of_bits_def signed_divide_int_def dma_chain.simps)
  then have "s_spi_prepare_data d t' (cur_config i ?pr s) u = Inl Out_Of_Bounds" if "dma_enabled (bus_attr (host u))"
    for d t' and u :: "'a hal_machine_scheme"
    using c that by (simp add: s_spi_prepare_data_def s_spi_dma_prepare_data_def start_rx_def bindr_def)
  then show "spi_new_trans_hw busy i ?pr s = Inl Out_Of_Bounds"
    using st assms(2) f(8) by (simp add: new_trans_unfold bindr_def)
qed

lemma rx_without_length_overruns_witness:
  "spi_new_trans_hw (\<lambda>k. False) 0 \<lparr>priv_trans = trans0\<lparr>tr_rx := Buffer (Addr 0x3FC91000)\<rparr>, buffer_to_send = Null_ptr,
      buffer_to_rcv = Addr 0x3FC91000\<rparr> (demo_machine\<lparr>host := dma_host\<rparr>) = Inl Out_Of_Bounds"
  using rx_without_length_overruns [where s = "demo_machine\<lparr>host := dma_host\<rparr>" and a = "0x3FC91000" and i = 0 and busy = "\<lambda>k. False", OF _ _ refl] demo_cmd
  by (simp add: dma_host_def flag_def)

end
