(* ===== verification/Gpio_Sleep.thy ===== *)
theory Gpio_Sleep
  imports Gpio
begin

text \<open>
  The rest of the GPIO driver (\<open>gpio.c\<close>, \<open>rtc_io.c\<close>): drive strength, hold, wake-up, what a pad does in sleep, the
  functions of the IO MUX and the report of a pad's configuration. The pads and the driver context are those of \<open>Gpio\<close>.
  Built with \<open>CONFIG_ESP_SLEEP_GPIO_RESET_WORKAROUND\<close>, as is the default for this chip.
\<close>

section \<open>Drive strength\<close>

definition GPIO_DRIVE_CAP_MAX :: u32 where "GPIO_DRIVE_CAP_MAX = 4"

text \<open>Pins 17 and 18 have the two bits of the field the other way round, in both sets of registers.\<close>

definition flip_drive :: "int \<Rightarrow> u32 \<Rightarrow> u32" where
  "flip_drive n d =
     (if n = 17 \<or> n = 18 then push_bit 1 (d AND 1) OR drop_bit 1 (d AND 2) else d)"

definition gpio_ll_set_drive_capability :: "int \<Rightarrow> u32 \<Rightarrow> pad \<Rightarrow> pad" where
  "gpio_ll_set_drive_capability n strength p = p\<lparr>fun_drv := flip_drive n strength AND 3\<rparr>"

definition gpio_ll_get_drive_capability :: "int \<Rightarrow> pad \<Rightarrow> u32" where
  "gpio_ll_get_drive_capability n p = flip_drive n (fun_drv p)"

definition rtc_gpio_set_drive_capability :: "int \<Rightarrow> u32 \<Rightarrow> 'h gpio_context \<Rightarrow> esp_err_t \<times> 'h gpio_context" where
  "rtc_gpio_set_drive_capability n strength g =
     (if \<not> rtc_gpio_is_valid_gpio n then (ESP_ERR_INVALID_ARG, g)
      else if \<not> GPIO_IS_VALID_OUTPUT_GPIO n then (ESP_ERR_INVALID_ARG, g)
      else if \<not> strength < GPIO_DRIVE_CAP_MAX then (ESP_ERR_INVALID_ARG, g)
      else (ESP_OK, upd_rtc n (\<lambda>r. r\<lparr>rtc_drv := flip_drive n strength AND 3\<rparr>) g))"

definition rtc_gpio_get_drive_capability :: "int \<Rightarrow> 'h gpio_context \<Rightarrow> esp_err_t \<times> u32 option" where
  "rtc_gpio_get_drive_capability n g =
     (if \<not> rtc_gpio_is_valid_gpio n then (ESP_ERR_INVALID_ARG, None)
      else if \<not> GPIO_IS_VALID_OUTPUT_GPIO n then (ESP_ERR_INVALID_ARG, None)
      else (ESP_OK, Some (flip_drive n (rtc_drv (rtc (pads g (nat n)))))))"

definition gpio_set_drive_capability :: "int \<Rightarrow> u32 \<Rightarrow> 'h gpio_context \<Rightarrow> esp_err_t \<times> 'h gpio_context" where
  "gpio_set_drive_capability n strength g =
     (if \<not> GPIO_IS_VALID_OUTPUT_GPIO n then (ESP_ERR_INVALID_ARG, g)
      else if \<not> strength < GPIO_DRIVE_CAP_MAX then (ESP_ERR_INVALID_ARG, g)
      else if \<not> rtc_gpio_is_valid_gpio n \<or> SOC_GPIO_SUPPORT_RTC_INDEPENDENT
      then (ESP_OK, upd_pad n (gpio_ll_set_drive_capability n strength) g)
      else rtc_gpio_set_drive_capability n strength g)"

text \<open>The result is \<open>None\<close> when the function returns before it writes \<open>*strength\<close>.\<close>

definition gpio_get_drive_capability :: "int \<Rightarrow> 'h gpio_context \<Rightarrow> esp_err_t \<times> u32 option" where
  "gpio_get_drive_capability n g =
     (if \<not> GPIO_IS_VALID_OUTPUT_GPIO n then (ESP_ERR_INVALID_ARG, None)
      else if \<not> rtc_gpio_is_valid_gpio n \<or> SOC_GPIO_SUPPORT_RTC_INDEPENDENT
      then (ESP_OK, Some (gpio_ll_get_drive_capability n (pads g (nat n))))
      else rtc_gpio_get_drive_capability n g)"

section \<open>RTC pads\<close>

definition rtc_gpio_init :: "int \<Rightarrow> 'h gpio_context \<Rightarrow> esp_err_t \<times> 'h gpio_context" where
  "rtc_gpio_init n g =
     (if \<not> rtc_gpio_is_valid_gpio n then (ESP_ERR_INVALID_ARG, g)
      else (ESP_OK, upd_rtc n (\<lambda>r. r\<lparr>rtc_mux := True, rtc_fun_sel := 0\<rparr>)
        (if n = USB_INT_PHY0_DM_GPIO_NUM \<or> n = USB_INT_PHY0_DP_GPIO_NUM then upd_ctl (\<lambda>c. c\<lparr>usb_pad_enable := False\<rparr>) g else g)))"

definition rtc_gpio_set_level :: "int \<Rightarrow> u32 \<Rightarrow> 'h gpio_context \<Rightarrow> esp_err_t \<times> 'h gpio_context" where
  "rtc_gpio_set_level n level g =
     (if \<not> rtc_gpio_is_valid_gpio n then (ESP_ERR_INVALID_ARG, g)
      else (ESP_OK, upd_rtc n (\<lambda>r. r\<lparr>rtc_out := (level \<noteq> 0)\<rparr>) g))"

text \<open>\<open>rtcio_hal_set_direction_in_sleep\<close> has no case for open drain.\<close>

definition rtcio_hal_set_direction_in_sleep :: "rtc_gpio_mode_t \<Rightarrow> rtc_pad \<Rightarrow> rtc_pad" where
  "rtcio_hal_set_direction_in_sleep m r =
     (case m of
        RTC_GPIO_MODE_INPUT_ONLY \<Rightarrow> r\<lparr>rtc_slp_ie := True, rtc_slp_oe := False, rtc_slp_sel := True\<rparr>
      | RTC_GPIO_MODE_OUTPUT_ONLY \<Rightarrow> r\<lparr>rtc_slp_oe := True, rtc_slp_ie := False, rtc_slp_sel := True\<rparr>
      | RTC_GPIO_MODE_INPUT_OUTPUT \<Rightarrow> r\<lparr>rtc_slp_ie := True, rtc_slp_oe := True, rtc_slp_sel := True\<rparr>
      | RTC_GPIO_MODE_DISABLED \<Rightarrow> r\<lparr>rtc_slp_ie := False, rtc_slp_oe := False, rtc_slp_sel := False\<rparr>
      | _ \<Rightarrow> r)"

definition rtc_gpio_set_direction_in_sleep ::
  "int \<Rightarrow> rtc_gpio_mode_t \<Rightarrow> 'h gpio_context \<Rightarrow> esp_err_t \<times> 'h gpio_context" where
  "rtc_gpio_set_direction_in_sleep n m g =
     (if \<not> rtc_gpio_is_valid_gpio n then (ESP_ERR_INVALID_ARG, g)
      else (ESP_OK, upd_rtc n (rtcio_hal_set_direction_in_sleep m) g))"

definition rtc_gpio_iomux_func_sel :: "int \<Rightarrow> int \<Rightarrow> 'h gpio_context \<Rightarrow> esp_err_t \<times> 'h gpio_context" where
  "rtc_gpio_iomux_func_sel n func g =
     (if \<not> rtc_gpio_is_valid_gpio n then (ESP_ERR_INVALID_ARG, g)
      else (ESP_OK, upd_rtc n (\<lambda>r. r\<lparr>rtc_fun_sel := func\<rparr>) g))"

definition rtc_gpio_hold_en :: "int \<Rightarrow> 'h gpio_context \<Rightarrow> esp_err_t \<times> 'h gpio_context" where
  "rtc_gpio_hold_en n g =
     (if \<not> rtc_gpio_is_valid_gpio n then (ESP_ERR_INVALID_ARG, g)
      else (ESP_OK, upd_rtc n (\<lambda>r. r\<lparr>rtc_hold := True\<rparr>) g))"

definition rtc_gpio_hold_dis :: "int \<Rightarrow> 'h gpio_context \<Rightarrow> esp_err_t \<times> 'h gpio_context" where
  "rtc_gpio_hold_dis n g =
     (if \<not> rtc_gpio_is_valid_gpio n then (ESP_ERR_INVALID_ARG, g)
      else (ESP_OK, upd_rtc n (\<lambda>r. r\<lparr>rtc_hold := False\<rparr>) g))"

definition rtc_gpio_force_hold_en_all :: "'h gpio_context \<Rightarrow> esp_err_t \<times> 'h gpio_context" where
  "rtc_gpio_force_hold_en_all g = (ESP_OK, upd_ctl (\<lambda>c. c\<lparr>rtc_force_hold := True\<rparr>) g)"

definition rtc_gpio_force_hold_dis_all :: "'h gpio_context \<Rightarrow> esp_err_t \<times> 'h gpio_context" where
  "rtc_gpio_force_hold_dis_all g = (ESP_OK, upd_ctl (\<lambda>c. c\<lparr>rtc_force_hold := False\<rparr>) g)"

definition rtcio_hal_isolate :: "int \<Rightarrow> 'h gpio_context \<Rightarrow> 'h gpio_context" where
  "rtcio_hal_isolate n g =
     upd_rtc n (\<lambda>r. r\<lparr>rtc_rde := False, rtc_oe := False, rtc_ie := False\<rparr>) (snd (rtc_gpio_pullup_dis n g))"

definition rtc_gpio_isolate :: "int \<Rightarrow> 'h gpio_context \<Rightarrow> esp_err_t \<times> 'h gpio_context" where
  "rtc_gpio_isolate n g =
     (if \<not> rtc_gpio_is_valid_gpio n then (ESP_ERR_INVALID_ARG, g)
      else (ESP_OK, upd_rtc n (\<lambda>r. r\<lparr>rtc_hold := True\<rparr>) (rtcio_hal_isolate n g)))"

definition rtc_gpio_wakeup_enable :: "int \<Rightarrow> nat \<Rightarrow> 'h gpio_context \<Rightarrow> esp_err_t \<times> 'h gpio_context" where
  "rtc_gpio_wakeup_enable n ty g =
     (if \<not> rtc_gpio_is_valid_gpio n then (ESP_ERR_INVALID_ARG, g)
      else if ty = GPIO_INTR_POSEDGE \<or> ty = GPIO_INTR_NEGEDGE \<or> ty = GPIO_INTR_ANYEDGE then (ESP_ERR_INVALID_ARG, g)
      else (ESP_OK, upd_rtc n (\<lambda>r. r\<lparr>rtc_wakeup := True, rtc_int_type := ty\<rparr>) g))"

definition rtc_gpio_wakeup_disable :: "int \<Rightarrow> 'h gpio_context \<Rightarrow> esp_err_t \<times> 'h gpio_context" where
  "rtc_gpio_wakeup_disable n g =
     (if \<not> rtc_gpio_is_valid_gpio n then (ESP_ERR_INVALID_ARG, g)
      else (ESP_OK, upd_rtc n (\<lambda>r. r\<lparr>rtc_wakeup := False, rtc_int_type := 0\<rparr>) g))"

section \<open>Wake-up\<close>

text \<open>The type is set in the register only: the mask of the pins that are cleared on entry is not kept up.\<close>

definition gpio_wakeup_enable :: "int \<Rightarrow> nat \<Rightarrow> 'h gpio_context \<Rightarrow> esp_err_t \<times> 'h gpio_context" where
  "gpio_wakeup_enable n ty g =
     (if \<not> GPIO_IS_VALID_GPIO n then (ESP_ERR_INVALID_ARG, g)
      else if ty = GPIO_INTR_LOW_LEVEL \<or> ty = GPIO_INTR_HIGH_LEVEL then
        (case (if rtc_gpio_is_valid_gpio n then rtc_gpio_wakeup_enable n ty g else (ESP_OK, g)) of
           (ret, g1) \<Rightarrow> (ret, upd_pad n (\<lambda>p. p\<lparr>int_type := ty, wakeup_ena := True, slp_sel := False\<rparr>) g1))
      else (ESP_ERR_INVALID_ARG, g))"

definition gpio_wakeup_disable :: "int \<Rightarrow> 'h gpio_context \<Rightarrow> esp_err_t \<times> 'h gpio_context" where
  "gpio_wakeup_disable n g =
     (if \<not> GPIO_IS_VALID_GPIO n then (ESP_ERR_INVALID_ARG, g)
      else case (if rtc_gpio_is_valid_gpio n then rtc_gpio_wakeup_disable n g else (ESP_OK, g)) of
        (ret, g1) \<Rightarrow> (ret, upd_pad n (\<lambda>p. p\<lparr>wakeup_ena := False, slp_sel := True\<rparr>) g1))"

section \<open>Hold\<close>

text \<open>\<open>GPIO_HOLD_MASK\<close> (\<open>soc/esp32s3/gpio_periph.c\<close>): the pins from 22 on have a bit each.\<close>

definition GPIO_HOLD_MASK :: "nat \<Rightarrow> u32" where
  "GPIO_HOLD_MASK n = (if 22 \<le> n \<and> n < GPIO_PIN_COUNT then push_bit (n - 21) 1 else 0)"

definition gpio_hold_en :: "int \<Rightarrow> 'h gpio_context \<Rightarrow> esp_err_t \<times> 'h gpio_context" where
  "gpio_hold_en n g =
     (if \<not> GPIO_IS_VALID_OUTPUT_GPIO n then (ESP_ERR_NOT_SUPPORTED, g)
      else if rtc_gpio_is_valid_gpio n then rtc_gpio_hold_en n g
      else if GPIO_HOLD_MASK (nat n) \<noteq> 0 then (ESP_OK, upd_pad n (\<lambda>p. p\<lparr>dig_hold := True\<rparr>) g)
      else (ESP_ERR_NOT_SUPPORTED, g))"

definition gpio_hold_dis :: "int \<Rightarrow> 'h gpio_context \<Rightarrow> esp_err_t \<times> 'h gpio_context" where
  "gpio_hold_dis n g =
     (if \<not> GPIO_IS_VALID_OUTPUT_GPIO n then (ESP_ERR_NOT_SUPPORTED, g)
      else if rtc_gpio_is_valid_gpio n then rtc_gpio_hold_dis n g
      else if GPIO_HOLD_MASK (nat n) \<noteq> 0 then (ESP_OK, upd_pad n (\<lambda>p. p\<lparr>dig_hold := False\<rparr>) g)
      else (ESP_ERR_NOT_SUPPORTED, g))"

definition gpio_deep_sleep_hold_en :: "'h gpio_context \<Rightarrow> 'h gpio_context" where
  "gpio_deep_sleep_hold_en = upd_ctl (\<lambda>c. c\<lparr>dg_force_unhold := False, dg_autohold_en := True\<rparr>)"

definition gpio_deep_sleep_hold_dis :: "'h gpio_context \<Rightarrow> 'h gpio_context" where
  "gpio_deep_sleep_hold_dis = upd_ctl (\<lambda>c. c\<lparr>dg_autohold_en := False\<rparr>)"

definition gpio_force_hold_all :: "'h gpio_context \<Rightarrow> esp_err_t \<times> 'h gpio_context" where
  "gpio_force_hold_all g =
     (ESP_OK, upd_ctl (\<lambda>c. c\<lparr>dg_force_unhold := False, dg_force_hold := True\<rparr>) (snd (rtc_gpio_force_hold_en_all g)))"

definition gpio_force_unhold_all :: "'h gpio_context \<Rightarrow> esp_err_t \<times> 'h gpio_context" where
  "gpio_force_unhold_all g =
     (ESP_OK, snd (rtc_gpio_force_hold_dis_all (upd_ctl (\<lambda>c. c\<lparr>dg_force_hold := False, dg_force_unhold := True\<rparr>) g)))"

section \<open>IO MUX\<close>

definition gpio_hal_iomux_in :: "int \<Rightarrow> int \<Rightarrow> nat \<Rightarrow> 'h gpio_context \<Rightarrow> 'h gpio_context" where
  "gpio_hal_iomux_in n func signal_idx g =
     gpio_hal_func_sel n func (upd_pad n (\<lambda>p. p\<lparr>ie := True\<rparr>)
       (g\<lparr>in_cfg := (in_cfg g)(signal_idx := (in_cfg g signal_idx)\<lparr>sig_in_sel := False\<rparr>)\<rparr>))"

definition gpio_hal_iomux_out :: "int \<Rightarrow> int \<Rightarrow> 'h gpio_context \<Rightarrow> 'h gpio_context" where
  "gpio_hal_iomux_out n func g = gpio_hal_func_sel n func (upd_pad n (set_output_enable_ctrl True False) g)"

definition gpio_iomux_input :: "int \<Rightarrow> int \<Rightarrow> nat \<Rightarrow> 'h gpio_context \<Rightarrow> esp_err_t \<times> 'h gpio_context" where
  "gpio_iomux_input n func signal_idx g =
     (if \<not> GPIO_IS_VALID_GPIO n then (ESP_ERR_INVALID_ARG, g) else (ESP_OK, gpio_hal_iomux_in n func signal_idx g))"

definition gpio_iomux_output :: "int \<Rightarrow> int \<Rightarrow> 'h gpio_context \<Rightarrow> esp_err_t \<times> 'h gpio_context" where
  "gpio_iomux_output n func g =
     (if \<not> GPIO_IS_VALID_OUTPUT_GPIO n then (ESP_ERR_INVALID_ARG, g) else (ESP_OK, gpio_hal_iomux_out n func g))"

definition gpio_iomux_in :: "int \<Rightarrow> nat \<Rightarrow> 'h gpio_context \<Rightarrow> 'h gpio_context" where
  "gpio_iomux_in n signal_idx g =
     upd_pad n (\<lambda>p. p\<lparr>ie := True\<rparr>)
       (g\<lparr>in_cfg := (in_cfg g)(signal_idx := (in_cfg g signal_idx)\<lparr>sig_in_sel := False\<rparr>)\<rparr>)"

definition gpio_iomux_out :: "int \<Rightarrow> int \<Rightarrow> bool \<Rightarrow> 'h gpio_context \<Rightarrow> 'h gpio_context" where
  "gpio_iomux_out n func out_en_inv g = gpio_hal_iomux_out n func g"

definition gpio_func_sel :: "int \<Rightarrow> int \<Rightarrow> 'h gpio_context \<Rightarrow> esp_err_t \<times> 'h gpio_context" where
  "gpio_func_sel n func g =
     (if \<not> GPIO_IS_VALID_GPIO n then (ESP_ERR_INVALID_ARG, g) else (ESP_OK, gpio_hal_func_sel n func g))"

section \<open>Pads in sleep\<close>

definition gpio_sleep_pullup_en :: "int \<Rightarrow> 'h gpio_context \<Rightarrow> esp_err_t \<times> 'h gpio_context" where
  "gpio_sleep_pullup_en n g =
     (if \<not> GPIO_IS_VALID_GPIO n then (ESP_ERR_INVALID_ARG, g) else (ESP_OK, upd_pad n (\<lambda>p. p\<lparr>slp_pu := True\<rparr>) g))"

definition gpio_sleep_pullup_dis :: "int \<Rightarrow> 'h gpio_context \<Rightarrow> esp_err_t \<times> 'h gpio_context" where
  "gpio_sleep_pullup_dis n g =
     (if \<not> GPIO_IS_VALID_GPIO n then (ESP_ERR_INVALID_ARG, g) else (ESP_OK, upd_pad n (\<lambda>p. p\<lparr>slp_pu := False\<rparr>) g))"

definition gpio_sleep_pulldown_en :: "int \<Rightarrow> 'h gpio_context \<Rightarrow> esp_err_t \<times> 'h gpio_context" where
  "gpio_sleep_pulldown_en n g =
     (if \<not> GPIO_IS_VALID_GPIO n then (ESP_ERR_INVALID_ARG, g) else (ESP_OK, upd_pad n (\<lambda>p. p\<lparr>slp_pd := True\<rparr>) g))"

definition gpio_sleep_pulldown_dis :: "int \<Rightarrow> 'h gpio_context \<Rightarrow> esp_err_t \<times> 'h gpio_context" where
  "gpio_sleep_pulldown_dis n g =
     (if \<not> GPIO_IS_VALID_GPIO n then (ESP_ERR_INVALID_ARG, g) else (ESP_OK, upd_pad n (\<lambda>p. p\<lparr>slp_pd := False\<rparr>) g))"

definition gpio_sleep_input_disable :: "int \<Rightarrow> 'h gpio_context \<Rightarrow> esp_err_t \<times> 'h gpio_context" where
  "gpio_sleep_input_disable n g =
     (if \<not> GPIO_IS_VALID_GPIO n then (ESP_ERR_INVALID_ARG, g) else (ESP_OK, upd_pad n (\<lambda>p. p\<lparr>slp_ie := False\<rparr>) g))"

definition gpio_sleep_input_enable :: "int \<Rightarrow> 'h gpio_context \<Rightarrow> esp_err_t \<times> 'h gpio_context" where
  "gpio_sleep_input_enable n g =
     (if \<not> GPIO_IS_VALID_GPIO n then (ESP_ERR_INVALID_ARG, g) else (ESP_OK, upd_pad n (\<lambda>p. p\<lparr>slp_ie := True\<rparr>) g))"

definition gpio_sleep_output_disable :: "int \<Rightarrow> 'h gpio_context \<Rightarrow> esp_err_t \<times> 'h gpio_context" where
  "gpio_sleep_output_disable n g =
     (if \<not> GPIO_IS_VALID_GPIO n then (ESP_ERR_INVALID_ARG, g) else (ESP_OK, upd_pad n (\<lambda>p. p\<lparr>slp_oe := False\<rparr>) g))"

definition gpio_sleep_output_enable :: "int \<Rightarrow> 'h gpio_context \<Rightarrow> esp_err_t \<times> 'h gpio_context" where
  "gpio_sleep_output_enable n g =
     (if \<not> GPIO_IS_VALID_OUTPUT_GPIO n then (ESP_ERR_INVALID_ARG, g) else (ESP_OK, upd_pad n (\<lambda>p. p\<lparr>slp_oe := True\<rparr>) g))"

definition gpio_sleep_set_direction :: "int \<Rightarrow> u32 \<Rightarrow> 'h gpio_context \<Rightarrow> esp_err_t \<times> 'h gpio_context" where
  "gpio_sleep_set_direction n m g =
     (if \<not> GPIO_IS_VALID_GPIO n then (ESP_ERR_INVALID_ARG, g)
      else if \<not> GPIO_IS_VALID_OUTPUT_GPIO n \<and> m AND GPIO_MODE_DEF_OUTPUT \<noteq> 0 then (ESP_ERR_INVALID_ARG, g)
      else
        let g1 = snd (if m AND GPIO_MODE_DEF_INPUT \<noteq> 0 then gpio_sleep_input_enable n g else gpio_sleep_input_disable n g)
        in (ESP_OK, snd (if m AND GPIO_MODE_DEF_OUTPUT \<noteq> 0 then gpio_sleep_output_enable n g1 else gpio_sleep_output_disable n g1)))"

definition gpio_sleep_set_pull_mode :: "int \<Rightarrow> gpio_pull_mode_t \<Rightarrow> 'h gpio_context \<Rightarrow> esp_err_t \<times> 'h gpio_context" where
  "gpio_sleep_set_pull_mode n pull g =
     (if \<not> GPIO_IS_VALID_GPIO n then (ESP_ERR_INVALID_ARG, g)
      else (ESP_OK, case pull of
          GPIO_PULLUP_ONLY \<Rightarrow> snd (gpio_sleep_pullup_en n (snd (gpio_sleep_pulldown_dis n g)))
        | GPIO_PULLDOWN_ONLY \<Rightarrow> snd (gpio_sleep_pullup_dis n (snd (gpio_sleep_pulldown_en n g)))
        | GPIO_PULLUP_PULLDOWN \<Rightarrow> snd (gpio_sleep_pullup_en n (snd (gpio_sleep_pulldown_en n g)))
        | GPIO_FLOATING \<Rightarrow> snd (gpio_sleep_pullup_dis n (snd (gpio_sleep_pulldown_dis n g)))))"

definition gpio_sleep_sel_en :: "int \<Rightarrow> 'h gpio_context \<Rightarrow> esp_err_t \<times> 'h gpio_context" where
  "gpio_sleep_sel_en n g =
     (if \<not> GPIO_IS_VALID_GPIO n then (ESP_ERR_INVALID_ARG, g) else (ESP_OK, upd_pad n (\<lambda>p. p\<lparr>slp_sel := True\<rparr>) g))"

definition gpio_sleep_sel_dis :: "int \<Rightarrow> 'h gpio_context \<Rightarrow> esp_err_t \<times> 'h gpio_context" where
  "gpio_sleep_sel_dis n g =
     (if \<not> GPIO_IS_VALID_GPIO n then (ESP_ERR_INVALID_ARG, g) else (ESP_OK, upd_pad n (\<lambda>p. p\<lparr>slp_sel := False\<rparr>) g))"

section \<open>The report of a pad\<close>

record gpio_io_config =
  io_fun_sel :: int
  io_sig_out :: nat
  io_drv :: u32
  io_pu :: bool
  io_pd :: bool
  io_ie :: bool
  io_oe :: bool
  io_oe_ctrl_by_periph :: bool
  io_oe_inv :: bool
  io_od :: bool
  io_slp_sel :: bool

definition gpio_ll_get_io_config :: "int \<Rightarrow> pad \<Rightarrow> gpio_io_config" where
  "gpio_ll_get_io_config n p =
     \<lparr>io_fun_sel = mcu_sel p, io_sig_out = out_func_sel (out_cfg p), io_drv = gpio_ll_get_drive_capability n p,
      io_pu = pu p, io_pd = pd p, io_ie = ie p, io_oe = oe p, io_oe_ctrl_by_periph = (\<not> oen_sel (out_cfg p)),
      io_oe_inv = oen_inv_sel (out_cfg p), io_od = od p, io_slp_sel = slp_sel p\<rparr>"

definition gpio_get_io_config :: "int \<Rightarrow> 'h gpio_context \<Rightarrow> esp_err_t \<times> gpio_io_config option" where
  "gpio_get_io_config n g =
     (if \<not> GPIO_IS_VALID_GPIO n then (ESP_ERR_INVALID_ARG, None)
      else (ESP_OK, Some (gpio_ll_get_io_config n (pads g (nat n)))))"

section \<open>What was set is what is reported\<close>

text \<open>The order of the two bits is turned on the way in and on the way out.\<close>

lemma flip_drive_twice: "d < GPIO_DRIVE_CAP_MAX \<Longrightarrow> flip_drive n (flip_drive n d AND 3) = d"
proof -
  assume "d < GPIO_DRIVE_CAP_MAX"
  then have "unat d < 4" by (simp add: GPIO_DRIVE_CAP_MAX_def word_less_nat_alt)
  then have "unat d = 0 \<or> unat d = 1 \<or> unat d = 2 \<or> unat d = 3" by auto
  then have "d = 0 \<or> d = 1 \<or> d = 2 \<or> d = 3" by (simp add: word_unat_eq_iff)
  then show ?thesis by (auto simp: flip_drive_def)
qed

lemma pads_fold_config:
  assumes "gpio_config core c g = (ESP_OK, g1)" "intr_type c < GPIO_INTR_MAX"
    and "pin_bit_mask c \<noteq> 0" "pin_bit_mask c AND NOT SOC_GPIO_VALID_GPIO_MASK = 0" "bit (pin_bit_mask c) n" "n < GPIO_PIN_COUNT"
  shows "pads g1 n = configured c n (pads g n)"
  using gpio_config_pads_core [OF assms(3,4,2), of core g] assms(1,5,6) by auto

text \<open>
  C40: What was set is what is reported. After \<open>gpio_config\<close> and a drive strength for
  one of its pins, \<open>gpio_get_io_config\<close> reports the direction, the open drain and the
  pulls of the configuration, the function of a GPIO, no peripheral signal on an output, and that
  drive strength, for every pin, although two pins have the bits of the strength the other way
  round.
\<close>

theorem io_config_roundtrip:
  fixes g :: "'h gpio_context"
  assumes mask: "pin_bit_mask c \<noteq> 0" "pin_bit_mask c AND NOT SOC_GPIO_VALID_GPIO_MASK = 0"
    and ty: "intr_type c < GPIO_INTR_MAX" and n: "bit (pin_bit_mask c) n" "n < GPIO_PIN_COUNT" and d: "strength < GPIO_DRIVE_CAP_MAX"
    and set: "gpio_config core c g = (e1, g1)" "gpio_set_drive_capability (int n) strength g1 = (e2, g2)"
  defines "output \<equiv> mode c AND GPIO_MODE_DEF_OUTPUT \<noteq> 0"
  shows "e1 = ESP_OK \<and> e2 = ESP_OK \<and> gpio_get_drive_capability (int n) g2 = (ESP_OK, Some strength) \<and>
    gpio_get_io_config (int n) g2 = (ESP_OK, Some
      \<lparr>io_fun_sel = PIN_FUNC_GPIO, io_sig_out = (if output then SIG_GPIO_OUT_IDX else out_func_sel (out_cfg (pads g n))),
       io_drv = strength, io_pu = pull_up_en c, io_pd = pull_down_en c, io_ie = (mode c AND GPIO_MODE_DEF_INPUT \<noteq> 0),
       io_oe = output, io_oe_ctrl_by_periph = output, io_oe_inv = False, io_od = (mode c AND GPIO_MODE_DEF_OD \<noteq> 0),
       io_slp_sel = slp_sel (pads g n)\<rparr>)"
proof -
  have v: "GPIO_IS_VALID_GPIO (int n)" using valid_mask_pin [OF mask(2) n(1)] .
  have e1: "e1 = ESP_OK" using gpio_config_pads_core [OF mask ty, of core g] set(1) by auto
  have g2: "e2 = ESP_OK" "g2 = upd_pad (int n) (gpio_ll_set_drive_capability (int n) strength) g1"
    using set(2) v d by (simp_all add: gpio_set_drive_capability_def valid_output_gpio SOC_GPIO_SUPPORT_RTC_INDEPENDENT_def)
  have "pads g2 n = (configured c n (pads g n))\<lparr>fun_drv := flip_drive (int n) strength AND 3\<rparr>"
    using pads_fold_config [OF set(1) [unfolded e1] ty mask n] by (simp add: g2(2) gpio_ll_set_drive_capability_def)
  then show ?thesis
    using e1 g2(1) v flip_drive_twice [OF d, of "int n"]
    by (simp add: gpio_get_io_config_def gpio_ll_get_io_config_def gpio_get_drive_capability_def gpio_ll_get_drive_capability_def
        valid_output_gpio SOC_GPIO_SUPPORT_RTC_INDEPENDENT_def configured_def output_cfg_def output_def)
qed

lemma io_config_roundtrip_witness:
  "\<exists>(g1 :: nat gpio_context) g2. gpio_config 0 \<lparr>pin_bit_mask = 0x20000, mode = GPIO_MODE_INPUT_OUTPUT, pull_up_en = True,
       pull_down_en = False, intr_type = 0\<rparr> demo_gpio = (ESP_OK, g1) \<and>
     gpio_set_drive_capability 17 1 g1 = (ESP_OK, g2) \<and> fun_drv (pads g2 17) = 2 \<and>
     gpio_get_drive_capability 17 g2 = (ESP_OK, Some 1)"
proof -
  let ?c = "\<lparr>pin_bit_mask = 0x20000, mode = GPIO_MODE_INPUT_OUTPUT, pull_up_en = True, pull_down_en = False, intr_type = 0\<rparr>"
  obtain e1 g1 where g1: "gpio_config 0 ?c (demo_gpio :: nat gpio_context) = (e1, g1)" by fastforce
  obtain e2 g2 where g2: "gpio_set_drive_capability (int 17) 1 g1 = (e2, g2)" by fastforce
  have "e1 = ESP_OK \<and> e2 = ESP_OK \<and> gpio_get_drive_capability (int 17) g2 = (ESP_OK, Some 1)"
    using io_config_roundtrip [OF _ _ _ _ _ _ g1 g2]
    by (auto simp: SOC_GPIO_VALID_GPIO_MASK_def gpio_const_defs GPIO_DRIVE_CAP_MAX_def)
  moreover from this have "fun_drv (pads g2 17) = 2"
    using g2 by (auto simp: gpio_set_drive_capability_def GPIO_IS_VALID_OUTPUT_GPIO_def SOC_GPIO_VALID_OUTPUT_GPIO_MASK_def
        SOC_GPIO_VALID_GPIO_MASK_def GPIO_DRIVE_CAP_MAX_def SOC_GPIO_SUPPORT_RTC_INDEPENDENT_def gpio_ll_set_drive_capability_def
        flip_drive_def)
  ultimately show ?thesis using g1 g2 by auto
qed

text \<open>
  A pin that had an edge interrupt and becomes a wake-up source is level-triggered from then on, but the interrupt service still treats
  it as edge-triggered: it clears the pending bit before it calls the handler, so that a level that is still there is latched again.
\<close>

lemma wakeup_keeps_entry_mask:
  assumes "GPIO_IS_VALID_GPIO n" "gpio_set_intr_type n GPIO_INTR_NEGEDGE g = (e1, g1)"
    and "gpio_wakeup_enable n GPIO_INTR_LOW_LEVEL g1 = (e2, g2)"
  shows "e2 = ESP_OK \<and> int_type (pads g2 (nat n)) = GPIO_INTR_LOW_LEVEL \<and> pin_bit n AND isr_clr_on_entry_mask g2 \<noteq> 0"
proof -
  have n: "nat n < 64"
  proof (rule ccontr)
    assume "\<not> nat n < 64"
    then have "2 ^ nat n = (0 :: u64)" by simp
    then have "push_bit (nat n) 1 AND SOC_GPIO_VALID_GPIO_MASK = 0"
      unfolding push_bit_of_1 by (simp only: and.comm_neutral and_zero_eq zero_and_eq)
    then show False using assms(1) by (simp only: GPIO_IS_VALID_GPIO_def) blast
  qed
  then have "bit (pin_bit n) (nat n)" by (simp add: pin_bit_def bit_simps)
  then have w: "bit (pin_bit n AND (m OR pin_bit n)) (nat n)" for m by (simp only: bit_and_iff bit_or_iff simp_thms)
  have b: "pin_bit n AND (m OR pin_bit n) \<noteq> 0" for m
  proof
    assume "pin_bit n AND (m OR pin_bit n) = 0"
    then show False using w [of m] by simp
  qed
  have "isr_clr_on_entry_mask g1 = isr_clr_on_entry_mask g OR pin_bit n"
    using assms(1,2) by (auto simp: gpio_set_intr_type_def gpio_const_defs upd_pad_def Let_def)
  then show ?thesis
    using assms(1,3) b
    by (auto simp: gpio_wakeup_enable_def rtc_gpio_wakeup_enable_def gpio_const_defs upd_pad_def upd_rtc_def split: if_splits)
qed

end
