(* ===== verification/Spi_Pins.thy ===== *)
theory Spi_Pins
  imports Spi_Setup Gpio_Sleep
begin

text \<open>
  The pins of an SPI bus (\<open>spi_common.c\<close>): which functions a set of pins allows, routing them through the IO MUX or the
  GPIO matrix, and giving them back. \<open>spi_bus_initialize\<close> of \<open>Spi_Setup\<close> calls this as its last step. The two functions that
  connect a signal in the GPIO matrix are in the ROM of the chip and are not in the repository: they are the parameter
  \<open>rom\<close>, and \<open>rom_connects\<close> says what \<open>esp_rom_gpio.h\<close> documents of them.
\<close>

section \<open>Signals and pins of a host\<close>

text \<open>\<open>soc/esp32s3/spi_periph.c\<close>. The pins are \<open>uint8_t\<close>, so that the -1 of a host without IO MUX pins is 255.\<close>

record spi_signal_conn =
  spiclk_out :: nat
  spiclk_in :: nat
  spid_out :: nat
  spiq_out :: nat
  spiwp_out :: nat
  spihd_out :: nat
  spid4_out :: nat
  spid5_out :: nat
  spid6_out :: nat
  spid7_out :: nat
  spid_in :: nat
  spiq_in :: nat
  spiwp_in :: nat
  spihd_in :: nat
  spid4_in :: nat
  spid5_in :: nat
  spid6_in :: nat
  spid7_in :: nat
  spics_out :: "nat list"
  spics_in :: nat
  spiclk_iomux_pin :: int
  spid_iomux_pin :: int
  spiq_iomux_pin :: int
  spiwp_iomux_pin :: int
  spihd_iomux_pin :: int
  spics0_iomux_pin :: int
  iomux_func :: int

definition spi_periph_signal :: "int \<Rightarrow> spi_signal_conn" where
  "spi_periph_signal h =
     (if h = 1 then
        \<lparr>spiclk_out = 101, spiclk_in = 101, spid_out = 103, spiq_out = 102, spiwp_out = 105, spihd_out = 104,
         spid4_out = 106, spid5_out = 107, spid6_out = 108, spid7_out = 109,
         spid_in = 103, spiq_in = 102, spiwp_in = 105, spihd_in = 104, spid4_in = 106, spid5_in = 107, spid6_in = 108, spid7_in = 109,
         spics_out = [110, 111, 112, 113, 114, 115], spics_in = 110,
         spiclk_iomux_pin = 12, spid_iomux_pin = 11, spiq_iomux_pin = 13, spiwp_iomux_pin = 14, spihd_iomux_pin = 9,
         spics0_iomux_pin = 10, iomux_func = 4\<rparr>
      else if h = 2 then
        \<lparr>spiclk_out = 66, spiclk_in = 66, spid_out = 68, spiq_out = 67, spiwp_out = 70, spihd_out = 69,
         spid4_out = 0, spid5_out = 0, spid6_out = 0, spid7_out = 0,
         spid_in = 68, spiq_in = 67, spiwp_in = 70, spihd_in = 69, spid4_in = 0, spid5_in = 0, spid6_in = 0, spid7_in = 0,
         spics_out = [71, 72, 127, 0, 0, 0], spics_in = 71,
         spiclk_iomux_pin = 255, spid_iomux_pin = 255, spiq_iomux_pin = 255, spiwp_iomux_pin = 255, spihd_iomux_pin = 255,
         spics0_iomux_pin = 255, iomux_func = -1\<rparr>
      else
        \<lparr>spiclk_out = 255, spiclk_in = 255, spid_out = 255, spiq_out = 255, spiwp_out = 255, spihd_out = 255,
         spid4_out = 0, spid5_out = 0, spid6_out = 0, spid7_out = 0,
         spid_in = 255, spiq_in = 255, spiwp_in = 255, spihd_in = 255, spid4_in = 0, spid5_in = 0, spid6_in = 0, spid7_in = 0,
         spics_out = [255, 0, 0, 0, 0, 0], spics_in = 255,
         spiclk_iomux_pin = 255, spid_iomux_pin = 255, spiq_iomux_pin = 255, spiwp_iomux_pin = 255, spihd_iomux_pin = 255,
         spics0_iomux_pin = 255, iomux_func = -1\<rparr>)"

record spi_bus_io_config = spi_bus_config +
  data4_io_num :: int
  data5_io_num :: int
  data6_io_num :: int
  data7_io_num :: int
  bus_flags :: u32

definition SPICOMMON_BUSFLAG_MASTER :: u32 where "SPICOMMON_BUSFLAG_MASTER = 0x1"
definition SPICOMMON_BUSFLAG_IOMUX_PINS :: u32 where "SPICOMMON_BUSFLAG_IOMUX_PINS = 0x2"
definition SPICOMMON_BUSFLAG_GPIO_PINS :: u32 where "SPICOMMON_BUSFLAG_GPIO_PINS = 0x4"
definition SPICOMMON_BUSFLAG_SCLK :: u32 where "SPICOMMON_BUSFLAG_SCLK = 0x8"
definition SPICOMMON_BUSFLAG_MISO :: u32 where "SPICOMMON_BUSFLAG_MISO = 0x10"
definition SPICOMMON_BUSFLAG_MOSI :: u32 where "SPICOMMON_BUSFLAG_MOSI = 0x20"
definition SPICOMMON_BUSFLAG_DUAL :: u32 where "SPICOMMON_BUSFLAG_DUAL = 0x40"
definition SPICOMMON_BUSFLAG_WPHD :: u32 where "SPICOMMON_BUSFLAG_WPHD = 0x80"
definition SPICOMMON_BUSFLAG_IO4_IO7 :: u32 where "SPICOMMON_BUSFLAG_IO4_IO7 = 0x100"
definition SPICOMMON_BUSFLAG_OCTAL :: u32 where
  "SPICOMMON_BUSFLAG_OCTAL = SPICOMMON_BUSFLAG_DUAL OR SPICOMMON_BUSFLAG_WPHD OR SPICOMMON_BUSFLAG_IO4_IO7"
definition SPICOMMON_BUSFLAG_SLP_ALLOW_PD :: u32 where "SPICOMMON_BUSFLAG_SLP_ALLOW_PD = 0x200"

lemmas bus_flag_defs = SPICOMMON_BUSFLAG_MASTER_def SPICOMMON_BUSFLAG_IOMUX_PINS_def SPICOMMON_BUSFLAG_GPIO_PINS_def
  SPICOMMON_BUSFLAG_SCLK_def SPICOMMON_BUSFLAG_MISO_def SPICOMMON_BUSFLAG_MOSI_def SPICOMMON_BUSFLAG_DUAL_def
  SPICOMMON_BUSFLAG_WPHD_def SPICOMMON_BUSFLAG_IO4_IO7_def SPICOMMON_BUSFLAG_OCTAL_def SPICOMMON_BUSFLAG_SLP_ALLOW_PD_def

definition octal :: "u32 \<Rightarrow> bool" where
  "octal fs \<longleftrightarrow> fs AND SPICOMMON_BUSFLAG_OCTAL = SPICOMMON_BUSFLAG_OCTAL"

section \<open>The IO MUX\<close>

text \<open>A pin matches when it is not used or is the one of the IO MUX.\<close>

definition check_iomux_pins_oct :: "int \<Rightarrow> spi_bus_io_config \<Rightarrow> bool" where
  "check_iomux_pins_oct h c \<longleftrightarrow>
     h = SPI2_HOST \<and>
     list_all (\<lambda>(io, mux). io < 0 \<or> io = mux)
       (zip [mosi_io_num c, miso_io_num c, quadwp_io_num c, quadhd_io_num c, sclk_io_num c,
             data4_io_num c, data5_io_num c, data6_io_num c, data7_io_num c]
            [35, 37, 38, 33, 36, 10, 11, 12, 13])"

definition check_iomux_pins_quad :: "int \<Rightarrow> spi_bus_io_config \<Rightarrow> bool" where
  "check_iomux_pins_quad h c \<longleftrightarrow>
     (let p = spi_periph_signal h
      in \<not> (0 \<le> sclk_io_num c \<and> sclk_io_num c \<noteq> spiclk_iomux_pin p) \<and>
         \<not> (0 \<le> quadwp_io_num c \<and> quadwp_io_num c \<noteq> spiwp_iomux_pin p) \<and>
         \<not> (0 \<le> quadhd_io_num c \<and> quadhd_io_num c \<noteq> spihd_iomux_pin p) \<and>
         \<not> (0 \<le> mosi_io_num c \<and> mosi_io_num c \<noteq> spid_iomux_pin p) \<and>
         \<not> (0 \<le> miso_io_num c \<and> miso_io_num c \<noteq> spiq_iomux_pin p))"

definition bus_uses_iomux_pins :: "int \<Rightarrow> spi_bus_io_config \<Rightarrow> bool" where
  "bus_uses_iomux_pins h c = (if octal (bus_flags c) then check_iomux_pins_oct h c else check_iomux_pins_quad h c)"

definition iomux_pin :: "int \<Rightarrow> nat \<Rightarrow> int \<Rightarrow> 'g gpio_context \<Rightarrow> 'g gpio_context" where
  "iomux_pin func sig n g = snd (gpio_iomux_output n func (snd (gpio_iomux_input n func sig g)))"

definition bus_iomux_pins_set_oct :: "int \<Rightarrow> spi_bus_io_config \<Rightarrow> 'g gpio_context \<Rightarrow> 'g gpio_context outcome" where
  "bus_iomux_pins_set_oct h c g =
     (if h \<noteq> SPI2_HOST then Inl Assert_Failed
      else
        let p = spi_periph_signal h
        in Inr (fold (\<lambda>(n, sig) g. if n > 0 then iomux_pin 2 sig n g else g)
             (zip [mosi_io_num c, miso_io_num c, quadwp_io_num c, quadhd_io_num c, sclk_io_num c,
                   data4_io_num c, data5_io_num c, data6_io_num c, data7_io_num c]
                  [spid_in p, spiq_in p, spiwp_in p, spihd_in p, spiclk_in p, spid4_out p, spid5_out p, spid6_out p, spid7_out p]) g))"

definition bus_iomux_pins_set_quad :: "int \<Rightarrow> spi_bus_io_config \<Rightarrow> 'g gpio_context \<Rightarrow> 'g gpio_context" where
  "bus_iomux_pins_set_quad h c =
     (let p = spi_periph_signal h
      in fold (\<lambda>(n, sig) g. if 0 \<le> n then iomux_pin (iomux_func p) sig n g else g)
           [(mosi_io_num c, spid_in p), (miso_io_num c, spiq_in p), (quadwp_io_num c, spiwp_in p),
            (quadhd_io_num c, spihd_in p), (sclk_io_num c, spiclk_in p)])"

definition bus_iomux_pins_set :: "int \<Rightarrow> spi_bus_io_config \<Rightarrow> 'g gpio_context \<Rightarrow> 'g gpio_context outcome" where
  "bus_iomux_pins_set h c g =
     (if octal (bus_flags c) then bus_iomux_pins_set_oct h c g else Inr (bus_iomux_pins_set_quad h c g))"

section \<open>The GPIO matrix\<close>

record 'g rom_gpio =
  connect_out_signal :: "int \<Rightarrow> nat \<Rightarrow> bool \<Rightarrow> bool \<Rightarrow> 'g gpio_context \<Rightarrow> 'g gpio_context"
  connect_in_signal :: "int \<Rightarrow> nat \<Rightarrow> bool \<Rightarrow> 'g gpio_context \<Rightarrow> 'g gpio_context"

text \<open>A line of the bus: its pin, the signals it is connected to, and whether it is an output as well.\<close>

record bus_line =
  line_pin :: int
  line_out :: nat
  line_in :: nat
  line_output :: bool

definition connect_line :: "'g rom_gpio \<Rightarrow> bus_line \<Rightarrow> 'g gpio_context \<Rightarrow> 'g gpio_context" where
  "connect_line rom l g =
     (let n = line_pin l;
          g1 = (if line_output l
                then connect_out_signal rom n (line_out l) False False (snd (gpio_set_direction n GPIO_MODE_INPUT_OUTPUT g))
                else snd (gpio_set_direction n GPIO_MODE_INPUT g))
      in snd (gpio_func_sel n PIN_FUNC_GPIO (connect_in_signal rom n (line_in l) False g1)))"

definition mosi_need_output :: "u32 \<Rightarrow> bool" where
  "mosi_need_output fs = (if flag fs SPICOMMON_BUSFLAG_MASTER then True else flag fs SPICOMMON_BUSFLAG_DUAL)"

definition miso_need_output :: "u32 \<Rightarrow> bool" where
  "miso_need_output fs = (if flag fs SPICOMMON_BUSFLAG_MASTER then flag fs SPICOMMON_BUSFLAG_DUAL else True)"

definition sclk_need_output :: "u32 \<Rightarrow> bool" where
  "sclk_need_output fs = flag fs SPICOMMON_BUSFLAG_MASTER"

text \<open>The lines in the order in which they are connected; \<open>t\<close> are the flags found. The last four are used in octal mode only.\<close>

definition bus_lines :: "int \<Rightarrow> spi_bus_io_config \<Rightarrow> u32 \<Rightarrow> u32 \<Rightarrow> bus_line list" where
  "bus_lines h c fs t =
     (let p = spi_periph_signal h
      in [\<lparr>line_pin = mosi_io_num c, line_out = spid_out p, line_in = spid_in p,
           line_output = (mosi_need_output fs \<or> flag t SPICOMMON_BUSFLAG_DUAL)\<rparr>,
          \<lparr>line_pin = miso_io_num c, line_out = spiq_out p, line_in = spiq_in p,
           line_output = (miso_need_output fs \<or> flag t SPICOMMON_BUSFLAG_DUAL)\<rparr>,
          \<lparr>line_pin = quadwp_io_num c, line_out = spiwp_out p, line_in = spiwp_in p, line_output = True\<rparr>,
          \<lparr>line_pin = quadhd_io_num c, line_out = spihd_out p, line_in = spihd_in p, line_output = True\<rparr>,
          \<lparr>line_pin = sclk_io_num c, line_out = spiclk_out p, line_in = spiclk_in p, line_output = sclk_need_output fs\<rparr>] @
         (if octal fs then
            [\<lparr>line_pin = data4_io_num c, line_out = spid4_out p, line_in = spid4_in p, line_output = True\<rparr>,
             \<lparr>line_pin = data5_io_num c, line_out = spid5_out p, line_in = spid5_in p, line_output = True\<rparr>,
             \<lparr>line_pin = data6_io_num c, line_out = spid6_out p, line_in = spid6_in p, line_output = True\<rparr>,
             \<lparr>line_pin = data7_io_num c, line_out = spid7_out p, line_in = spid7_in p, line_output = True\<rparr>]
          else []))"

definition connect_lines :: "'g rom_gpio \<Rightarrow> bus_line list \<Rightarrow> 'g gpio_context \<Rightarrow> 'g gpio_context" where
  "connect_lines rom = fold (\<lambda>l g. if 0 \<le> line_pin l then connect_line rom l g else g)"

section \<open>Connecting and freeing the bus\<close>

definition io4_7_enabled :: "spi_bus_io_config \<Rightarrow> bool" where
  "io4_7_enabled c \<longleftrightarrow>
     \<not> (data4_io_num c = 0 \<and> data5_io_num c = 0 \<and> data6_io_num c = 0 \<and> data7_io_num c = 0) \<and>
     0 \<le> data4_io_num c \<and> 0 \<le> data5_io_num c \<and> 0 \<le> data6_io_num c \<and> 0 \<le> data7_io_num c"

text \<open>\<open>SPI_CHECK_PIN\<close>, for a pin that is used.\<close>

definition SPI_CHECK_PIN :: "int \<Rightarrow> bool \<Rightarrow> bool" where
  "SPI_CHECK_PIN n check_output \<longleftrightarrow> n < 0 \<or> (if check_output then GPIO_IS_VALID_OUTPUT_GPIO n else GPIO_IS_VALID_GPIO n)"

definition pins_valid :: "spi_bus_io_config \<Rightarrow> u32 \<Rightarrow> bool" where
  "pins_valid c fs \<longleftrightarrow>
     SPI_CHECK_PIN (sclk_io_num c) (sclk_need_output fs) \<and> SPI_CHECK_PIN (quadwp_io_num c) True \<and>
     SPI_CHECK_PIN (quadhd_io_num c) True \<and>
     (io4_7_enabled c \<longrightarrow> SPI_CHECK_PIN (data4_io_num c) True \<and> SPI_CHECK_PIN (data5_io_num c) True \<and>
        SPI_CHECK_PIN (data6_io_num c) True \<and> SPI_CHECK_PIN (data7_io_num c) True) \<and>
     SPI_CHECK_PIN (mosi_io_num c) (mosi_need_output fs) \<and> SPI_CHECK_PIN (miso_io_num c) (miso_need_output fs)"

definition use_iomux :: "int \<Rightarrow> spi_bus_io_config \<Rightarrow> u32 \<Rightarrow> bool" where
  "use_iomux h c fs \<longleftrightarrow> \<not> flag fs SPICOMMON_BUSFLAG_GPIO_PINS \<and> bus_uses_iomux_pins h c"

text \<open>What the pins allow (\<open>temp_flag\<close>).\<close>

definition flag_if :: "bool \<Rightarrow> u32 \<Rightarrow> u32" where
  "flag_if b f = (if b then f else 0)"

definition pin_flags :: "int \<Rightarrow> spi_bus_io_config \<Rightarrow> u32 \<Rightarrow> u32" where
  "pin_flags h c fs =
     flag_if (0 \<le> sclk_io_num c) SPICOMMON_BUSFLAG_SCLK OR
     flag_if (io4_7_enabled c) SPICOMMON_BUSFLAG_IO4_IO7 OR
     flag_if (0 \<le> quadhd_io_num c \<and> 0 \<le> quadwp_io_num c) SPICOMMON_BUSFLAG_WPHD OR
     flag_if (0 \<le> mosi_io_num c) SPICOMMON_BUSFLAG_MOSI OR
     flag_if (0 \<le> miso_io_num c) SPICOMMON_BUSFLAG_MISO OR
     flag_if ((mosi_io_num c < 0 \<or> GPIO_IS_VALID_OUTPUT_GPIO (mosi_io_num c)) \<and>
              (miso_io_num c < 0 \<or> GPIO_IS_VALID_OUTPUT_GPIO (miso_io_num c))) SPICOMMON_BUSFLAG_DUAL OR
     (if use_iomux h c fs then SPICOMMON_BUSFLAG_IOMUX_PINS else SPICOMMON_BUSFLAG_GPIO_PINS)"

text \<open>Every check comes before the first change. The flags are reported on success only.\<close>

definition spicommon_bus_initialize_io ::
  "'g rom_gpio \<Rightarrow> int \<Rightarrow> spi_bus_io_config \<Rightarrow> u32 \<Rightarrow> 'g gpio_context \<Rightarrow>
   (esp_err_t \<times> u32 option \<times> 'g gpio_context) outcome" where
  "spicommon_bus_initialize_io rom h c fs g =
     (if \<not> (flag fs SPICOMMON_BUSFLAG_MASTER \<or> \<not> octal fs) then Inr (ESP_ERR_INVALID_ARG, None, g)
      else if \<not> (h = SPI2_HOST \<or> \<not> octal fs) then Inr (ESP_ERR_INVALID_ARG, None, g)
      else if \<not> pins_valid c fs then Inr (ESP_ERR_INVALID_ARG, None, g)
      else
        let t = pin_flags h c fs;
            missing = fs AND NOT t AND NOT SPICOMMON_BUSFLAG_MASTER AND NOT SPICOMMON_BUSFLAG_SLP_ALLOW_PD
        in if missing \<noteq> 0 then Inr (ESP_ERR_INVALID_ARG, None, g)
           else bindr (if use_iomux h c fs then bus_iomux_pins_set h c g else Inr (connect_lines rom (bus_lines h c fs t) g))
                  (\<lambda>g'. Inr (ESP_OK, Some t, g')))"

definition spicommon_bus_free_io_cfg :: "spi_bus_io_config \<Rightarrow> 'g gpio_context \<Rightarrow> esp_err_t \<times> 'g gpio_context" where
  "spicommon_bus_free_io_cfg c g =
     (ESP_OK, fold (\<lambda>io g. if GPIO_IS_VALID_GPIO io then snd (gpio_reset_pin io g) else g)
        [mosi_io_num c, miso_io_num c, sclk_io_num c, quadwp_io_num c, quadhd_io_num c] g)"

definition spicommon_cs_initialize ::
  "'g rom_gpio \<Rightarrow> int \<Rightarrow> int \<Rightarrow> nat \<Rightarrow> bool \<Rightarrow> 'g gpio_context \<Rightarrow> 'g gpio_context" where
  "spicommon_cs_initialize rom h cs_io_num cs_num force_gpio_matrix g =
     (let p = spi_periph_signal h
      in if \<not> force_gpio_matrix \<and> cs_io_num = spics0_iomux_pin p \<and> cs_num = 0
         then iomux_pin (iomux_func p) (spics_in p) cs_io_num g
         else
           let g1 = (if GPIO_IS_VALID_OUTPUT_GPIO cs_io_num
                     then connect_out_signal rom cs_io_num (spics_out p ! cs_num) False False
                            (snd (gpio_set_direction cs_io_num GPIO_MODE_INPUT_OUTPUT g))
                     else snd (gpio_set_direction cs_io_num GPIO_MODE_INPUT g));
               g2 = (if cs_num = 0 then connect_in_signal rom cs_io_num (spics_in p) False g1 else g1)
           in snd (gpio_func_sel cs_io_num PIN_FUNC_GPIO g2))"

definition spicommon_cs_free_io :: "int \<Rightarrow> 'g gpio_context \<Rightarrow> 'g gpio_context outcome" where
  "spicommon_cs_free_io n g =
     (if \<not> GPIO_IS_VALID_GPIO n then Inl Assert_Failed else Inr (snd (gpio_reset_pin n g)))"

definition spicommon_bus_using_iomux :: "int \<Rightarrow> 'g gpio_context \<Rightarrow> bool" where
  "spicommon_bus_using_iomux h g \<longleftrightarrow>
     list_all (\<lambda>sig. \<not> sig_in_sel (in_cfg g sig))
       (let p = spi_periph_signal h in [spid_in p, spiq_in p, spiwp_in p, spihd_in p])"


section \<open>What is routed\<close>

definition rom_connects :: "'g rom_gpio \<Rightarrow> bool" where
  "rom_connects rom \<longleftrightarrow>
     (\<forall>n sig inv oen_inv g. in_cfg (connect_out_signal rom n sig inv oen_inv g) = in_cfg g \<and>
        (\<exists>o'. pads (connect_out_signal rom n sig inv oen_inv g) =
           (pads g)(nat n := (pads g (nat n))\<lparr>oe := True, out_cfg := \<lparr>out_func_sel = sig, out_inv_sel = inv, oen_sel = o', oen_inv_sel = oen_inv\<rparr>\<rparr>))) \<and>
     (\<forall>n sig inv g. pads (connect_in_signal rom n sig inv g) = pads g \<and>
        in_cfg (connect_in_signal rom n sig inv g) = (in_cfg g)(sig := \<lparr>in_func_sel = n, in_inv_sel = inv, sig_in_sel = True\<rparr>))"

text \<open>A line that goes through the matrix, and one that goes through the IO MUX with the function \<open>func\<close>.\<close>

definition pad_routed :: "bus_line \<Rightarrow> pad \<Rightarrow> bool" where
  "pad_routed l p \<longleftrightarrow> ie p \<and> \<not> od p \<and> mcu_sel p = PIN_FUNC_GPIO \<and> oe p = line_output l \<and>
     (line_output l \<longrightarrow> out_func_sel (out_cfg p) = line_out l \<and> \<not> out_inv_sel (out_cfg p) \<and> \<not> oen_inv_sel (out_cfg p))"

definition line_routed :: "'g gpio_context \<Rightarrow> bus_line \<Rightarrow> bool" where
  "line_routed g l \<longleftrightarrow> pad_routed l (pads g (nat (line_pin l))) \<and>
     in_cfg g (line_in l) = \<lparr>in_func_sel = line_pin l, in_inv_sel = False, sig_in_sel = True\<rparr>"

definition line_muxed :: "int \<Rightarrow> 'g gpio_context \<Rightarrow> bus_line \<Rightarrow> bool" where
  "line_muxed func g l \<longleftrightarrow> (let p = pads g (nat (line_pin l)) in ie p \<and> mcu_sel p = func \<and> \<not> oen_sel (out_cfg p)) \<and>
     \<not> sig_in_sel (in_cfg g (line_in l))"

definition used_lines :: "bus_line list \<Rightarrow> bus_line list" where
  "used_lines = filter (\<lambda>l. 0 \<le> line_pin l)"

lemma in_cfg_ops [simp]:
  "in_cfg (upd_pad n f g) = in_cfg g" "in_cfg (upd_ctl f' g) = in_cfg g"
  "in_cfg (snd (gpio_set_direction n m g)) = in_cfg g" "in_cfg (gpio_hal_func_sel n func g) = in_cfg g"
  by (simp_all add: upd_pad_def upd_ctl_def gpio_set_direction_def gpio_input_enable_def gpio_input_disable_def
      gpio_output_enable_def gpio_output_disable_def gpio_od_enable_def gpio_od_disable_def gpio_hal_func_sel_def Let_def)

lemma pads_func_sel [simp]: "pads (gpio_hal_func_sel n func g) = (pads g)(nat n := (pads g (nat n))\<lparr>mcu_sel := func\<rparr>)"
  by (simp add: gpio_hal_func_sel_def)

lemma pads_direction:
  assumes "GPIO_IS_VALID_GPIO n"
  shows "pads (snd (gpio_set_direction n GPIO_MODE_INPUT_OUTPUT g)) = (pads g)(nat n := (pads g (nat n))\<lparr>ie := True,
      out_cfg := output_cfg True (out_cfg (pads g (nat n))), oe := True, od := False\<rparr>)"
    "pads (snd (gpio_set_direction n GPIO_MODE_INPUT g)) = (pads g)(nat n := (pads g (nat n))\<lparr>ie := True, oe := False,
      out_cfg := output_cfg False (out_cfg (pads g (nat n))), od := False\<rparr>)"
  using assms
  by (simp_all add: gpio_set_direction_def gpio_const_defs valid_output_gpio gpio_input_enable_def gpio_output_enable_def
      gpio_output_disable_def gpio_od_disable_def output_cfg_def matrix_out_default_def set_output_enable_ctrl_def Let_def)

lemma connect_line_effect:
  assumes rom: "rom_connects rom" and v: "GPIO_IS_VALID_GPIO (line_pin l)"
  shows "pad_routed l (pads (connect_line rom l g) (nat (line_pin l)))"
    and "n \<noteq> nat (line_pin l) \<Longrightarrow> pads (connect_line rom l g) n = pads g n"
    and "in_cfg (connect_line rom l g) = (in_cfg g)(line_in l := \<lparr>in_func_sel = line_pin l, in_inv_sel = False, sig_in_sel = True\<rparr>)"
proof -
  have i: "pads (connect_in_signal rom n sig inv g) = pads g"
      "in_cfg (connect_in_signal rom n sig inv g) = (in_cfg g)(sig := \<lparr>in_func_sel = n, in_inv_sel = inv, sig_in_sel = True\<rparr>)"
      "in_cfg (connect_out_signal rom n sig inv oi g) = in_cfg g" for n sig inv oi g
    using rom by (simp_all add: rom_connects_def)
  note o = rom [unfolded rom_connects_def, THEN conjunct1, rule_format, THEN conjunct2]
  show "in_cfg (connect_line rom l g) = (in_cfg g)(line_in l := \<lparr>in_func_sel = line_pin l, in_inv_sel = False, sig_in_sel = True\<rparr>)"
    using v by (simp add: connect_line_def gpio_func_sel_def i Let_def)
  have "pad_routed l (pads (connect_line rom l g) (nat (line_pin l))) \<and>
      (n \<noteq> nat (line_pin l) \<longrightarrow> pads (connect_line rom l g) n = pads g n)"
  proof (cases "line_output l")
    case True
    then show ?thesis
      using v o [of "line_pin l" "line_out l" False False "snd (gpio_set_direction (line_pin l) GPIO_MODE_INPUT_OUTPUT g)"]
      by (auto simp: connect_line_def gpio_func_sel_def i pad_routed_def pads_direction [OF v] Let_def)
  next
    case False
    then show ?thesis using v by (simp add: connect_line_def gpio_func_sel_def i pad_routed_def pads_direction [OF v] Let_def)
  qed
  then show "pad_routed l (pads (connect_line rom l g) (nat (line_pin l)))"
    and "n \<noteq> nat (line_pin l) \<Longrightarrow> pads (connect_line rom l g) n = pads g n" by simp_all
qed

lemma used_pin_new:
  assumes "distinct (map line_pin (l # used_lines ls))" "0 \<le> line_pin l"
  shows "nat (line_pin l) \<notin> (nat \<circ> line_pin) ` set (used_lines ls)"
proof
  assume "nat (line_pin l) \<in> (nat \<circ> line_pin) ` set (used_lines ls)"
  then obtain k where k: "k \<in> set (used_lines ls)" "nat (line_pin l) = nat (line_pin k)" by auto
  then have "0 \<le> line_pin k" by (simp add: used_lines_def)
  then have "line_pin l = line_pin k" using k(2) assms(2) by simp
  then show False using assms(1) k(1) by simp
qed

lemma connect_lines_effect:
  assumes rom: "rom_connects rom"
  shows "\<forall>l \<in> set (used_lines ls). GPIO_IS_VALID_GPIO (line_pin l) \<Longrightarrow> distinct (map line_pin (used_lines ls)) \<Longrightarrow>
    distinct (map line_in ls) \<Longrightarrow>
    (\<forall>l \<in> set (used_lines ls). line_routed (connect_lines rom ls g) l) \<and>
    (\<forall>n. n \<notin> (nat \<circ> line_pin) ` set (used_lines ls) \<longrightarrow> pads (connect_lines rom ls g) n = pads g n) \<and>
    (\<forall>sig. sig \<notin> line_in ` set ls \<longrightarrow> in_cfg (connect_lines rom ls g) sig = in_cfg g sig)"
proof (induction ls arbitrary: g)
  case Nil
  then show ?case by (simp add: connect_lines_def used_lines_def)
next
  case (Cons l ls)
  let ?g = "connect_line rom l g"
  show ?case
  proof (cases "0 \<le> line_pin l")
    case False
    then have "used_lines (l # ls) = used_lines ls" "connect_lines rom (l # ls) g = connect_lines rom ls g"
      by (simp_all add: used_lines_def connect_lines_def)
    then show ?thesis using Cons by simp
  next
    case True
    then have e: "used_lines (l # ls) = l # used_lines ls" "connect_lines rom (l # ls) g = connect_lines rom ls ?g"
      by (simp_all add: used_lines_def connect_lines_def)
    have v: "GPIO_IS_VALID_GPIO (line_pin l)" using Cons.prems(1) by (simp add: e)
    have IH: "(\<forall>l \<in> set (used_lines ls). line_routed (connect_lines rom ls ?g) l)"
        "\<And>n. n \<notin> (nat \<circ> line_pin) ` set (used_lines ls) \<Longrightarrow> pads (connect_lines rom ls ?g) n = pads ?g n"
        "\<And>sig. sig \<notin> line_in ` set ls \<Longrightarrow> in_cfg (connect_lines rom ls ?g) sig = in_cfg ?g sig"
      using Cons.IH [of ?g] Cons.prems by (simp_all add: e)
    note new = used_pin_new [OF Cons.prems(2) [unfolded e] True]
    note one = connect_line_effect [OF rom v, where g = g]
    have "line_routed (connect_lines rom ls ?g) l"
      using IH(2) [OF new] IH(3) [of "line_in l"] Cons.prems(3) one(1,3)
      by (simp add: line_routed_def)
    then show ?thesis
      using IH one(2,3) by (auto simp: e)
  qed
qed


text \<open>The IO MUX path connects the same lines, in the same order.\<close>

definition mux_lines :: "int \<Rightarrow> bus_line list \<Rightarrow> 'g gpio_context \<Rightarrow> 'g gpio_context" where
  "mux_lines func = fold (\<lambda>l g. if 0 \<le> line_pin l then iomux_pin func (line_in l) (line_pin l) g else g)"

lemma iomux_pin_effect:
  assumes v: "GPIO_IS_VALID_GPIO n"
  shows "ie (pads (iomux_pin func sig n g) (nat n))" "mcu_sel (pads (iomux_pin func sig n g) (nat n)) = func"
    "\<not> oen_sel (out_cfg (pads (iomux_pin func sig n g) (nat n)))" "\<not> sig_in_sel (in_cfg (iomux_pin func sig n g) sig)"
    "m \<noteq> nat n \<Longrightarrow> pads (iomux_pin func sig n g) m = pads g m"
    "sig' \<noteq> sig \<Longrightarrow> in_cfg (iomux_pin func sig n g) sig' = in_cfg g sig'"
  using v
  by (simp_all add: iomux_pin_def gpio_iomux_input_def gpio_iomux_output_def gpio_hal_iomux_in_def gpio_hal_iomux_out_def
      valid_output_gpio set_output_enable_ctrl_def)

lemma mux_lines_effect:
  "\<forall>l \<in> set (used_lines ls). GPIO_IS_VALID_GPIO (line_pin l) \<Longrightarrow> distinct (map line_pin (used_lines ls)) \<Longrightarrow>
   distinct (map line_in ls) \<Longrightarrow>
   (\<forall>l \<in> set (used_lines ls). line_muxed func (mux_lines func ls g) l) \<and>
   (\<forall>n. n \<notin> (nat \<circ> line_pin) ` set (used_lines ls) \<longrightarrow> pads (mux_lines func ls g) n = pads g n) \<and>
   (\<forall>sig. sig \<notin> line_in ` set ls \<longrightarrow> in_cfg (mux_lines func ls g) sig = in_cfg g sig)"
proof (induction ls arbitrary: g)
  case Nil
  then show ?case by (simp add: mux_lines_def used_lines_def)
next
  case (Cons l ls)
  let ?g = "iomux_pin func (line_in l) (line_pin l) g"
  show ?case
  proof (cases "0 \<le> line_pin l")
    case False
    then have "used_lines (l # ls) = used_lines ls" "mux_lines func (l # ls) g = mux_lines func ls g"
      by (simp_all add: used_lines_def mux_lines_def)
    then show ?thesis using Cons by simp
  next
    case True
    then have e: "used_lines (l # ls) = l # used_lines ls" "mux_lines func (l # ls) g = mux_lines func ls ?g"
      by (simp_all add: used_lines_def mux_lines_def)
    have v: "GPIO_IS_VALID_GPIO (line_pin l)" using Cons.prems(1) by (simp add: e)
    note one = iomux_pin_effect [OF v, where g = g and func = func and sig = "line_in l"]
    have IH: "(\<forall>l \<in> set (used_lines ls). line_muxed func (mux_lines func ls ?g) l)"
        "\<And>n. n \<notin> (nat \<circ> line_pin) ` set (used_lines ls) \<Longrightarrow> pads (mux_lines func ls ?g) n = pads ?g n"
        "\<And>sig. sig \<notin> line_in ` set ls \<Longrightarrow> in_cfg (mux_lines func ls ?g) sig = in_cfg ?g sig"
      using Cons.IH [of ?g] Cons.prems by (simp_all add: e)
    have "line_muxed func (mux_lines func ls ?g) l"
      using IH(2) [OF used_pin_new [OF Cons.prems(2) [unfolded e] True]] IH(3) [of "line_in l"] Cons.prems(3) one(1-4)
      by (simp add: line_muxed_def)
    then show ?thesis
      using IH one(5,6) by (auto simp: e)
  qed
qed

lemma bus_lines_signals:
  "is_valid_host h \<Longrightarrow> octal fs \<longrightarrow> h = SPI2_HOST \<Longrightarrow> distinct (map line_in (bus_lines h c fs t))"
  by (auto simp: is_valid_host_def bus_lines_def spi_periph_signal_def spi_setup_consts Let_def)

text \<open>No pin of the IO MUX in octal mode is pin 0, which is why the loop may skip it.\<close>

lemma list_all_zip_pins:
  "list_all (\<lambda>(io, mux :: int). io < 0 \<or> io = mux) (zip ios muxs) \<Longrightarrow> length ios = length muxs \<Longrightarrow>
   \<forall>mux \<in> set muxs. 0 < mux \<Longrightarrow> io \<in> set ios \<Longrightarrow> 0 < io \<longleftrightarrow> 0 \<le> io"
  by (induction ios muxs rule: list_induct2') auto

lemma oct_pins_positive:
  assumes "check_iomux_pins_oct h c"
    and "io \<in> {mosi_io_num c, miso_io_num c, quadwp_io_num c, quadhd_io_num c, sclk_io_num c,
      data4_io_num c, data5_io_num c, data6_io_num c, data7_io_num c}"
  shows "0 < io \<longleftrightarrow> 0 \<le> io"
  using assms(2)
  by (intro list_all_zip_pins [OF conjunct2 [OF assms(1) [unfolded check_iomux_pins_oct_def]]]) auto

lemma mux_set_lines:
  assumes "octal (bus_flags c) = octal fs" "use_iomux h c fs"
  shows "bus_iomux_pins_set h c g =
    Inr (mux_lines (if octal fs then 2 else iomux_func (spi_periph_signal h)) (bus_lines h c fs t) g)"
proof (cases "octal fs")
  case True
  then have m: "check_iomux_pins_oct h c"
    using assms by (simp add: use_iomux_def bus_uses_iomux_pins_def)
  then have h: "h = SPI2_HOST" by (simp add: check_iomux_pins_oct_def)
  let ?pins = "[mosi_io_num c, miso_io_num c, quadwp_io_num c, quadhd_io_num c, sclk_io_num c,
      data4_io_num c, data5_io_num c, data6_io_num c, data7_io_num c]"
  let ?p = "spi_periph_signal h"
  have "zip ?pins [spid_in ?p, spiq_in ?p, spiwp_in ?p, spihd_in ?p, spiclk_in ?p, spid4_out ?p, spid5_out ?p, spid6_out ?p, spid7_out ?p] =
      map (\<lambda>l. (line_pin l, line_in l)) (bus_lines h c fs t)"
    using True h by (simp add: bus_lines_def spi_periph_signal_def spi_setup_consts Let_def)
  then have "bus_iomux_pins_set h c g =
      Inr (fold (\<lambda>l g. if line_pin l > 0 then iomux_pin 2 (line_in l) (line_pin l) g else g) (bus_lines h c fs t) g)"
    unfolding bus_iomux_pins_set_def bus_iomux_pins_set_oct_def Let_def
    using True assms(1) h by (simp only: fold_map comp_def prod.case if_True simp_thms if_False)
  moreover have "0 < line_pin l \<longleftrightarrow> 0 \<le> line_pin l" if "l \<in> set (bus_lines h c fs t)" for l
    by (rule oct_pins_positive [OF m], use that in \<open>simp only: bus_lines_def Let_def True if_True append.simps list.set\<close>) fastforce
  then have "fold (\<lambda>l g. if line_pin l > 0 then iomux_pin 2 (line_in l) (line_pin l) g else g) (bus_lines h c fs t) g =
      fold (\<lambda>l g. if 0 \<le> line_pin l then iomux_pin 2 (line_in l) (line_pin l) g else g) (bus_lines h c fs t) g"
    by (intro fold_cong refl ext) simp_all
  ultimately show ?thesis using True by (simp only: mux_lines_def if_True)
next
  case False
  let ?p = "spi_periph_signal h"
  have "[(mosi_io_num c, spid_in ?p), (miso_io_num c, spiq_in ?p), (quadwp_io_num c, spiwp_in ?p),
      (quadhd_io_num c, spihd_in ?p), (sclk_io_num c, spiclk_in ?p)] = map (\<lambda>l. (line_pin l, line_in l)) (bus_lines h c fs t)"
    using False by (simp add: bus_lines_def Let_def)
  then show ?thesis
    using False assms(1)
    by (simp only: bus_iomux_pins_set_def bus_iomux_pins_set_quad_def mux_lines_def Let_def fold_map comp_def prod.case if_False)
qed

lemma pin_flags_bits:
  "bit (pin_flags h c fs) 1 = use_iomux h c fs" "bit (pin_flags h c fs) 2 = (\<not> use_iomux h c fs)"
  "bit (pin_flags h c fs) 8 = io4_7_enabled c"
  by (simp_all add: pin_flags_def flag_if_def bus_flag_defs bit_or_iff)

lemma octal_bits: "octal fs \<longleftrightarrow> bit fs 6 \<and> bit fs 7 \<and> bit fs 8"
proof -
  have oct: "SPICOMMON_BUSFLAG_OCTAL = push_bit 6 1 OR push_bit 7 1 OR push_bit 8 1"
    by (simp add: bus_flag_defs)
  have "bit SPICOMMON_BUSFLAG_OCTAL j \<longleftrightarrow> j \<in> {6, 7, 8}" for j
    unfolding oct by (simp only: bit_or_iff bit_push_bit_iff bit_1_iff) auto
  then have "bit (fs AND SPICOMMON_BUSFLAG_OCTAL) j = bit SPICOMMON_BUSFLAG_OCTAL j \<longleftrightarrow> (j \<in> {6, 7, 8} \<longrightarrow> bit fs j)" for j
    by (auto simp: bit_and_iff)
  moreover have "octal fs \<longleftrightarrow> (\<forall>j. bit (fs AND SPICOMMON_BUSFLAG_OCTAL) j = bit SPICOMMON_BUSFLAG_OCTAL j)"
    unfolding octal_def by (rule iffI, simp only: simp_thms, rule bit_word_eqI, simp only: simp_thms)
  ultimately show ?thesis by auto
qed

lemma missing_bit:
  assumes "fs AND NOT t AND NOT SPICOMMON_BUSFLAG_MASTER AND NOT SPICOMMON_BUSFLAG_SLP_ALLOW_PD = 0"
    and "bit fs j" "j \<notin> {0, 9}"
  shows "bit t j"
proof -
  have f: "SPICOMMON_BUSFLAG_MASTER = push_bit 0 1" "SPICOMMON_BUSFLAG_SLP_ALLOW_PD = push_bit 9 1"
    by (simp_all add: bus_flag_defs)
  have "\<not> bit SPICOMMON_BUSFLAG_MASTER j" "\<not> bit SPICOMMON_BUSFLAG_SLP_ALLOW_PD j"
    using assms(3) unfolding f by (simp_all only: bit_push_bit_iff bit_1_iff) auto
  moreover have "j < 32" using bit_imp_le_length [OF assms(2)] by simp
  moreover have "\<not> bit (fs AND NOT t AND NOT SPICOMMON_BUSFLAG_MASTER AND NOT SPICOMMON_BUSFLAG_SLP_ALLOW_PD) j"
    using assms(1) by simp
  ultimately show ?thesis using assms(2) by (simp add: bit_and_iff bit_not_iff)
qed


lemma flag_bit: "flag w (push_bit k 1) \<longleftrightarrow> bit w k"
  by (simp only: flag_def bit_iff_and_push_bit_not_eq_0)

lemma flag_iomux: "flag (pin_flags h c fs) SPICOMMON_BUSFLAG_IOMUX_PINS = use_iomux h c fs"
proof -
  have iomux: "SPICOMMON_BUSFLAG_IOMUX_PINS = push_bit 1 1" by (simp add: bus_flag_defs)
  show ?thesis unfolding iomux flag_bit by (rule pin_flags_bits)
qed

lemma used_lines_valid:
  assumes "pins_valid c fs" "octal fs \<longrightarrow> io4_7_enabled c" "l \<in> set (used_lines (bus_lines h c fs t))"
  shows "GPIO_IS_VALID_GPIO (line_pin l)"
proof -
  have v: "SPI_CHECK_PIN n b \<longleftrightarrow> (0 \<le> n \<longrightarrow> GPIO_IS_VALID_GPIO n)" for n b
    by (auto simp: SPI_CHECK_PIN_def valid_output_gpio)
  have "0 \<le> line_pin l" using assms(3) by (simp add: used_lines_def)
  moreover have "line_pin l \<in> line_pin ` set (bus_lines h c fs t)" using assms(3) by (auto simp: used_lines_def)
  then have "line_pin l \<in> {mosi_io_num c, miso_io_num c, quadwp_io_num c, quadhd_io_num c, sclk_io_num c} \<or>
      octal fs \<and> line_pin l \<in> {data4_io_num c, data5_io_num c, data6_io_num c, data7_io_num c}"
    by (cases "octal fs") (simp_all add: bus_lines_def Let_def)
  moreover have "\<forall>n \<in> {mosi_io_num c, miso_io_num c, quadwp_io_num c, quadhd_io_num c, sclk_io_num c}. 0 \<le> n \<longrightarrow> GPIO_IS_VALID_GPIO n"
      "octal fs \<longrightarrow> (\<forall>n \<in> {data4_io_num c, data5_io_num c, data6_io_num c, data7_io_num c}. 0 \<le> n \<longrightarrow> GPIO_IS_VALID_GPIO n)"
    using assms(1,2) by (simp_all add: pins_valid_def v)
  ultimately show ?thesis by metis
qed

lemma bus_pins_routed_core:
  fixes rom :: "'g rom_gpio" and g :: "'g gpio_context" and c :: spi_bus_io_config and h :: int and fs :: u32
  assumes rom: "rom_connects rom" and h: "is_valid_host h"
    and fs_def: "fs = SPICOMMON_BUSFLAG_MASTER OR bus_flags c"
    and d: "distinct (map line_pin (used_lines (bus_lines h c fs 0)))"
  shows "\<exists>err r g'. spicommon_bus_initialize_io rom h c fs g = Inr (err, r, g') \<and>
    (if err = ESP_OK then
       \<exists>t. r = Some t \<and> (\<forall>j. bit fs j \<and> j \<notin> {0, 9} \<longrightarrow> bit t j) \<and>
         (let ls = used_lines (bus_lines h c fs t)
          in (\<forall>l \<in> set ls. if flag t SPICOMMON_BUSFLAG_IOMUX_PINS
                then line_muxed (if octal fs then 2 else iomux_func (spi_periph_signal h)) g' l else line_routed g' l) \<and>
             (\<forall>n. n \<notin> (nat \<circ> line_pin) ` set ls \<longrightarrow> pads g' n = pads g n))
     else r = None \<and> g' = g)"
proof -
  define t where "t = pin_flags h c fs"
  let ?ls = "bus_lines h c fs t"
  have oct: "octal (bus_flags c) = octal fs"
    by (simp add: octal_bits fs_def bus_flag_defs bit_or_iff)
  have mux: "flag t SPICOMMON_BUSFLAG_IOMUX_PINS = use_iomux h c fs"
    unfolding t_def by (rule flag_iomux)
  have "map line_pin ?ls = map line_pin (bus_lines h c fs 0)" by (simp add: bus_lines_def Let_def)
  then have "map line_pin (used_lines ?ls) = map line_pin (used_lines (bus_lines h c fs 0))"
    unfolding used_lines_def by (metis (mono_tags, lifting) filter_map map_map comp_def filter_cong)
  then have dp: "distinct (map line_pin (used_lines ?ls))" using d by simp
  have one: "SPICOMMON_BUSFLAG_MASTER = push_bit 0 1" by (simp add: bus_flag_defs)
  have master: "flag fs SPICOMMON_BUSFLAG_MASTER"
    unfolding one flag_bit by (simp add: fs_def bit_or_iff bus_flag_defs)
  consider "\<not> (h = SPI2_HOST \<or> \<not> octal fs)" | "\<not> pins_valid c fs"
    | "fs AND NOT t AND NOT SPICOMMON_BUSFLAG_MASTER AND NOT SPICOMMON_BUSFLAG_SLP_ALLOW_PD \<noteq> 0"
    | "octal fs \<longrightarrow> h = SPI2_HOST" "pins_valid c fs"
      "fs AND NOT t AND NOT SPICOMMON_BUSFLAG_MASTER AND NOT SPICOMMON_BUSFLAG_SLP_ALLOW_PD = 0" by blast
  then show ?thesis
  proof cases
    case 4
    note bits = missing_bit [OF 4(3)]
    have "octal fs \<longrightarrow> io4_7_enabled c"
      using bits [of 8] pin_flags_bits(3) [of h c fs] by (auto simp: octal_bits t_def)
    then have v: "\<forall>l \<in> set (used_lines ?ls). GPIO_IS_VALID_GPIO (line_pin l)"
      using used_lines_valid [OF 4(2)] by blast
    have s: "distinct (map line_in ?ls)" using 4(1) by (intro bus_lines_signals [OF h]) simp
    let ?F = "if octal fs then 2 else iomux_func (spi_periph_signal h)"
    let ?g = "if use_iomux h c fs then mux_lines ?F ?ls g else connect_lines rom ?ls g"
    have "spicommon_bus_initialize_io rom h c fs g = Inr (ESP_OK, Some t, ?g)"
      using 4 master mux_set_lines [OF oct, where t = t and h = h and g = g]
      by (auto simp: spicommon_bus_initialize_io_def t_def [symmetric] Let_def)
    moreover have "(\<forall>l \<in> set (used_lines ?ls). if use_iomux h c fs then line_muxed ?F ?g l else line_routed ?g l) \<and>
        (\<forall>n. n \<notin> (nat \<circ> line_pin) ` set (used_lines ?ls) \<longrightarrow> pads ?g n = pads g n)"
      using connect_lines_effect [OF rom v dp s, of g] mux_lines_effect [OF v dp s, of ?F g] by (cases "use_iomux h c fs") simp_all
    ultimately show ?thesis using bits by (auto simp: mux Let_def)
  qed (auto simp: spicommon_bus_initialize_io_def t_def Let_def)
qed

lemma used_pins: "map line_pin (used_lines ls) = filter (\<lambda>n. 0 \<le> n) (map line_pin ls)"
  by (simp add: used_lines_def filter_map comp_def)

lemma initialize_io_flags:
  "spicommon_bus_initialize_io rom h c fs g = Inr (ESP_OK, Some t, g') \<Longrightarrow> t = pin_flags h c fs"
  by (auto simp: spicommon_bus_initialize_io_def bindr_def Let_def split: if_splits sum.splits)

section \<open>The wiring of a bus\<close>

text \<open>
  What the wiring of a bus is to be, independent of the code: for each line its pin, the number of its signal in
  the GPIO matrix, which on this chip is the same in both directions, and its pin of the IO MUX. The numbers are
  those of \<open>gpio_sig_map.h\<close> and \<open>spi_pins.h\<close>, in the order data 0 to 3, clock, data 4 to 7.
\<close>

definition bus_pins :: "spi_bus_io_config \<Rightarrow> int list" where
  "bus_pins c = [mosi_io_num c, miso_io_num c, quadwp_io_num c, quadhd_io_num c, sclk_io_num c] @
     (if octal (bus_flags c) then [data4_io_num c, data5_io_num c, data6_io_num c, data7_io_num c] else [])"

definition bus_signals :: "int \<Rightarrow> nat list" where
  "bus_signals h = (if h = SPI2_HOST then [103, 102, 105, 104, 101, 106, 107, 108, 109] else [68, 67, 70, 69, 66, 0, 0, 0, 0])"

definition bus_mux_pins :: "int \<Rightarrow> spi_bus_io_config \<Rightarrow> int list" where
  "bus_mux_pins h c =
     (if h \<noteq> SPI2_HOST then replicate 9 255 else if octal (bus_flags c) then [35, 37, 38, 33, 36, 10, 11, 12, 13]
      else [11, 13, 14, 9, 12])"

definition bus_mux_func :: "int \<Rightarrow> spi_bus_io_config \<Rightarrow> int" where
  "bus_mux_func h c = (if octal (bus_flags c) then 2 else if h = SPI2_HOST then 4 else -1)"

definition bus_wires :: "int \<Rightarrow> spi_bus_io_config \<Rightarrow> (int \<times> nat) list" where
  "bus_wires h c = filter (\<lambda>(pin, sig). 0 \<le> pin) (zip (bus_pins c) (bus_signals h))"

text \<open>A pin that is an input and output of a signal through the matrix, or through the IO MUX.\<close>

definition wire_routed :: "'g gpio_context \<Rightarrow> int \<Rightarrow> nat \<Rightarrow> bool" where
  "wire_routed g pin sig \<longleftrightarrow>
     (let p = pads g (nat pin); o' = out_cfg p
      in ie p \<and> oe p \<and> \<not> od p \<and> mcu_sel p = PIN_FUNC_GPIO \<and>
         out_func_sel o' = sig \<and> \<not> out_inv_sel o' \<and> \<not> oen_inv_sel o') \<and>
     in_cfg g sig = \<lparr>in_func_sel = pin, in_inv_sel = False, sig_in_sel = True\<rparr>"

definition wire_muxed :: "int \<Rightarrow> 'g gpio_context \<Rightarrow> int \<Rightarrow> nat \<Rightarrow> bool" where
  "wire_muxed func g pin sig \<longleftrightarrow>
     (let p = pads g (nat pin) in ie p \<and> mcu_sel p = func \<and> \<not> oen_sel (out_cfg p)) \<and> \<not> sig_in_sel (in_cfg g sig)"

definition bus_wired :: "bool \<Rightarrow> int \<Rightarrow> spi_bus_io_config \<Rightarrow> 'g gpio_context \<Rightarrow> bool" where
  "bus_wired mux h c g = list_all (\<lambda>(pin, sig). if mux then wire_muxed (bus_mux_func h c) g pin sig else wire_routed g pin sig)
     (bus_wires h c)"

lemma master_octal:
  assumes "fs = SPICOMMON_BUSFLAG_MASTER OR bus_flags c"
  shows "octal (bus_flags c) = octal fs" "flag fs SPICOMMON_BUSFLAG_MASTER"
proof -
  show "octal (bus_flags c) = octal fs"
    by (simp add: octal_bits assms bus_flag_defs bit_or_iff)
  have one: "SPICOMMON_BUSFLAG_MASTER = push_bit 0 1" by (simp add: bus_flag_defs)
  show "flag fs SPICOMMON_BUSFLAG_MASTER"
    unfolding one flag_bit by (simp add: assms bit_or_iff bus_flag_defs)
qed

text \<open>The lines that a master connects, all of them in both directions, are those of the wiring.\<close>

lemma bus_lines_wires:
  assumes h: "is_valid_host h" and fs: "fs = SPICOMMON_BUSFLAG_MASTER OR bus_flags c"
    and oct: "octal fs \<longrightarrow> h = SPI2_HOST" and dual: "flag t SPICOMMON_BUSFLAG_DUAL"
  shows "used_lines (bus_lines h c fs t) =
    map (\<lambda>(pin, sig). \<lparr>line_pin = pin, line_out = sig, line_in = sig, line_output = True\<rparr>) (bus_wires h c)"
proof -
  note m = master_octal [OF fs]
  have "bus_lines h c fs t =
      map (\<lambda>(pin, sig). \<lparr>line_pin = pin, line_out = sig, line_in = sig, line_output = True\<rparr>) (zip (bus_pins c) (bus_signals h))"
    using h oct m dual
    by (cases "octal fs") (auto simp: is_valid_host_def bus_lines_def bus_pins_def bus_signals_def spi_periph_signal_def
        spi_setup_consts sclk_need_output_def Let_def)
  then show ?thesis
    by (simp add: used_lines_def bus_wires_def filter_map comp_def) (simp add: case_prod_unfold)
qed

lemma pins_of_lines: "octal (bus_flags c) = octal fs \<Longrightarrow> map line_pin (bus_lines h c fs t) = bus_pins c"
  by (simp add: bus_lines_def bus_pins_def Let_def)

lemma accepted_pins:
  assumes "spicommon_bus_initialize_io rom h c fs g = Inr (ESP_OK, Some t, g')"
  shows "octal fs \<longrightarrow> h = SPI2_HOST" "pins_valid c fs" "t = pin_flags h c fs"
proof -
  show "octal fs \<longrightarrow> h = SPI2_HOST" "pins_valid c fs"
    using assms by (auto simp: spicommon_bus_initialize_io_def Let_def split: if_splits)
  show "t = pin_flags h c fs"
    by (rule initialize_io_flags [OF assms])
qed

lemma dual_reported: "pins_valid c fs \<Longrightarrow> flag (pin_flags h c fs) SPICOMMON_BUSFLAG_DUAL"
proof -
  assume v: "pins_valid c fs"
  have "(mosi_io_num c < 0 \<or> GPIO_IS_VALID_OUTPUT_GPIO (mosi_io_num c)) \<and>
      (miso_io_num c < 0 \<or> GPIO_IS_VALID_OUTPUT_GPIO (miso_io_num c))"
    using v by (auto simp: pins_valid_def SPI_CHECK_PIN_def valid_output_gpio split: if_splits)
  then have "bit (pin_flags h c fs) 6"
    by (simp add: pin_flags_def flag_if_def bus_flag_defs bit_or_iff)
  moreover have dual: "SPICOMMON_BUSFLAG_DUAL = push_bit 6 1" by (simp add: bus_flag_defs)
  ultimately show ?thesis unfolding dual flag_bit by simp
qed

text \<open>When the IO MUX is used.\<close>

lemma use_iomux_pins:
  assumes h: "is_valid_host h" and fs: "fs = SPICOMMON_BUSFLAG_MASTER OR bus_flags c" and oct: "octal fs \<longrightarrow> h = SPI2_HOST"
  shows "use_iomux h c fs \<longleftrightarrow>
    \<not> bit fs 2 \<and> list_all (\<lambda>(pin, mux). pin < 0 \<or> pin = mux) (zip (bus_pins c) (bus_mux_pins h c))"
proof -
  note m = master_octal [OF fs]
  have g: "SPICOMMON_BUSFLAG_GPIO_PINS = push_bit 2 1" by (simp add: bus_flag_defs)
  have "bus_uses_iomux_pins h c \<longleftrightarrow> list_all (\<lambda>(pin, mux). pin < 0 \<or> pin = mux) (zip (bus_pins c) (bus_mux_pins h c))"
    using h oct m
    by (cases "octal fs") (auto simp: is_valid_host_def bus_uses_iomux_pins_def check_iomux_pins_oct_def check_iomux_pins_quad_def
        bus_pins_def bus_mux_pins_def spi_periph_signal_def spi_setup_consts eval_nat_numeral Let_def)
  then show ?thesis
    unfolding use_iomux_def g flag_bit by simp
qed

text \<open>
  C37: Connecting the pins of a bus, as \<open>spi_bus_initialize\<close> does for a master with
  distinct pins, returns. When the pins are refused nothing has been changed. When they are
  accepted, every function that was asked for is among those reported, and every pin that is used
  is connected to the signal of its line as \<open>bus_wires\<close> lists them, a table of its
  own: as an input and output through the GPIO matrix, or through the IO MUX, which is taken
  exactly when the matrix was not asked for and every pin that is used is the one of the IO MUX.
  The pads of other pins are as they were.
\<close>

theorem bus_pins_routed:
  fixes rom :: "'g rom_gpio" and g :: "'g gpio_context" and c :: spi_bus_io_config and h :: int and fs :: u32
  assumes rom: "rom_connects rom" and h: "is_valid_host h"
    and fs_def: "fs = SPICOMMON_BUSFLAG_MASTER OR bus_flags c"
    and d: "distinct (filter (\<lambda>n. 0 \<le> n) (bus_pins c))"
  shows "\<exists>err r g'. spicommon_bus_initialize_io rom h c fs g = Inr (err, r, g') \<and>
    (if err = ESP_OK then
       \<exists>t. r = Some t \<and> (\<forall>j. bit fs j \<and> j \<notin> {0, 9} \<longrightarrow> bit t j) \<and>
         (bit t 1 \<longleftrightarrow> \<not> bit fs 2 \<and> list_all (\<lambda>(pin, mux). pin < 0 \<or> pin = mux) (zip (bus_pins c) (bus_mux_pins h c))) \<and>
         bus_wired (bit t 1) h c g' \<and> (\<forall>n. int n \<notin> set (bus_pins c) \<longrightarrow> pads g' n = pads g n)
     else r = None \<and> g' = g)"
proof -
  note m = master_octal [OF fs_def]
  have d': "distinct (map line_pin (used_lines (bus_lines h c fs 0)))"
    using d by (simp add: used_pins pins_of_lines [OF m(1)])
  obtain err r g' where run: "spicommon_bus_initialize_io rom h c fs g = Inr (err, r, g')"
    and core: "if err = ESP_OK then
       \<exists>t. r = Some t \<and> (\<forall>j. bit fs j \<and> j \<notin> {0, 9} \<longrightarrow> bit t j) \<and>
         (let ls = used_lines (bus_lines h c fs t)
          in (\<forall>l \<in> set ls. if flag t SPICOMMON_BUSFLAG_IOMUX_PINS
                then line_muxed (if octal fs then 2 else iomux_func (spi_periph_signal h)) g' l else line_routed g' l) \<and>
             (\<forall>n. n \<notin> (nat \<circ> line_pin) ` set ls \<longrightarrow> pads g' n = pads g n))
     else r = None \<and> g' = g"
    using bus_pins_routed_core [OF rom h fs_def d', of g] by blast
  show ?thesis
  proof (cases "err = ESP_OK")
    case False
    then show ?thesis using run core by auto
  next
    case True
    then obtain t where t: "r = Some t" "\<forall>j. bit fs j \<and> j \<notin> {0, 9} \<longrightarrow> bit t j"
      and ls: "\<forall>l \<in> set (used_lines (bus_lines h c fs t)). if flag t SPICOMMON_BUSFLAG_IOMUX_PINS
          then line_muxed (if octal fs then 2 else iomux_func (spi_periph_signal h)) g' l else line_routed g' l"
        "\<forall>n. n \<notin> (nat \<circ> line_pin) ` set (used_lines (bus_lines h c fs t)) \<longrightarrow> pads g' n = pads g n"
      using core by (auto simp: Let_def)
    note acc = accepted_pins [OF run [unfolded True t(1)]]
    have wires: "used_lines (bus_lines h c fs t) =
        map (\<lambda>(pin, sig). \<lparr>line_pin = pin, line_out = sig, line_in = sig, line_output = True\<rparr>) (bus_wires h c)"
      using bus_lines_wires [OF h fs_def acc(1)] dual_reported [OF acc(2)] acc(3) by blast
    have mux: "flag t SPICOMMON_BUSFLAG_IOMUX_PINS = bit t 1" "bit t 1 = use_iomux h c fs"
      using flag_iomux pin_flags_bits(1) acc(3) by simp_all
    have func: "(if octal fs then 2 else iomux_func (spi_periph_signal h)) = bus_mux_func h c"
      using h m(1) by (auto simp: bus_mux_func_def is_valid_host_def spi_periph_signal_def spi_setup_consts)
    have "bus_wired (bit t 1) h c g'"
      using ls(1) unfolding wires func mux(1) bus_wired_def list_all_iff
      by (fastforce simp: line_muxed_def line_routed_def pad_routed_def wire_muxed_def wire_routed_def Let_def split: if_splits)
    moreover have "pads g' n = pads g n" if "int n \<notin> set (bus_pins c)" for n
    proof -
      have "n \<notin> (nat \<circ> line_pin) ` set (used_lines (bus_lines h c fs t))"
        using that by (auto simp: wires bus_wires_def dest!: set_zip_leftD)
      then show ?thesis using ls(2) by blast
    qed
    ultimately show ?thesis
      using run t True mux(2) use_iomux_pins [OF h fs_def acc(1)] by auto
  qed
qed

section \<open>What giving the pins back leaves\<close>

definition pad_released :: "pad \<Rightarrow> bool" where
  "pad_released p \<longleftrightarrow> \<not> ie p \<and> \<not> oe p \<and> pu p \<and> mcu_sel p = PIN_FUNC_GPIO \<and> oen_sel (out_cfg p)"

lemma reset_pin_effect:
  assumes "GPIO_IS_VALID_GPIO n"
  shows "pad_released (pads (snd (gpio_reset_pin n g)) (nat n))" "m \<noteq> nat n \<Longrightarrow> pads (snd (gpio_reset_pin n g)) m = pads g m"
  using assms
  by (simp_all add: pad_released_def gpio_reset_pin_def gpio_op_defs valid_output_gpio gpio_intr_disable_def
      gpio_hal_intr_disable_def set_output_enable_ctrl_def Let_def)

lemma reset_pins_effect:
  "(n \<in> nat ` {io \<in> set ios. GPIO_IS_VALID_GPIO io} \<longrightarrow>
      pad_released (pads (fold (\<lambda>io g. if GPIO_IS_VALID_GPIO io then snd (gpio_reset_pin io g) else g) ios g) n)) \<and>
   (n \<notin> nat ` {io \<in> set ios. GPIO_IS_VALID_GPIO io} \<longrightarrow>
      pads (fold (\<lambda>io g. if GPIO_IS_VALID_GPIO io then snd (gpio_reset_pin io g) else g) ios g) n = pads g n)"
proof (induction ios arbitrary: g)
  case (Cons io ios)
  show ?case
  proof (cases "GPIO_IS_VALID_GPIO io")
    case True
    note one = reset_pin_effect [OF True, where g = g]
    show ?thesis using Cons.IH [of "snd (gpio_reset_pin io g)"] True one by (cases "n = nat io") auto
  next
    case False
    then show ?thesis using Cons.IH [of g] by auto
  qed
qed simp

lemma free_io_effect:
  defines "pins c \<equiv> {mosi_io_num c, miso_io_num c, sclk_io_num c, quadwp_io_num c, quadhd_io_num c}"
  shows "io \<in> pins c \<Longrightarrow> GPIO_IS_VALID_GPIO io \<Longrightarrow> pad_released (pads (snd (spicommon_bus_free_io_cfg c g)) (nat io))"
    and "n \<notin> nat ` {io \<in> pins c. GPIO_IS_VALID_GPIO io} \<Longrightarrow> pads (snd (spicommon_bus_free_io_cfg c g)) n = pads g n"
  using reset_pins_effect [of _ "[mosi_io_num c, miso_io_num c, sclk_io_num c, quadwp_io_num c, quadhd_io_num c]" g]
  by (auto simp: spicommon_bus_free_io_cfg_def pins_def)

text \<open>The pins of data 4 to 7 are not among those that are given back.\<close>

definition octal_pins :: "spi_bus_io_config \<Rightarrow> int set" where
  "octal_pins c = {data4_io_num c, data5_io_num c, data6_io_num c, data7_io_num c}"

lemma octal_pins_apart:
  assumes fs: "octal fs" and en: "io4_7_enabled c" and d: "distinct (map line_pin (used_lines (bus_lines h c fs 0)))"
    and io: "io \<in> octal_pins c"
  shows "0 \<le> io"
    and "nat io \<notin> nat ` {k \<in> {mosi_io_num c, miso_io_num c, sclk_io_num c, quadwp_io_num c, quadhd_io_num c}. GPIO_IS_VALID_GPIO k}"
proof -
  let ?five = "[mosi_io_num c, miso_io_num c, quadwp_io_num c, quadhd_io_num c, sclk_io_num c]"
  let ?four = "[data4_io_num c, data5_io_num c, data6_io_num c, data7_io_num c]"
  have io': "io \<in> set ?four" using io by (simp add: octal_pins_def)
  then show pos: "0 \<le> io" using en by (simp only: io4_7_enabled_def list.set) blast
  have "map line_pin (bus_lines h c fs 0) = ?five @ ?four" using fs by (simp add: bus_lines_def Let_def)
  then have "set (filter (\<lambda>n. 0 \<le> n) ?five) \<inter> set (filter (\<lambda>n. 0 \<le> n) ?four) = {}"
    using d by (simp only: used_pins filter_append distinct_append)
  then have "k \<in> set ?five \<Longrightarrow> 0 \<le> k \<Longrightarrow> k \<noteq> io" for k
    using io' by (metis (mono_tags, lifting) Int_iff empty_iff mem_Collect_eq set_filter)
  then have "nat io \<notin> nat ` {k \<in> set ?five. GPIO_IS_VALID_GPIO k}"
    using pos by (force simp: GPIO_IS_VALID_GPIO_def simp del: list.set)
  then show "nat io \<notin> nat ` {k \<in> {mosi_io_num c, miso_io_num c, sclk_io_num c, quadwp_io_num c, quadhd_io_num c}. GPIO_IS_VALID_GPIO k}"
    by auto
qed

text \<open>
  C38: Giving back the pins of an octal bus forgets half of the data lines: of a bus whose pins
  were accepted in octal mode the pins of the clock, of data 0 and 1 and of the two lines for data
  2 and 3 are reset, but the pins of data 4 to 7 are still outputs of the host when the bus is
  gone.
\<close>

theorem octal_pins_not_freed:
  fixes rom :: "'g rom_gpio" and g :: "'g gpio_context" and c :: spi_bus_io_config and h :: int
  assumes rom: "rom_connects rom" and h: "is_valid_host h" and o: "octal (bus_flags c)" "\<not> use_iomux h c (SPICOMMON_BUSFLAG_MASTER OR bus_flags c)"
    and d: "distinct (map line_pin (used_lines (bus_lines h c (SPICOMMON_BUSFLAG_MASTER OR bus_flags c) 0)))"
    and ok: "spicommon_bus_initialize_io rom h c (SPICOMMON_BUSFLAG_MASTER OR bus_flags c) g = Inr (ESP_OK, Some t, g1)"
    and free: "spicommon_bus_free_io_cfg c g1 = (err, g2)"
  shows "(\<forall>io \<in> {mosi_io_num c, miso_io_num c, sclk_io_num c, quadwp_io_num c, quadhd_io_num c}.
            GPIO_IS_VALID_GPIO io \<longrightarrow> pad_released (pads g2 (nat io))) \<and>
         (\<forall>(io, sig) \<in> {(data4_io_num c, spid4_out (spi_periph_signal h)), (data5_io_num c, spid5_out (spi_periph_signal h)),
             (data6_io_num c, spid6_out (spi_periph_signal h)), (data7_io_num c, spid7_out (spi_periph_signal h))}.
            oe (pads g2 (nat io)) \<and> mcu_sel (pads g2 (nat io)) = PIN_FUNC_GPIO \<and> out_func_sel (out_cfg (pads g2 (nat io))) = sig)"
proof -
  let ?fs = "SPICOMMON_BUSFLAG_MASTER OR bus_flags c"
  have fs: "octal ?fs" using o(1) by (simp add: octal_bits bus_flag_defs bit_or_iff)
  have g2: "g2 = snd (spicommon_bus_free_io_cfg c g1)" by (simp add: free)
  have t: "t = pin_flags h c ?fs" using initialize_io_flags [OF ok] .
  have mux: "\<not> flag t SPICOMMON_BUSFLAG_IOMUX_PINS"
    using o(2) flag_iomux [of h c ?fs] by (simp add: t)
  have r: "\<forall>j. bit ?fs j \<and> j \<notin> {0, 9} \<longrightarrow> bit t j" "\<forall>l \<in> set (used_lines (bus_lines h c ?fs t)). line_routed g1 l"
    using bus_pins_routed_core [OF rom h refl d, of g] mux by (simp_all add: ok Let_def)
  have en: "io4_7_enabled c"
    using r(1) [rule_format, of 8] fs pin_flags_bits(3) [of h c ?fs] by (simp add: t octal_bits)
  note four = octal_pins_apart [OF fs en d]
  have kept: "pads g2 (nat io) = pads g1 (nat io)" if "io \<in> octal_pins c" for io
    unfolding g2 by (rule free_io_effect(2) [OF four(2) [OF that]])
  have still: "oe (pads g2 (nat io)) \<and> mcu_sel (pads g2 (nat io)) = PIN_FUNC_GPIO \<and> out_func_sel (out_cfg (pads g2 (nat io))) = sig"
    if "\<lparr>line_pin = io, line_out = sig, line_in = i, line_output = True\<rparr> \<in> set (bus_lines h c ?fs t)" "io \<in> octal_pins c" for io sig i
  proof -
    have "line_routed g1 \<lparr>line_pin = io, line_out = sig, line_in = i, line_output = True\<rparr>"
      using r(2) that(1) four(1) [OF that(2)] by (simp add: used_lines_def)
    then show ?thesis by (simp add: kept [OF that(2)] line_routed_def pad_routed_def)
  qed
  let ?p = "spi_periph_signal h"
  have m: "\<lparr>line_pin = data4_io_num c, line_out = spid4_out ?p, line_in = spid4_in ?p, line_output = True\<rparr> \<in> set (bus_lines h c ?fs t)"
      "\<lparr>line_pin = data5_io_num c, line_out = spid5_out ?p, line_in = spid5_in ?p, line_output = True\<rparr> \<in> set (bus_lines h c ?fs t)"
      "\<lparr>line_pin = data6_io_num c, line_out = spid6_out ?p, line_in = spid6_in ?p, line_output = True\<rparr> \<in> set (bus_lines h c ?fs t)"
      "\<lparr>line_pin = data7_io_num c, line_out = spid7_out ?p, line_in = spid7_in ?p, line_output = True\<rparr> \<in> set (bus_lines h c ?fs t)"
    using fs by (simp_all add: bus_lines_def Let_def)
  have "\<forall>(io, sig) \<in> {(data4_io_num c, spid4_out ?p), (data5_io_num c, spid5_out ?p), (data6_io_num c, spid6_out ?p),
      (data7_io_num c, spid7_out ?p)}.
      oe (pads g2 (nat io)) \<and> mcu_sel (pads g2 (nat io)) = PIN_FUNC_GPIO \<and> out_func_sel (out_cfg (pads g2 (nat io))) = sig"
    by (simp add: m [THEN still] octal_pins_def)
  moreover have "\<forall>io \<in> {mosi_io_num c, miso_io_num c, sclk_io_num c, quadwp_io_num c, quadhd_io_num c}.
            GPIO_IS_VALID_GPIO io \<longrightarrow> pad_released (pads g2 (nat io))"
    unfolding g2 by (intro ballI impI free_io_effect(1))
  ultimately show ?thesis by blast
qed

text \<open>The functions reported do not say which pins were connected: in the matrix the last four lines are connected only when octal mode was asked for.\<close>

lemma octal_reported_not_routed:
  fixes rom :: "'g rom_gpio" and g :: "'g gpio_context"
  assumes rom: "rom_connects rom" and h: "is_valid_host h" and no: "\<not> octal (bus_flags c)"
    and pins: "io4_7_enabled c" "0 \<le> quadwp_io_num c" "0 \<le> quadhd_io_num c"
    and d: "distinct (map line_pin (used_lines (bus_lines h c (SPICOMMON_BUSFLAG_MASTER OR bus_flags c) 0)))"
    and other: "n \<notin> {nat (mosi_io_num c), nat (miso_io_num c), nat (sclk_io_num c), nat (quadwp_io_num c), nat (quadhd_io_num c)}"
    and dual: "GPIO_IS_VALID_GPIO (mosi_io_num c)" "GPIO_IS_VALID_GPIO (miso_io_num c)"
    and ok: "spicommon_bus_initialize_io rom h c (SPICOMMON_BUSFLAG_MASTER OR bus_flags c) g = Inr (ESP_OK, Some t, g1)"
  shows "octal t \<and> pads g1 n = pads g n"
proof -
  let ?fs = "SPICOMMON_BUSFLAG_MASTER OR bus_flags c"
  have fs: "\<not> octal ?fs" using no by (simp add: octal_bits bus_flag_defs bit_or_iff)
  have "octal (pin_flags h c ?fs)"
    using pins dual by (simp add: octal_bits pin_flags_def flag_if_def bus_flag_defs bit_or_iff valid_output_gpio)
  then have "octal t" by (simp add: initialize_io_flags [OF ok])
  moreover have "pads g1 n = pads g n"
    using bus_pins_routed_core [OF rom h refl d, of g] other fs
    by (auto simp: ok Let_def used_lines_def bus_lines_def split: if_splits)
  ultimately show ?thesis by blast
qed

section \<open>The bus of the display, and an octal bus\<close>

definition plain_rom :: "'g rom_gpio" where
  "plain_rom = \<lparr>
     connect_out_signal = (\<lambda>n sig inv oen_inv. upd_pad n (\<lambda>p. p\<lparr>oe := True,
       out_cfg := \<lparr>out_func_sel = sig, out_inv_sel = inv, oen_sel = False, oen_inv_sel = oen_inv\<rparr>\<rparr>)),
     connect_in_signal = (\<lambda>n sig inv g. g\<lparr>in_cfg := (in_cfg g)(sig := \<lparr>in_func_sel = n, in_inv_sel = inv, sig_in_sel = True\<rparr>)\<rparr>)\<rparr>"

lemma plain_rom_connects: "rom_connects plain_rom"
  by (auto simp: rom_connects_def plain_rom_def)

definition lcd_io_config :: spi_bus_io_config where
  "lcd_io_config = spi_bus_config.extend lcd_bus_config
     \<lparr>data4_io_num = 0, data5_io_num = 0, data6_io_num = 0, data7_io_num = 0, bus_flags = 0\<rparr>"

definition octal_io_config :: spi_bus_io_config where
  "octal_io_config = \<lparr>mosi_io_num = 1, miso_io_num = 2, sclk_io_num = 3, quadwp_io_num = 4, quadhd_io_num = 5,
     cfg_max_transfer_sz = 0, bus_intr_flags = 0, data4_io_num = 6, data5_io_num = 7, data6_io_num = 8, data7_io_num = 15,
     bus_flags = 0x1C4\<rparr>"

lemmas io_config_defs = lcd_io_config_def lcd_bus_config_def octal_io_config_def spi_bus_config.defs spi_setup_consts
  is_valid_host_def bus_flag_defs

lemma lcd_pins_accepted:
  "\<exists>g'. spicommon_bus_initialize_io rom 2 lcd_io_config SPICOMMON_BUSFLAG_MASTER g = Inr (ESP_OK, Some 0x7C, g')"
  by (simp add: spicommon_bus_initialize_io_def io_config_defs octal_def flag_def pins_valid_def SPI_CHECK_PIN_def
      sclk_need_output_def mosi_need_output_def miso_need_output_def io4_7_enabled_def pin_flags_def flag_if_def use_iomux_def
      bus_uses_iomux_pins_def check_iomux_pins_quad_def spi_periph_signal_def GPIO_IS_VALID_GPIO_def
      GPIO_IS_VALID_OUTPUT_GPIO_def SOC_GPIO_VALID_OUTPUT_GPIO_MASK_def SOC_GPIO_VALID_GPIO_MASK_def Let_def)

lemma bus_pins_routed_witness:
  "\<exists>g'. spicommon_bus_initialize_io plain_rom 2 lcd_io_config SPICOMMON_BUSFLAG_MASTER (demo_gpio :: nat gpio_context) =
       Inr (ESP_OK, Some 0x7C, g') \<and>
     oe (pads g' 13) \<and> out_func_sel (out_cfg (pads g' 13)) = 68 \<and> oe (pads g' 11) \<and> out_func_sel (out_cfg (pads g' 11)) = 66 \<and>
     in_cfg g' 67 = \<lparr>in_func_sel = 12, in_inv_sel = False, sig_in_sel = True\<rparr> \<and> pads g' 10 = pads (demo_gpio :: nat gpio_context) 10"
proof -
  let ?fs = "SPICOMMON_BUSFLAG_MASTER OR bus_flags lcd_io_config"
  have h: "is_valid_host 2" and f: "?fs = SPICOMMON_BUSFLAG_MASTER"
    by (simp_all add: io_config_defs)
  have d: "distinct (filter (\<lambda>n. 0 \<le> n) (bus_pins lcd_io_config))"
    by (simp add: bus_pins_def io_config_defs octal_def)
  obtain g' where g': "spicommon_bus_initialize_io plain_rom 2 lcd_io_config ?fs (demo_gpio :: nat gpio_context) =
       Inr (ESP_OK, Some 0x7C, g')" using lcd_pins_accepted unfolding f by blast
  have "\<not> bit (0x7C :: u32) 1" by simp
  then have "bus_wired False 2 lcd_io_config g'" "\<forall>n. int n \<notin> set (bus_pins lcd_io_config) \<longrightarrow> pads g' n = pads (demo_gpio :: nat gpio_context) n"
    using bus_pins_routed [OF plain_rom_connects h refl d, of "demo_gpio :: nat gpio_context"] g' by auto
  then show ?thesis
    using g' unfolding f
    by (simp add: bus_wired_def wire_routed_def bus_wires_def bus_pins_def bus_signals_def io_config_defs octal_def Let_def)
qed

lemma octal_pins_accepted:
  "\<exists>g'. spicommon_bus_initialize_io rom 1 octal_io_config (SPICOMMON_BUSFLAG_MASTER OR bus_flags octal_io_config) g = Inr (ESP_OK, Some 0x1FC, g')"
  by (simp add: spicommon_bus_initialize_io_def io_config_defs octal_def flag_def pins_valid_def SPI_CHECK_PIN_def
      sclk_need_output_def mosi_need_output_def miso_need_output_def io4_7_enabled_def pin_flags_def flag_if_def use_iomux_def
      bus_uses_iomux_pins_def spi_periph_signal_def GPIO_IS_VALID_GPIO_def
      GPIO_IS_VALID_OUTPUT_GPIO_def SOC_GPIO_VALID_OUTPUT_GPIO_MASK_def SOC_GPIO_VALID_GPIO_MASK_def Let_def)

lemma octal_pins_not_freed_witness:
  "\<exists>g1 g2. spicommon_bus_initialize_io plain_rom 1 octal_io_config (SPICOMMON_BUSFLAG_MASTER OR bus_flags octal_io_config)
       (demo_gpio :: nat gpio_context) = Inr (ESP_OK, Some 0x1FC, g1) \<and>
     spicommon_bus_free_io_cfg octal_io_config g1 = (ESP_OK, g2) \<and> \<not> oe (pads g2 3) \<and>
     oe (pads g2 15) \<and> out_func_sel (out_cfg (pads g2 15)) = 109"
proof -
  let ?fs = "SPICOMMON_BUSFLAG_MASTER OR bus_flags octal_io_config"
  have h: "is_valid_host 1" and o: "octal (bus_flags octal_io_config)" "\<not> use_iomux 1 octal_io_config ?fs"
    by (simp_all add: io_config_defs octal_def use_iomux_def flag_def)
  have d: "distinct (map line_pin (used_lines (bus_lines 1 octal_io_config ?fs 0)))"
    by (simp add: used_lines_def bus_lines_def io_config_defs octal_def Let_def)
  obtain g1 where g1: "spicommon_bus_initialize_io plain_rom 1 octal_io_config ?fs (demo_gpio :: nat gpio_context) =
       Inr (ESP_OK, Some 0x1FC, g1)" using octal_pins_accepted by blast
  obtain g2 where g2: "spicommon_bus_free_io_cfg octal_io_config g1 = (ESP_OK, g2)"
    by (simp add: spicommon_bus_free_io_cfg_def)
  have "GPIO_IS_VALID_GPIO 3" by (simp add: GPIO_IS_VALID_GPIO_def SOC_GPIO_VALID_GPIO_MASK_def)
  then show ?thesis
    using octal_pins_not_freed [OF plain_rom_connects h o d g1 g2] g1 g2
    by (auto simp: octal_io_config_def spi_periph_signal_def pad_released_def)
qed

end
