(* ===== verification/Spec2Isabelle.thy ===== *)
theory Spec2Isabelle
  imports Layout Main_Loop Spi_Background_Safety Spi_Background_Types Spi_Segments_Safety Spi_Driver_Regs
    Spi_Pins
begin

text \<open>
  The firmware of a steering-wheel display: an ESP32-S3 that drives an 800 by 480 panel with an
  RA8875 controller over SPI, and two buttons that choose what is shown. This development models
  the firmware (\<open>src/main\<close>), its driver of the panel (\<open>src/components/RA8875\<close>) and the parts of the
  vendored ESP-IDF that they stand on: the SPI master driver with its bus lock, clock search, DMA
  descriptors and hardware layer down to the registers of the peripheral, and the GPIO driver with its interrupt service.

  \<^bold>\<open>How the parts interact.\<close> \<open>app_main\<close> initialises the display and the buttons and then loops: it
  tests two flags, and a flag that is set is cleared and changes the screen. The flags are set by the
  interrupt handlers of the buttons, which the GPIO interrupt service calls. A screen is a block of
  drawing calls of \<open>display.c\<close>; each becomes calls of the RA8875 driver, each of these writes
  registers of the panel, and each register write is one polling transmission of the SPI driver,
  under the bus lock. The model has the same layers, one theory for each, and every definition of a
  layer calls the definitions of the layer below it. What the driver writes to the registers of the peripheral is followed beside
  these layers: the wires carry what the transaction says, and \<open>Spi_Driver_Regs\<close> shows that the registers say the same.

  \<^bold>\<open>The theories\<close>, in the order of import:

  \<^item> \<open>Prelude\<close>: C integers as words, error codes, the outcome of a statement (\<open>Inr\<close> the new state,
    \<open>Inl\<close> the reason why it never returns), blocks (\<open>seq\<close>, \<open>bindr\<close>), bytes and bits.
  \<^item> \<open>Machine\<close>: memory, the DMA heap, the log of everything that crossed a pin, and the environment.
  \<^item> \<open>Spi_Bus_Lock\<close> (\<open>esp_hw_support/spi_bus_lock.c\<close>): the status word, each operation on it, and the
    step relation \<open>bus_step\<close> of the device tasks that compete for the bus.
  \<^item> \<open>Spi_Timing\<close> (\<open>hal/esp32s3/include/hal/spi_ll.h\<close>, \<open>hal/spi_hal_iram.c\<close>, \<open>spi_common.c\<close>): the clock
    dividers and the DMA descriptor chains.
  \<^item> \<open>Spi_Master\<close> (\<open>spi_master.c\<close>): validation of a transaction, DMA buffers, polling transmission.
    \<open>Spi_Setup\<close>: \<open>spi_bus_initialize\<close>, \<open>spi_bus_add_device\<close>, their counterparts and error paths.
  \<^item> \<open>Spi_Background\<close> (\<open>spi_master.c\<close>, \<open>spi_bus_lock.c\<close>): queued transfers, with the interrupt handler, the queues and the
    device tasks as steps; \<open>Spi_Background_Types\<close> and \<open>Spi_Background_Safety\<close>: what holds in every state they reach.
  \<^item> Segmented transfers: \<open>Spi_Conf_Buffer\<close> (\<open>spi_ll.h\<close>, \<open>spi_hal_iram.c\<close>), the register image of a segment;
    \<open>Spi_Ring\<close> (\<open>spi_master.c\<close>), the rings of DMA descriptors; \<open>Spi_Segments\<close> (\<open>spi_master.c\<close>), queueing, the handler and
    switching the mode; \<open>Spi_Segments_Chain\<close>, \<open>Spi_Segments_Queue\<close>, \<open>Spi_Segments_Safety\<close>: what a call does to
    the ring and to memory, and what holds while transactions come and go.
  \<^item> \<open>Spi_Registers\<close> (\<open>spi_ll.h\<close>, \<open>soc/spi_struct.h\<close>): the register file of the peripheral, its fields and the functions that set them.
    \<open>Spi_Hal\<close> (\<open>hal/spi_hal.c\<close>, \<open>hal/spi_hal_iram.c\<close>): setting up a device and a transaction. \<open>Spi_Driver_Regs\<close> (\<open>spi_master.c\<close>): which
    of these the driver calls when.
  \<^item> \<open>RA8875_Io\<close> (\<open>io.c\<close>): commands, data, blocks and registers of the panel; \<open>Panel\<close>: the abstract
    panel, that is registers and figures, and what an operation means to it; \<open>RA8875_Core\<close> (\<open>core.c\<close>,
    \<open>helper.c\<close>), \<open>RA8875_Drawing\<close> (\<open>drawing.c\<close>), \<open>RA8875_Bte\<close> (\<open>bte.c\<close>), \<open>RA8875_Init\<close> (\<open>RA8875_init\<close>).
  \<^item> \<open>Gpio\<close> (\<open>esp_driver_gpio/src/gpio.c\<close>, \<open>rtc_io.c\<close>, \<open>hal/gpio_hal.c\<close>, \<open>gpio_ll.h\<close>): pads and the interrupt service; \<open>Gpio_Sleep\<close>: the rest
    of these files. \<open>Spi_Pins\<close> (\<open>spi_common.c\<close>, \<open>soc/esp32s3/spi_periph.c\<close>): routing the pins of a bus and giving them back.
  \<^item> \<open>Canvas\<close>: what the display relies on of the panel; \<open>Font\<close> (\<open>comicsans_font.h\<close>, \<open>Display_BlitGlyph\<close>,
    \<open>Display_PrecomputeGlyphs\<close>); \<open>Format\<close>: \<open>snprintf\<close> with the formats that \<open>display.c\<close> uses; \<open>Display\<close>,
    \<open>Screens\<close>, \<open>Display_Start\<close> (the rest of \<open>display.c\<close>); \<open>Layout\<close>: where the screens lie.
  \<^item> \<open>Controller\<close> (\<open>controller.c\<close>) and \<open>Main_Loop\<close> (\<open>main.c\<close>).

  \<^bold>\<open>State.\<close> One record per layer, each extending the one below: \<open>machine\<close> (memory, heap, log),
  \<open>spi_machine\<close> (the host and its devices), \<open>board\<close> (the GPIO driver), \<open>display\<close> (the static variables of
  \<open>display.c\<close>) and \<open>firmware\<close> (those of \<open>controller.c\<close>); \<open>sct_machine\<close> extends \<open>spi_machine\<close> by the rings and the queues of
  segmented transfers, and \<open>hal_machine\<close> by the register file and the configurations of the devices. The GPIO driver has a record per pad
  (IO MUX, matrix output, RTC pad) and the matrix inputs by signal. The states of the step relations on the bus (\<open>bus_system\<close>, \<open>bg_system\<close>) stand beside these. A function of a layer is polymorphic in what
  is added above it, so a lemma of a layer is used in all layers above without change. What crosses
  the pins is kept as a log of events; the panel is the reading \<open>panel_of\<close> of that log, so that a theorem on
  what is drawn is a theorem on the bytes sent.

  \<^bold>\<open>The environment.\<close> The record \<open>env\<close> holds what the modelled code only calls: the bytes that the slave
  clocks back, the addresses of DMA allocations, the levels of input pins, and what the named set-up
  steps outside the model return. All but the last are functions of the log so far. No operation changes the
  environment, and the theorems hold for every environment that meets their hypotheses; these are
  collected in predicates such as \<open>port_ready\<close> (an idle host with the device registered, and a peripheral that raises its done
  bit) and \<open>display_ready\<close>, which every operation is proved to keep. The two functions of the ROM that connect a signal in the GPIO
  matrix are the parameter \<open>rom\<close> of \<open>Spi_Pins\<close>; \<open>rom_connects\<close> states what \<open>esp_rom_gpio.h\<close> documents of them.

  \<^bold>\<open>Loops and budgets.\<close> A loop of the code that has a bound is structural recursion on its counter (the
  1000 polls of \<open>RA8875_bte_move\<close>, the 63 counters of the clock search). A loop that waits for the
  hardware runs on \<open>poll_budget\<close>, which is a number of the environment and not of the code; when it is used up the outcome
  is \<open>Blocked\<close>. Theorems that such a loop returns name the poll at which the hardware answers and ask
  only that the budget is not smaller. The wait for the register update (\<open>wait_update\<close>) has no bound in the code and is a partial function: it
  ends when there is a poll at which the peripheral has cleared the bit. \<open>app_main\<close> itself does not end and is a step relation.

  \<^bold>\<open>Interleaving.\<close> \<open>app_reachable\<close> interleaves the steps of the main loop with interrupts of the buttons. A
  call of the display is one step: the handlers change only the flags and the times of \<open>controller.c\<close> and
  the interrupt status of the GPIO driver, none of which a display call reads or writes. The test of a flag
  and its clearing are separate steps, since an interrupt between them matters. \<open>bus_step\<close> interleaves
  the device tasks on the bus lock call by call, \<open>bg_step\<close> these tasks with the interrupt handler at the granularity
  of the atomic operations on the status word, on one core or two. \<open>sct_step\<close> and
  \<open>hal_step\<close> take a call of the driver as one step.

  \<^bold>\<open>Interfaces.\<close> \<open>register_port\<close> (the operations of \<open>io.c\<close> that the rest of the panel driver calls, a contract of
  bytes on the wire), interpreted on the SPI driver in \<open>RA8875_Io\<close>; \<open>effects\<close>, which it extends and which the canvas and
  the display also interpret; \<open>debounced_button\<close>, interpreted for both buttons; \<open>ring_segments\<close>, what
  the two sides of a segmented transfer promise of the ring, interpreted for sending and for receiving.

  \<^bold>\<open>What the lemmas show.\<close>
  \<^item> \<open>Main_Loop\<close>, \<open>Controller\<close>: the firmware never stops after a good start, refines an abstract machine on
    the screens, loses no press, and debounces the buttons.
  \<^item> \<open>Display\<close>, \<open>Screens\<close>, \<open>Display_Start\<close>, \<open>Layout\<close>, \<open>Font\<close>, \<open>Format\<close>: each screen asks the panel for exactly its
    layout; which of its drawings reach beyond the panel and which of its texts overlap; glyphs are drawn bit by bit;
    numbers are shown rounded, and what is read where they are cut. \<open>RA8875_Bte\<close>: an image goes out in blocks of 512 bytes.
  \<^item> \<open>RA8875_Io\<close> to \<open>RA8875_Init\<close>: each call asks the panel for what its arguments say. The locale
    \<open>register_port\<close> is the interface of \<open>io.c\<close>, interpreted on the SPI driver.
  \<^item> \<open>Spi_Bus_Lock\<close>: mutual exclusion, no lost wake-up, hand-over in the order of slots. \<open>Spi_Timing\<close>:
    the clock found is a best one; a descriptor chain covers its buffer. \<open>Spi_Master\<close>, \<open>Spi_Setup\<close>: transfers
    send what they are given; error paths undo what was done, or what they leave behind.
  \<^item> \<open>Spi_Registers\<close>, \<open>Spi_Hal\<close>, \<open>Spi_Driver_Regs\<close>: before a transaction starts, the registers say just this transaction and the configuration of
    its device; nothing is left of the device before, except after a switch of the mode; a segment and an ordinary transaction with the
    same phases are the same to the peripheral.
  \<^item> \<open>Spi_Background_Safety\<close>: queued and polling transfers exclude each other, requests are not lost, the handler ends, the
    transactions of a device are sent in the order they are queued and each once; and the two ways out of it, a bus
    released too early and a late request from another core.
    \<open>Spi_Segments_Safety\<close>: the chain of a transaction stays what it was queued as, as long as transactions end in
    order; a read after a write, an overtaking transaction and a failed call are the cases where the driver goes wrong.
  \<^item> \<open>Gpio\<close>, \<open>Gpio_Sleep\<close>: configuration of exactly the chosen pads; the interrupt service ends and runs each handler once; what
    is set is what is reported. \<open>Spi_Pins\<close>: the pins of a bus are wired as an independent table of the signals says
    and the pads of other pins are untouched;
    the lines that are not given back.

  \<^bold>\<open>Not modelled.\<close> The textual dump of pads; the callbacks of a device and power management; the SPI slave, and what the
  peripheral does with its registers beyond reading them; caches (internal memory is not cached on this chip); the scheduler: a
  delay is an event of the log; what a GPIO handler does to the GPIO driver while the interrupt service runs. The firmware itself uses polling transfers on the third SPI host
  only; queued and segmented transfers are modelled as parts of the driver. What the RA8875 chip does with its registers is not
  part of the repository: the figures are what it is asked for. Boot, heap, FreeRTOS and the rest of the vendored
  ESP-IDF are not modelled, nor code for other chips.
\<close>

end
